(* ===== verification/Go_Base.thy ===== *)
theory Go_Base
  imports Main "HOL-Library.Char_ord" "HOL-Library.List_Lexorder" "HOL-Library.Multiset"
    "HOL-Library.AList"
begin

text \<open>
  The prelude of the development: the parts of the Go language and its standard library that
  every component uses.  A Go string and a byte slice are both byte sequences, so both are
  \<open>string\<close> (a \<open>char\<close> is one byte, and the order on strings is Go's bytewise
  order).  An error return is the left side of a sum.  A Go map is an association list with
  distinct keys: the list order stands for the (unspecified) iteration order, and the theorems
  about loops over maps hold for every such order.  The \<open>strings\<close> and \<open>sort\<close>
  functions follow the standard library.
\<close>

type_synonym bytes = string
type_synonym ('k, 'v) gomap = "('k \<times> 'v) list"

text \<open>The files of the disk that a component works on, by path.\<close>

type_synonym disk = "(string, bytes) gomap"

named_theorems go_string \<open>facts about the strings package\<close>
named_theorems go_path \<open>facts about the path package\<close>

section \<open>Results\<close>

definition result_bind :: "'e + 'a \<Rightarrow> ('a \<Rightarrow> 'e + 'b) \<Rightarrow> 'e + 'b" where
  "result_bind r f = (case r of Inl e \<Rightarrow> Inl e | Inr x \<Rightarrow> f x)"

lemma result_bind_simps [simp]:
  "result_bind (Inl e) f = Inl e"
  "result_bind (Inr x) f = f x"
  by (simp_all add: result_bind_def)

lemma result_bind_Inr [simp]:
  "result_bind r f = Inr y \<longleftrightarrow> (\<exists>x. r = Inr x \<and> f x = Inr y)"
  by (cases r) simp_all

lemma result_bind_Inl:
  "result_bind r f = Inl e \<longleftrightarrow> r = Inl e \<or> (\<exists>x. r = Inr x \<and> f x = Inl e)"
  by (cases r) simp_all

definition is_ok :: "'e + 'a \<Rightarrow> bool" where
  "is_ok r = (case r of Inl _ \<Rightarrow> False | Inr _ \<Rightarrow> True)"

lemma is_ok_simps [simp]: "is_ok (Inl e) = False" "is_ok (Inr x) = True"
  by (simp_all add: is_ok_def)

lemma is_ok_iff: "is_ok r \<longleftrightarrow> (\<exists>x. r = Inr x)"
  by (cases r) simp_all

text \<open>A loop that runs a fallible body on each element and stops at the first error.\<close>

fun result_map :: "('a \<Rightarrow> 'e + 'b) \<Rightarrow> 'a list \<Rightarrow> 'e + 'b list" where
  "result_map f [] = Inr []"
| "result_map f (x # xs) =
     result_bind (f x) (\<lambda>y. result_bind (result_map f xs) (\<lambda>ys. Inr (y # ys)))"

lemma result_map_Inr:
  "result_map f xs = Inr ys \<longleftrightarrow> list_all2 (\<lambda>x y. f x = Inr y) xs ys"
  by (induction xs arbitrary: ys) (auto simp: list_all2_Cons1)

fun result_fold :: "('a \<Rightarrow> 's \<Rightarrow> 'e + 's) \<Rightarrow> 'a list \<Rightarrow> 's \<Rightarrow> 'e + 's" where
  "result_fold f [] s = Inr s"
| "result_fold f (x # xs) s = result_bind (f x s) (result_fold f xs)"

lemma result_fold_invariant:
  assumes "result_fold f xs s = Inr t" and "P s"
    and "\<And>x s s'. x \<in> set xs \<Longrightarrow> P s \<Longrightarrow> f x s = Inr s' \<Longrightarrow> P s'"
  shows "P t"
  using assms by (induction xs arbitrary: s) auto

section \<open>Maps\<close>

definition map_keys :: "('k, 'v) gomap \<Rightarrow> 'k list" where
  "map_keys m = map fst m"

definition gomap_ok :: "('k, 'v) gomap \<Rightarrow> bool" where
  "gomap_ok m = distinct (map fst m)"

lemma gomap_ok_Nil [simp]: "gomap_ok []"
  by (simp add: gomap_ok_def)

lemma gomap_ok_update [simp]: "gomap_ok m \<Longrightarrow> gomap_ok (AList.update k v m)"
  by (simp add: gomap_ok_def distinct_update)

lemma gomap_ok_delete [simp]: "gomap_ok m \<Longrightarrow> gomap_ok (AList.delete k m)"
  by (simp add: gomap_ok_def distinct_delete)

lemma map_of_update [simp]: "map_of (AList.update k v m) = (map_of m)(k \<mapsto> v)"
  by (rule update_conv')

lemma map_of_delete [simp]: "map_of (AList.delete k m) = (map_of m)(k := None)"
  by (rule delete_conv')

lemma gomap_in_set_iff: "gomap_ok m \<Longrightarrow> (k, v) \<in> set m \<longleftrightarrow> map_of m k = Some v"
  by (simp add: gomap_ok_def)

lemma set_map_keys: "set (map_keys m) = dom (map_of m)"
  by (simp add: map_keys_def dom_map_of_conv_image_fst)

lemma gomap_ok_keys: "gomap_ok m \<longleftrightarrow> distinct (map_keys m)"
  by (simp add: gomap_ok_def map_keys_def)

section \<open>Sorting\<close>

text \<open>
  \<open>sort.Slice\<close> with a \<open>less\<close> function: the library's insertion sort (what it runs
  on short slices), which moves each element left past the sorted prefix while it is less than
  its neighbour; the prefix is kept reversed here.  Where the keys are distinct and totally
  ordered the result does not depend on the algorithm (\<open>go_sort_unique\<close>).
\<close>

fun go_insert :: "('a \<Rightarrow> 'a \<Rightarrow> bool) \<Rightarrow> 'a \<Rightarrow> 'a list \<Rightarrow> 'a list" where
  "go_insert lt x [] = [x]"
| "go_insert lt x (r # rs) = (if lt x r then r # go_insert lt x rs else x # r # rs)"

definition go_sort :: "('a \<Rightarrow> 'a \<Rightarrow> bool) \<Rightarrow> 'a list \<Rightarrow> 'a list" where
  "go_sort lt xs = rev (fold (go_insert lt) xs [])"

lemma mset_go_insert [simp]: "mset (go_insert lt x xs) = add_mset x (mset xs)"
  by (induction xs) auto

lemma mset_fold_go_insert: "mset (fold (go_insert lt) xs acc) = mset xs + mset acc"
  by (induction xs arbitrary: acc) auto

lemma mset_go_sort [simp]: "mset (go_sort lt xs) = mset xs"
  by (simp add: go_sort_def mset_fold_go_insert)

lemma set_go_insert [simp]: "set (go_insert lt x xs) = insert x (set xs)"
  by (induction xs) auto

lemma set_go_sort [simp]: "set (go_sort lt xs) = set xs"
  using mset_go_sort[of lt xs] mset_eq_setD by blast

lemma length_go_sort [simp]: "length (go_sort lt xs) = length xs"
  using mset_go_sort[of lt xs] mset_eq_length by blast

lemma distinct_go_sort [simp]: "distinct (go_sort lt xs) = distinct xs"
  using mset_go_sort[of lt xs] mset_eq_imp_distinct_iff by blast

text \<open>A strict weak order on the elements: asymmetric, and "not less" is transitive.\<close>

definition weak_order_on :: "'a set \<Rightarrow> ('a \<Rightarrow> 'a \<Rightarrow> bool) \<Rightarrow> bool" where
  "weak_order_on A lt \<longleftrightarrow>
     (\<forall>x\<in>A. \<forall>y\<in>A. lt x y \<longrightarrow> \<not> lt y x) \<and>
     (\<forall>x\<in>A. \<forall>y\<in>A. \<forall>z\<in>A. \<not> lt x y \<longrightarrow> \<not> lt y z \<longrightarrow> \<not> lt x z)"

lemma weak_order_on_subset: "weak_order_on A lt \<Longrightarrow> B \<subseteq> A \<Longrightarrow> weak_order_on B lt"
  unfolding weak_order_on_def by (meson subsetD)

lemma weak_order_asym: "weak_order_on A lt \<Longrightarrow> x \<in> A \<Longrightarrow> y \<in> A \<Longrightarrow> lt x y \<Longrightarrow> \<not> lt y x"
  unfolding weak_order_on_def by blast

lemma weak_order_ntrans:
  "weak_order_on A lt \<Longrightarrow> x \<in> A \<Longrightarrow> y \<in> A \<Longrightarrow> z \<in> A \<Longrightarrow> \<not> lt x y \<Longrightarrow> \<not> lt y z \<Longrightarrow> \<not> lt x z"
  unfolding weak_order_on_def by blast

lemma sorted_go_insert:
  assumes "weak_order_on (insert x (set rs)) lt" "sorted_wrt (\<lambda>a b. \<not> lt a b) rs"
  shows "sorted_wrt (\<lambda>a b. \<not> lt a b) (go_insert lt x rs)"
  using assms
proof (induction rs)
  case (Cons r rs)
  have W: "weak_order_on (insert x (set (r # rs))) lt" by (rule Cons.prems(1))
  have ins: "sorted_wrt (\<lambda>a b. \<not> lt a b) (go_insert lt x rs)"
    using Cons.prems by (intro Cons.IH weak_order_on_subset[OF W]) auto
  have asym: "\<not> lt r x" if "lt x r"
    by (rule weak_order_asym[OF W _ _ that]) simp_all
  have "\<not> lt x z" if "z \<in> set rs" "\<not> lt x r" for z
    by (rule weak_order_ntrans[OF W, of x r z]) (use that Cons.prems(2) in simp_all)
  with ins asym show ?case
    using Cons.prems(2) by simp
qed simp

lemma sorted_fold_go_insert:
  assumes "weak_order_on (set xs \<union> set acc) lt" "sorted_wrt (\<lambda>a b. \<not> lt a b) acc"
  shows "sorted_wrt (\<lambda>a b. \<not> lt a b) (fold (go_insert lt) xs acc)"
  using assms
proof (induction xs arbitrary: acc)
  case (Cons x xs)
  have "sorted_wrt (\<lambda>a b. \<not> lt a b) (go_insert lt x acc)"
    using Cons.prems by (intro sorted_go_insert) (auto elim: weak_order_on_subset)
  then show ?case
    using Cons.prems by (auto intro!: Cons.IH elim: weak_order_on_subset)
qed simp

theorem sorted_go_sort:
  "weak_order_on (set xs) lt \<Longrightarrow> sorted_wrt (\<lambda>a b. \<not> lt b a) (go_sort lt xs)"
  using sorted_fold_go_insert[of xs "[]" lt] by (simp add: go_sort_def sorted_wrt_rev)

lemma weak_order_key [simp]: "weak_order_on A (\<lambda>x y. f x < (f y :: 'b::linorder))"
  by (auto simp: weak_order_on_def)

lemma weak_order_key_desc [simp]: "weak_order_on A (\<lambda>x y. f y < (f x :: 'b::linorder))"
  by (auto simp: weak_order_on_def)

lemma weak_order_on_cong:
  assumes "weak_order_on A lt'" "\<And>x y. x \<in> A \<Longrightarrow> y \<in> A \<Longrightarrow> lt x y = lt' x y"
  shows "weak_order_on A lt"
  using assms unfolding weak_order_on_def by metis

lemma sorted_map_go_sort_key:
  fixes f :: "'a \<Rightarrow> 'b::linorder"
  shows "sorted (map f (go_sort (\<lambda>x y. f x < f y) xs))"
  using sorted_go_sort[OF weak_order_key, of f xs] by (simp add: sorted_map not_less)

text \<open>Any sorted arrangement of the same elements is the same list when keys are distinct.\<close>

theorem go_sort_unique:
  fixes f :: "'a \<Rightarrow> 'b::linorder"
  assumes "mset ys = mset xs" "sorted (map f ys)" "inj_on f (set xs)"
  shows "ys = go_sort (\<lambda>x y. f x < f y) xs"
proof -
  let ?zs = "go_sort (\<lambda>x y. f x < f y) xs"
  have "mset (map f ys) = mset (map f ?zs)"
    using assms(1) by simp
  then have "map f ys = map f ?zs"
    using assms(2) sorted_map_go_sort_key[of f xs] by (metis properties_for_sort sorted_sort_id)
  moreover have "set ys = set xs" "set ?zs = set xs"
    using assms(1) mset_eq_setD by (blast, simp)
  ultimately show ?thesis
    using assms(3) by (simp add: inj_on_map_eq_map)
qed

text \<open>\<open>sort.Strings\<close>.\<close>

definition sort_strings :: "string list \<Rightarrow> string list" where
  "sort_strings xs = go_sort (<) xs"

lemma sort_strings_eq: "sort_strings xs = sort xs"
proof -
  have "sorted (sort_strings xs)" "mset (sort_strings xs) = mset xs"
    using sorted_map_go_sort_key[of "\<lambda>x. x" xs] by (simp_all add: sort_strings_def)
  then show ?thesis
    by (metis properties_for_sort)
qed

lemma set_sort_strings [simp]: "set (sort_strings xs) = set xs"
  by (simp add: sort_strings_def)

end
