(* ===== verification/Go_Strings.thy ===== *)
theory Go_Strings
  imports Go_Base
begin

text \<open>
  The \<open>strings\<close> package and the rune view of a string: \<open>Split\<close>,
  \<open>Join\<close>, \<open>IndexByte\<close>, the prefix and suffix functions, ASCII case folding and
  trimming, and the UTF-8 decoding that a \<open>for range\<close> loop over a string performs.
\<close>

section \<open>Prefixes, suffixes, substrings\<close>

definition HasPrefix :: "string \<Rightarrow> string \<Rightarrow> bool" where
  "HasPrefix s p = (take (length p) s = p)"

definition HasSuffix :: "string \<Rightarrow> string \<Rightarrow> bool" where
  "HasSuffix s p = (length p \<le> length s \<and> drop (length s - length p) s = p)"

definition TrimPrefix :: "string \<Rightarrow> string \<Rightarrow> string" where
  "TrimPrefix s p = (if HasPrefix s p then drop (length p) s else s)"

definition TrimSuffix :: "string \<Rightarrow> string \<Rightarrow> string" where
  "TrimSuffix s p = (if HasSuffix s p then take (length s - length p) s else s)"

lemma HasPrefix_iff [go_string]: "HasPrefix s p \<longleftrightarrow> (\<exists>r. s = p @ r)"
  unfolding HasPrefix_def by (metis append_eq_conv_conj append_take_drop_id)

lemma HasPrefix_append [simp]: "HasPrefix (p @ r) p"
  by (simp add: HasPrefix_def)

lemma HasSuffix_iff [go_string]: "HasSuffix s p \<longleftrightarrow> (\<exists>r. s = r @ p)"
  unfolding HasSuffix_def by (metis append_eq_conv_conj append_take_drop_id diff_add_inverse2
      le_add2 length_append)

lemma HasSuffix_append [simp]: "HasSuffix (r @ p) p"
  by (simp add: HasSuffix_def)

lemma TrimPrefix_append [simp]: "TrimPrefix (p @ r) p = r"
  by (simp add: TrimPrefix_def)

lemma TrimSuffix_append [simp]: "TrimSuffix (r @ p) p = r"
  by (simp add: TrimSuffix_def)

text \<open>\<open>strings.Contains\<close>: some position starts a copy of the substring.\<close>

fun Contains :: "string \<Rightarrow> string \<Rightarrow> bool" where
  "Contains [] sub = (sub = [])"
| "Contains (c # s) sub = (HasPrefix (c # s) sub \<or> Contains s sub)"

lemma Contains_iff: "Contains s sub \<longleftrightarrow> (\<exists>l r. s = l @ sub @ r)"
proof (induction s)
  case (Cons c s)
  have "(\<exists>l r. c # s = l @ sub @ r) \<longleftrightarrow>
      (\<exists>r. c # s = sub @ r) \<or> (\<exists>l r. s = l @ sub @ r)" (is "?L \<longleftrightarrow> ?R1 \<or> ?R2")
  proof
    assume ?L
    then obtain l r where "c # s = l @ sub @ r" by blast
    then show "?R1 \<or> ?R2" by (cases l) auto
  next
    assume "?R1 \<or> ?R2"
    then obtain l r where "c # s = l @ sub @ r"
      by (elim disjE exE) (rule that[of "[]"], simp, rule that[of "c # _"], simp)
    then show ?L by blast
  qed
  then show ?case using Cons.IH by (simp add: HasPrefix_iff)
qed simp

lemma Contains_char: "Contains s [c] \<longleftrightarrow> c \<in> set s"
  by (auto simp: Contains_iff in_set_conv_decomp)

section \<open>Splitting and joining\<close>

text \<open>\<open>strings.Split\<close> with a one-byte separator.\<close>

fun Split :: "char \<Rightarrow> string \<Rightarrow> string list" where
  "Split c [] = [[]]"
| "Split c (x # xs) =
     (if x = c then [] # Split c xs
      else (case Split c xs of [] \<Rightarrow> [[x]] | w # ws \<Rightarrow> (x # w) # ws))"

fun Join :: "string \<Rightarrow> string list \<Rightarrow> string" where
  "Join sep [] = []"
| "Join sep [w] = w"
| "Join sep (w # v # ws) = w @ sep @ Join sep (v # ws)"

lemma Split_nonempty [simp]: "Split c s \<noteq> []" "[] \<noteq> Split c s"
  by (induction s) (auto split: list.splits)

lemma Join_Cons: "ws \<noteq> [] \<Longrightarrow> Join sep (w # ws) = w @ sep @ Join sep ws"
  by (cases ws) simp_all

theorem Join_Split: "Join [c] (Split c s) = s"
proof (induction s)
  case (Cons x xs)
  obtain w ws where "Split c xs = w # ws" by (cases "Split c xs") auto
  with Cons show ?case by (cases ws) (auto simp: Join_Cons)
qed simp

lemma Split_parts_free: "w \<in> set (Split c s) \<Longrightarrow> c \<notin> set w"
proof (induction s arbitrary: w)
  case (Cons x xs)
  obtain v vs where "Split c xs = v # vs" by (cases "Split c xs") auto
  with Cons show ?case by (auto split: if_splits)
qed simp

lemma Split_free: "c \<notin> set s \<Longrightarrow> Split c s = [s]"
  by (induction s) auto

lemma Split_append_sep: "c \<notin> set w \<Longrightarrow> Split c (w @ c # s) = w # Split c s"
  by (induction w) auto

theorem Split_Join:
  "ws \<noteq> [] \<Longrightarrow> \<forall>w\<in>set ws. c \<notin> set w \<Longrightarrow> Split c (Join [c] ws) = ws"
proof (induction ws rule: induct_list012)
  case (3 w v vs)
  then show ?case by (simp add: Split_append_sep)
qed (simp_all add: Split_free)

lemma set_Join_Split: "\<Union> (set (map set (Split c s))) \<subseteq> set s"
proof (induction s)
  case (Cons x xs)
  obtain v vs where "Split c xs = v # vs" by (cases "Split c xs") auto
  with Cons show ?case by auto
qed simp

lemma Split_part_subset: "w \<in> set (Split c s) \<Longrightarrow> set w \<subseteq> set s"
  using set_Join_Split by (metis UN_upper image_set le_supE subset_trans sup.orderE)

lemma length_Split: "length (Split c s) = Suc (count_list s c)"
proof (induction s)
  case (Cons x xs)
  obtain v vs where "Split c xs = v # vs" by (cases "Split c xs") auto
  with Cons show ?case by auto
qed simp

section \<open>IndexByte\<close>

fun IndexByte :: "string \<Rightarrow> char \<Rightarrow> nat option" where
  "IndexByte [] c = None"
| "IndexByte (x # xs) c = (if x = c then Some 0 else map_option Suc (IndexByte xs c))"

lemma IndexByte_None: "IndexByte s c = None \<longleftrightarrow> c \<notin> set s"
  by (induction s) auto

lemma IndexByte_Some:
  "IndexByte s c = Some i \<longleftrightarrow>
     i < length s \<and> s ! i = c \<and> c \<notin> set (take i s)"
proof (induction s arbitrary: i)
  case (Cons x xs)
  then show ?case by (cases i) (auto simp: image_iff)
qed simp

lemma IndexByte_Some_split:
  "IndexByte s c = Some i \<Longrightarrow> s = take i s @ c # drop (Suc i) s \<and> c \<notin> set (take i s)"
  by (auto simp: IndexByte_Some id_take_nth_drop)

lemma IndexByte_append: "c \<notin> set w \<Longrightarrow> IndexByte (w @ c # s) c = Some (length w)"
  by (induction w) auto

section \<open>Case folding and trimming\<close>

definition byte_of :: "char \<Rightarrow> nat" where "byte_of c = of_char c"

definition is_digit :: "char \<Rightarrow> bool" where
  "is_digit c = (48 \<le> byte_of c \<and> byte_of c \<le> 57)"

definition is_lower :: "char \<Rightarrow> bool" where
  "is_lower c = (97 \<le> byte_of c \<and> byte_of c \<le> 122)"

definition is_upper :: "char \<Rightarrow> bool" where
  "is_upper c = (65 \<le> byte_of c \<and> byte_of c \<le> 90)"

definition is_alnum :: "char \<Rightarrow> bool" where
  "is_alnum c = (is_digit c \<or> is_lower c \<or> is_upper c)"

definition is_hex :: "char \<Rightarrow> bool" where
  "is_hex c = (is_digit c \<or> (97 \<le> byte_of c \<and> byte_of c \<le> 102)
                 \<or> (65 \<le> byte_of c \<and> byte_of c \<le> 70))"

definition lower_char :: "char \<Rightarrow> char" where
  "lower_char c = (if is_upper c then char_of (byte_of c + 32) else c)"

definition upper_char :: "char \<Rightarrow> char" where
  "upper_char c = (if is_lower c then char_of (byte_of c - 32) else c)"

text \<open>\<open>strings.ToLower\<close>, \<open>ToUpper\<close> and \<open>EqualFold\<close> on ASCII strings.\<close>

definition ToLower :: "string \<Rightarrow> string" where "ToLower s = map lower_char s"
definition ToUpper :: "string \<Rightarrow> string" where "ToUpper s = map upper_char s"

definition EqualFold :: "string \<Rightarrow> string \<Rightarrow> bool" where
  "EqualFold s t = (ToLower s = ToLower t)"

lemma byte_of_lt: "byte_of c < 256"
  by (simp add: byte_of_def)

lemma lower_char_idem [simp]: "lower_char (lower_char c) = lower_char c"
  by (simp add: lower_char_def is_upper_def byte_of_def)

lemma ToLower_idem [simp]: "ToLower (ToLower s) = ToLower s"
  by (simp add: ToLower_def)

lemma length_ToLower [simp]: "length (ToLower s) = length s"
  by (simp add: ToLower_def)

lemma EqualFold_refl [simp]: "EqualFold s s"
  by (simp add: EqualFold_def)

lemma EqualFold_sym: "EqualFold s t \<Longrightarrow> EqualFold t s"
  by (simp add: EqualFold_def)

lemma EqualFold_trans: "EqualFold s t \<Longrightarrow> EqualFold t u \<Longrightarrow> EqualFold s u"
  by (simp add: EqualFold_def)

definition is_space :: "char \<Rightarrow> bool" where
  "is_space c = (byte_of c \<in> {9, 10, 11, 12, 13, 32})"

definition TrimFunc :: "('a \<Rightarrow> bool) \<Rightarrow> 'a list \<Rightarrow> 'a list" where
  "TrimFunc p s = rev (dropWhile p (rev (dropWhile p s)))"

text \<open>\<open>strings.TrimSpace\<close> on ASCII strings.\<close>

definition TrimSpace :: "string \<Rightarrow> string" where
  "TrimSpace s = TrimFunc is_space s"

lemma TrimFunc_dropWhile:
  "dropWhile p s = TrimFunc p s @ rev (takeWhile p (rev (dropWhile p s)))"
proof -
  let ?d = "rev (dropWhile p s)"
  have "rev ?d = rev (takeWhile p ?d @ dropWhile p ?d)" by simp
  then show ?thesis unfolding TrimFunc_def by (simp only: rev_append rev_rev_ident)
qed

lemma TrimFunc_decomp:
  "\<exists>l r. s = l @ TrimFunc p s @ r \<and> (\<forall>c\<in>set l \<union> set r. p c)"
proof (intro exI conjI)
  show "s = takeWhile p s @ TrimFunc p s @ rev (takeWhile p (rev (dropWhile p s)))"
    using TrimFunc_dropWhile[of p s] takeWhile_dropWhile_id[of p s] by simp
  show "\<forall>c\<in>set (takeWhile p s) \<union> set (rev (takeWhile p (rev (dropWhile p s)))). p c"
    by (auto dest: set_takeWhileD)
qed

lemma TrimFunc_ends:
  assumes ne: "TrimFunc p s \<noteq> []"
  shows "\<not> p (hd (TrimFunc p s)) \<and> \<not> p (last (TrimFunc p s))"
proof
  have d: "hd (dropWhile p s) = hd (TrimFunc p s)" "dropWhile p s \<noteq> []"
    using ne TrimFunc_dropWhile[of p s] by (metis hd_append2, metis append_is_Nil_conv)
  then show "\<not> p (hd (TrimFunc p s))"
    using hd_dropWhile[of p s] by metis
  show "\<not> p (last (TrimFunc p s))"
    using ne hd_dropWhile[of p "rev (dropWhile p s)"] by (simp add: TrimFunc_def last_rev)
qed

lemma set_TrimFunc: "set (TrimFunc p s) \<subseteq> set s"
  unfolding TrimFunc_def by (auto dest!: set_dropWhileD)

section \<open>Numbers as text\<close>

text \<open>The decimal form \<open>%d\<close> prints.\<close>

fun nat_digits :: "nat \<Rightarrow> string" where
  "nat_digits n = (if n < 10 then [char_of (48 + n)]
                   else nat_digits (n div 10) @ [char_of (48 + n mod 10)])"

declare nat_digits.simps [simp del]

definition itoa :: "int \<Rightarrow> string" where
  "itoa i = (if i < 0 then CHR ''-'' # nat_digits (nat (- i)) else nat_digits (nat i))"

section \<open>Runes\<close>

text \<open>
  Decoding as a \<open>for range\<close> loop does it: the rune and its width in bytes; a byte that
  does not start a valid UTF-8 sequence gives the replacement rune and width one.
\<close>

definition cont_byte :: "nat \<Rightarrow> bool" where
  "cont_byte b = (128 \<le> b \<and> b \<le> 191)"

definition rune_error :: nat where "rune_error = 65533"

definition decode_rune :: "nat list \<Rightarrow> nat \<times> nat" where
  "decode_rune bs =
     (case bs of
        [] \<Rightarrow> (rune_error, 1)
      | b0 # r \<Rightarrow>
          if b0 < 128 then (b0, 1)
          else (case r of
              [] \<Rightarrow> (rune_error, 1)
            | b1 # r1 \<Rightarrow>
                if 194 \<le> b0 \<and> b0 \<le> 223 \<and> cont_byte b1
                then ((b0 - 192) * 64 + (b1 - 128), 2)
                else (case r1 of
                    [] \<Rightarrow> (rune_error, 1)
                  | b2 # r2 \<Rightarrow>
                      if 224 \<le> b0 \<and> b0 \<le> 239 \<and> cont_byte b1 \<and> cont_byte b2
                         \<and> (b0 = 224 \<longrightarrow> 160 \<le> b1) \<and> (b0 = 237 \<longrightarrow> b1 \<le> 159)
                      then ((b0 - 224) * 4096 + (b1 - 128) * 64 + (b2 - 128), 3)
                      else (case r2 of
                          [] \<Rightarrow> (rune_error, 1)
                        | b3 # _ \<Rightarrow>
                            if 240 \<le> b0 \<and> b0 \<le> 244 \<and> cont_byte b1 \<and> cont_byte b2 \<and> cont_byte b3
                               \<and> (b0 = 240 \<longrightarrow> 144 \<le> b1) \<and> (b0 = 244 \<longrightarrow> b1 \<le> 143)
                            then ((b0 - 240) * 262144 + (b1 - 128) * 4096 + (b2 - 128) * 64 + (b3 - 128), 4)
                            else (rune_error, 1)))))"

function runes_of_bytes :: "nat list \<Rightarrow> nat list" where
  "runes_of_bytes [] = []"
| "runes_of_bytes (b # bs) =
     (let (r, w) = decode_rune (b # bs) in r # runes_of_bytes (drop (w - 1) bs))"
  by pat_completeness auto
termination by (relation "measure length") auto

definition runes :: "string \<Rightarrow> nat list" where
  "runes s = runes_of_bytes (map byte_of s)"

lemma decode_rune_ascii [simp]: "b < 128 \<Longrightarrow> decode_rune (b # bs) = (b, 1)"
  by (simp add: decode_rune_def)

lemma runes_ascii: "\<forall>b\<in>set bs. b < 128 \<Longrightarrow> runes_of_bytes bs = bs"
  by (induction bs) simp_all

lemma decode_rune_high: "128 \<le> b \<Longrightarrow> 128 \<le> fst (decode_rune (b # bs))"
  by (auto simp: decode_rune_def rune_error_def cont_byte_def split: list.splits)

text \<open>A loop that accepts ASCII runes only accepts exactly the strings of such bytes.\<close>

lemma runes_all_ascii:
  assumes "\<And>r. P r \<Longrightarrow> r < 128"
  shows "(\<forall>r\<in>set (runes_of_bytes bs). P r) \<longleftrightarrow> (\<forall>b\<in>set bs. P b)"
proof (induction bs rule: runes_of_bytes.induct)
  case (2 b bs)
  show ?case
  proof (cases "b < 128")
    case True
    then show ?thesis using 2 by simp
  next
    case False
    then have "\<not> P (fst (decode_rune (b # bs)))" "\<not> P b"
      using decode_rune_high[of b bs] assms by fastforce+
    then show ?thesis by (auto simp: case_prod_beta)
  qed
qed simp

section \<open>A self-delimiting encoding\<close>

text \<open>An encoding of strings that can be read back from the front of a text, the basis of concrete codecs.\<close>

definition enc_str :: "string \<Rightarrow> string" where
  "enc_str s = concat (map (\<lambda>c. [CHR ''c'', c]) s) @ ''.''"

fun dec_str :: "string \<Rightarrow> string \<times> string" where
  "dec_str (x # y # r) = (if x = CHR ''c'' then map_prod ((#) y) id (dec_str r) else ([], y # r))"
| "dec_str [x] = ([], [])"
| "dec_str [] = ([], [])"

lemma dec_enc_str [simp]: "dec_str (enc_str s @ r) = (s, r)"
proof (induction s)
  case Nil
  then show ?case by (cases r) (simp_all add: enc_str_def)
qed (simp add: enc_str_def)

lemma enc_str_eq: "enc_str a @ x = enc_str b @ y \<longleftrightarrow> a = b \<and> x = y"
  by (metis dec_enc_str prod.inject)

end
