(* ===== verification/Go_Regex.thy ===== *)
theory Go_Regex
  imports Go_Strings
begin

text \<open>
  Anchored regular expressions.  The patterns of the source are written with the constructors
  below, one constructor per construct of the pattern, and matched by derivatives.
  \<open>rx_match_iff\<close> relates the matcher to the usual language semantics, and
  \<open>rx_match_chars\<close> bounds the bytes of a match, which is how the parsers know that
  their parts cannot contain each other's separators.
\<close>

datatype rx =
    RNone
  | REps
  | RChar "char \<Rightarrow> bool"
  | RSeq rx rx
  | RAlt rx rx
  | RStar rx

definition RLit :: "char \<Rightarrow> rx" where "RLit c = RChar (\<lambda>d. d = c)"
definition RPlus :: "rx \<Rightarrow> rx" where "RPlus r = RSeq r (RStar r)"
definition ROpt :: "rx \<Rightarrow> rx" where "ROpt r = RAlt REps r"

fun RRep :: "nat \<Rightarrow> rx \<Rightarrow> rx" where
  "RRep 0 r = REps"
| "RRep (Suc n) r = RSeq r (RRep n r)"

fun RStr :: "string \<Rightarrow> rx" where
  "RStr [] = REps"
| "RStr (c # cs) = RSeq (RLit c) (RStr cs)"

fun rx_null :: "rx \<Rightarrow> bool" where
  "rx_null RNone = False"
| "rx_null REps = True"
| "rx_null (RChar p) = False"
| "rx_null (RSeq r s) = (rx_null r \<and> rx_null s)"
| "rx_null (RAlt r s) = (rx_null r \<or> rx_null s)"
| "rx_null (RStar r) = True"

text \<open>Smart constructors that drop the empty language keep derivatives small.\<close>

fun seq' :: "rx \<Rightarrow> rx \<Rightarrow> rx" where
  "seq' RNone s = RNone"
| "seq' REps s = s"
| "seq' r s = RSeq r s"

fun alt' :: "rx \<Rightarrow> rx \<Rightarrow> rx" where
  "alt' RNone s = s"
| "alt' r RNone = r"
| "alt' r s = RAlt r s"

fun rx_deriv :: "char \<Rightarrow> rx \<Rightarrow> rx" where
  "rx_deriv c RNone = RNone"
| "rx_deriv c REps = RNone"
| "rx_deriv c (RChar p) = (if p c then REps else RNone)"
| "rx_deriv c (RSeq r s) =
     (if rx_null r then alt' (seq' (rx_deriv c r) s) (rx_deriv c s) else seq' (rx_deriv c r) s)"
| "rx_deriv c (RAlt r s) = alt' (rx_deriv c r) (rx_deriv c s)"
| "rx_deriv c (RStar r) = seq' (rx_deriv c r) (RStar r)"

fun rx_match :: "rx \<Rightarrow> string \<Rightarrow> bool" where
  "rx_match r [] = rx_null r"
| "rx_match r (c # cs) = rx_match (rx_deriv c r) cs"

inductive rx_lang :: "rx \<Rightarrow> string \<Rightarrow> bool" where
  eps: "rx_lang REps []"
| chr: "p c \<Longrightarrow> rx_lang (RChar p) [c]"
| seq: "rx_lang r u \<Longrightarrow> rx_lang s v \<Longrightarrow> rx_lang (RSeq r s) (u @ v)"
| altl: "rx_lang r u \<Longrightarrow> rx_lang (RAlt r s) u"
| altr: "rx_lang s u \<Longrightarrow> rx_lang (RAlt r s) u"
| star0: "rx_lang (RStar r) []"
| star: "rx_lang r u \<Longrightarrow> rx_lang (RStar r) v \<Longrightarrow> rx_lang (RStar r) (u @ v)"

inductive_simps rx_lang_simps [simp]:
  "rx_lang RNone u" "rx_lang REps u" "rx_lang (RChar p) u" "rx_lang (RSeq r s) u"
  "rx_lang (RAlt r s) u"

lemma rx_null_iff: "rx_null r \<longleftrightarrow> rx_lang r []"
  by (induction r) (auto intro: rx_lang.intros)

lemma rx_lang_seq' [simp]: "rx_lang (seq' r s) u = rx_lang (RSeq r s) u"
  by (cases r) auto

lemma rx_lang_alt' [simp]: "rx_lang (alt' r s) u = rx_lang (RAlt r s) u"
  by (cases r; cases s) auto

lemma rx_star_Cons:
  "rx_lang (RStar r) (c # u) \<longleftrightarrow> (\<exists>v w. u = v @ w \<and> rx_lang r (c # v) \<and> rx_lang (RStar r) w)"
proof
  have "\<exists>v w. u = v @ w \<and> rx_lang r (c # v) \<and> rx_lang (RStar r) w"
    if "rx_lang q x" "q = RStar r" "x = c # u" for q x
    using that by (induction arbitrary: u) (auto simp: append_eq_Cons_conv)
  then show "rx_lang (RStar r) (c # u) \<Longrightarrow>
      \<exists>v w. u = v @ w \<and> rx_lang r (c # v) \<and> rx_lang (RStar r) w"
    by blast
  show "\<exists>v w. u = v @ w \<and> rx_lang r (c # v) \<and> rx_lang (RStar r) w \<Longrightarrow> rx_lang (RStar r) (c # u)"
    using rx_lang.star[of r "c # _"] by auto
qed

lemma rx_lang_deriv: "rx_lang (rx_deriv c r) u \<longleftrightarrow> rx_lang r (c # u)"
proof (induction r arbitrary: u)
  case (RSeq r s)
  have "rx_lang (RSeq r s) (c # u) \<longleftrightarrow>
      (\<exists>v w. u = v @ w \<and> rx_lang r (c # v) \<and> rx_lang s w) \<or> (rx_lang r [] \<and> rx_lang s (c # u))"
    by (auto simp: Cons_eq_append_conv)
  then show ?case by (auto simp: RSeq.IH rx_null_iff)
next
  case (RStar r)
  then show ?case by (auto simp: rx_star_Cons)
qed auto

theorem rx_match_iff: "rx_match r u \<longleftrightarrow> rx_lang r u"
  by (induction u arbitrary: r) (simp_all add: rx_null_iff rx_lang_deriv)

section \<open>The bytes of a match\<close>

fun rx_alpha :: "rx \<Rightarrow> char \<Rightarrow> bool" where
  "rx_alpha (RChar p) c = p c"
| "rx_alpha (RSeq r s) c = (rx_alpha r c \<or> rx_alpha s c)"
| "rx_alpha (RAlt r s) c = (rx_alpha r c \<or> rx_alpha s c)"
| "rx_alpha (RStar r) c = rx_alpha r c"
| "rx_alpha _ c = False"

lemma rx_lang_chars: "rx_lang r u \<Longrightarrow> c \<in> set u \<Longrightarrow> rx_alpha r c"
  by (induction rule: rx_lang.induct) auto

theorem rx_match_chars: "rx_match r u \<Longrightarrow> c \<in> set u \<Longrightarrow> rx_alpha r c"
  by (simp add: rx_match_iff rx_lang_chars)

section \<open>Languages of the derived constructs\<close>

lemma rx_lang_RLit [simp]: "rx_lang (RLit c) u \<longleftrightarrow> u = [c]"
  by (auto simp: RLit_def)

lemma rx_lang_ROpt [simp]: "rx_lang (ROpt r) u \<longleftrightarrow> u = [] \<or> rx_lang r u"
  by (auto simp: ROpt_def)

lemma rx_lang_RStr [simp]: "rx_lang (RStr s) u \<longleftrightarrow> u = s"
  by (induction s arbitrary: u) auto

lemma rx_star_chars: "rx_lang (RStar (RChar p)) u \<longleftrightarrow> (\<forall>c\<in>set u. p c)"
proof (induction u)
  case (Cons c u)
  then show ?case by (auto simp: rx_star_Cons)
qed (auto intro: rx_lang.intros)

lemma rx_lang_RChar_seq:
  "rx_lang (RSeq (RChar p) r) u \<longleftrightarrow> (\<exists>c v. u = c # v \<and> p c \<and> rx_lang r v)"
proof
  assume "\<exists>c v. u = c # v \<and> p c \<and> rx_lang r v"
  then obtain c v where "u = [c] @ v" "rx_lang (RChar p) [c]" "rx_lang r v" by auto
  then show "rx_lang (RSeq (RChar p) r) u" by (simp only: rx_lang.seq)
qed auto

lemma rx_lang_RPlus_chars [simp]:
  "rx_lang (RPlus (RChar p)) u \<longleftrightarrow> u \<noteq> [] \<and> (\<forall>c\<in>set u. p c)"
  unfolding RPlus_def rx_lang_RChar_seq rx_star_chars by (cases u) auto

lemma rx_lang_RRep_chars [simp]:
  "rx_lang (RRep n (RChar p)) u \<longleftrightarrow> length u = n \<and> (\<forall>c\<in>set u. p c)"
proof (induction n arbitrary: u)
  case (Suc n)
  show ?case unfolding RRep.simps rx_lang_RChar_seq Suc.IH by (cases u) auto
qed auto

lemma rx_alpha_RRep: "rx_alpha (RRep n r) c \<Longrightarrow> rx_alpha r c"
  by (induction n) auto

lemma rx_alpha_RStr: "rx_alpha (RStr s) c \<longleftrightarrow> c \<in> set s"
  by (induction s) (auto simp: RLit_def)

text \<open>Words of a non-empty list, each accepted by a one-character class, joined by a separator.\<close>

lemma rx_sep_list:
  assumes "\<not> p sep"
  shows "rx_lang (RSeq (RPlus (RChar p)) (RStar (RSeq (RLit sep) (RPlus (RChar p))))) u \<longleftrightarrow>
    (\<forall>w\<in>set (Split sep u). w \<noteq> [] \<and> (\<forall>c\<in>set w. p c))"
    (is "?L u \<longleftrightarrow> ?R u")
proof
  let ?item = "RSeq (RLit sep) (RPlus (RChar p))"
  have star: "\<exists>ws. u = concat (map (\<lambda>w. sep # w) ws) \<and> (\<forall>w\<in>set ws. w \<noteq> [] \<and> (\<forall>c\<in>set w. p c))"
    if "rx_lang q u" "q = RStar ?item" for q u
    using that
  proof (induction)
    case (star r x v)
    then obtain w ws where "x = sep # w" "w \<noteq> []" "\<forall>c\<in>set w. p c"
      "v = concat (map (\<lambda>w. sep # w) ws)" "\<forall>w\<in>set ws. w \<noteq> [] \<and> (\<forall>c\<in>set w. p c)"
      by auto
    then show ?case by (intro exI[of _ "w # ws"]) auto
  qed auto
  have split: "Split sep (w @ concat (map (\<lambda>w. sep # w) ws)) = w # ws"
    if "\<forall>v\<in>set (w # ws). \<forall>c\<in>set v. p c" for w ws
    using that
  proof (induction ws arbitrary: w)
    case Nil
    then show ?case using assms by (auto intro!: Split_free)
  next
    case (Cons v vs)
    then have "sep \<notin> set w" using assms by auto
    then show ?case using Cons by (simp add: Split_append_sep)
  qed
  show "?L u \<Longrightarrow> ?R u"
    using star split by fastforce
next
  let ?item = "RSeq (RLit sep) (RPlus (RChar p))"
  have "rx_lang (RStar ?item) (concat (map (\<lambda>w. sep # w) ws))"
    if "\<forall>w\<in>set ws. w \<noteq> [] \<and> (\<forall>c\<in>set w. p c)" for ws
    using that
  proof (induction ws)
    case (Cons w ws)
    have "rx_lang ?item (sep # w)" using Cons.prems by auto
    from rx_lang.star[OF this] show ?case using Cons by simp
  qed (auto intro: rx_lang.star0)
  moreover have "Join [sep] (w # ws) = w @ concat (map (\<lambda>w. sep # w) ws)" for w ws
    by (induction ws arbitrary: w) (auto simp: Join_Cons)
  moreover obtain w ws where "Split sep u = w # ws" by (cases "Split sep u") auto
  moreover assume "?R u"
  ultimately have "u = w @ concat (map (\<lambda>w. sep # w) ws)"
    "rx_lang (RPlus (RChar p)) w" "rx_lang (RStar ?item) (concat (map (\<lambda>w. sep # w) ws))"
    using Join_Split[of sep u] by simp_all
  then show "?L u" by (simp only: rx_lang.seq)
qed

end
