(* ===== verification/Fqn.thy ===== *)
theory Fqn
  imports Go_Regex
begin

text \<open>
  Component \<open>tool/fqn.go\<close>: module paths, versions, tool paths and the two composite
  references built from them, a tool FQN \<open>module@version/tool\<close> and a package version
  \<open>module@version\<close>.  Each parser is translated branch by branch with its errors; the
  main facts are that parsing inverts printing and that a parse succeeds exactly on the printed
  form of valid parts.
\<close>

section \<open>Data\<close>

type_synonym ModulePath = string
type_synonym Version = string
type_synonym ToolPath = string

record ToolFQN =
  fqn_Module :: ModulePath
  fqn_Version :: Version
  fqn_Tool :: ToolPath

record PackageVer =
  pv_Module :: ModulePath
  pv_Version :: Version

datatype fqn_error =
    ModuleEmpty
  | ModuleNoPath string
  | ModuleHostNoDot string string
  | ModuleEmptySegment string
  | VersionEmpty
  | InvalidPseudoVersion string
  | InvalidVersion string
  | ToolPathEmpty
  | InvalidToolPath string
  | FqnMissingAt string
  | FqnMissingSlash string
  | PackageMissingAt string

section \<open>Patterns\<close>

definition rx_digit :: rx where "rx_digit = RChar is_digit"

definition is_ident_char :: "char \<Rightarrow> bool" where
  "is_ident_char c = (is_alnum c \<or> c = CHR ''-'')"

definition is_lower_hex :: "char \<Rightarrow> bool" where
  "is_lower_hex c = (is_digit c \<or> (97 \<le> byte_of c \<and> byte_of c \<le> 102))"

text \<open>One or more items separated by a byte: \<open>item(?:\\sep item)*\<close>.\<close>

definition rx_sep_by :: "char \<Rightarrow> (char \<Rightarrow> bool) \<Rightarrow> rx" where
  "rx_sep_by sep p = RSeq (RPlus (RChar p)) (RStar (RSeq (RLit sep) (RPlus (RChar p))))"

definition semverPattern :: rx where
  "semverPattern =
     RSeq (RLit (CHR ''v'')) (RSeq (RPlus rx_digit) (RSeq (RLit (CHR ''.'')) (RSeq (RPlus rx_digit)
       (RSeq (RLit (CHR ''.'')) (RSeq (RPlus rx_digit)
         (RSeq (ROpt (RSeq (RLit (CHR ''-'')) (rx_sep_by (CHR ''.'') is_ident_char)))
               (ROpt (RSeq (RLit (CHR ''+'')) (rx_sep_by (CHR ''.'') is_ident_char)))))))))"

definition pseudoVersionPattern :: rx where
  "pseudoVersionPattern =
     RSeq (RStr ''v0.0.0-'') (RSeq (RRep 14 rx_digit)
       (RSeq (RLit (CHR ''-'')) (RRep 12 (RChar is_lower_hex))))"

definition toolPathPattern :: rx where
  "toolPathPattern = rx_sep_by (CHR ''.'') (\<lambda>c. c \<noteq> CHR ''.'')"

section \<open>Parsers\<close>

definition ParseModulePath :: "string \<Rightarrow> fqn_error + ModulePath" where
  "ParseModulePath s =
     (if s = [] then Inl ModuleEmpty
      else let parts = Split (CHR ''/'') s in
        if length parts < 2 then Inl (ModuleNoPath s)
        else if \<not> Contains (parts ! 0) ''.'' then Inl (ModuleHostNoDot s (parts ! 0))
        else if \<exists>part\<in>set parts. part = [] then Inl (ModuleEmptySegment s)
        else Inr s)"

definition ParseVersion :: "string \<Rightarrow> fqn_error + Version" where
  "ParseVersion s =
     (if s = [] then Inl VersionEmpty
      else if HasPrefix s ''v0.0.0-'' \<and>
              (let suffix = TrimPrefix s ''v0.0.0-'' in suffix \<noteq> [] \<and> is_digit (hd suffix))
      then (if rx_match pseudoVersionPattern s then Inr s else Inl (InvalidPseudoVersion s))
      else if rx_match semverPattern s then Inr s
      else Inl (InvalidVersion s))"

definition ParseToolPath :: "string \<Rightarrow> fqn_error + ToolPath" where
  "ParseToolPath s =
     (if s = [] then Inl ToolPathEmpty
      else if \<not> rx_match toolPathPattern s then Inl (InvalidToolPath s)
      else Inr s)"

definition ParseToolFQN :: "string \<Rightarrow> fqn_error + ToolFQN" where
  "ParseToolFQN s =
     (case IndexByte s (CHR ''@'') of
        None \<Rightarrow> Inl (FqnMissingAt s)
      | Some at \<Rightarrow>
          (let remainder = drop (at + 1) s in
           case IndexByte remainder (CHR ''/'') of
             None \<Rightarrow> Inl (FqnMissingSlash s)
           | Some slsh \<Rightarrow>
               result_bind (ParseModulePath (take at s)) (\<lambda>m.
               result_bind (ParseVersion (take slsh remainder)) (\<lambda>v.
               result_bind (ParseToolPath (drop (slsh + 1) remainder)) (\<lambda>t.
               Inr \<lparr>fqn_Module = m, fqn_Version = v, fqn_Tool = t\<rparr>)))))"

definition ParsePackageVer :: "string \<Rightarrow> fqn_error + PackageVer" where
  "ParsePackageVer s =
     (case IndexByte s (CHR ''@'') of
        None \<Rightarrow> Inl (PackageMissingAt s)
      | Some at \<Rightarrow>
          result_bind (ParseModulePath (take at s)) (\<lambda>m.
          result_bind (ParseVersion (drop (at + 1) s)) (\<lambda>v.
          Inr \<lparr>pv_Module = m, pv_Version = v\<rparr>)))"

definition ToolFQN_String :: "ToolFQN \<Rightarrow> string" where
  "ToolFQN_String f = fqn_Module f @ ''@'' @ fqn_Version f @ ''/'' @ fqn_Tool f"

definition PackageVer_String :: "PackageVer \<Rightarrow> string" where
  "PackageVer_String p = pv_Module p @ ''@'' @ pv_Version p"

section \<open>Pseudo-versions\<close>

definition IsPseudo :: "Version \<Rightarrow> bool" where
  "IsPseudo v = rx_match pseudoVersionPattern v"

text \<open>The capture groups of the pseudo-version pattern have fixed widths and positions.\<close>

definition PseudoTimestamp :: "Version \<Rightarrow> string" where
  "PseudoTimestamp v = (if rx_match pseudoVersionPattern v then take 14 (drop 7 v) else [])"

definition PseudoCommit :: "Version \<Rightarrow> string" where
  "PseudoCommit v = (if rx_match pseudoVersionPattern v then take 12 (drop 22 v) else [])"

section \<open>Facts about the parts\<close>

lemma rx_lang_sep_by:
  "\<not> p sep \<Longrightarrow> rx_lang (rx_sep_by sep p) u \<longleftrightarrow>
     (\<forall>w\<in>set (Split sep u). w \<noteq> [] \<and> (\<forall>c\<in>set w. p c))"
  unfolding rx_sep_by_def by (rule rx_sep_list)

lemma ParseModulePath_Inr: "ParseModulePath s = Inr m \<longleftrightarrow> m = s \<and> is_ok (ParseModulePath s)"
  by (auto simp: ParseModulePath_def Let_def split: if_splits)

lemma ParseVersion_Inr: "ParseVersion s = Inr v \<longleftrightarrow> v = s \<and> is_ok (ParseVersion s)"
  by (auto simp: ParseVersion_def split: if_splits)

lemma ParseToolPath_Inr: "ParseToolPath s = Inr t \<longleftrightarrow> t = s \<and> is_ok (ParseToolPath s)"
  by (auto simp: ParseToolPath_def split: if_splits)

lemmas parse_Inr = ParseModulePath_Inr ParseVersion_Inr ParseToolPath_Inr

lemma ParseModulePath_iff:
  "is_ok (ParseModulePath s) \<longleftrightarrow>
     (\<exists>host rest. Split (CHR ''/'') s = host # rest \<and> rest \<noteq> [] \<and> CHR ''.'' \<in> set host
        \<and> [] \<notin> set (host # rest))"
  by (cases "Split (CHR ''/'') s"; cases "s = []")
    (auto simp: ParseModulePath_def Let_def Contains_char neq_Nil_conv)

lemma rx_alpha_pseudo:
  assumes "rx_alpha pseudoVersionPattern c"
  shows "c \<in> set ''v0.0.0-'' \<or> is_digit c \<or> is_lower_hex c"
proof -
  from assms consider "rx_alpha (RStr ''v0.0.0-'') c" | "rx_alpha (RRep 14 rx_digit) c"
    | "rx_alpha (RLit (CHR ''-'')) c" | "rx_alpha (RRep 12 (RChar is_lower_hex)) c"
    unfolding pseudoVersionPattern_def rx_alpha.simps by blast
  then show ?thesis
  proof cases
    case 1 then show ?thesis unfolding rx_alpha_RStr by blast
  next
    case 2 then show ?thesis by (auto dest!: rx_alpha_RRep simp: rx_digit_def)
  next
    case 3 then show ?thesis by (simp add: RLit_def)
  next
    case 4 then show ?thesis by (auto dest!: rx_alpha_RRep)
  qed
qed

lemma rx_alpha_semver:
  "rx_alpha semverPattern c \<Longrightarrow> c \<in> set ''v.-+'' \<or> is_digit c \<or> is_ident_char c"
  by (auto simp: semverPattern_def rx_sep_by_def rx_digit_def RLit_def RPlus_def ROpt_def)

lemma version_byte:
  assumes "is_ok (ParseVersion s)" "c \<in> set s"
  shows "is_alnum c \<or> c \<in> set ''.-+''"
proof -
  from assms(1) have "rx_match pseudoVersionPattern s \<or> rx_match semverPattern s"
    by (auto simp: ParseVersion_def split: if_splits)
  then have "rx_alpha pseudoVersionPattern c \<or> rx_alpha semverPattern c"
    using assms(2) rx_match_chars by blast
  then have "c \<in> set ''v0.-+'' \<or> is_digit c \<or> is_ident_char c \<or> is_lower_hex c"
    using rx_alpha_pseudo rx_alpha_semver by fastforce
  moreover have "is_alnum (CHR ''v'')" "is_alnum (CHR ''0'')"
    by (simp_all add: is_alnum_def is_digit_def is_lower_def byte_of_def)
  moreover have "is_digit c \<or> is_lower_hex c \<Longrightarrow> is_alnum c"
    by (auto simp: is_lower_hex_def is_alnum_def is_lower_def)
  ultimately show ?thesis by (auto simp: is_ident_char_def)
qed

lemma version_no_slash_at:
  "is_ok (ParseVersion s) \<Longrightarrow> CHR ''/'' \<notin> set s \<and> CHR ''@'' \<notin> set s"
  using version_byte[of s "CHR ''/''"] version_byte[of s "CHR ''@''"]
  by (auto simp: is_alnum_def is_digit_def is_lower_def is_upper_def byte_of_def)

section \<open>Parsing and printing\<close>

lemma ParseToolFQN_printed:
  assumes "is_ok (ParseModulePath m)" "CHR ''@'' \<notin> set m" "is_ok (ParseVersion v)"
    "is_ok (ParseToolPath t)"
  shows "ParseToolFQN (m @ ''@'' @ v @ ''/'' @ t) =
    Inr \<lparr>fqn_Module = m, fqn_Version = v, fqn_Tool = t\<rparr>"
proof -
  have i1: "IndexByte (m @ ''@'' @ v @ ''/'' @ t) (CHR ''@'') = Some (length m)"
    using IndexByte_append[OF assms(2)] by simp
  have i2: "IndexByte (v @ ''/'' @ t) (CHR ''/'') = Some (length v)"
    using IndexByte_append[of "CHR ''/''" v] version_no_slash_at[OF assms(3)] by simp
  show ?thesis
    using assms i1 i2 by (simp add: ParseToolFQN_def parse_Inr Let_def)
qed

lemma ParsePackageVer_printed:
  assumes "is_ok (ParseModulePath m)" "CHR ''@'' \<notin> set m" "is_ok (ParseVersion v)"
  shows "ParsePackageVer (m @ ''@'' @ v) = Inr \<lparr>pv_Module = m, pv_Version = v\<rparr>"
proof -
  have "IndexByte (m @ ''@'' @ v) (CHR ''@'') = Some (length m)"
    using IndexByte_append[OF assms(2)] by simp
  then show ?thesis
    using assms by (simp add: ParsePackageVer_def parse_Inr)
qed

lemma drop_Suc_at: "IndexByte s c = Some i \<Longrightarrow> s = take i s @ [c] @ drop (i + 1) s"
  using IndexByte_Some_split by fastforce

lemma ParseToolFQN_Inr_parts:
  assumes "ParseToolFQN s = Inr f"
  shows "ToolFQN_String f = s \<and> is_ok (ParseModulePath (fqn_Module f)) \<and>
    CHR ''@'' \<notin> set (fqn_Module f) \<and> is_ok (ParseVersion (fqn_Version f)) \<and>
    is_ok (ParseToolPath (fqn_Tool f))"
proof -
  from assms obtain i j where i: "IndexByte s (CHR ''@'') = Some i"
    and j: "IndexByte (drop (i + 1) s) (CHR ''/'') = Some j"
    by (auto simp: ParseToolFQN_def Let_def split: option.splits)
  let ?r = "drop (i + 1) s"
  from assms i j have f: "f = \<lparr>fqn_Module = take i s, fqn_Version = take j ?r,
      fqn_Tool = drop (j + 1) ?r\<rparr>"
    and ok: "is_ok (ParseModulePath (take i s))" "is_ok (ParseVersion (take j ?r))"
      "is_ok (ParseToolPath (drop (j + 1) ?r))"
    by (auto simp: ParseToolFQN_def Let_def parse_Inr)
  have "s = take i s @ ''@'' @ take j ?r @ ''/'' @ drop (j + 1) ?r"
    using drop_Suc_at[OF i] drop_Suc_at[OF j] by (metis append.assoc)
  moreover have "CHR ''@'' \<notin> set (take i s)"
    using IndexByte_Some_split[OF i] by blast
  ultimately show ?thesis using f ok by (simp add: ToolFQN_String_def)
qed

lemma ParsePackageVer_Inr_parts:
  assumes "ParsePackageVer s = Inr p"
  shows "PackageVer_String p = s \<and> is_ok (ParseModulePath (pv_Module p)) \<and>
    CHR ''@'' \<notin> set (pv_Module p) \<and> is_ok (ParseVersion (pv_Version p))"
proof -
  from assms obtain i where i: "IndexByte s (CHR ''@'') = Some i"
    by (auto simp: ParsePackageVer_def split: option.splits)
  from assms i have p: "p = \<lparr>pv_Module = take i s, pv_Version = drop (i + 1) s\<rparr>"
    and ok: "is_ok (ParseModulePath (take i s))" "is_ok (ParseVersion (drop (i + 1) s))"
    by (auto simp: ParsePackageVer_def parse_Inr)
  show ?thesis
    using p ok drop_Suc_at[OF i] IndexByte_Some_split[OF i] by (simp add: PackageVer_String_def)
qed

section \<open>Structure of pseudo-versions\<close>

lemma IsPseudo_iff:
  "IsPseudo v \<longleftrightarrow>
     (\<exists>ts c. v = ''v0.0.0-'' @ ts @ ''-'' @ c \<and> length ts = 14 \<and> (\<forall>x\<in>set ts. is_digit x)
        \<and> length c = 12 \<and> (\<forall>x\<in>set c. is_lower_hex x))"
  unfolding IsPseudo_def rx_match_iff pseudoVersionPattern_def rx_digit_def
  by (auto simp del: RRep.simps RStr.simps)

lemma pseudo_groups:
  assumes "v = ''v0.0.0-'' @ ts @ ''-'' @ c" "length ts = 14" "length c = 12" "IsPseudo v"
  shows "PseudoTimestamp v = ts" "PseudoCommit v = c"
  using assms by (simp_all add: PseudoTimestamp_def PseudoCommit_def IsPseudo_def)

section \<open>Properties\<close>

text \<open>
  C30.  Parsing a tool FQN inverts printing it: \<open>ParseToolFQN\<close> succeeds with \<open>f\<close> exactly on
  the printed form of \<open>f\<close>, and then the three parts are valid and the module has no
  at-sign.
\<close>

theorem ParseToolFQN_iff:
  "ParseToolFQN s = Inr f \<longleftrightarrow>
     s = ToolFQN_String f \<and> is_ok (ParseModulePath (fqn_Module f)) \<and>
     CHR ''@'' \<notin> set (fqn_Module f) \<and> is_ok (ParseVersion (fqn_Version f)) \<and>
     is_ok (ParseToolPath (fqn_Tool f))"
proof
  show "ParseToolFQN s = Inr f" if "s = ToolFQN_String f \<and> is_ok (ParseModulePath (fqn_Module f)) \<and>
     CHR ''@'' \<notin> set (fqn_Module f) \<and> is_ok (ParseVersion (fqn_Version f)) \<and>
     is_ok (ParseToolPath (fqn_Tool f))"
    using that ParseToolFQN_printed[of "fqn_Module f" "fqn_Version f" "fqn_Tool f"]
    by (simp add: ToolFQN_String_def)
qed (use ParseToolFQN_Inr_parts in blast)

text \<open>
  The same for package versions, the keys of a lock file: \<open>ParsePackageVer\<close> succeeds
  with \<open>p\<close> exactly on the printed form of \<open>p\<close> with valid parts and no at-sign in
  the module.
\<close>

lemma ParsePackageVer_iff:
  "ParsePackageVer s = Inr p \<longleftrightarrow>
     s = PackageVer_String p \<and> is_ok (ParseModulePath (pv_Module p)) \<and>
     CHR ''@'' \<notin> set (pv_Module p) \<and> is_ok (ParseVersion (pv_Version p))"
proof
  show "ParsePackageVer s = Inr p" if "s = PackageVer_String p \<and>
     is_ok (ParseModulePath (pv_Module p)) \<and>
     CHR ''@'' \<notin> set (pv_Module p) \<and> is_ok (ParseVersion (pv_Version p))"
    using that ParsePackageVer_printed[of "pv_Module p" "pv_Version p"]
    by (simp add: PackageVer_String_def)
qed (use ParsePackageVer_Inr_parts in blast)

text \<open>
   A version is a pseudo-version exactly when it parses and a digit follows
  \<open>v0.0.0-\<close>; it is then rebuilt from its timestamp of 14 digits and its commit prefix of
  12 lower-case hex digits.
\<close>

lemma IsPseudo_structure:
  "IsPseudo v \<longleftrightarrow>
     is_ok (ParseVersion v) \<and> (\<exists>d r. v = ''v0.0.0-'' @ d # r \<and> is_digit d) \<and>
     v = ''v0.0.0-'' @ PseudoTimestamp v @ ''-'' @ PseudoCommit v \<and>
     length (PseudoTimestamp v) = 14 \<and> list_all is_digit (PseudoTimestamp v) \<and>
     length (PseudoCommit v) = 12 \<and> list_all is_lower_hex (PseudoCommit v)"
proof
  assume ps: "IsPseudo v"
  then obtain ts c where v: "v = ''v0.0.0-'' @ ts @ ''-'' @ c" "length ts = 14"
    "\<forall>x\<in>set ts. is_digit x" "length c = 12" "\<forall>x\<in>set c. is_lower_hex x"
    by (auto simp: IsPseudo_iff)
  obtain d r where ts: "ts = d # r" using v(2) by (cases ts) auto
  have "HasPrefix v ''v0.0.0-''" "TrimPrefix v ''v0.0.0-'' = ts @ ''-'' @ c" "v \<noteq> []"
    unfolding v(1) by (rule HasPrefix_append, rule TrimPrefix_append, simp)
  moreover have "rx_match pseudoVersionPattern v" using ps by (simp only: IsPseudo_def)
  ultimately have "ParseVersion v = Inr v"
    using v(3) ts by (simp only: ParseVersion_def Let_def) simp
  then show "is_ok (ParseVersion v) \<and> (\<exists>d r. v = ''v0.0.0-'' @ d # r \<and> is_digit d) \<and>
     v = ''v0.0.0-'' @ PseudoTimestamp v @ ''-'' @ PseudoCommit v \<and>
     length (PseudoTimestamp v) = 14 \<and> list_all is_digit (PseudoTimestamp v) \<and>
     length (PseudoCommit v) = 12 \<and> list_all is_lower_hex (PseudoCommit v)"
    using v ts pseudo_groups[OF v(1,2,4) ps] by (simp add: list_all_iff)
next
  assume *: "is_ok (ParseVersion v) \<and> (\<exists>d r. v = ''v0.0.0-'' @ d # r \<and> is_digit d) \<and>
     v = ''v0.0.0-'' @ PseudoTimestamp v @ ''-'' @ PseudoCommit v \<and>
     length (PseudoTimestamp v) = 14 \<and> list_all is_digit (PseudoTimestamp v) \<and>
     length (PseudoCommit v) = 12 \<and> list_all is_lower_hex (PseudoCommit v)"
  then show "IsPseudo v"
    unfolding IsPseudo_iff list_all_iff by blast
qed

end
