(* ===== verification/Versions.thy ===== *)
theory Versions
  imports Fqn "HOL-Library.Product_Lexorder"
begin

text \<open>
  Component \<open>registry/version_list.go\<close>: the order on versions, sorting newest first,
  and collecting the valid versions out of release tags and \<open>git ls-remote\<close> output.
  The order is analysed through a key into a linear order: on canonical versions the comparison
  is the comparison of keys, so sorting is meaningful there; outside them it can be cyclic.  The keys are then related to
  the precedence of the semver specification, stated on the parts of a version and not on its text.
\<close>

section \<open>Comparing versions\<close>

definition str_Compare :: "string \<Rightarrow> string \<Rightarrow> int" where
  "str_Compare a b = (if a = b then 0 else if a < b then -1 else 1)"

definition intCompare :: "int \<Rightarrow> int \<Rightarrow> int" where
  "intCompare a b = (if a < b then -1 else if b < a then 1 else 0)"

definition digit_val :: "char \<Rightarrow> int" where
  "digit_val c = int (byte_of c) - 48"

definition decimal :: "string \<Rightarrow> int" where
  "decimal s = foldl (\<lambda>n c. 10 * n + digit_val c) 0 s"

text \<open>\<open>strconv.Atoi\<close> on the unsigned decimal strings it is called with: an error (None)
  when the value does not fit a 64-bit int.\<close>

definition Atoi :: "string \<Rightarrow> int option" where
  "Atoi s =
     (if s \<noteq> [] \<and> (\<forall>c\<in>set s. is_digit c) \<and> decimal s < 2 ^ 63 then Some (decimal s) else None)"

record parsedSemver =
  ps_major :: int
  ps_minor :: int
  ps_patch :: int
  ps_pre :: string

definition is_pre_char :: "char \<Rightarrow> bool" where
  "is_pre_char c = (is_alnum c \<or> c = CHR ''.'' \<or> c = CHR ''-'')"

text \<open>
  The submatches of \<open>semverStrictPattern\<close>: each digit group ends at the dot that must
  follow it, the optional prerelease runs to the end or to the plus sign that starts the build
  metadata, and the dot of the build part does not match a newline.
\<close>

definition build_part :: "string \<Rightarrow> bool" where
  "build_part r = (case r of [] \<Rightarrow> True | c # z \<Rightarrow> c = CHR ''+'' \<and> CHR 0x0A \<notin> set z)"

definition num_group :: "string \<Rightarrow> (string \<times> string) option" where
  "num_group r =
     (let a = takeWhile is_digit r in if a = [] then None else Some (a, dropWhile is_digit r))"

definition lit_then :: "char \<Rightarrow> string \<Rightarrow> string option" where
  "lit_then c r = (case r of d # q \<Rightarrow> if d = c then Some q else None | [] \<Rightarrow> None)"

definition pre_group :: "string \<Rightarrow> string option" where
  "pre_group r =
     (case lit_then (CHR ''-'') r of
        None \<Rightarrow> if build_part r then Some [] else None
      | Some q \<Rightarrow>
          (let pre = takeWhile is_pre_char q in
           if pre \<noteq> [] \<and> build_part (dropWhile is_pre_char q) then Some pre else None))"

definition semverStrict_groups :: "string \<Rightarrow> (string \<times> string \<times> string \<times> string) option" where
  "semverStrict_groups v =
     Option.bind (lit_then (CHR ''v'') v) (\<lambda>r0.
     Option.bind (num_group r0) (\<lambda>(a, r1).
     Option.bind (lit_then (CHR ''.'') r1) (\<lambda>r2.
     Option.bind (num_group r2) (\<lambda>(b, r3).
     Option.bind (lit_then (CHR ''.'') r3) (\<lambda>r4.
     Option.bind (num_group r4) (\<lambda>(c, r5).
     map_option (\<lambda>p. (a, b, c, p)) (pre_group r5)))))))"

definition parseSemver :: "Version \<Rightarrow> parsedSemver option" where
  "parseSemver v =
     (case semverStrict_groups v of
        None \<Rightarrow> None
      | Some (m1, m2, m3, m4) \<Rightarrow>
          Option.bind (Atoi m1) (\<lambda>major.
          Option.bind (Atoi m2) (\<lambda>minor.
          Option.bind (Atoi m3) (\<lambda>patch.
          Some \<lparr>ps_major = major, ps_minor = minor, ps_patch = patch, ps_pre = m4\<rparr>))))"

definition parseNumericIdentifier :: "string \<Rightarrow> int option" where
  "parseNumericIdentifier s =
     (if s = [] then None else if \<exists>c\<in>set s. \<not> is_digit c then None else Atoi s)"

fun comparePreParts :: "string list \<Rightarrow> string list \<Rightarrow> int option" where
  "comparePreParts (a # as) (b # bs) =
     (if a = b then comparePreParts as bs
      else Some (case (parseNumericIdentifier a, parseNumericIdentifier b) of
          (Some m, Some n) \<Rightarrow> intCompare m n
        | (Some m, None) \<Rightarrow> -1
        | (None, Some n) \<Rightarrow> 1
        | (None, None) \<Rightarrow> str_Compare a b))"
| "comparePreParts [] bs = None"
| "comparePreParts (a # as) [] = None"

definition comparePrerelease :: "string \<Rightarrow> string \<Rightarrow> int" where
  "comparePrerelease a b =
     (if a = b then 0 else if a = [] then 1 else if b = [] then -1
      else let aParts = Split (CHR ''.'') a; bParts = Split (CHR ''.'') b in
        (case comparePreParts aParts bParts of
           Some c \<Rightarrow> c
         | None \<Rightarrow> intCompare (int (length aParts)) (int (length bParts))))"

definition compareVersions :: "Version \<Rightarrow> Version \<Rightarrow> int" where
  "compareVersions a b =
     (if a = b then 0
      else if IsPseudo a \<and> IsPseudo b then
        (let cmp = str_Compare (PseudoTimestamp a) (PseudoTimestamp b) in
         if cmp \<noteq> 0 then cmp else str_Compare (PseudoCommit a) (PseudoCommit b))
      else if IsPseudo a then -1
      else if IsPseudo b then 1
      else case (parseSemver a, parseSemver b) of
          (Some pa, Some pb) \<Rightarrow>
            if ps_major pa \<noteq> ps_major pb then intCompare (ps_major pa) (ps_major pb)
            else if ps_minor pa \<noteq> ps_minor pb then intCompare (ps_minor pa) (ps_minor pb)
            else if ps_patch pa \<noteq> ps_patch pb then intCompare (ps_patch pa) (ps_patch pb)
            else comparePrerelease (ps_pre pa) (ps_pre pb)
        | _ \<Rightarrow> str_Compare a b)"

text \<open>\<open>sort.Slice\<close> is a stable sort here; where the comparison is an order and the versions are distinct, every sort gives this list.\<close>

definition sortVersionsDesc :: "Version list \<Rightarrow> Version list" where
  "sortVersionsDesc versions = go_sort (\<lambda>a b. compareVersions a b > 0) versions"

section \<open>Collecting versions\<close>

text \<open>The loop over release tags: unparsable tags and repeats are skipped.\<close>

fun collect_versions :: "string list \<Rightarrow> Version list \<Rightarrow> Version list" where
  "collect_versions [] versions = versions"
| "collect_versions (tag # tags) versions =
     (case ParseVersion tag of
        Inl _ \<Rightarrow> collect_versions tags versions
      | Inr v \<Rightarrow> if v \<in> set versions then collect_versions tags versions
                 else collect_versions tags (versions @ [v]))"

definition GitHub_ListVersions :: "string list \<Rightarrow> Version list" where
  "GitHub_ListVersions tagNames = sortVersionsDesc (collect_versions tagNames [])"

text \<open>\<open>strings.Fields\<close> on ASCII text.\<close>

function Fields :: "string \<Rightarrow> string list" where
  "Fields s =
     (let r = dropWhile is_space s in
      if r = [] then []
      else takeWhile (\<lambda>c. \<not> is_space c) r # Fields (dropWhile (\<lambda>c. \<not> is_space c) r))"
  by pat_completeness auto
termination
proof (relation "measure length", simp)
  fix s r assume r: "r = dropWhile is_space s" "r \<noteq> []"
  then have "\<not> is_space (hd r)" using hd_dropWhile[of is_space s] by simp
  then have "length (dropWhile (\<lambda>c. \<not> is_space c) r) < length r"
    using r(2) by (cases r) (simp_all add: le_imp_less_Suc length_dropWhile_le)
  then show "(dropWhile (\<lambda>c. \<not> is_space c) r, s) \<in> measure length"
    using length_dropWhile_le[of is_space s] r(1) by simp
qed

declare Fields.simps [simp del]

definition ls_remote_tag :: "string \<Rightarrow> string option" where
  "ls_remote_tag line =
     (if TrimSpace line = [] then None
      else let fields = Fields line in
        if length fields < 2 then None
        else let ref = fields ! 1 in
          if \<not> HasPrefix ref ''refs/tags/'' then None
          else Some (TrimSuffix (TrimPrefix ref ''refs/tags/'') ''^{}''))"

definition Git_ListVersions :: "string \<Rightarrow> Version list" where
  "Git_ListVersions output =
     sortVersionsDesc (collect_versions
       (List.map_filter ls_remote_tag (Split (CHR 0x0A) (TrimSpace output))) [])"

section \<open>Antisymmetry\<close>

lemma str_Compare_anti: "str_Compare b a = - str_Compare a b"
  by (auto simp: str_Compare_def)

lemma intCompare_anti: "intCompare b a = - intCompare a b"
  by (auto simp: intCompare_def)

lemma str_Compare_0 [simp]: "str_Compare a b = 0 \<longleftrightarrow> a = b"
  by (auto simp: str_Compare_def)

lemma comparePreParts_anti:
  "comparePreParts bs as = map_option uminus (comparePreParts as bs)"
proof (induction as bs rule: comparePreParts.induct)
  case (1 a as b bs)
  then show ?case
    by (cases "a = b")
      (auto simp: intCompare_def str_Compare_def split: option.splits)
next
  case (2 bs)
  then show ?case by (cases bs) simp_all
qed simp_all

lemma comparePrerelease_anti: "comparePrerelease b a = - comparePrerelease a b"
  using comparePreParts_anti[of "Split (CHR ''.'') b" "Split (CHR ''.'') a"]
  by (auto simp: comparePrerelease_def Let_def intCompare_def split: option.splits)

lemma compareVersions_refl [simp]: "compareVersions a a = 0"
  by (simp add: compareVersions_def)

lemma compareVersions_anti: "compareVersions b a = - compareVersions a b"
  unfolding compareVersions_def Let_def
  using str_Compare_anti[of b a] str_Compare_anti[of "PseudoTimestamp b" "PseudoTimestamp a"]
    str_Compare_anti[of "PseudoCommit b" "PseudoCommit a"]
    intCompare_anti[of "ps_major (the (parseSemver b))" "ps_major (the (parseSemver a))"]
    intCompare_anti[of "ps_minor (the (parseSemver b))" "ps_minor (the (parseSemver a))"]
    intCompare_anti[of "ps_patch (the (parseSemver b))" "ps_patch (the (parseSemver a))"]
    comparePrerelease_anti[of "ps_pre (the (parseSemver b))" "ps_pre (the (parseSemver a))"]
  by (auto split: option.splits)

section \<open>Canonical versions and their keys\<close>

text \<open>
  A prerelease identifier is canonical when it is not a decimal number written with a leading
  zero; every version accepted by the semver specification has canonical identifiers.  The key
  orders numbers before words, an absent prerelease after every prerelease, and pseudo-versions
  before all others.
\<close>

definition canonical_ident :: "string \<Rightarrow> bool" where
  "canonical_ident s = (parseNumericIdentifier s \<noteq> None \<longrightarrow> s = ''0'' \<or> hd s \<noteq> CHR ''0'')"

definition canonical_version :: "Version \<Rightarrow> bool" where
  "canonical_version v =
     (IsPseudo v \<or>
      (case parseSemver v of
         None \<Rightarrow> False
       | Some p \<Rightarrow> list_all canonical_ident (Split (CHR ''.'') (ps_pre p))))"

definition ident_key :: "string \<Rightarrow> nat \<times> int \<times> string" where
  "ident_key s = (case parseNumericIdentifier s of Some n \<Rightarrow> (0, n, []) | None \<Rightarrow> (1, 0, s))"

definition pre_key :: "string \<Rightarrow> nat \<times> (nat \<times> int \<times> string) list" where
  "pre_key s = (if s = [] then (1, []) else (0, map ident_key (Split (CHR ''.'') s)))"

definition version_key ::
  "Version \<Rightarrow> nat \<times> (string \<times> string) \<times> (int \<times> int \<times> int) \<times> nat \<times> (nat \<times> int \<times> string) list" where
  "version_key v =
     (if IsPseudo v then (0, (PseudoTimestamp v, PseudoCommit v), (0, 0, 0), (0, []))
      else case parseSemver v of
          None \<Rightarrow> (2, ([], []), (0, 0, 0), (0, []))
        | Some p \<Rightarrow> (1, ([], []), (ps_major p, ps_minor p, ps_patch p), pre_key (ps_pre p)))"

definition cmp :: "'a::linorder \<Rightarrow> 'a \<Rightarrow> int" where
  "cmp x y = (if x < y then -1 else if y < x then 1 else 0)"

lemma intCompare_cmp: "intCompare a b = cmp a b"
  by (simp add: intCompare_def cmp_def)

lemma str_Compare_cmp: "str_Compare a b = cmp a b"
  by (auto simp: str_Compare_def cmp_def)

lemma cmp_refl [simp]: "cmp a a = 0"
  by (simp add: cmp_def)

lemma cmp_pair: "cmp (a, b) (c, d) = (if a = c then cmp b d else cmp a c)"
  by (auto simp: cmp_def)

lemma cmp_Cons: "cmp (a # as) (b # bs) = (if a = b then cmp as bs else cmp a b)"
  by (auto simp: cmp_def)

lemma cmp_nat01: "cmp (0::nat) (Suc n) = -1" "cmp (Suc n) 0 = 1"
  by (simp_all add: cmp_def)

lemma cmp_Nil: "cmp [] (b # bs) = -1" "cmp (b # bs) [] = 1"
  by (auto simp: cmp_def)

section \<open>Decimal numbers without leading zeros are injective\<close>

lemma byte_of_inj: "byte_of c = byte_of d \<longleftrightarrow> c = d"
  by (simp add: byte_of_def)

lemma digit_val_bounds: "is_digit c \<Longrightarrow> 0 \<le> digit_val c \<and> digit_val c < 10"
  by (auto simp: is_digit_def digit_val_def)

lemma digit_val_inj: "digit_val c = digit_val d \<longleftrightarrow> c = d"
  by (auto simp: digit_val_def byte_of_inj)

lemma decimal_snoc [simp]: "decimal (s @ [c]) = 10 * decimal s + digit_val c"
  by (simp add: decimal_def)

lemma decimal_Nil [simp]: "decimal [] = 0"
  by (simp add: decimal_def)

lemma decimal_append: "decimal (s @ t) = decimal s * 10 ^ length t + decimal t"
proof (induction t rule: rev_induct)
  case (snoc c t)
  have "decimal (s @ t @ [c]) = 10 * decimal (s @ t) + digit_val c"
    by (metis append.assoc decimal_snoc)
  then show ?case using snoc by (simp add: algebra_simps)
qed simp

lemma decimal_bounds: "\<forall>c\<in>set s. is_digit c \<Longrightarrow> 0 \<le> decimal s \<and> decimal s < 10 ^ length s"
proof (induction s rule: rev_induct)
  case (snoc c s)
  then show ?case using digit_val_bounds[of c] by auto
qed simp

lemma decimal_lower:
  assumes "\<forall>c\<in>set s. is_digit c" "s \<noteq> []" "hd s \<noteq> CHR ''0''"
  shows "10 ^ (length s - 1) \<le> decimal s"
proof -
  obtain c r where s: "s = [c] @ r" using assms(2) by (cases s) auto
  have "digit_val c \<noteq> 0"
    using assms(3) s byte_of_inj[of c "CHR ''0''"] by (auto simp: digit_val_def byte_of_def)
  then have "1 \<le> digit_val c" using assms(1) s digit_val_bounds[of c] by auto
  moreover have "decimal s = digit_val c * 10 ^ length r + decimal r" "0 \<le> decimal r"
    unfolding s decimal_append using assms(1) s decimal_bounds[of r]
    by (auto simp: decimal_def)
  moreover have "1 * 10 ^ length r \<le> digit_val c * (10 ^ length r :: int)"
    using calculation(1) by (intro mult_right_mono) auto
  ultimately have "10 ^ length r \<le> decimal s" by linarith
  then show ?thesis using s by simp
qed

lemma decimal_inj_length:
  assumes "length s = length t" "\<forall>c\<in>set s \<union> set t. is_digit c" "decimal s = decimal t"
  shows "s = t"
  using assms
proof (induction s arbitrary: t rule: rev_induct)
  case (snoc c s)
  obtain d u where t: "t = u @ [d]" using snoc.prems(1) by (cases t rule: rev_cases) auto
  have "0 \<le> digit_val c" "digit_val c < 10" "0 \<le> digit_val d" "digit_val d < 10"
    using snoc.prems(2) t digit_val_bounds by auto
  moreover have "10 * decimal s + digit_val c = 10 * decimal u + digit_val d"
    using snoc.prems(3) t by simp
  ultimately have "digit_val c = digit_val d" "decimal s = decimal u" by presburger+
  then show ?case using snoc t by (auto simp: digit_val_inj)
qed simp

lemma decimal_inj_canonical:
  assumes "\<forall>c\<in>set s \<union> set t. is_digit c" "s \<noteq> []" "t \<noteq> []"
    "hd s \<noteq> CHR ''0''" "hd t \<noteq> CHR ''0''" "decimal s = decimal t"
  shows "s = t"
proof -
  have "length u \<le> length w" if "\<forall>c\<in>set u \<union> set w. is_digit c" "u \<noteq> []" "hd u \<noteq> CHR ''0''"
    "decimal u = decimal w" for u w
  proof (rule ccontr)
    assume "\<not> length u \<le> length w"
    then have "(10::int) ^ length w \<le> 10 ^ (length u - 1)" by (intro power_increasing) auto
    also have "\<dots> \<le> decimal u" using that by (intro decimal_lower) auto
    finally show False using that decimal_bounds[of w] by auto
  qed
  then have "length s = length t" using assms by (metis Un_commute le_antisym)
  then show ?thesis using assms decimal_inj_length by blast
qed

lemma decimal_zero: "decimal ''0'' = 0"
  by (simp add: decimal_def digit_val_def byte_of_def)

lemma parseNumericIdentifier_Some:
  "parseNumericIdentifier s = Some n \<Longrightarrow> s \<noteq> [] \<and> (\<forall>c\<in>set s. is_digit c) \<and> n = decimal s"
  by (auto simp: parseNumericIdentifier_def Atoi_def split: if_splits)

lemma numeric_ident_inj:
  assumes "canonical_ident s" "canonical_ident t"
    "parseNumericIdentifier s = Some n" "parseNumericIdentifier t = Some n"
  shows "s = t"
proof -
  have zero: "u = ''0''" if "w = ''0''" "canonical_ident u" "parseNumericIdentifier u = Some n"
    "parseNumericIdentifier w = Some n" for u w
  proof (rule ccontr)
    assume "u \<noteq> ''0''"
    then have "hd u \<noteq> CHR ''0''" using that by (auto simp: canonical_ident_def)
    then have "(10::int) ^ (length u - 1) \<le> decimal u"
      using parseNumericIdentifier_Some[OF that(3)] by (intro decimal_lower) auto
    moreover have "(0::int) < 10 ^ (length u - 1)" by simp
    moreover have "decimal u = 0"
      using parseNumericIdentifier_Some[OF that(3)] parseNumericIdentifier_Some[OF that(4)]
        that(1) decimal_zero by simp
    ultimately show False by linarith
  qed
  show ?thesis
  proof (cases "s = ''0'' \<or> t = ''0''")
    case True
    then show ?thesis using zero assms by metis
  next
    case False
    then have "hd s \<noteq> CHR ''0''" "hd t \<noteq> CHR ''0''"
      using assms by (auto simp: canonical_ident_def)
    then show ?thesis
      using parseNumericIdentifier_Some[OF assms(3)] parseNumericIdentifier_Some[OF assms(4)]
      by (intro decimal_inj_canonical) auto
  qed
qed

lemma ident_key_inj:
  "canonical_ident s \<Longrightarrow> canonical_ident t \<Longrightarrow> ident_key s = ident_key t \<longleftrightarrow> s = t"
  using numeric_ident_inj[of s t] by (auto simp: ident_key_def split: option.splits)

section \<open>The comparison is the comparison of keys\<close>

lemma comparePreParts_key:
  assumes "list_all canonical_ident as" "list_all canonical_ident bs"
  shows "(case comparePreParts as bs of
            Some c \<Rightarrow> c | None \<Rightarrow> intCompare (int (length as)) (int (length bs)))
         = cmp (map ident_key as) (map ident_key bs)"
  using assms
proof (induction as bs rule: comparePreParts.induct)
  case (1 a as b bs)
  show ?case
  proof (cases "a = b")
    case True
    then show ?thesis using 1 by (auto simp: cmp_Cons intCompare_def split: option.splits)
  next
    case False
    then have "ident_key a \<noteq> ident_key b" using 1 by (simp add: ident_key_inj)
    then have "cmp (map ident_key (a # as)) (map ident_key (b # bs)) = cmp (ident_key a) (ident_key b)"
      by (simp add: cmp_Cons)
    also have "\<dots> = (case (parseNumericIdentifier a, parseNumericIdentifier b) of
          (Some m, Some n) \<Rightarrow> intCompare m n
        | (Some m, None) \<Rightarrow> -1
        | (None, Some n) \<Rightarrow> 1
        | (None, None) \<Rightarrow> str_Compare a b)"
      by (auto simp: ident_key_def cmp_pair intCompare_cmp str_Compare_cmp split: option.splits)
        (auto simp: cmp_def)
    finally show ?thesis using False by simp
  qed
next
  case (2 bs)
  then show ?case by (cases bs) (simp_all add: cmp_Nil intCompare_def)
next
  case (3 a as)
  then show ?case by (simp add: cmp_Nil intCompare_def)
qed

lemma Split_inj: "Split c s = Split c t \<longleftrightarrow> s = t"
  by (metis Join_Split)

lemma comparePrerelease_key:
  assumes "list_all canonical_ident (Split (CHR ''.'') a)" "list_all canonical_ident (Split (CHR ''.'') b)"
  shows "comparePrerelease a b = cmp (pre_key a) (pre_key b)"
  using comparePreParts_key[OF assms]
  by (auto simp: comparePrerelease_def pre_key_def Let_def cmp_pair cmp_nat01)

lemma compareVersions_key:
  assumes "canonical_version a" "canonical_version b"
  shows "compareVersions a b = cmp (version_key a) (version_key b)"
proof -
  consider "a = b" | "a \<noteq> b" "IsPseudo a" | "a \<noteq> b" "\<not> IsPseudo a" "IsPseudo b"
    | "a \<noteq> b" "\<not> IsPseudo a" "\<not> IsPseudo b" by blast
  then show ?thesis
  proof cases
    case 2
    then show ?thesis
      by (auto simp: compareVersions_def version_key_def cmp_pair Let_def str_Compare_cmp[symmetric]
          split: option.splits) (auto simp: cmp_def)
  next
    case 3
    then show ?thesis
      by (auto simp: compareVersions_def version_key_def cmp_pair split: option.splits)
        (auto simp: cmp_def)
  next
    case 4
    then obtain p q where "parseSemver a = Some p" "parseSemver b = Some q"
      "list_all canonical_ident (Split (CHR ''.'') (ps_pre p))"
      "list_all canonical_ident (Split (CHR ''.'') (ps_pre q))"
      using assms by (auto simp: canonical_version_def split: option.splits)
    then show ?thesis
      using 4 by (simp add: compareVersions_def version_key_def cmp_pair intCompare_cmp
          comparePrerelease_key)
  qed simp
qed

lemma compareVersions_weak_order:
  "weak_order_on {v. canonical_version v} (\<lambda>a b. compareVersions a b > 0)"
proof -
  have "compareVersions a b > 0 \<longleftrightarrow> version_key b < version_key a"
    if "canonical_version a" "canonical_version b" for a b
    using that by (auto simp: compareVersions_key cmp_def)
  then show ?thesis
    by (intro weak_order_on_cong[OF weak_order_key_desc[of _ version_key]]) simp
qed

section \<open>Semver precedence\<close>

text \<open>The versions of the semver specification: three numbers, the identifiers of a prerelease, which are numbers or words, and the
  build metadata.\<close>

datatype semver_ident = NumIdent nat | WordIdent string

record semver =
  sm_major :: nat
  sm_minor :: nat
  sm_patch :: nat
  sm_pre :: "semver_ident list"
  sm_build :: "string option"

primrec ident_text :: "semver_ident \<Rightarrow> string" where
  "ident_text (NumIdent n) = nat_digits n"
| "ident_text (WordIdent w) = w"

definition semver_text :: "semver \<Rightarrow> string" where
  "semver_text v =
     ''v'' @ nat_digits (sm_major v) @ ''.'' @ nat_digits (sm_minor v) @ ''.'' @ nat_digits (sm_patch v) @
     (if sm_pre v = [] then [] else ''-'' @ Join ''.'' (map ident_text (sm_pre v))) @
     (case sm_build v of None \<Rightarrow> [] | Some b \<Rightarrow> ''+'' @ b)"

text \<open>Well-formed: a word has a character that is not a digit, and the numbers fit an int.\<close>

definition ident_ok :: "semver_ident \<Rightarrow> bool" where
  "ident_ok i =
     (case i of
        NumIdent n \<Rightarrow> n < 2 ^ 63
      | WordIdent w \<Rightarrow> (\<forall>c\<in>set w. is_alnum c \<or> c = CHR ''-'') \<and> (\<exists>c\<in>set w. \<not> is_digit c))"

definition semver_ok :: "semver \<Rightarrow> bool" where
  "semver_ok v \<longleftrightarrow> sm_major v < 2 ^ 63 \<and> sm_minor v < 2 ^ 63 \<and> sm_patch v < 2 ^ 63 \<and> list_all ident_ok (sm_pre v) \<and>
     (case sm_build v of None \<Rightarrow> True | Some b \<Rightarrow> CHR 0x0A \<notin> set b)"

text \<open>Precedence, as the specification states it: by major, minor and patch; then a prerelease comes before its release, and
  prereleases are compared identifier by identifier, numbers by value and before words, words as ASCII text, and a proper prefix first.
  Build metadata does not count.\<close>

fun ident_less :: "semver_ident \<Rightarrow> semver_ident \<Rightarrow> bool" where
  "ident_less (NumIdent m) (NumIdent n) = (m < n)"
| "ident_less (NumIdent m) (WordIdent w) = True"
| "ident_less (WordIdent w) (NumIdent n) = False"
| "ident_less (WordIdent u) (WordIdent w) = (u < w)"

fun idents_less :: "semver_ident list \<Rightarrow> semver_ident list \<Rightarrow> bool" where
  "idents_less xs [] = False"
| "idents_less [] (y # ys) = True"
| "idents_less (x # xs) (y # ys) = (ident_less x y \<or> x = y \<and> idents_less xs ys)"

definition pre_less :: "semver_ident list \<Rightarrow> semver_ident list \<Rightarrow> bool" where
  "pre_less xs ys = (if xs = [] then False else if ys = [] then True else idents_less xs ys)"

definition semver_less :: "semver \<Rightarrow> semver \<Rightarrow> bool" where
  "semver_less a b \<longleftrightarrow>
     sm_major a < sm_major b \<or>
     sm_major a = sm_major b \<and> (sm_minor a < sm_minor b \<or>
       sm_minor a = sm_minor b \<and> (sm_patch a < sm_patch b \<or>
         sm_patch a = sm_patch b \<and> pre_less (sm_pre a) (sm_pre b)))"

text \<open>A version is a pseudo-version with a timestamp and a commit, or a release.  Every pseudo-version is older than every release.\<close>

datatype release = Pseudo string string | Release semver

fun older :: "release \<Rightarrow> release \<Rightarrow> bool" where
  "older (Pseudo t c) (Pseudo t' c') = (t < t' \<or> t = t' \<and> c < c')"
| "older (Pseudo t c) (Release b) = True"
| "older (Release a) (Pseudo t c) = False"
| "older (Release a) (Release b) = semver_less a b"

definition denotes :: "Version \<Rightarrow> release \<Rightarrow> bool" where
  "denotes v x \<longleftrightarrow>
     (case x of
        Pseudo t c \<Rightarrow> IsPseudo v \<and> v = ''v0.0.0-'' @ t @ ''-'' @ c \<and> length t = 14 \<and> length c = 12
      | Release r \<Rightarrow> \<not> IsPseudo v \<and> v = semver_text r \<and> semver_ok r)"

lemma nat_digits_digit: "c \<in> set (nat_digits n) \<Longrightarrow> is_digit c"
proof (induction n rule: nat_digits.induct)
  case (1 n)
  then show ?case by (cases "n < 10") (auto simp: nat_digits.simps[of n] is_digit_def byte_of_def)
qed

lemma nat_digits_nonempty [simp]: "nat_digits n \<noteq> []"
  by (simp add: nat_digits.simps[of n])

lemma decimal_nat_digits [simp]: "decimal (nat_digits n) = int n"
proof (induction n rule: nat_digits.induct)
  case (1 n)
  have val: "digit_val (char_of (48 + m)) = int m" if "m < 10" for m using that by (simp add: digit_val_def byte_of_def)
  show ?case
  proof (cases "n < 10")
    case True
    then show ?thesis using val[of n] decimal_snoc[of "[]"] by (simp add: nat_digits.simps[of n])
  next
    case False
    then have "decimal (nat_digits n) = 10 * int (n div 10) + int (n mod 10)"
      using 1 val[of "n mod 10"] by (simp add: nat_digits.simps[of n])
    also have "\<dots> = int n" by presburger
    finally show ?thesis .
  qed
qed

lemma hd_nat_digits: "n \<noteq> 0 \<Longrightarrow> hd (nat_digits n) \<noteq> CHR ''0''"
proof (induction n rule: nat_digits.induct)
  case (1 n)
  have "char_of (48 + m) \<noteq> CHR ''0''" if "0 < m" "m < 10" for m :: nat
    using that by (auto simp: byte_of_def simp flip: of_char_eq_iff[where 'a = nat])
  then show ?case using 1 by (cases "n < 10") (auto simp: nat_digits.simps[of n] hd_append)
qed

lemma Atoi_nat_digits [simp]: "n < 2 ^ 63 \<Longrightarrow> Atoi (nat_digits n) = Some (int n)"
proof -
  assume "n < 2 ^ 63"
  then have "int n < 2 ^ 63" by (metis of_nat_less_iff of_nat_numeral of_nat_power)
  then show ?thesis using nat_digits_digit by (auto simp: Atoi_def)
qed

lemma num_group_digits: "r = [] \<or> \<not> is_digit (hd r) \<Longrightarrow> num_group (nat_digits n @ r) = Some (nat_digits n, r)"
proof -
  have all: "\<forall>c\<in>set (nat_digits n). is_digit c" using nat_digits_digit by blast
  then have tw: "takeWhile is_digit (nat_digits n) = nat_digits n" "dropWhile is_digit (nat_digits n) = []"
    by (simp_all add: takeWhile_eq_all_conv dropWhile_eq_Nil_conv)
  show "r = [] \<or> \<not> is_digit (hd r) \<Longrightarrow> ?thesis"
    using all by (cases r) (simp_all add: num_group_def Let_def tw takeWhile_append2 dropWhile_append2)
qed

lemma parseNumeric_Num: "n < 2 ^ 63 \<Longrightarrow> parseNumericIdentifier (nat_digits n) = Some (int n)"
  using nat_digits_digit by (auto simp: parseNumericIdentifier_def)

lemma ident_key_Num [simp]: "ident_ok (NumIdent n) \<Longrightarrow> ident_key (nat_digits n) = (0, int n, [])"
  by (simp add: ident_key_def ident_ok_def parseNumeric_Num)

lemma ident_key_Word [simp]: "ident_ok (WordIdent w) \<Longrightarrow> ident_key w = (1, 0, w)"
  by (auto simp: ident_key_def ident_ok_def parseNumericIdentifier_def)

lemma ident_text_canonical: "ident_ok i \<Longrightarrow> canonical_ident (ident_text i)"
proof (cases i)
  case (NumIdent n)
  then show ?thesis using hd_nat_digits[of n] by (cases "n = 0") (auto simp: canonical_ident_def nat_digits.simps[of 0])
qed (auto simp: canonical_ident_def ident_ok_def parseNumericIdentifier_def)

lemma ident_text_chars: "ident_ok i \<Longrightarrow> ident_text i \<noteq> [] \<and> (\<forall>c\<in>set (ident_text i). is_alnum c \<or> c = CHR ''-'')"
  using nat_digits_digit by (cases i) (auto simp: ident_ok_def is_alnum_def)

lemma dot_char: "\<not> is_alnum (CHR ''.'')"
  by (simp add: is_alnum_def is_digit_def byte_of_def is_lower_def is_upper_def)

lemma pre_text_split:
  assumes "list_all ident_ok ids" "ids \<noteq> []"
  shows "Split (CHR ''.'') (Join ''.'' (map ident_text ids)) = map ident_text ids"
    "Join ''.'' (map ident_text ids) \<noteq> []" "\<forall>c\<in>set (Join ''.'' (map ident_text ids)). is_pre_char c"
proof -
  show sp: "Split (CHR ''.'') (Join ''.'' (map ident_text ids)) = map ident_text ids"
    using assms ident_text_chars dot_char by (intro Split_Join) (fastforce simp: list_all_iff)+
  show "Join ''.'' (map ident_text ids) \<noteq> []"
    using assms ident_text_chars by (cases ids rule: list.exhaust; cases "tl ids") (auto simp: Join_Cons)
  show "\<forall>c\<in>set (Join ''.'' (map ident_text ids)). is_pre_char c"
    using assms(1)
  proof (induction ids)
    case (Cons i ids)
    have "\<forall>c\<in>set (ident_text i). is_pre_char c" using Cons.prems ident_text_chars[of i] by (auto simp: is_pre_char_def)
    then show ?case using Cons by (cases ids) (auto simp: Join_Cons is_pre_char_def)
  qed simp
qed

definition pre_text :: "semver_ident list \<Rightarrow> string" where
  "pre_text ids = (if ids = [] then [] else Join ''.'' (map ident_text ids))"

lemma parse_semver_text:
  assumes "semver_ok v"
  shows "parseSemver (semver_text v) =
    Some \<lparr>ps_major = int (sm_major v), ps_minor = int (sm_minor v), ps_patch = int (sm_patch v), ps_pre = pre_text (sm_pre v)\<rparr>"
proof -
  let ?b = "case sm_build v of None \<Rightarrow> [] | Some b \<Rightarrow> ''+'' @ b"
  let ?t = "(if sm_pre v = [] then [] else ''-'' @ Join ''.'' (map ident_text (sm_pre v))) @ ?b"
  have b: "build_part ?b" "?b = [] \<or> hd ?b = CHR ''+''" using assms by (auto simp: semver_ok_def build_part_def split: option.splits)
  have nd: "\<not> is_digit (CHR ''.'')" "\<not> is_digit (CHR ''-'')" "\<not> is_digit (CHR ''+'')" "\<not> is_pre_char (CHR ''+'')"
    by (simp_all add: is_digit_def byte_of_def is_pre_char_def is_alnum_def is_lower_def is_upper_def)
  have pre: "pre_group ?t = Some (pre_text (sm_pre v))"
  proof (cases "sm_pre v = []")
    case True
    then show ?thesis using b by (cases ?b) (auto simp: pre_group_def lit_then_def pre_text_def)
  next
    case False
    note sp = pre_text_split[OF _ False]
    have "list_all ident_ok (sm_pre v)" using assms by (simp add: semver_ok_def)
    note sp = sp[OF this]
    have "takeWhile is_pre_char (Join ''.'' (map ident_text (sm_pre v)) @ ?b) = Join ''.'' (map ident_text (sm_pre v))"
      "dropWhile is_pre_char (Join ''.'' (map ident_text (sm_pre v)) @ ?b) = ?b"
      using sp(3) b(2) nd(4) by (cases ?b; simp)+
    then show ?thesis using False sp(2) b(1) by (simp add: pre_group_def lit_then_def pre_text_def Let_def)
  qed
  have hd: "?t = [] \<or> \<not> is_digit (hd ?t)" using b(2) nd by (auto simp: hd_append)
  have "semverStrict_groups (semver_text v) = Some (nat_digits (sm_major v), nat_digits (sm_minor v), nat_digits (sm_patch v), pre_text (sm_pre v))"
    unfolding semverStrict_groups_def semver_text_def
    using pre num_group_digits[OF hd] nd by (simp add: lit_then_def num_group_digits)
  then show ?thesis using assms by (simp add: parseSemver_def semver_ok_def)
qed

lemma ident_less_key:
  "ident_ok x \<Longrightarrow> ident_ok y \<Longrightarrow> ident_less x y \<longleftrightarrow> ident_key (ident_text x) < ident_key (ident_text y)"
  by (cases x; cases y) auto

lemma idents_less_key:
  "list_all ident_ok xs \<Longrightarrow> list_all ident_ok ys \<Longrightarrow>
     idents_less xs ys \<longleftrightarrow> map (\<lambda>i. ident_key (ident_text i)) xs < map (\<lambda>i. ident_key (ident_text i)) ys"
proof (induction xs ys rule: idents_less.induct)
  case (3 x xs y ys)
  have "ident_key (ident_text x) = ident_key (ident_text y) \<longleftrightarrow> x = y"
    using 3(2,3) by (cases x; cases y) auto
  then show ?case using 3 ident_less_key[of x y] by auto
qed (auto simp: neq_Nil_conv)

lemma pre_less_key:
  assumes "list_all ident_ok xs" "list_all ident_ok ys"
  shows "pre_less xs ys \<longleftrightarrow> pre_key (pre_text xs) < pre_key (pre_text ys)"
  using idents_less_key[OF assms] pre_text_split[OF assms(1)] pre_text_split[OF assms(2)]
  by (auto simp: pre_less_def pre_key_def pre_text_def comp_def)

lemma denotes_canonical: "denotes v x \<Longrightarrow> canonical_version v"
proof (cases x)
  case (Release r)
  assume "denotes v x"
  then have r: "\<not> IsPseudo v" "v = semver_text r" "semver_ok r" by (auto simp: denotes_def Release)
  then have "list_all ident_ok (sm_pre r)" by (simp add: semver_ok_def)
  then have "list_all canonical_ident (Split (CHR ''.'') (pre_text (sm_pre r)))"
    using pre_text_split(1) ident_text_canonical
    by (cases "sm_pre r = []") (auto simp: pre_text_def list_all_iff canonical_ident_def parseNumericIdentifier_def)
  then show ?thesis using r by (simp add: canonical_version_def parse_semver_text)
qed (auto simp: denotes_def canonical_version_def simp del: append_Cons)

lemma denotes_key:
  assumes "denotes v x"
  shows "version_key v =
    (case x of
       Pseudo t c \<Rightarrow> (0, (t, c), (0, 0, 0), (0, []))
     | Release r \<Rightarrow> (1, ([], []), (int (sm_major r), int (sm_minor r), int (sm_patch r)), pre_key (pre_text (sm_pre r))))"
  using assms pseudo_groups[of v]
  by (cases x) (auto simp: denotes_def version_key_def parse_semver_text)

lemma older_compare:
  assumes "denotes a x" "denotes b y"
  shows "older x y \<longleftrightarrow> compareVersions a b < 0"
proof -
  have "older x y \<longleftrightarrow> version_key a < version_key b"
  proof (cases x; cases y)
    fix r q assume xy: "x = Release r" "y = Release q"
    then have "list_all ident_ok (sm_pre r)" "list_all ident_ok (sm_pre q)" using assms by (auto simp: denotes_def semver_ok_def)
    from pre_less_key[OF this] show ?thesis
      using xy denotes_key[OF assms(1)] denotes_key[OF assms(2)] by (auto simp: semver_less_def)
  qed (use denotes_key[OF assms(1)] denotes_key[OF assms(2)] in auto)
  then show ?thesis
    using compareVersions_key[OF denotes_canonical[OF assms(1)] denotes_canonical[OF assms(2)]] by (auto simp: cmp_def)
qed

section \<open>Collected versions\<close>

lemma collect_versions_set:
  "set (collect_versions tags vs) = set vs \<union> {v \<in> set tags. is_ok (ParseVersion v)}"
proof (induction tags arbitrary: vs)
  case (Cons t tags)
  show ?case
  proof (cases "ParseVersion t")
    case (Inl e)
    then have "\<not> is_ok (ParseVersion t)" by simp
    then show ?thesis using Cons Inl by auto
  next
    case (Inr v)
    then have "v = t" "is_ok (ParseVersion t)" using ParseVersion_Inr by auto
    then show ?thesis using Cons Inr by auto
  qed
qed simp

lemma collect_versions_distinct: "distinct vs \<Longrightarrow> distinct (collect_versions tags vs)"
  by (induction tags arbitrary: vs) (auto split: sum.splits)

lemma set_sortVersionsDesc [simp]: "set (sortVersionsDesc vs) = set vs"
  by (simp add: sortVersionsDesc_def)

lemma distinct_sortVersionsDesc [simp]: "distinct (sortVersionsDesc vs) = distinct vs"
  by (simp add: sortVersionsDesc_def)

section \<open>Properties\<close>

text \<open>
  The version comparison is antisymmetric on all strings: swapping the arguments negates
  the result, and comparing a version with itself gives zero.
\<close>

lemma compareVersions_antisym:
  "compareVersions b a = - compareVersions a b \<and> compareVersions a a = 0"
  using compareVersions_anti[of b a] by simp

text \<open>
  C31.  Sorting newest first follows the semver specification: for versions that are pseudo-versions or print a semver version
  (numbers that fit an int), the result has the same versions, and no version is older than one after it, by the precedence of the
  specification on releases (major, minor, patch, prerelease identifiers; build metadata does not count), with pseudo-versions before
  all releases, by timestamp and then commit.  So the first one, which an upgrade picks, is older than none.
\<close>

theorem sortVersionsDesc_newest_first:
  assumes "\<forall>v\<in>set vs. \<exists>x. denotes v x"
  shows "mset (sortVersionsDesc vs) = mset vs \<and>
    sorted_wrt (\<lambda>a b. \<forall>x y. denotes a x \<and> denotes b y \<longrightarrow> \<not> older x y) (sortVersionsDesc vs) \<and>
    (\<forall>v\<in>set vs. \<forall>x y. denotes (hd (sortVersionsDesc vs)) x \<and> denotes v y \<longrightarrow> \<not> older x y)"
proof -
  have "weak_order_on (set vs) (\<lambda>a b. compareVersions a b > 0)"
    using assms denotes_canonical by (intro weak_order_on_subset[OF compareVersions_weak_order]) auto
  from sorted_go_sort[OF this]
  have srt: "sorted_wrt (\<lambda>a b. compareVersions a b \<ge> 0) (sortVersionsDesc vs)"
    unfolding sortVersionsDesc_def
    by (rule sorted_wrt_mono_rel[rotated])
      (metis compareVersions_anti neg_le_0_iff_le not_le)
  moreover have "compareVersions (hd (sortVersionsDesc vs)) v \<ge> 0" if "v \<in> set vs" for v
  proof -
    have "v \<in> set (sortVersionsDesc vs)" using that by simp
    then show ?thesis using srt by (cases "sortVersionsDesc vs") auto
  qed
  moreover have "\<forall>x y. denotes a x \<and> denotes b y \<longrightarrow> \<not> older x y" if "compareVersions a b \<ge> 0" for a b
    using that older_compare by force
  ultimately have "sorted_wrt (\<lambda>a b. \<forall>x y. denotes a x \<and> denotes b y \<longrightarrow> \<not> older x y) (sortVersionsDesc vs)"
    "\<forall>v\<in>set vs. \<forall>x y. denotes (hd (sortVersionsDesc vs)) x \<and> denotes v y \<longrightarrow> \<not> older x y"
    by (blast intro: sorted_wrt_mono_rel[rotated])+
  then show ?thesis by (simp add: sortVersionsDesc_def)
qed

definition demo_release :: "nat \<Rightarrow> nat \<Rightarrow> semver_ident list \<Rightarrow> release" where
  "demo_release minor patch pre = Release \<lparr>sm_major = 1, sm_minor = minor, sm_patch = patch, sm_pre = pre, sm_build = None\<rparr>"

theorem sortVersionsDesc_newest_first_witness:
  "hd (sortVersionsDesc [''v1.2.0'', ''v1.10.0'', ''v1.10.0-rc.1'']) = ''v1.10.0'' \<and>
   \<not> older (demo_release 10 0 []) (demo_release 2 0 []) \<and> \<not> older (demo_release 10 0 []) (demo_release 10 0 [WordIdent ''rc'', NumIdent 1])"
proof -
  let ?vs = "[''v1.2.0'', ''v1.10.0'', ''v1.10.0-rc.1'']"
  have p: "\<not> IsPseudo ''v1.2.0''" "\<not> IsPseudo ''v1.10.0''" "\<not> IsPseudo ''v1.10.0-rc.1''" by code_simp+
  have t: "semver_text \<lparr>sm_major = 1, sm_minor = 2, sm_patch = 0, sm_pre = [], sm_build = None\<rparr> = ''v1.2.0''"
    "semver_text \<lparr>sm_major = 1, sm_minor = 10, sm_patch = 0, sm_pre = [], sm_build = None\<rparr> = ''v1.10.0''"
    "semver_text \<lparr>sm_major = 1, sm_minor = 10, sm_patch = 0, sm_pre = [WordIdent ''rc'', NumIdent 1], sm_build = None\<rparr> = ''v1.10.0-rc.1''"
    by code_simp+
  have d: "denotes ''v1.2.0'' (demo_release 2 0 [])" "denotes ''v1.10.0'' (demo_release 10 0 [])" "denotes ''v1.10.0-rc.1'' (demo_release 10 0 [WordIdent ''rc'', NumIdent 1])"
    using p t by (simp_all add: denotes_def demo_release_def semver_ok_def ident_ok_def is_alnum_def is_digit_def is_lower_def byte_of_def)
  then have "\<forall>v\<in>set ?vs. \<exists>x. denotes v x" by auto
  note S = sortVersionsDesc_newest_first[OF this]
  have "hd (sortVersionsDesc ?vs) = ''v1.10.0''" by code_simp
  then show ?thesis using S d by auto
qed

text \<open>
   Outside canonical versions the comparison is not an order: a version number too large for
  an int is compared as text, so three versions that \<open>ParseVersion\<close> accepts are each
  newer than the next in a cycle.
\<close>

lemma compareVersions_cycle:
  "is_ok (ParseVersion ''v11111111111111111111.0.0'') \<and> is_ok (ParseVersion ''v10.0.0'') \<and>
   is_ok (ParseVersion ''v2.0.0'') \<and>
   compareVersions ''v11111111111111111111.0.0'' ''v10.0.0'' > 0 \<and>
   compareVersions ''v10.0.0'' ''v2.0.0'' > 0 \<and>
   compareVersions ''v2.0.0'' ''v11111111111111111111.0.0'' > 0"
  by code_simp

text \<open>
  Listing versions from release tags returns exactly the tags that are valid versions,
  each once, whatever order or repetition the tags have.
\<close>

lemma GitHub_ListVersions_exact:
  "set (GitHub_ListVersions tags) = {v \<in> set tags. is_ok (ParseVersion v)} \<and>
   distinct (GitHub_ListVersions tags)"
  by (simp add: GitHub_ListVersions_def collect_versions_set collect_versions_distinct)

end
