(* ===== verification/Go_Path.thy ===== *)
theory Go_Path
  imports Go_Strings
begin

text \<open>
  The \<open>path\<close> package (on Unix \<open>path/filepath\<close> is the same functions):
  \<open>Clean\<close>, \<open>Dir\<close>, \<open>Base\<close>, \<open>Ext\<close>, \<open>Join\<close>.
  \<open>Clean\<close> is written over the slash-separated elements.  Rooted clean paths are in
  bijection with lists of proper elements (\<open>abs_path\<close>), which is how the file-system
  components reason about parents and subtrees.
\<close>

abbreviation slash :: char where "slash \<equiv> CHR ''/''"

fun clean_segs :: "bool \<Rightarrow> string list \<Rightarrow> string list \<Rightarrow> string list" where
  "clean_segs rooted st [] = rev st"
| "clean_segs rooted st (x # xs) =
     (if x = '''' \<or> x = ''.'' then clean_segs rooted st xs
      else if x = ''..'' then
        (case st of
           [] \<Rightarrow> if rooted then clean_segs rooted [] xs else clean_segs rooted [''..''] xs
         | t # ts \<Rightarrow> if t = ''..'' then clean_segs rooted (''..'' # st) xs
                    else clean_segs rooted ts xs)
      else clean_segs rooted (x # st) xs)"

definition path_Clean :: "string \<Rightarrow> string" where
  "path_Clean p =
     (case p of
        [] \<Rightarrow> ''.''
      | c # r \<Rightarrow>
          if c = slash then slash # Join [slash] (clean_segs True [] (Split slash r))
          else (let s = Join [slash] (clean_segs False [] (Split slash p))
                in if s = [] then ''.'' else s))"

text \<open>The part of a path up to and including its last slash, and the part after it.\<close>

definition path_dir_part :: "string \<Rightarrow> string" where
  "path_dir_part p = rev (dropWhile (\<lambda>c. c \<noteq> slash) (rev p))"

definition path_file_part :: "string \<Rightarrow> string" where
  "path_file_part p = rev (takeWhile (\<lambda>c. c \<noteq> slash) (rev p))"

definition path_Dir :: "string \<Rightarrow> string" where
  "path_Dir p = path_Clean (path_dir_part p)"

definition path_Base :: "string \<Rightarrow> string" where
  "path_Base p =
     (if p = [] then ''.''
      else let q = rev (dropWhile (\<lambda>c. c = slash) (rev p)) in
           let b = path_file_part q in if b = [] then ''/'' else b)"

text \<open>\<open>path.Ext\<close>: the suffix from the last dot of the last element, empty without a dot.\<close>

definition path_Ext :: "string \<Rightarrow> string" where
  "path_Ext p =
     (let f = path_file_part p in
      if CHR ''.'' \<in> set f then CHR ''.'' # rev (takeWhile (\<lambda>c. c \<noteq> CHR ''.'') (rev f)) else '''')"

definition path_Join :: "string list \<Rightarrow> string" where
  "path_Join elems =
     (let es = filter (\<lambda>e. e \<noteq> []) elems in
      if es = [] then [] else path_Clean (Join [slash] es))"

section \<open>Rooted clean paths\<close>

definition proper_seg :: "string \<Rightarrow> bool" where
  "proper_seg s = (s \<noteq> '''' \<and> s \<noteq> ''.'' \<and> s \<noteq> ''..'' \<and> slash \<notin> set s)"

lemma proper_seg_dotdot [simp]: "\<not> proper_seg ''..''"
  by (simp add: proper_seg_def)

definition abs_path :: "string list \<Rightarrow> string" where
  "abs_path segs = slash # Join [slash] segs"

definition clean_abs :: "string \<Rightarrow> bool" where
  "clean_abs p = (path_Clean p = p \<and> HasPrefix p ''/'')"

lemma abs_path_Nil [simp]: "abs_path [] = ''/''"
  by (simp add: abs_path_def)

lemma Join_snoc: "xs \<noteq> [] \<Longrightarrow> Join [c] (xs @ [x]) = Join [c] xs @ c # x"
  by (induction xs rule: induct_list012) auto

lemma abs_path_snoc: "xs \<noteq> [] \<Longrightarrow> abs_path (xs @ [x]) = abs_path xs @ slash # x"
  by (simp add: abs_path_def Join_snoc)

lemma clean_segs_proper:
  assumes "\<forall>x\<in>set xs. slash \<notin> set x" "\<forall>s\<in>set st. proper_seg s"
  shows "\<forall>s\<in>set (clean_segs True st xs). proper_seg s"
  using assms
proof (induction xs arbitrary: st)
  case (Cons x xs)
  show ?case
  proof (cases "x = '''' \<or> x = ''.'' \<or> x = ''..''")
    case True
    have "clean_segs True st (x # xs) = clean_segs True st xs \<or>
        clean_segs True st (x # xs) = clean_segs True (tl st) xs"
      using True Cons.prems(2) by (cases st) (auto simp del: clean_segs.simps(1))
    moreover have "\<forall>s\<in>set (tl st). proper_seg s"
      using Cons.prems(2) by (cases st) simp_all
    moreover have "\<forall>y\<in>set xs. slash \<notin> set y"
      using Cons.prems(1) by simp
    ultimately show ?thesis
      using Cons.IH[of st] Cons.IH[of "tl st"] Cons.prems(2) by metis
  next
    case False
    have eq: "clean_segs True st (x # xs) = clean_segs True (x # st) xs"
      using False by simp
    have "proper_seg x" using False Cons.prems by (simp add: proper_seg_def)
    then have "\<forall>s\<in>set (clean_segs True (x # st) xs). proper_seg s"
      using Cons.prems by (intro Cons.IH) auto
    then show ?thesis unfolding eq .
  qed
qed simp

lemma clean_segs_id:
  assumes "\<forall>s\<in>set xs. proper_seg s"
  shows "clean_segs r st xs = rev st @ xs"
  using assms by (induction xs arbitrary: st) (auto simp: proper_seg_def)

lemma path_Clean_rooted:
  "path_Clean (slash # r) = abs_path (clean_segs True [] (Split slash r))"
  by (simp add: path_Clean_def abs_path_def)

lemma clean_segs_empty: "clean_segs True st [''''] = rev st"
  by simp

lemma path_Clean_abs_path [go_path]:
  assumes "\<forall>s\<in>set segs. proper_seg s"
  shows "path_Clean (abs_path segs) = abs_path segs"
proof (cases "segs = []")
  case False
  then have "Split slash (Join [slash] segs) = segs"
    using assms by (intro Split_Join) (auto simp: proper_seg_def)
  then show ?thesis
    using assms by (simp add: abs_path_def[of segs] path_Clean_rooted clean_segs_id)
qed (simp add: path_Clean_def)

lemma abs_path_inj [go_path]:
  assumes "abs_path xs = abs_path ys" "\<forall>s\<in>set xs. proper_seg s" "\<forall>s\<in>set ys. proper_seg s"
  shows "xs = ys"
proof -
  have eq: "Join [slash] xs = Join [slash] ys"
    using assms(1) by (simp add: abs_path_def)
  have empty: "Join [slash] zs = [] \<Longrightarrow> zs = []" if "\<forall>s\<in>set zs. proper_seg s" for zs
    using that by (cases zs rule: remdups_adj.cases) (auto simp: proper_seg_def)
  show ?thesis
  proof (cases "xs = [] \<or> ys = []")
    case True
    then show ?thesis using eq empty[OF assms(2)] empty[OF assms(3)] by auto
  next
    case False
    then show ?thesis
      using eq assms(2,3) Split_Join[of xs slash] Split_Join[of ys slash]
      by (metis proper_seg_def)
  qed
qed

theorem clean_abs_iff: "clean_abs p \<longleftrightarrow> (\<exists>segs. p = abs_path segs \<and> (\<forall>s\<in>set segs. proper_seg s))"
proof
  assume p: "clean_abs p"
  then obtain r where r: "p = slash # r" by (auto simp: clean_abs_def HasPrefix_iff)
  have "\<forall>s\<in>set (clean_segs True [] (Split slash r)). proper_seg s"
    by (rule clean_segs_proper) (auto dest: Split_parts_free)
  then show "\<exists>segs. p = abs_path segs \<and> (\<forall>s\<in>set segs. proper_seg s)"
    using p r path_Clean_rooted by (metis clean_abs_def)
next
  assume "\<exists>segs. p = abs_path segs \<and> (\<forall>s\<in>set segs. proper_seg s)"
  then show "clean_abs p"
    by (auto simp: clean_abs_def path_Clean_abs_path) (simp add: abs_path_def HasPrefix_def)
qed

lemma clean_abs_Clean [simp]: "clean_abs (path_Clean (slash # r))"
  unfolding path_Clean_rooted clean_abs_iff
  using clean_segs_proper[of "Split slash r" "[]"] Split_parts_free by fastforce

lemma clean_abs_nonempty: "clean_abs p \<Longrightarrow> p \<noteq> []"
  by (auto simp: clean_abs_iff abs_path_def)

lemma clean_abs_root [simp]: "clean_abs ''/''"
  by (simp add: clean_abs_def path_Clean_def HasPrefix_def)

section \<open>Parents and subtrees\<close>

lemma path_dir_part_snoc:
  "slash \<notin> set x \<Longrightarrow> path_dir_part (p @ slash # x) = p @ [slash]"
proof -
  assume "slash \<notin> set x"
  then have "dropWhile (\<lambda>c. c \<noteq> slash) (rev x @ slash # rev p) = slash # rev p"
    by (subst dropWhile_append2) auto
  then show ?thesis by (simp add: path_dir_part_def)
qed

lemma clean_segs_snoc_empty: "clean_segs True st (xs @ ['''']) = clean_segs True st xs"
  by (induction True st xs rule: clean_segs.induct) (auto split: list.splits)

lemma Split_snoc_sep: "Split c (s @ [c]) = Split c s @ [[]]"
proof (induction s)
  case (Cons x xs)
  obtain w ws where "Split c xs = w # ws" by (cases "Split c xs") auto
  with Cons show ?case by auto
qed simp

lemma path_Clean_trailing_slash: "path_Clean (slash # r @ [slash]) = path_Clean (slash # r)"
  by (simp add: path_Clean_rooted Split_snoc_sep clean_segs_snoc_empty)

theorem path_Dir_snoc [go_path]:
  assumes "\<forall>s\<in>set (xs @ [x]). proper_seg s"
  shows "path_Dir (abs_path (xs @ [x])) = abs_path xs"
proof (cases "xs = []")
  case True
  have "path_dir_part (slash # x) = [slash]"
    using path_dir_part_snoc[of x "[]"] assms by (simp add: proper_seg_def)
  then show ?thesis using True by (simp add: path_Dir_def abs_path_def path_Clean_def)
next
  case False
  then have "path_Dir (abs_path (xs @ [x])) = path_Clean (abs_path xs @ [slash])"
    using assms by (simp add: path_Dir_def abs_path_snoc path_dir_part_snoc proper_seg_def)
  also have "\<dots> = path_Clean (abs_path xs)"
    by (simp add: abs_path_def path_Clean_trailing_slash)
  finally show ?thesis using assms by (simp add: path_Clean_abs_path)
qed

lemma path_Base_below:
  assumes "proper_seg x"
  shows "path_Base (d @ slash # x) = x"
proof -
  have x: "x \<noteq> []" "slash \<notin> set x" using assms by (auto simp: proper_seg_def)
  then obtain y ys where "rev x = y # ys" "y \<noteq> slash"
    by (cases "rev x") (auto simp flip: set_rev[of x])
  then have "dropWhile (\<lambda>c. c = slash) (rev x @ slash # rev d) = rev x @ slash # rev d" by simp
  moreover have "takeWhile (\<lambda>c. c \<noteq> slash) (rev x @ slash # rev d) = rev x"
    using x by (subst takeWhile_append2) auto
  ultimately show ?thesis
    using x by (simp add: path_Base_def path_file_part_def Let_def)
qed

lemma path_Base_snoc:
  assumes "proper_seg x"
  shows "path_Base (abs_path (xs @ [x])) = x"
  using path_Base_below[OF assms] path_Base_below[OF assms, of "[]"]
  by (cases "xs = []") (simp add: abs_path_def, simp add: abs_path_snoc)

lemma last_sep_unique:
  "a @ c # z = b @ c # r \<Longrightarrow> c \<notin> set z \<Longrightarrow> c \<notin> set r \<Longrightarrow> a = b \<and> z = r"
  by (auto simp: append_eq_append_conv2 Cons_eq_append_conv append_eq_Cons_conv)

lemma path_Dir_root [simp]: "path_Dir ''/'' = ''/''"
  by (simp add: path_Dir_def path_dir_part_def path_Clean_def)

lemma clean_abs_Dir [simp]: "clean_abs p \<Longrightarrow> clean_abs (path_Dir p)"
proof -
  assume "clean_abs p"
  then obtain segs where p: "p = abs_path segs" "\<forall>s\<in>set segs. proper_seg s"
    by (auto simp: clean_abs_iff)
  then show ?thesis
  proof (cases segs rule: rev_cases)
    case (snoc xs x)
    then show ?thesis using p path_Dir_snoc[of xs x] by (auto simp: clean_abs_iff)
  qed simp
qed

text \<open>A path below another one extends its element list.\<close>

lemma Join_append:
  "xs \<noteq> [] \<Longrightarrow> ys \<noteq> [] \<Longrightarrow> Join [c] (xs @ ys) = Join [c] xs @ c # Join [c] ys"
  by (induction xs rule: induct_list012) (auto simp: Join_Cons)

lemma abs_path_append:
  "xs \<noteq> [] \<Longrightarrow> abs_path (xs @ ys) = abs_path xs @ (if ys = [] then [] else abs_path ys)"
  by (simp add: abs_path_def Join_append)

theorem abs_path_below [go_path]:
  assumes "\<forall>s\<in>set xs. proper_seg s" "\<forall>s\<in>set ys. proper_seg s" "xs \<noteq> []"
  shows "HasPrefix (abs_path ys) (abs_path xs @ ''/'') \<longleftrightarrow> (\<exists>z zs. ys = xs @ z # zs)"
proof
  assume "HasPrefix (abs_path ys) (abs_path xs @ ''/'')"
  then obtain r where "abs_path ys = abs_path xs @ slash # r"
    by (auto simp: HasPrefix_iff)
  then have j: "Join [slash] ys = Join [slash] xs @ slash # r"
    by (simp add: abs_path_def)
  then have "ys \<noteq> []" by auto
  have "Split slash (Join [slash] xs @ slash # r) = xs @ Split slash r"
    using assms(1,3)
  proof (induction xs rule: induct_list012)
    case (3 x y zs)
    then show ?case by (simp add: Split_append_sep proper_seg_def)
  qed (simp_all add: Split_append_sep proper_seg_def)
  moreover have "Split slash (Join [slash] ys) = ys"
    using assms(2) \<open>ys \<noteq> []\<close> by (intro Split_Join) (auto simp: proper_seg_def)
  ultimately have "ys = xs @ Split slash r" using j by simp
  then show "\<exists>z zs. ys = xs @ z # zs" by (cases "Split slash r") auto
next
  assume "\<exists>z zs. ys = xs @ z # zs"
  then obtain z zs where "ys = xs @ z # zs" by blast
  then have "abs_path ys = abs_path xs @ abs_path (z # zs)"
    using abs_path_append[OF assms(3), of "z # zs"] by simp
  then have "abs_path ys = (abs_path xs @ ''/'') @ Join [slash] (z # zs)"
    by (simp add: abs_path_def)
  then show "HasPrefix (abs_path ys) (abs_path xs @ ''/'')"
    by (metis HasPrefix_append)
qed

lemma hd_Join: "ws \<noteq> [] \<Longrightarrow> hd ws \<noteq> [] \<Longrightarrow> hd (Join sep ws) = hd (hd ws)"
  by (cases ws rule: remdups_adj.cases) auto

lemma abs_path_below_root:
  assumes "\<forall>s\<in>set ys. proper_seg s"
  shows "\<not> HasPrefix (abs_path ys) ''//''"
proof
  assume "HasPrefix (abs_path ys) ''//''"
  then obtain r where r: "Join [slash] ys = slash # r"
    by (auto simp: abs_path_def HasPrefix_iff)
  then have ne: "ys \<noteq> []" by auto
  then have "proper_seg (hd ys)" using assms by simp
  then have "hd ys \<noteq> []" "hd (hd ys) \<noteq> slash"
    unfolding proper_seg_def by (simp, metis list.set_sel(1))
  then show False using hd_Join[OF ne] r by (metis list.sel(1))
qed

end
