(* ===== verification/MemFs.thy ===== *)
theory MemFs
  imports Go_Path "HOL-Library.Word"
begin

text \<open>
  Component \<open>vfs/memfs.go\<close>: the in-memory file system the WASM guest works on.  The state
  is the map from clean absolute paths to nodes; each operation takes the state (and the current
  time where the code calls \<open>time.Now\<close>) and returns the error or the new state.  Errors
  keep the message text, because the server classifies them by it.  File positions are 64-bit
  integers with wrap-around, and an operation that makes a slice of impossible size or slices out
  of range panics, which is an outcome of its own.
\<close>

section \<open>Data\<close>

record memNode =
  n_isDir :: bool
  n_data :: bytes
  n_modTime :: "64 word"

type_synonym MemFS = "(string, memNode) gomap"

datatype vfs_error = VEOF | VErr string

datatype 'a outcome = Done 'a | Panic

record MetadataWire =
  md_IsDir :: bool
  md_IsFile :: bool
  md_Len :: "64 word"
  md_Accessed :: "64 word"
  md_Created :: "64 word"
  md_Modified :: "64 word"

record DirEntryWire =
  de_Name :: string
  de_Meta :: MetadataWire

record OpenOpts =
  oo_Read :: bool
  oo_Write :: bool
  oo_Create :: bool
  oo_CreateNew :: bool
  oo_Append :: bool
  oo_Truncate :: bool

record memFileHandle =
  h_path :: string
  h_pos :: int
  h_read :: bool
  h_write :: bool
  h_append :: bool

text \<open>\<open>int64\<close> arithmetic wraps; \<open>make([]byte, n)\<close> panics on a negative length or
  one above the largest allocation of the 64-bit runtime.\<close>

definition wrap64 :: "int \<Rightarrow> int" where
  "wrap64 x = (x + 2 ^ 63) mod 2 ^ 64 - 2 ^ 63"

definition make_ok :: "int \<Rightarrow> bool" where
  "make_ok n = (0 \<le> n \<and> n \<le> 2 ^ 48)"

section \<open>Operations on paths\<close>

definition NewMemFS :: "64 word \<Rightarrow> MemFS" where
  "NewMemFS now = [(''/'', \<lparr>n_isDir = True, n_data = [], n_modTime = now\<rparr>)]"

definition cleanPath :: "string \<Rightarrow> string" where
  "cleanPath p = path_Clean (''/'' @ p)"

definition nodeMetadata :: "memNode \<Rightarrow> MetadataWire" where
  "nodeMetadata node =
     \<lparr>md_IsDir = n_isDir node, md_IsFile = (\<not> n_isDir node),
      md_Len = of_nat (length (n_data node)),
      md_Accessed = n_modTime node, md_Created = n_modTime node, md_Modified = n_modTime node\<rparr>"

definition not_found :: "string \<Rightarrow> vfs_error" where
  "not_found p = VErr (''not found: '' @ p)"

definition Metadata :: "MemFS \<Rightarrow> string \<Rightarrow> vfs_error + MetadataWire" where
  "Metadata fs p0 =
     (let p = cleanPath p0 in
      case map_of fs p of
        None \<Rightarrow> Inl (not_found p)
      | Some node \<Rightarrow> Inr (nodeMetadata node))"

definition is_dir_at :: "MemFS \<Rightarrow> string \<Rightarrow> bool" where
  "is_dir_at fs p = (case map_of fs p of Some node \<Rightarrow> n_isDir node | None \<Rightarrow> False)"

fun readdir_loop :: "string \<Rightarrow> MemFS \<Rightarrow> string list \<Rightarrow> DirEntryWire list" where
  "readdir_loop prefix [] seen = []"
| "readdir_loop prefix ((name, child) # rest) seen =
     (if \<not> HasPrefix name prefix then readdir_loop prefix rest seen
      else let r = drop (length prefix) name in
        if r = [] \<or> Contains r ''/'' then readdir_loop prefix rest seen
        else if r \<in> set seen then readdir_loop prefix rest seen
        else \<lparr>de_Name = r, de_Meta = nodeMetadata child\<rparr> # readdir_loop prefix rest (r # seen))"

definition ReadDir :: "MemFS \<Rightarrow> string \<Rightarrow> vfs_error + DirEntryWire list" where
  "ReadDir fs p0 =
     (let p = cleanPath p0 in
      case map_of fs p of
        None \<Rightarrow> Inl (not_found p)
      | Some node \<Rightarrow>
          if \<not> n_isDir node then Inl (VErr (''not a directory: '' @ p))
          else let prefix = (if p \<noteq> ''/'' then p @ ''/'' else p) in
            Inr (go_sort (\<lambda>a b. de_Name a < de_Name b) (readdir_loop prefix fs [])))"

definition CreateDir :: "64 word \<Rightarrow> MemFS \<Rightarrow> string \<Rightarrow> vfs_error + MemFS" where
  "CreateDir now fs p0 =
     (let p = cleanPath p0 in
      if map_of fs p \<noteq> None then Inl (VErr (''already exists: '' @ p))
      else let parent = path_Dir p in
        if \<not> is_dir_at fs parent then Inl (VErr (''parent not found: '' @ parent))
        else Inr (AList.update p \<lparr>n_isDir = True, n_data = [], n_modTime = now\<rparr> fs))"

definition RemoveDir :: "MemFS \<Rightarrow> string \<Rightarrow> vfs_error + MemFS" where
  "RemoveDir fs p0 =
     (let p = cleanPath p0 in
      case map_of fs p of
        None \<Rightarrow> Inl (not_found p)
      | Some node \<Rightarrow>
          if \<not> n_isDir node then Inl (VErr (''not a directory: '' @ p))
          else if \<exists>(name, _)\<in>set fs. HasPrefix name (p @ ''/'')
          then Inl (VErr (''directory not empty: '' @ p))
          else Inr (AList.delete p fs))"

text \<open>One iteration of the loop that moves children: the node at the old name is stored under
  the new one, then the old name is deleted.  The old names are distinct keys of the map, so the
  old node is always there.\<close>

definition move_node :: "string \<times> string \<Rightarrow> MemFS \<Rightarrow> MemFS" where
  "move_node m fs =
     (case map_of fs (fst m) of
        None \<Rightarrow> fs
      | Some node \<Rightarrow> AList.delete (fst m) (AList.update (snd m) node fs))"

definition Rename :: "MemFS \<Rightarrow> string \<Rightarrow> string \<Rightarrow> vfs_error + MemFS" where
  "Rename fs from0 to0 =
     (let from = cleanPath from0; to = cleanPath to0 in
      case map_of fs from of
        None \<Rightarrow> Inl (not_found from)
      | Some node \<Rightarrow>
          let toParent = path_Dir to in
          if \<not> is_dir_at fs toParent then Inl (VErr (''destination parent not found: '' @ toParent))
          else
            let toMove = [(name, to @ drop (length from) name).
                           (name, _) \<leftarrow> fs, HasPrefix name (from @ ''/'')];
                fs1 = (if n_isDir node then fold move_node toMove fs else fs)
            in Inr (AList.delete from (AList.update to node fs1)))"

definition RemoveFile :: "MemFS \<Rightarrow> string \<Rightarrow> vfs_error + MemFS" where
  "RemoveFile fs p0 =
     (let p = cleanPath p0 in
      case map_of fs p of
        None \<Rightarrow> Inl (not_found p)
      | Some node \<Rightarrow>
          if n_isDir node then Inl (VErr (''is a directory: '' @ p))
          else Inr (AList.delete p fs))"

definition Readlink :: "MemFS \<Rightarrow> string \<Rightarrow> vfs_error + string" where
  "Readlink fs p = Inl (VErr ''symlinks not supported'')"

definition new_handle :: "string \<Rightarrow> OpenOpts \<Rightarrow> memFileHandle" where
  "new_handle p opts =
     \<lparr>h_path = p, h_pos = 0, h_read = oo_Read opts, h_write = oo_Write opts,
      h_append = oo_Append opts\<rparr>"

definition Open :: "64 word \<Rightarrow> MemFS \<Rightarrow> string \<Rightarrow> OpenOpts \<Rightarrow> vfs_error + (memFileHandle \<times> MemFS)" where
  "Open now fs p0 opts =
     (let p = cleanPath p0; parent = path_Dir p;
          fresh = AList.update p \<lparr>n_isDir = False, n_data = [], n_modTime = now\<rparr> fs in
      if oo_CreateNew opts then
        (if map_of fs p \<noteq> None then Inl (VErr (''already exists: '' @ p))
         else if \<not> is_dir_at fs parent then Inl (VErr (''parent not found: '' @ parent))
         else Inr (new_handle p opts, fresh))
      else if oo_Create opts \<and> map_of fs p = None then
        (if \<not> is_dir_at fs parent then Inl (VErr (''parent not found: '' @ parent))
         else Inr (new_handle p opts, fresh))
      else case map_of fs p of
          None \<Rightarrow> Inl (not_found p)
        | Some node \<Rightarrow>
            if n_isDir node then Inl (VErr (''is a directory: '' @ p))
            else if oo_Truncate opts \<and> oo_Write opts
            then Inr (new_handle p opts, AList.update p (node\<lparr>n_data := [], n_modTime := now\<rparr>) fs)
            else Inr (new_handle p opts, fs))"

definition ReadAll :: "MemFS \<Rightarrow> string \<Rightarrow> vfs_error + bytes" where
  "ReadAll fs p0 =
     (let p = cleanPath p0 in
      case map_of fs p of
        None \<Rightarrow> Inl (not_found p)
      | Some node \<Rightarrow>
          if n_isDir node then Inl (VErr (''is a directory: '' @ p)) else Inr (n_data node))"

definition WriteFile :: "64 word \<Rightarrow> MemFS \<Rightarrow> string \<Rightarrow> bytes \<Rightarrow> vfs_error + MemFS" where
  "WriteFile now fs p0 data =
     (let p = cleanPath p0; parent = path_Dir p in
      if \<not> is_dir_at fs parent then Inl (VErr (''parent not found: '' @ parent))
      else Inr (AList.update p \<lparr>n_isDir = False, n_data = data, n_modTime = now\<rparr> fs))"

section \<open>Operations on open files\<close>

definition file_deleted :: vfs_error where
  "file_deleted = VErr ''file deleted''"

definition file_Read ::
  "MemFS \<Rightarrow> memFileHandle \<Rightarrow> int \<Rightarrow> ((vfs_error + bytes \<times> int) \<times> memFileHandle) outcome" where
  "file_Read fs h len =
     (case map_of fs (h_path h) of
        None \<Rightarrow> Done (Inl file_deleted, h)
      | Some node \<Rightarrow>
          let size = int (length (n_data node)) in
          if h_pos h \<ge> size then Done (Inl VEOF, h)
          else
            let end0 = wrap64 (h_pos h + len); end1 = (if end0 > size then size else end0) in
            if \<not> make_ok (wrap64 (end1 - h_pos h)) \<or> \<not> (0 \<le> h_pos h \<and> h_pos h \<le> end1) then Panic
            else Done (Inr (take (nat (end1 - h_pos h)) (drop (nat (h_pos h)) (n_data node)),
                            end1 - h_pos h),
                       h\<lparr>h_pos := end1\<rparr>))"

definition file_Write ::
  "64 word \<Rightarrow> MemFS \<Rightarrow> memFileHandle \<Rightarrow> bytes
     \<Rightarrow> ((vfs_error + int) \<times> memFileHandle \<times> MemFS) outcome" where
  "file_Write now fs h data =
     (case map_of fs (h_path h) of
        None \<Rightarrow> Done (Inl file_deleted, h, fs)
      | Some node \<Rightarrow>
          let size = int (length (n_data node));
              pos = (if h_append h then size else h_pos h);
              end0 = wrap64 (pos + int (length data)) in
          if end0 > size \<and> \<not> make_ok end0 then Panic
          else
            let grown = (if end0 > size
                         then n_data node @ replicate (nat (end0 - size)) (CHR 0x00)
                         else n_data node) in
            if \<not> (0 \<le> pos \<and> pos \<le> end0 \<and> end0 \<le> int (length grown)) then Panic
            else
              Done (Inr (int (length data)), h\<lparr>h_pos := end0\<rparr>,
                    AList.update (h_path h)
                      (node\<lparr>n_data := take (nat pos) grown @ data @ drop (nat end0) grown,
                            n_modTime := now\<rparr>) fs))"

definition file_Seek ::
  "MemFS \<Rightarrow> memFileHandle \<Rightarrow> int \<Rightarrow> int \<Rightarrow> (vfs_error + int) \<times> memFileHandle" where
  "file_Seek fs h from offset =
     (case map_of fs (h_path h) of
        None \<Rightarrow> (Inl file_deleted, h)
      | Some node \<Rightarrow>
          if from \<noteq> 0 \<and> from \<noteq> 1 \<and> from \<noteq> 2
          then (Inl (VErr (''invalid seek origin: '' @ itoa from)), h)
          else
            let newPos =
                  (if from = 0 then offset
                   else if from = 1 then wrap64 (h_pos h + offset)
                   else wrap64 (int (length (n_data node)) + offset)) in
            if newPos < 0 then (Inl (VErr ''negative seek position''), h)
            else (Inr newPos, h\<lparr>h_pos := newPos\<rparr>))"

definition file_SetLen ::
  "64 word \<Rightarrow> MemFS \<Rightarrow> memFileHandle \<Rightarrow> int \<Rightarrow> (vfs_error + MemFS) outcome" where
  "file_SetLen now fs h newSize =
     (case map_of fs (h_path h) of
        None \<Rightarrow> Done (Inl file_deleted)
      | Some node \<Rightarrow>
          let size = int (length (n_data node)) in
          if size < newSize then
            (if \<not> make_ok newSize then Panic
             else Done (Inr (AList.update (h_path h)
               (node\<lparr>n_data := n_data node @ replicate (nat (newSize - size)) (CHR 0x00),
                     n_modTime := now\<rparr>) fs)))
          else if newSize < 0 then Panic
          else Done (Inr (AList.update (h_path h)
             (node\<lparr>n_data := take (nat newSize) (n_data node), n_modTime := now\<rparr>) fs)))"

section \<open>Well-formed file systems\<close>

text \<open>
  Every key is a clean absolute path, the root is a directory, and the parent of every other
  node is a directory.
\<close>

definition wf_fs :: "MemFS \<Rightarrow> bool" where
  "wf_fs fs =
     (gomap_ok fs \<and> is_dir_at fs ''/'' \<and>
      (\<forall>(p, _)\<in>set fs. clean_abs p \<and> (p = ''/'' \<or> is_dir_at fs (path_Dir p))))"

definition below :: "string \<Rightarrow> string \<Rightarrow> bool" where
  "below p q = HasPrefix q (p @ ''/'')"

lemma cleanPath_clean_abs [simp]: "clean_abs (cleanPath p)"
  by (simp add: cleanPath_def)

lemma wf_fs_iff:
  "wf_fs fs \<longleftrightarrow> gomap_ok fs \<and> is_dir_at fs ''/'' \<and>
     (\<forall>p. map_of fs p \<noteq> None \<longrightarrow> clean_abs p \<and> (p = ''/'' \<or> is_dir_at fs (path_Dir p)))"
proof (cases "gomap_ok fs")
  case True
  have "map_of fs p \<noteq> None \<longleftrightarrow> (\<exists>n. (p, n) \<in> set fs)" for p
    using gomap_in_set_iff[OF True] by auto
  then show ?thesis unfolding wf_fs_def using True by auto
qed (simp add: wf_fs_def)

lemma is_dir_at_Some: "is_dir_at fs p \<longleftrightarrow> (\<exists>n. map_of fs p = Some n \<and> n_isDir n)"
  by (auto simp: is_dir_at_def split: option.splits)

lemma is_dir_at_update: "is_dir_at (AList.update p n fs) q = (if q = p then n_isDir n else is_dir_at fs q)"
  by (simp add: is_dir_at_def)

lemma is_dir_at_delete: "is_dir_at (AList.delete p fs) q = (q \<noteq> p \<and> is_dir_at fs q)"
  by (simp add: is_dir_at_def)

lemma below_segs:
  assumes "\<forall>s\<in>set xs. proper_seg s" "\<forall>s\<in>set ys. proper_seg s" "xs \<noteq> []"
  shows "below (abs_path xs) (abs_path ys) \<longleftrightarrow> (\<exists>z zs. ys = xs @ z # zs)"
  using abs_path_below[OF assms] by (simp add: below_def)

lemma not_below_root: "clean_abs q \<Longrightarrow> \<not> below ''/'' q"
  using abs_path_below_root by (auto simp: below_def clean_abs_iff)

lemma child_below:
  assumes "clean_abs q" "q \<noteq> ''/''" "path_Dir q = p" "p \<noteq> ''/''"
  shows "below p q"
proof -
  obtain ys where q: "q = abs_path ys" "\<forall>s\<in>set ys. proper_seg s"
    using assms(1) by (auto simp: clean_abs_iff)
  obtain xs x where ys: "ys = xs @ [x]" using assms(2) q(1) by (cases ys rule: rev_cases) auto
  then have "p = abs_path xs" "xs \<noteq> []" using assms(3,4) q path_Dir_snoc[of xs x] by auto
  then show ?thesis using q ys by (auto simp: below_segs)
qed

text \<open>The shared shape of the operations that add or replace one node.\<close>

lemma wf_fs_update:
  assumes wf: "wf_fs fs" and p: "clean_abs p" "is_dir_at fs (path_Dir p)"
    and keep: "is_dir_at fs p \<Longrightarrow> n_isDir n"
  shows "wf_fs (AList.update p n fs)"
  using assms unfolding wf_fs_iff by (auto simp: is_dir_at_update split: if_splits)

lemma wf_fs_delete:
  assumes wf: "wf_fs fs" and p: "p \<noteq> ''/''"
    and leaf: "\<not> is_dir_at fs p \<or> (\<forall>q. map_of fs q \<noteq> None \<longrightarrow> \<not> below p q)"
  shows "wf_fs (AList.delete p fs)"
proof -
  have "path_Dir q \<noteq> p" if "map_of fs q \<noteq> None" "q \<noteq> ''/''" for q
  proof
    assume "path_Dir q = p"
    then have "below p q" "is_dir_at fs p"
      using that wf p child_below by (auto simp: wf_fs_iff)
    then show False using leaf that by blast
  qed
  then show ?thesis
    using wf p unfolding wf_fs_iff by (auto simp: is_dir_at_delete split: if_splits)
qed

lemma wf_fs_Dir_dir:
  "wf_fs fs \<Longrightarrow> map_of fs p \<noteq> None \<Longrightarrow> is_dir_at fs (path_Dir p)"
  unfolding wf_fs_iff by (cases "p = ''/''") auto

end
