(* ===== verification/MemFs_Tree.thy ===== *)
theory MemFs_Tree
  imports MemFs
begin

text \<open>
  The tree structure of the in-memory file system: every operation keeps it well formed (with the
  exact conditions under which \<open>RemoveDir\<close>, \<open>Rename\<close> and \<open>WriteFile\<close>
  do), \<open>Rename\<close> moves a whole subtree, and \<open>ReadDir\<close> lists exactly the
  children of a directory.
\<close>

section \<open>Well-formedness is kept\<close>

lemma wf_NewMemFS [simp]: "wf_fs (NewMemFS now)"
  by (simp add: wf_fs_def NewMemFS_def gomap_ok_def is_dir_at_def)

lemma wf_CreateDir: "wf_fs fs \<Longrightarrow> CreateDir now fs p = Inr fs' \<Longrightarrow> wf_fs fs'"
  by (auto simp: CreateDir_def Let_def is_dir_at_def split: if_splits intro!: wf_fs_update)

lemma wf_RemoveFile: "wf_fs fs \<Longrightarrow> RemoveFile fs p = Inr fs' \<Longrightarrow> wf_fs fs'"
  by (auto simp: RemoveFile_def Let_def split: option.splits if_splits intro!: wf_fs_delete)
    (auto simp: is_dir_at_def wf_fs_iff)

lemma wf_RemoveDir:
  assumes "wf_fs fs" "RemoveDir fs p = Inr fs'" "cleanPath p \<noteq> ''/''"
  shows "wf_fs fs'"
proof -
  have "gomap_ok fs" using assms(1) by (simp add: wf_fs_def)
  moreover have "fs' = AList.delete (cleanPath p) fs"
    "\<not> (\<exists>(name, _)\<in>set fs. below (cleanPath p) name)"
    using assms(2) by (auto simp: RemoveDir_def below_def Let_def split: option.splits if_splits)
  ultimately show ?thesis
    using assms(1,3) by (auto intro!: wf_fs_delete dest: map_of_SomeD)
qed

lemma wf_Open: "wf_fs fs \<Longrightarrow> Open now fs p opts = Inr (h, fs') \<Longrightarrow> wf_fs fs'"
  by (auto simp: Open_def Let_def is_dir_at_def split: if_splits option.splits
      intro!: wf_fs_update dest: wf_fs_Dir_dir)

lemma wf_WriteFile:
  "wf_fs fs \<Longrightarrow> WriteFile now fs p d = Inr fs' \<Longrightarrow> \<not> is_dir_at fs (cleanPath p) \<Longrightarrow> wf_fs fs'"
  by (auto simp: WriteFile_def Let_def split: if_splits intro!: wf_fs_update)

lemma wf_fs_replace:
  "wf_fs fs \<Longrightarrow> map_of fs p = Some n \<Longrightarrow> n_isDir n' = n_isDir n \<Longrightarrow> wf_fs (AList.update p n' fs)"
  by (intro wf_fs_update) (auto simp: wf_fs_iff is_dir_at_def wf_fs_Dir_dir)

lemma wf_file_Write: "wf_fs fs \<Longrightarrow> file_Write now fs h d = Done (r, h', fs') \<Longrightarrow> wf_fs fs'"
  by (auto simp: file_Write_def Let_def split: option.splits if_splits elim!: wf_fs_replace)

lemma wf_file_SetLen: "wf_fs fs \<Longrightarrow> file_SetLen now fs h n = Done (Inr fs') \<Longrightarrow> wf_fs fs'"
  by (auto simp: file_SetLen_def Let_def split: option.splits if_splits elim!: wf_fs_replace)

section \<open>Renaming\<close>

text \<open>The loop that moves children, for distinct old and new names that do not overlap.\<close>

lemma map_of_move_node:
  "map_of fs (fst m) = Some n \<Longrightarrow>
     map_of (move_node m fs) = (map_of fs)(snd m \<mapsto> n, fst m := None)"
  by (simp add: move_node_def)

lemma gomap_ok_move_node: "gomap_ok fs \<Longrightarrow> gomap_ok (move_node m fs)"
  by (simp add: move_node_def split: option.splits)

lemma gomap_ok_fold_move: "gomap_ok fs \<Longrightarrow> gomap_ok (fold move_node ms fs)"
  by (induction ms arbitrary: fs) (simp_all add: gomap_ok_move_node)

lemma fold_move_node:
  assumes "distinct (map fst ms)" "distinct (map snd ms)" "set (map fst ms) \<inter> set (map snd ms) = {}"
    "\<forall>m\<in>set ms. map_of fs (fst m) \<noteq> None"
  shows "map_of (fold move_node ms fs) q =
    (if q \<in> set (map fst ms) then None
     else case map_of (map prod.swap ms) q of Some old \<Rightarrow> map_of fs old | None \<Rightarrow> map_of fs q)"
  using assms
proof (induction ms arbitrary: fs)
  case (Cons m ms)
  obtain old new where m: "m = (old, new)" by (cases m)
  obtain n where n: "map_of fs old = Some n" using Cons.prems(4) m by auto
  let ?fs = "move_node m fs"
  have look: "map_of ?fs = (map_of fs)(new \<mapsto> n, old := None)"
    using map_of_move_node[of fs m n] n m by simp
  have ne: "old \<noteq> new" "old \<notin> set (map fst ms)" "new \<notin> set (map fst ms)"
    "new \<notin> set (map snd ms)" "old \<notin> set (map snd ms)"
    using Cons.prems m by auto
  have "map_of (fold move_node ms ?fs) q =
    (if q \<in> set (map fst ms) then None
     else case map_of (map prod.swap ms) q of Some o' \<Rightarrow> map_of ?fs o' | None \<Rightarrow> map_of ?fs q)"
    by (rule Cons.IH) (use Cons.prems m ne look in \<open>auto simp: image_iff\<close>)
  moreover have "map_of (map prod.swap ms) new = None" "map_of (map prod.swap ms) old = None"
    using ne by (auto simp: map_of_eq_None_iff image_iff)
  moreover have "o' \<in> set (map fst ms)" if "map_of (map prod.swap ms) q = Some o'" for o'
    using map_of_SomeD[OF that] by force
  ultimately show ?case
    using m ne n look[unfolded m] by (auto split: option.splits)
qed simp

text \<open>What is below a path extends it by a rest that starts with a slash.\<close>

lemma below_iff: "below p q \<longleftrightarrow> (\<exists>r. q = p @ ''/'' @ r)"
  by (auto simp: below_def HasPrefix_iff)

lemma clean_abs_graft:
  assumes "clean_abs (p @ ''/'' @ r)" "clean_abs p" "clean_abs t" "t \<noteq> ''/''"
  shows "clean_abs (t @ ''/'' @ r) \<and>
    (\<exists>d. path_Dir (p @ ''/'' @ r) = p @ d \<and> path_Dir (t @ ''/'' @ r) = t @ d \<and>
         (d = [] \<or> (\<exists>d'. d = ''/'' @ d')))"
proof -
  obtain xs where p: "p = abs_path xs" "\<forall>s\<in>set xs. proper_seg s"
    using assms(2) by (auto simp: clean_abs_iff)
  obtain ts where t: "t = abs_path ts" "\<forall>s\<in>set ts. proper_seg s"
    using assms(3) by (auto simp: clean_abs_iff)
  obtain ys where y: "p @ ''/'' @ r = abs_path ys" "\<forall>s\<in>set ys. proper_seg s"
    using assms(1) by (auto simp: clean_abs_iff)
  have tne: "ts \<noteq> []" using assms(4) t by auto
  have xne: "xs \<noteq> []"
  proof
    assume "xs = []"
    then have "abs_path ys = ''//'' @ r" using p y by simp
    then have "HasPrefix (abs_path ys) ''//''" by (metis HasPrefix_append)
    then show False using abs_path_below_root[OF y(2)] by blast
  qed
  have "below (abs_path xs) (abs_path ys)" using p y by (metis below_iff)
  then obtain z zs where ys: "ys = xs @ z # zs" using below_segs[OF p(2) y(2) xne] by blast
  have r: "''/'' @ r = abs_path (z # zs)"
    using y(1) p(1) ys abs_path_append[OF xne, of "z # zs"] by simp
  have tr: "t @ ''/'' @ r = abs_path (ts @ z # zs)"
    using r t(1) abs_path_append[OF tne, of "z # zs"] by simp
  have proper: "\<forall>s\<in>set (ts @ z # zs). proper_seg s" using t(2) y(2) ys by auto
  obtain us u where u: "z # zs = us @ [u]" by (cases "z # zs" rule: rev_cases) auto
  let ?d = "if us = [] then [] else abs_path us"
  have "path_Dir (p @ ''/'' @ r) = abs_path (xs @ us)"
    using path_Dir_snoc[of "xs @ us" u] y ys u by simp
  moreover have "path_Dir (t @ ''/'' @ r) = abs_path (ts @ us)"
    using path_Dir_snoc[of "ts @ us" u] tr proper u by simp
  ultimately have "path_Dir (p @ ''/'' @ r) = p @ ?d \<and> path_Dir (t @ ''/'' @ r) = t @ ?d"
    using p(1) t(1) abs_path_append[OF xne, of us] abs_path_append[OF tne, of us] by simp
  moreover have "?d = [] \<or> (\<exists>d'. ?d = ''/'' @ d')" by (simp add: abs_path_def)
  ultimately show ?thesis
    using tr proper clean_abs_iff by blast
qed

lemma below_parent:
  assumes "clean_abs q" "clean_abs p" "p \<noteq> ''/''" "path_Dir q = p \<or> below p (path_Dir q)" "q \<noteq> ''/''"
  shows "below p q"
proof -
  obtain ys where q: "q = abs_path ys" "\<forall>s\<in>set ys. proper_seg s"
    using assms(1) by (auto simp: clean_abs_iff)
  obtain xs where p: "p = abs_path xs" "\<forall>s\<in>set xs. proper_seg s"
    using assms(2) by (auto simp: clean_abs_iff)
  obtain zs z where ys: "ys = zs @ [z]" using assms(5) q(1) by (cases ys rule: rev_cases) auto
  have d: "path_Dir q = abs_path zs" using path_Dir_snoc[of zs z] q ys by simp
  have xne: "xs \<noteq> []" using assms(3) p by auto
  have "abs_path zs = abs_path xs \<or> below (abs_path xs) (abs_path zs)"
    using assms(4) d p(1) by auto
  then have "\<exists>w. zs = xs @ w"
    using abs_path_inj[of zs xs] below_segs[OF p(2) _ xne, of zs] p(2) q(2) ys by auto
  then obtain w where "ys = xs @ w @ [z]" using ys by auto
  moreover have "\<exists>u us. w @ [z] = u # us" by (cases w) auto
  ultimately show ?thesis using below_segs[OF p(2) q(2) xne] p(1) q(1) by auto
qed

text \<open>In a well-formed file system everything above a node is a directory.\<close>

lemma wf_below_dir:
  assumes wf: "wf_fs fs" and q: "map_of fs q \<noteq> None" and b: "below p q" "clean_abs p"
  shows "is_dir_at fs p"
proof -
  obtain ys where ys: "q = abs_path ys" "\<forall>s\<in>set ys. proper_seg s"
    using wf q by (auto simp: wf_fs_iff clean_abs_iff)
  obtain xs where p: "p = abs_path xs" "\<forall>s\<in>set xs. proper_seg s"
    using b(2) by (auto simp: clean_abs_iff)
  have xne: "xs \<noteq> []" using b p(1) ys not_below_root by (metis abs_path_Nil clean_abs_iff)
  have anc: "is_dir_at fs (abs_path xs)"
    if "map_of fs (abs_path (xs @ zs)) \<noteq> None" "zs \<noteq> []" "\<forall>s\<in>set zs. proper_seg s" for zs
    using that
  proof (induction zs rule: rev_induct)
    case (snoc z zs)
    have "path_Dir (abs_path (xs @ zs @ [z])) = abs_path (xs @ zs)"
      using path_Dir_snoc[of "xs @ zs" z] p(2) snoc.prems(3) by auto
    then have dir: "is_dir_at fs (abs_path (xs @ zs))"
      using wf_fs_Dir_dir[OF wf snoc.prems(1)] by simp
    show ?case
    proof (cases "zs = []")
      case False
      then show ?thesis using snoc dir by (auto simp: is_dir_at_Some)
    qed (use dir in simp)
  qed simp
  obtain z zs where "ys = xs @ z # zs" using b(1) below_segs[OF p(2) ys(2) xne] p(1) ys(1) by auto
  then show ?thesis using anc[of "z # zs"] q ys p(1) by auto
qed

lemma below_comparable: "below p q \<Longrightarrow> below t q \<Longrightarrow> p = t \<or> below p t \<or> below t p"
proof -
  assume "below p q" "below t q"
  then obtain r u where ru: "(p @ ''/'') @ r = (t @ ''/'') @ u" by (auto simp: below_iff)
  have main: "x = y \<or> below x y" if "y @ ''/'' = x @ ''/'' @ w" for x y w :: string
  proof (cases w rule: rev_cases)
    case (snoc w' c)
    then have "y = x @ ''/'' @ w'" using that by (metis append.assoc append1_eq_conv)
    then show ?thesis by (auto simp: below_iff)
  qed (use that in simp)
  from ru obtain w where "p @ ''/'' = (t @ ''/'') @ w \<or> t @ ''/'' = (p @ ''/'') @ w"
    by (metis append_eq_append_conv2)
  then show ?thesis using main[of p t w] main[of t p w] by auto
qed

definition rename_moves :: "string \<Rightarrow> string \<Rightarrow> MemFS \<Rightarrow> (string \<times> string) list" where
  "rename_moves from to fs =
     [(name, to @ drop (length from) name). (name, _) \<leftarrow> fs, below from name]"

lemma rename_moves_fst: "map fst (rename_moves F T fs) = filter (below F) (map fst fs)"
  by (induction fs) (auto simp: rename_moves_def)

lemma rename_moves_snd:
  "map snd (rename_moves F T fs) = map (\<lambda>name. T @ drop (length F) name) (filter (below F) (map fst fs))"
  by (induction fs) (auto simp: rename_moves_def)

lemma rename_moves_mem:
  "(x, y) \<in> set (rename_moves F T fs) \<longleftrightarrow>
     x \<in> fst ` set fs \<and> below F x \<and> y = T @ drop (length F) x"
  by (force simp: rename_moves_def)

lemma Rename_Inr:
  assumes "Rename fs a b = Inr fs'"
  obtains node where "map_of fs (cleanPath a) = Some node" "is_dir_at fs (path_Dir (cleanPath b))"
    "fs' = AList.delete (cleanPath a) (AList.update (cleanPath b) node
       (if n_isDir node then fold move_node (rename_moves (cleanPath a) (cleanPath b) fs) fs else fs))"
  using assms that
  by (auto simp: Rename_def Let_def rename_moves_def below_def split: option.splits if_splits)

lemma rename_moves_distinct:
  assumes "gomap_ok fs"
  shows "distinct (map fst (rename_moves F T fs))" "distinct (map snd (rename_moves F T fs))"
proof -
  have "inj_on (\<lambda>name. T @ drop (length F) name) (Collect (below F))" by (auto simp: inj_on_def below_iff)
  then show "distinct (map snd (rename_moves F T fs))"
    using assms unfolding rename_moves_snd distinct_map by (auto simp: gomap_ok_def inj_on_def)
  show "distinct (map fst (rename_moves F T fs))" using assms by (simp add: rename_moves_fst gomap_ok_def)
qed

text \<open>Where a node below the target comes from.\<close>

lemma rename_moves_origin:
  assumes "gomap_ok fs"
  shows "map_of (map prod.swap (rename_moves F T fs)) q =
    (if below T q \<and> map_of fs (F @ drop (length T) q) \<noteq> None then Some (F @ drop (length T) q) else None)"
proof (cases "below T q \<and> map_of fs (F @ drop (length T) q) \<noteq> None")
  case True
  then obtain r where r: "q = T @ ''/'' @ r" by (auto simp: below_iff)
  have "(F @ ''/'' @ r, q) \<in> set (rename_moves F T fs)"
    using True r by (auto simp: rename_moves_mem below_iff map_of_eq_None_iff)
  then have "(q, F @ ''/'' @ r) \<in> set (map prod.swap (rename_moves F T fs))" by force
  moreover have "distinct (map fst (map prod.swap (rename_moves F T fs)))"
    using rename_moves_distinct(2)[OF assms] by (simp add: comp_def)
  ultimately have "map_of (map prod.swap (rename_moves F T fs)) q = Some (F @ ''/'' @ r)" by simp
  then show ?thesis using True r by simp
next
  case False
  have "q \<noteq> y" if "(x, y) \<in> set (rename_moves F T fs)" for x y
  proof
    assume "q = y"
    have x: "below F x" "x \<in> fst ` set fs" "y = T @ drop (length F) x" using that by (auto simp: rename_moves_mem)
    then obtain r where "x = F @ ''/'' @ r" by (auto simp: below_iff)
    then have "below T y" "F @ drop (length T) y = x" using x(3) by (auto simp: below_iff)
    then show False using False x(2) \<open>q = y\<close> by (auto simp: map_of_eq_None_iff)
  qed
  then have "map_of (map prod.swap (rename_moves F T fs)) q = None" by (force simp: map_of_eq_None_iff)
  then show ?thesis using False by auto
qed

text \<open>The moves do not depend on their order as long as no name is both moved and moved to: the target is not above the source, and
  is not a directory below it.\<close>

lemma rename_moves_lookup:
  assumes wf: "wf_fs fs" and T: "clean_abs T"
    and ne: "T \<noteq> F" "\<not> below T F" "is_dir_at fs T \<Longrightarrow> \<not> below F T"
  shows "map_of (fold move_node (rename_moves F T fs) fs) q =
    (if below T q \<and> map_of fs (F @ drop (length T) q) \<noteq> None then map_of fs (F @ drop (length T) q)
     else if below F q then None else map_of fs q)"
proof -
  let ?ms = "rename_moves F T fs"
  have ok: "gomap_ok fs" using wf by (simp add: wf_fs_def)
  have key_iff: "x \<in> fst ` set fs \<longleftrightarrow> map_of fs x \<noteq> None" for x
    by (metis map_of_eq_None_iff)
  have snd_below: "below T y" if "y \<in> set (map snd ?ms)" for y
    using that by (auto simp: rename_moves_snd below_iff)
  have noboth: "map_of fs x = None" if "below F x" "below T x" for x
    using below_comparable[OF that] ne wf_below_dir[OF wf _ that(2) T] by blast
  have fst_iff: "q \<in> set (map fst ?ms) \<longleftrightarrow> below F q \<and> map_of fs q \<noteq> None" for q
    using key_iff by (auto simp: rename_moves_fst)
  have disj: "set (map fst ?ms) \<inter> set (map snd ?ms) = {}"
    using snd_below noboth fst_iff by blast
  have "map_of (fold move_node ?ms fs) q =
    (if q \<in> set (map fst ?ms) then None
     else case map_of (map prod.swap ?ms) q of Some old \<Rightarrow> map_of fs old | None \<Rightarrow> map_of fs q)"
    by (rule fold_move_node[OF rename_moves_distinct[OF ok] disj]) (use key_iff in \<open>auto simp: rename_moves_mem\<close>)
  then show ?thesis
    using rename_moves_origin[OF ok, of F T q] noboth[of q] fst_iff[of q] by (auto split: option.splits)
qed

text \<open>The lookup after a rename: the source is at the target, every node below it is below the target, where it replaces what was
  there, and everything else is as before.\<close>

lemma Rename_lookup_merge:
  assumes wf: "wf_fs fs" and R: "Rename fs a b = Inr fs'"
    and ne: "cleanPath b \<noteq> cleanPath a" "\<not> below (cleanPath b) (cleanPath a)"
      "is_dir_at fs (cleanPath b) \<Longrightarrow> \<not> below (cleanPath a) (cleanPath b)"
  shows "map_of fs' q =
    (if q = cleanPath b then map_of fs (cleanPath a)
     else if below (cleanPath b) q \<and> map_of fs (cleanPath a @ drop (length (cleanPath b)) q) \<noteq> None
       then map_of fs (cleanPath a @ drop (length (cleanPath b)) q)
     else if q = cleanPath a \<or> below (cleanPath a) q then None
     else map_of fs q)"
proof -
  let ?F = "cleanPath a" and ?T = "cleanPath b"
  obtain node where node: "map_of fs ?F = Some node"
    "fs' = AList.delete ?F (AList.update ?T node
       (if n_isDir node then fold move_node (rename_moves ?F ?T fs) fs else fs))"
    by (rule Rename_Inr[OF R])
  show ?thesis
  proof (cases "n_isDir node")
    case True
    then show ?thesis using node rename_moves_lookup[OF wf cleanPath_clean_abs ne, of q] ne(1,2) by auto
  next
    case False
    then have "\<not> is_dir_at fs ?F" using node(1) by (simp add: is_dir_at_def)
    then have "map_of fs x = None" if "below ?F x" for x
      using wf_below_dir[OF wf _ that cleanPath_clean_abs] by blast
    moreover have "below ?T q \<Longrightarrow> below ?F (?F @ drop (length ?T) q)" by (auto simp: below_iff)
    ultimately show ?thesis using node False ne(1) by auto
  qed
qed

lemma Rename_lookup:
  assumes wf: "wf_fs fs" and R: "Rename fs a b = Inr fs'"
    and ne: "cleanPath b \<noteq> cleanPath a" "\<not> below (cleanPath a) (cleanPath b)"
      "\<not> is_dir_at fs (cleanPath b)"
  shows "map_of fs' q =
    (if q = cleanPath b then map_of fs (cleanPath a)
     else if q = cleanPath a \<or> below (cleanPath a) q then None
     else if below (cleanPath b) q then map_of fs (cleanPath a @ drop (length (cleanPath b)) q)
     else map_of fs q)"
proof -
  let ?F = "cleanPath a" and ?T = "cleanPath b"
  have key: "map_of fs x = None" if "below ?T x" for x
    using wf_below_dir[OF wf _ that cleanPath_clean_abs] ne(3) by blast
  obtain node where "map_of fs ?F = Some node" by (rule Rename_Inr[OF R])
  then have up: "\<not> below ?T ?F" using key by fastforce
  then have "\<not> (below ?F q \<and> below ?T q)" using below_comparable[of ?F q ?T] ne(1,2) by metis
  then show ?thesis using Rename_lookup_merge[OF wf R ne(1) up, of q] ne(3) up key[of q] by auto
qed

text \<open>Renaming a node to its own name removes it and everything below it.\<close>

lemma fold_move_self:
  "\<forall>(x, y)\<in>set ms. x = y \<Longrightarrow> map_of (fold move_node ms fs) q = (if q \<in> fst ` set ms then None else map_of fs q)"
proof (induction ms arbitrary: fs)
  case (Cons m ms)
  obtain x where m: "m = (x, x)" using Cons.prems by (cases m) auto
  have "map_of (move_node m fs) q = (if q = x then None else map_of fs q)"
    by (auto simp: move_node_def m split: option.splits)
  then show ?case using Cons m by auto
qed simp

lemma Rename_self:
  assumes wf: "wf_fs fs" and R: "Rename fs a b = Inr fs'" and eq: "cleanPath b = cleanPath a"
  shows "map_of fs' q = (if q = cleanPath a \<or> below (cleanPath a) q then None else map_of fs q)"
proof -
  let ?F = "cleanPath a"
  obtain node where node: "map_of fs ?F = Some node"
    "fs' = AList.delete ?F (AList.update ?F node (if n_isDir node then fold move_node (rename_moves ?F ?F fs) fs else fs))"
    using Rename_Inr[OF R] eq by metis
  have "\<forall>(x, y)\<in>set (rename_moves ?F ?F fs). x = y" by (auto simp: rename_moves_mem below_iff)
  note self = fold_move_self[OF this]
  have "set (map fst (rename_moves ?F ?F fs)) = {x. below ?F x \<and> x \<in> fst ` set fs}" unfolding rename_moves_fst by auto
  then have mem: "q \<in> fst ` set (rename_moves ?F ?F fs) \<longleftrightarrow> below ?F q \<and> map_of fs q \<noteq> None"
    by (simp add: map_of_eq_None_iff)
  have "map_of fs q = None" if "\<not> n_isDir node" "below ?F q"
    using wf_below_dir[OF wf _ that(2) cleanPath_clean_abs] that(1) node(1) by (cases "map_of fs q") (auto simp: is_dir_at_def)
  then show ?thesis using node(2) self[of fs q] mem by auto
qed

text \<open>Directories outside the moved tree stay, and the parent of a moved node is moved with it.\<close>

lemma Rename_keeps_dir:
  assumes wf: "wf_fs fs" and R: "Rename fs a b = Inr fs'"
    and ne: "cleanPath b \<noteq> cleanPath a" "\<not> below (cleanPath a) (cleanPath b)" "\<not> is_dir_at fs (cleanPath b)"
    and p: "is_dir_at fs p" "p \<noteq> cleanPath a" "\<not> below (cleanPath a) p"
  shows "is_dir_at fs' p"
proof -
  have "\<not> below (cleanPath b) p" using wf_below_dir[OF wf, of p "cleanPath b"] p(1) ne(3) by (auto simp: is_dir_at_Some)
  then show ?thesis using p ne(3) Rename_lookup[OF wf R ne, of p] by (auto simp: is_dir_at_def)
qed

lemma Rename_moves_parent:
  assumes wf: "wf_fs fs" and R: "Rename fs a b = Inr fs'"
    and ne: "cleanPath b \<noteq> cleanPath a" "\<not> below (cleanPath a) (cleanPath b)" "\<not> is_dir_at fs (cleanPath b)"
      "cleanPath b \<noteq> ''/''"
    and p: "map_of fs' p \<noteq> None" "p \<noteq> cleanPath b" "below (cleanPath b) p"
  shows "clean_abs p \<and> is_dir_at fs' (path_Dir p)"
proof -
  let ?F = "cleanPath a" and ?T = "cleanPath b"
  note look = Rename_lookup[OF wf R ne(1-3)]
  obtain node where node: "map_of fs ?F = Some node" by (rule Rename_Inr[OF R])
  obtain r where r: "p = ?T @ ''/'' @ r" using p(3) by (auto simp: below_iff)
  have pf: "p \<noteq> ?F" "\<not> below ?F p" using p look[of p] by (auto split: if_splits)
  have old: "map_of fs (?F @ ''/'' @ r) \<noteq> None" using p pf look[of p] r by simp
  then have "clean_abs (?F @ ''/'' @ r)" using wf by (simp add: wf_fs_iff)
  from clean_abs_graft[OF this _ _ ne(4)] obtain d where d: "clean_abs p"
    "path_Dir (?F @ ''/'' @ r) = ?F @ d" "path_Dir p = ?T @ d" "d = [] \<or> (\<exists>d'. d = ''/'' @ d')"
    using r by auto
  have dir: "is_dir_at fs (?F @ d)" using wf_fs_Dir_dir[OF wf old] d(2) by simp
  have "map_of fs' (?T @ d) = map_of fs (?F @ d)"
  proof (cases "d = []")
    case False
    then have b: "below ?T (?T @ d)" using d(4) by (auto simp: below_iff)
    have "\<not> below ?T ?F" using ne(3) wf_below_dir[OF wf, of ?F ?T] node by auto
    then have "\<not> (?T @ d = ?F \<or> below ?F (?T @ d))"
      using b below_comparable[of ?F "?T @ d" ?T] ne(1,2) by auto
    then show ?thesis using b look[of "?T @ d"] False by auto
  qed (use look[of ?T] in simp)
  then show ?thesis using d dir by (simp add: is_dir_at_def)
qed

lemma wf_Rename:
  assumes wf: "wf_fs fs" and R: "Rename fs a b = Inr fs'"
    and ne: "cleanPath a \<noteq> ''/''" "cleanPath b \<noteq> cleanPath a" "\<not> below (cleanPath a) (cleanPath b)"
      "\<not> is_dir_at fs (cleanPath b)"
  shows "wf_fs fs'"
proof -
  let ?F = "cleanPath a" and ?T = "cleanPath b"
  note look = Rename_lookup[OF wf R ne(2,3,4)]
  obtain node where node: "map_of fs ?F = Some node" "is_dir_at fs (path_Dir ?T)"
    "fs' = AList.delete ?F (AList.update ?T node
       (if n_isDir node then fold move_node (rename_moves ?F ?T fs) fs else fs))"
    by (rule Rename_Inr[OF R])
  have root: "is_dir_at fs ''/''" "gomap_ok fs" using wf by (simp_all add: wf_fs_def)
  have T: "?T \<noteq> ''/''" using ne(4) root by auto
  note dirkeep = Rename_keeps_dir[OF wf R ne(2-4)]
  have dT: "is_dir_at fs' (path_Dir ?T)"
    using node(2) below_parent[of ?T ?F] ne(1,3) T by (intro dirkeep) auto
  have dR: "is_dir_at fs' ''/''"
    using root ne(1) clean_abs_nonempty[of ?F]
    by (intro dirkeep) (auto simp: below_iff Cons_eq_append_conv)
  have others: "clean_abs p \<and> is_dir_at fs' (path_Dir p)"
    if p: "map_of fs' p \<noteq> None" "p \<noteq> ?T" "p \<noteq> ''/''" for p
  proof (cases "below ?T p")
    case True
    then show ?thesis using Rename_moves_parent[OF wf R ne(2-4) T p(1,2)] by blast
  next
    case False
    then have old: "map_of fs p \<noteq> None" and pF: "p \<noteq> ?F" "\<not> below ?F p"
      using p look[of p] by (auto split: if_splits)
    have "is_dir_at fs (path_Dir p)" "clean_abs p"
      using wf old wf_fs_Dir_dir[OF wf old] by (simp_all add: wf_fs_iff)
    then show ?thesis
      using dirkeep[of "path_Dir p"] below_parent[of p ?F] p(3) pF ne(1) by auto
  qed
  have ok: "gomap_ok fs'" using node(3) root by (simp add: gomap_ok_fold_move)
  have "clean_abs p \<and> (p = ''/'' \<or> is_dir_at fs' (path_Dir p))" if "map_of fs' p \<noteq> None" for p
  proof -
    consider "p = ?T" | "p = ''/''" | "p \<noteq> ?T" "p \<noteq> ''/''" by blast
    then show ?thesis
    proof cases
      case 1 then show ?thesis using dT by simp
    next
      case 2 then show ?thesis by simp
    next
      case 3 then show ?thesis using others[OF that] by blast
    qed
  qed
  then show ?thesis unfolding wf_fs_iff using ok dR by blast
qed

section \<open>Listing a directory\<close>

definition dir_prefix :: "string \<Rightarrow> string" where
  "dir_prefix p = (if p \<noteq> ''/'' then p @ ''/'' else p)"

lemma child_iff:
  assumes "clean_abs p" "clean_abs q"
  shows "q = dir_prefix p @ r \<and> r \<noteq> [] \<and> slash \<notin> set r \<longleftrightarrow>
    q \<noteq> ''/'' \<and> path_Dir q = p \<and> path_Base q = r"
proof -
  obtain ys where q: "q = abs_path ys" "\<forall>s\<in>set ys. proper_seg s"
    using assms(2) by (auto simp: clean_abs_iff)
  obtain d where d: "dir_prefix p = d @ [slash]" "p \<noteq> ''/'' \<Longrightarrow> d = p" "p = ''/'' \<Longrightarrow> d = []"
    by (cases "p = ''/''") (auto simp: dir_prefix_def)
  show ?thesis
  proof (cases ys rule: rev_cases)
    case Nil
    then show ?thesis using q d by (auto simp: Cons_eq_append_conv)
  next
    case (snoc zs z)
    have zz: "proper_seg z" "\<forall>s\<in>set zs. proper_seg s" using q snoc by auto
    have Q: "q = dir_prefix (abs_path zs) @ z"
    proof (cases "zs = []")
      case False
      then have "abs_path zs \<noteq> ''/''"
        using abs_path_inj[of zs "[]"] zz by auto
      then show ?thesis using q snoc False by (simp add: abs_path_snoc dir_prefix_def)
    qed (use q snoc in \<open>simp add: abs_path_def dir_prefix_def\<close>)
    obtain e where e: "dir_prefix (abs_path zs) = e @ [slash]" "abs_path zs \<noteq> ''/'' \<Longrightarrow> e = abs_path zs"
        "abs_path zs = ''/'' \<Longrightarrow> e = []"
      by (cases "abs_path zs = ''/''") (auto simp: dir_prefix_def)
    have inj: "p = abs_path zs" if "d = e"
      using that d(2,3) e(2,3) assms(1) clean_abs_nonempty[of p] clean_abs_nonempty[of "abs_path zs"] zz
      by (metis clean_abs_iff)
    have dirbase: "path_Dir q = abs_path zs" "path_Base q = z" "q \<noteq> ''/''"
      using q snoc path_Dir_snoc[of zs z] path_Base_snoc[of z zs] zz abs_path_inj[of ys "[]"] by auto
    have z: "z \<noteq> []" "slash \<notin> set z" using zz by (auto simp: proper_seg_def)
    show ?thesis
    proof
      assume r: "q = dir_prefix p @ r \<and> r \<noteq> [] \<and> slash \<notin> set r"
      then have "e @ slash # z = d @ slash # r" using Q d e by simp
      then have "e = d" "z = r" using last_sep_unique[of e slash z d r] z r by auto
      then show "q \<noteq> ''/'' \<and> path_Dir q = p \<and> path_Base q = r" using dirbase inj by simp
    next
      assume "q \<noteq> ''/'' \<and> path_Dir q = p \<and> path_Base q = r"
      then show "q = dir_prefix p @ r \<and> r \<noteq> [] \<and> slash \<notin> set r" using dirbase Q z by auto
    qed
  qed
qed

definition entry_of :: "string \<Rightarrow> string \<times> memNode \<Rightarrow> DirEntryWire" where
  "entry_of prefix = (\<lambda>(name, child). \<lparr>de_Name = drop (length prefix) name, de_Meta = nodeMetadata child\<rparr>)"

definition listed :: "string \<Rightarrow> string \<times> memNode \<Rightarrow> bool" where
  "listed prefix = (\<lambda>(name, _). HasPrefix name prefix \<and> drop (length prefix) name \<noteq> [] \<and>
     slash \<notin> set (drop (length prefix) name))"

lemma readdir_loop_eq:
  assumes "distinct (map fst fs)" "\<forall>r\<in>set seen. prefix @ r \<notin> fst ` set fs"
  shows "readdir_loop prefix fs seen = map (entry_of prefix) (filter (listed prefix) fs)"
  using assms
proof (induction prefix fs seen rule: readdir_loop.induct)
  case (2 prefix name child rest seen)
  have D: "distinct (map fst rest)" "name \<notin> fst ` set rest" "\<forall>r\<in>set seen. prefix @ r \<notin> fst ` set rest"
    using 2 by auto
  let ?r = "drop (length prefix) name"
  show ?case
  proof (cases "HasPrefix name prefix \<and> ?r \<noteq> [] \<and> slash \<notin> set ?r")
    case True
    then have n: "prefix @ ?r = name" by (auto simp: HasPrefix_iff)
    then have "?r \<notin> set seen" using 2 by auto
    then show ?thesis
      using 2(4)[OF _ refl, OF _ _ _ D(1)] True n D
      by (simp add: Let_def Contains_char entry_of_def listed_def)
  next
    case False
    then show ?thesis
      using 2(1) 2(2)[OF _ refl, OF _ _ D(1,3)] D
      by (auto simp: Let_def Contains_char entry_of_def listed_def)
  qed
qed simp

end
