(* ===== verification/MemFs_Props.thy ===== *)
theory MemFs_Props
  imports MemFs_Tree
begin

text \<open>
  The contract of the in-memory file system: listings are exact, renames move whole subtrees,
  reads return what was written, paths cannot leave the root, and the three cases in which an
  operation leaves nodes without a parent directory.
\<close>

section \<open>Lookup after each update\<close>

lemma ReadDir_entries:
  assumes wf: "wf_fs fs" and R: "ReadDir fs p = Inr es"
  shows "es = go_sort (\<lambda>a b. de_Name a < de_Name b)
      (map (entry_of (dir_prefix (cleanPath p))) (filter (listed (dir_prefix (cleanPath p))) fs))"
  using assms by (auto simp: ReadDir_def Let_def dir_prefix_def readdir_loop_eq wf_fs_def gomap_ok_def
      split: option.splits if_splits)

lemma listed_iff:
  assumes "wf_fs fs" "(q, n) \<in> set fs"
  shows "listed (dir_prefix (cleanPath p)) (q, n) \<longleftrightarrow> q \<noteq> ''/'' \<and> path_Dir q = cleanPath p"
    and "listed (dir_prefix (cleanPath p)) (q, n) \<Longrightarrow>
      entry_of (dir_prefix (cleanPath p)) (q, n) = \<lparr>de_Name = path_Base q, de_Meta = nodeMetadata n\<rparr>"
proof -
  let ?d = "dir_prefix (cleanPath p)"
  have q: "clean_abs q" using assms by (auto simp: wf_fs_def)
  have rest: "HasPrefix q ?d \<longleftrightarrow> q = ?d @ drop (length ?d) q"
    by (auto simp: HasPrefix_iff)
  have L: "listed ?d (q, n) \<longleftrightarrow> q = ?d @ drop (length ?d) q \<and> drop (length ?d) q \<noteq> [] \<and>
      slash \<notin> set (drop (length ?d) q)"
    by (subst rest[symmetric]) (simp add: listed_def)
  note ch = child_iff[OF cleanPath_clean_abs q, of p]
  show iff: "listed ?d (q, n) \<longleftrightarrow> q \<noteq> ''/'' \<and> path_Dir q = cleanPath p"
    using L ch[of "drop (length ?d) q"] ch[of "path_Base q"]
    by (metis append_eq_conv_conj)
  show "entry_of ?d (q, n) = \<lparr>de_Name = path_Base q, de_Meta = nodeMetadata n\<rparr>" if "listed ?d (q, n)"
    using that L ch[of "drop (length ?d) q"] by (simp add: entry_of_def)
qed

lemma cleanPath_clean: "clean_abs p \<Longrightarrow> cleanPath p = p"
proof -
  assume "clean_abs p"
  then obtain segs where p: "p = abs_path segs" "\<forall>s\<in>set segs. proper_seg s"
    by (auto simp: clean_abs_iff)
  have "cleanPath p = path_Clean (slash # slash # Join [slash] segs)"
    using p by (simp add: cleanPath_def abs_path_def)
  also have "\<dots> = path_Clean p"
    using p by (simp add: path_Clean_rooted abs_path_def)
  finally show ?thesis using p by (simp add: path_Clean_abs_path)
qed

lemma file_Read_normal:
  assumes "map_of fs (h_path h) = Some node" "0 \<le> h_pos h" "h_pos h < int (length (n_data node))"
    "0 \<le> len" "int (length (n_data node)) \<le> 2 ^ 48" "len \<le> 2 ^ 48"
  shows "file_Read fs h len =
    (let e = min (h_pos h + len) (int (length (n_data node))) in
     Done (Inr (take (nat (e - h_pos h)) (drop (nat (h_pos h)) (n_data node)), e - h_pos h), h\<lparr>h_pos := e\<rparr>))"
proof -
  have "wrap64 (h_pos h + len) = h_pos h + len"
    using assms by (simp add: wrap64_def)
  moreover have "wrap64 (min (h_pos h + len) (int (length (n_data node))) - h_pos h) =
      min (h_pos h + len) (int (length (n_data node))) - h_pos h"
    using assms by (auto simp: wrap64_def min_def)
  ultimately show ?thesis
    using assms by (auto simp: file_Read_def make_ok_def min_def Let_def)
qed

text \<open>What a write at a position does to the contents: zero bytes fill a gap, the bytes after the
  written range stay.\<close>

definition overlay :: "nat \<Rightarrow> bytes \<Rightarrow> bytes \<Rightarrow> bytes" where
  "overlay p d old = take p (old @ replicate (p - length old) (CHR 0x00)) @ d @ drop (p + length d) old"

lemma length_overlay [simp]: "length (overlay p d old) = max (length old) (p + length d)"
  by (simp add: overlay_def)

lemma overlay_nth:
  "i < length (overlay p d old) \<Longrightarrow>
     overlay p d old ! i = (if p \<le> i \<and> i < p + length d then d ! (i - p)
                            else if i < length old then old ! i else CHR 0x00)"
proof -
  assume i: "i < length (overlay p d old)"
  let ?t = "take p (old @ replicate (p - length old) (CHR 0x00))"
  have L: "length ?t = p" by auto
  consider "i < p" | "p \<le> i" "i < p + length d" | "p + length d \<le> i" by linarith
  then show ?thesis
  proof cases
    case 1
    then have "overlay p d old ! i = ?t ! i" unfolding overlay_def nth_append L by simp
    then show ?thesis using 1 by (simp add: nth_append)
  next
    case 2
    then have "i - p < length d" by linarith
    then show ?thesis using 2 unfolding overlay_def nth_append L by simp
  next
    case 3
    then have "\<not> i - p < length d" "i < length old" using i by auto
    then show ?thesis using 3 unfolding overlay_def nth_append L by (simp add: nth_append)
  qed
qed

lemma overlay_slice [simp]: "take (length d) (drop p (overlay p d old)) = d"
  by (simp add: overlay_def)

lemma file_Write_normal:
  assumes "map_of fs (h_path h) = Some node"
    "pos = (if h_append h then int (length (n_data node)) else h_pos h)"
    "0 \<le> pos" "pos + int (length d) \<le> 2 ^ 48"
  shows "file_Write now fs h d =
    Done (Inr (int (length d)), h\<lparr>h_pos := pos + int (length d)\<rparr>,
      AList.update (h_path h) (node\<lparr>n_data := overlay (nat pos) d (n_data node), n_modTime := now\<rparr>) fs)"
proof -
  let ?old = "n_data node" and ?e = "pos + int (length d)"
  have w: "wrap64 ?e = ?e" using assms(3,4) by (simp add: wrap64_def)
  have e: "nat ?e = nat pos + length d" using assms(3) by (simp add: nat_add_distrib)
  show ?thesis
  proof (cases "?e > int (length ?old)")
    case True
    let ?g = "?old @ replicate (nat (?e - int (length ?old))) (CHR 0x00)"
    have "take (nat pos) ?g @ d @ drop (nat ?e) ?g = overlay (nat pos) d ?old"
      using True assms(3) e
      by (intro nth_equalityI) (auto simp: overlay_def nth_append)
    then show ?thesis
      using True assms w by (auto simp: file_Write_def Let_def make_ok_def)
  next
    case False
    then have "take (nat pos) ?old @ d @ drop (nat ?e) ?old = overlay (nat pos) d ?old"
      using e assms(3) by (simp add: overlay_def)
    then show ?thesis
      using False assms w by (auto simp: file_Write_def Let_def)
  qed
qed

section \<open>Properties\<close>

text \<open>
  Every path a guest sends is resolved inside the root: \<open>cleanPath\<close> yields an absolute
  path whose elements are non-empty, contain no slash and are never \<open>.\<close> or \<open>..\<close>, and
  cleaning it again changes nothing.
\<close>

lemma cleanPath_confined:
  "(\<exists>segs. cleanPath p = abs_path segs \<and> list_all proper_seg segs) \<and>
   cleanPath (cleanPath p) = cleanPath p"
  using cleanPath_clean_abs[of p] cleanPath_clean[OF cleanPath_clean_abs]
  unfolding clean_abs_iff by (auto simp: list_all_iff)

text \<open>
  \<open>ReadDir\<close> lists exactly the children of the directory, each with its own metadata, in
  strictly increasing order of names.
\<close>

lemma ReadDir_exact:
  assumes "wf_fs fs" "ReadDir fs p = Inr es"
  shows "sorted_wrt (\<lambda>a b. de_Name a < de_Name b) es \<and>
    set es = {\<lparr>de_Name = path_Base q, de_Meta = nodeMetadata n\<rparr> |q n.
       map_of fs q = Some n \<and> q \<noteq> ''/'' \<and> path_Dir q = cleanPath p}"
proof (rule conjI)
  let ?d = "dir_prefix (cleanPath p)"
  let ?l = "map (entry_of ?d) (filter (listed ?d) fs)"
  have ok: "gomap_ok fs" using assms(1) by (simp add: wf_fs_def)
  note es = ReadDir_entries[OF assms]
  have mem: "e \<in> set ?l \<longleftrightarrow> (\<exists>q n. (q, n) \<in> set fs \<and> listed ?d (q, n) \<and> e = entry_of ?d (q, n))" for e
    by auto
  show "set es = {\<lparr>de_Name = path_Base q, de_Meta = nodeMetadata n\<rparr> |q n.
       map_of fs q = Some n \<and> q \<noteq> ''/'' \<and> path_Dir q = cleanPath p}"
  proof (rule set_eqI)
    fix e
    have "e \<in> set es \<longleftrightarrow> (\<exists>q n. (q, n) \<in> set fs \<and> (q \<noteq> ''/'' \<and> path_Dir q = cleanPath p) \<and>
        e = \<lparr>de_Name = path_Base q, de_Meta = nodeMetadata n\<rparr>)"
      unfolding es set_go_sort mem
      by (intro ex_cong1 conj_cong refl iffI) (use listed_iff[OF assms(1)] in \<open>metis\<close>)+
    then show "e \<in> set es \<longleftrightarrow> e \<in> {\<lparr>de_Name = path_Base q, de_Meta = nodeMetadata n\<rparr> |q n.
        map_of fs q = Some n \<and> q \<noteq> ''/'' \<and> path_Dir q = cleanPath p}"
      unfolding gomap_in_set_iff[OF ok] mem_Collect_eq by blast
  qed
  have "distinct (map de_Name ?l)"
  proof -
    have "inj_on (\<lambda>x. de_Name (entry_of ?d x)) (set (filter (listed ?d) fs))"
    proof (rule inj_onI)
      fix x y
      assume xy: "x \<in> set (filter (listed ?d) fs)" "y \<in> set (filter (listed ?d) fs)"
        "de_Name (entry_of ?d x) = de_Name (entry_of ?d y)"
      obtain q n q' n' where q: "x = (q, n)" "y = (q', n')" by (cases x, cases y)
      have "q = q'" using xy q by (auto simp: listed_def entry_of_def HasPrefix_iff)
      then show "x = y" using xy q ok by (auto simp: gomap_in_set_iff)
    qed
    moreover have "distinct fs" using ok by (simp add: gomap_ok_def distinct_map)
    ultimately show ?thesis by (simp add: distinct_map comp_inj_on_iff[symmetric] comp_def)
  qed
  then have "distinct (map de_Name es)"
    unfolding es by (metis mset_go_sort mset_map mset_eq_imp_distinct_iff)
  then show "sorted_wrt (\<lambda>a b. de_Name a < de_Name b) es"
    using sorted_map_go_sort_key[of de_Name ?l] strict_sorted_iff[of "map de_Name es"]
    unfolding es by (simp add: sorted_wrt_map)
qed

definition demo_fs :: MemFS where
  "demo_fs =
     [(''/a/x'', \<lparr>n_isDir = False, n_data = ''hi'', n_modTime = 3\<rparr>),
      (''/'', \<lparr>n_isDir = True, n_data = [], n_modTime = 1\<rparr>),
      (''/b'', \<lparr>n_isDir = True, n_data = [], n_modTime = 2\<rparr>),
      (''/a'', \<lparr>n_isDir = True, n_data = [], n_modTime = 2\<rparr>)]"



text \<open>
  \<open>WriteFile\<close> is read back: when it succeeds, \<open>ReadAll\<close> of any spelling of the same
  path returns the data, and every other path reads as before.
\<close>

lemma WriteFile_ReadAll:
  assumes "WriteFile now fs p d = Inr fs'"
  shows "ReadAll fs' q = (if cleanPath q = cleanPath p then Inr d else ReadAll fs q)"
  using assms by (auto simp: WriteFile_def ReadAll_def Let_def split: if_splits)

text \<open>
  Writing through an open handle stores the bytes at the handle's position (the end of the file
  in append mode), fills a gap after a seek with zero bytes, keeps every byte outside the written
  range, and seeking back and reading returns exactly what was written.
\<close>

lemma handle_write_read:
  assumes "map_of fs (h_path h) = Some node"
    "pos = (if h_append h then int (length (n_data node)) else h_pos h)"
    "0 \<le> pos" "pos + int (length d) \<le> 2 ^ 48" "int (length (n_data node)) \<le> 2 ^ 48" "d \<noteq> []"
  shows "\<exists>h1 fs1 node1.
    file_Write now fs h d = Done (Inr (int (length d)), h1, fs1) \<and>
    map_of fs1 = (map_of fs)(h_path h \<mapsto> node1) \<and>
    (\<forall>i < length (n_data node1). n_data node1 ! i =
       (if nat pos \<le> i \<and> i < nat pos + length d then d ! (i - nat pos)
        else if i < length (n_data node) then n_data node ! i else CHR 0x00)) \<and>
    length (n_data node1) = max (length (n_data node)) (nat pos + length d) \<and>
    file_Seek fs1 h1 0 pos = (Inr pos, h1\<lparr>h_pos := pos\<rparr>) \<and>
    file_Read fs1 (h1\<lparr>h_pos := pos\<rparr>) (int (length d)) = Done (Inr (d, int (length d)), h1)"
proof -
  let ?n1 = "node\<lparr>n_data := overlay (nat pos) d (n_data node), n_modTime := now\<rparr>"
  let ?h1 = "h\<lparr>h_pos := pos + int (length d)\<rparr>"
  let ?fs1 = "AList.update (h_path h) ?n1 fs"
  have look: "map_of ?fs1 (h_path h) = Some ?n1" by simp
  have len: "length (n_data ?n1) = max (length (n_data node)) (nat pos + length d)" by simp
  have bounds: "pos < int (length (n_data ?n1))" "int (length (n_data ?n1)) \<le> 2 ^ 48"
    "pos + int (length d) \<le> int (length (n_data ?n1))"
    using assms(3-6) unfolding len by (auto simp: max_def)
  have "file_Read ?fs1 (?h1\<lparr>h_pos := pos\<rparr>) (int (length d)) = Done (Inr (d, int (length d)), ?h1)"
    using file_Read_normal[of ?fs1 "?h1\<lparr>h_pos := pos\<rparr>" ?n1 "int (length d)"] look bounds assms(3,4)
    by (simp add: Let_def)
  moreover have "file_Seek ?fs1 ?h1 0 pos = (Inr pos, ?h1\<lparr>h_pos := pos\<rparr>)"
    using assms(3) by (simp add: file_Seek_def)
  ultimately show ?thesis
    using file_Write_normal[OF assms(1-4), of now] overlay_nth[of _ "nat pos" d "n_data node"]
    by (intro exI[of _ ?h1] exI[of _ ?fs1] exI[of _ ?n1]) simp
qed

text \<open>
  Where the tree invariant is lost: removing the root succeeds although it has children,
  because the prefix tested is \<open>//\<close>; renaming a file onto itself deletes it; writing a file over a
  directory leaves the children of the directory without a parent.
\<close>

lemma memfs_orphans:
  "(case RemoveDir demo_fs ''/'' of Inr fs' \<Rightarrow> map_of fs' ''/'' = None \<and> map_of fs' ''/a/x'' \<noteq> None \<and> \<not> wf_fs fs'
    | Inl _ \<Rightarrow> False) \<and>
   (case Rename demo_fs ''a/x'' ''a/x'' of Inr fs' \<Rightarrow> map_of fs' ''/a/x'' = None | Inl _ \<Rightarrow> False) \<and>
   (case WriteFile 9 demo_fs ''a'' ''d'' of Inr fs' \<Rightarrow>
      map_of fs' ''/a/x'' \<noteq> None \<and> \<not> is_dir_at fs' ''/a'' \<and> \<not> wf_fs fs' | Inl _ \<Rightarrow> False)"
  by code_simp

text \<open>Renaming a directory onto the directory above it: \<open>/a/b/b/y\<close> goes to \<open>/a/b/y\<close> and \<open>/a/b/y\<close> to \<open>/a/y\<close>, so which file ends at \<open>/a/y\<close>
  depends on the order in which the map is iterated.\<close>

definition nested_fs :: "string list \<Rightarrow> MemFS" where
  "nested_fs files =
     [(d, \<lparr>n_isDir = True, n_data = [], n_modTime = 1\<rparr>). d \<leftarrow> [''/'', ''/a'', ''/a/b'', ''/a/b/b'']] @
     [(p, \<lparr>n_isDir = False, n_data = p, n_modTime = 1\<rparr>). p \<leftarrow> files]"

lemma rename_order_dependent:
  "map_of (nested_fs [''/a/b/y'', ''/a/b/b/y'']) = map_of (nested_fs [''/a/b/b/y'', ''/a/b/y'']) \<and>
   wf_fs (nested_fs [''/a/b/y'', ''/a/b/b/y'']) \<and>
   map_option n_data (map_of (projr (Rename (nested_fs [''/a/b/y'', ''/a/b/b/y'']) ''a/b'' ''a'')) ''/a/y'') = Some ''/a/b/y'' \<and>
   map_option n_data (map_of (projr (Rename (nested_fs [''/a/b/b/y'', ''/a/b/y'']) ''a/b'' ''a'')) ''/a/y'') = Some ''/a/b/b/y''"
proof (intro conjI)
  show "map_of (nested_fs [''/a/b/y'', ''/a/b/b/y'']) = map_of (nested_fs [''/a/b/b/y'', ''/a/b/y''])"
    by (rule ext) (simp add: nested_fs_def)
qed code_simp+

end
