(* ===== verification/Vfs_Server.thy ===== *)
theory Vfs_Server
  imports MemFs_Props
begin

text \<open>
  Components \<open>vfs/protocol.go\<close> and \<open>vfs/server.go\<close>: the server that gives the guest
  its file system.  \<open>dispatch\<close> is one request on the shared state (the file system, the
  counter and the table of open handles), \<open>readFrame\<close> and \<open>writeFrame\<close> the framing of
  the socket, and \<open>handleConn\<close> the loop over one connection.  The msgpack codec is a
  parameter.  A request may panic, which ends the process.
\<close>

section \<open>Requests and responses\<close>

record Request =
  rq_Op :: int
  rq_Path :: string
  rq_ToPath :: string
  rq_OpenOpts :: "OpenOpts option"
  rq_Handle :: "64 word"
  rq_Data :: bytes
  rq_Len :: int
  rq_SeekFrom :: int
  rq_SeekPos :: int

record Response =
  rs_Err :: int
  rs_Target :: string
  rs_Entries :: "DirEntryWire list"
  rs_Meta :: "MetadataWire option"
  rs_Handle :: "64 word"
  rs_Data :: bytes
  rs_Pos :: int
  rs_N :: int

definition zero_resp :: Response where
  "zero_resp = \<lparr>rs_Err = 0, rs_Target = [], rs_Entries = [], rs_Meta = None, rs_Handle = 0,
     rs_Data = [], rs_Pos = 0, rs_N = 0\<rparr>"

definition zero_opts :: OpenOpts where
  "zero_opts = \<lparr>oo_Read = False, oo_Write = False, oo_Create = False, oo_CreateNew = False,
     oo_Append = False, oo_Truncate = False\<rparr>"

abbreviation (input) "ErrNotFound \<equiv> 1 :: int"
abbreviation (input) "ErrAlreadyExists \<equiv> 2 :: int"
abbreviation (input) "ErrPermission \<equiv> 3 :: int"
abbreviation (input) "ErrNotDir \<equiv> 4 :: int"
abbreviation (input) "ErrNotFile \<equiv> 5 :: int"
abbreviation (input) "ErrNotEmpty \<equiv> 6 :: int"
abbreviation (input) "ErrIO \<equiv> 7 :: int"
abbreviation (input) "ErrInvalidInput \<equiv> 8 :: int"
abbreviation (input) "ErrUnsupported \<equiv> 9 :: int"

abbreviation (input) "OpReadlink \<equiv> 1 :: int"
abbreviation (input) "OpReadDir \<equiv> 2 :: int"
abbreviation (input) "OpCreateDir \<equiv> 3 :: int"
abbreviation (input) "OpRemoveDir \<equiv> 4 :: int"
abbreviation (input) "OpRename \<equiv> 5 :: int"
abbreviation (input) "OpMetadata \<equiv> 6 :: int"
abbreviation (input) "OpSymlinkMetadata \<equiv> 7 :: int"
abbreviation (input) "OpRemoveFile \<equiv> 8 :: int"
abbreviation (input) "OpOpen \<equiv> 9 :: int"
abbreviation (input) "OpMount \<equiv> 10 :: int"
abbreviation (input) "OpFileRead \<equiv> 20 :: int"
abbreviation (input) "OpFileWrite \<equiv> 21 :: int"
abbreviation (input) "OpFileSeek \<equiv> 22 :: int"
abbreviation (input) "OpFileFlush \<equiv> 23 :: int"
abbreviation (input) "OpFileClose \<equiv> 24 :: int"
abbreviation (input) "OpFileSetLen \<equiv> 25 :: int"

section \<open>Errors\<close>

text \<open>The loop tries every offset up to the difference of the lengths.\<close>

definition containsLinear :: "string \<Rightarrow> string \<Rightarrow> bool" where
  "containsLinear s sub =
     (length sub \<le> length s \<and>
      list_ex (\<lambda>i. take (length sub) (drop i s) = sub) [0..<Suc (length s - length sub)])"

definition contains :: "string \<Rightarrow> string \<Rightarrow> bool" where
  "contains s sub = (length s \<ge> length sub \<and> (s = sub \<or> length s > 0 \<and> containsLinear s sub))"

definition err_text :: "vfs_error \<Rightarrow> string" where
  "err_text e = (case e of VEOF \<Rightarrow> ''EOF'' | VErr msg \<Rightarrow> msg)"

definition errCode :: "string \<Rightarrow> int" where
  "errCode msg =
     (if contains msg ''not found'' then ErrNotFound
      else if contains msg ''already exists'' then ErrAlreadyExists
      else if contains msg ''not a directory'' then ErrNotDir
      else if contains msg ''is a directory'' then ErrNotFile
      else if contains msg ''not empty'' then ErrNotEmpty
      else if contains msg ''not supported'' then ErrUnsupported
      else if contains msg ''permission'' then ErrPermission
      else ErrIO)"

definition errResp :: "vfs_error \<Rightarrow> Response" where
  "errResp e = zero_resp\<lparr>rs_Err := errCode (err_text e)\<rparr>"

definition code_resp :: "int \<Rightarrow> Response" where
  "code_resp c = zero_resp\<lparr>rs_Err := c\<rparr>"

section \<open>The server\<close>

record Server =
  sv_fs :: MemFS
  sv_nextHandle :: "64 word"
  sv_handles :: "(64 word, memFileHandle) gomap"

definition NewServer :: "MemFS \<Rightarrow> Server" where
  "NewServer fs = \<lparr>sv_fs = fs, sv_nextHandle = 0, sv_handles = []\<rparr>"

definition getHandle :: "Server \<Rightarrow> 64 word \<Rightarrow> memFileHandle option" where
  "getHandle s i = map_of (sv_handles s) i"

text \<open>Three shapes of a request: an answer that leaves the state alone, an update of the file
  system, and an operation on an open handle.\<close>

definition answer :: "Server \<Rightarrow> vfs_error + Response \<Rightarrow> (Response \<times> Server) outcome" where
  "answer s r = Done (case r of Inl e \<Rightarrow> (errResp e, s) | Inr resp \<Rightarrow> (resp, s))"

definition update_fs :: "Server \<Rightarrow> vfs_error + MemFS \<Rightarrow> (Response \<times> Server) outcome" where
  "update_fs s r = Done (case r of Inl e \<Rightarrow> (errResp e, s) | Inr fs' \<Rightarrow> (zero_resp, s\<lparr>sv_fs := fs'\<rparr>))"

definition put_handle :: "64 word \<Rightarrow> memFileHandle \<Rightarrow> Server \<Rightarrow> Server" where
  "put_handle i h s = s\<lparr>sv_handles := AList.update i h (sv_handles s)\<rparr>"

definition on_handle ::
  "Server \<Rightarrow> 64 word \<Rightarrow> (memFileHandle \<Rightarrow> (Response \<times> Server) outcome) \<Rightarrow> (Response \<times> Server) outcome" where
  "on_handle s i f =
     (case getHandle s i of None \<Rightarrow> Done (code_resp ErrInvalidInput, s) | Some h \<Rightarrow> f h)"

definition open_req :: "64 word \<Rightarrow> Server \<Rightarrow> Request \<Rightarrow> (Response \<times> Server) outcome" where
  "open_req now s req =
     (let opts = (case rq_OpenOpts req of None \<Rightarrow> zero_opts | Some opt \<Rightarrow> opt) in
      case Open now (sv_fs s) (rq_Path req) opts of
        Inl e \<Rightarrow> Done (errResp e, s)
      | Inr (h, fs') \<Rightarrow>
          let i = sv_nextHandle s + 1 in
          Done (zero_resp\<lparr>rs_Handle := i\<rparr>, put_handle i h (s\<lparr>sv_fs := fs', sv_nextHandle := i\<rparr>)))"

definition read_req :: "Server \<Rightarrow> Request \<Rightarrow> memFileHandle \<Rightarrow> (Response \<times> Server) outcome" where
  "read_req s req h =
     (case file_Read (sv_fs s) h (rq_Len req) of
        Panic \<Rightarrow> Panic
      | Done (Inl VEOF, h') \<Rightarrow> Done (zero_resp, put_handle (rq_Handle req) h' s)
      | Done (Inl e, h') \<Rightarrow> Done (errResp e, put_handle (rq_Handle req) h' s)
      | Done (Inr (data, n), h') \<Rightarrow>
          Done (zero_resp\<lparr>rs_Data := data, rs_N := n\<rparr>, put_handle (rq_Handle req) h' s))"

definition write_req ::
  "64 word \<Rightarrow> Server \<Rightarrow> Request \<Rightarrow> memFileHandle \<Rightarrow> (Response \<times> Server) outcome" where
  "write_req now s req h =
     (case file_Write now (sv_fs s) h (rq_Data req) of
        Panic \<Rightarrow> Panic
      | Done (r, h', fs') \<Rightarrow>
          Done (case r of Inl e \<Rightarrow> errResp e | Inr n \<Rightarrow> zero_resp\<lparr>rs_N := n\<rparr>,
                put_handle (rq_Handle req) h' (s\<lparr>sv_fs := fs'\<rparr>)))"

definition seek_req :: "Server \<Rightarrow> Request \<Rightarrow> memFileHandle \<Rightarrow> (Response \<times> Server) outcome" where
  "seek_req s req h =
     (case file_Seek (sv_fs s) h (rq_SeekFrom req) (rq_SeekPos req) of
        (r, h') \<Rightarrow>
          Done (case r of Inl e \<Rightarrow> errResp e | Inr pos \<Rightarrow> zero_resp\<lparr>rs_Pos := pos\<rparr>,
                put_handle (rq_Handle req) h' s))"

definition setlen_req ::
  "64 word \<Rightarrow> Server \<Rightarrow> Request \<Rightarrow> memFileHandle \<Rightarrow> (Response \<times> Server) outcome" where
  "setlen_req now s req h =
     (case file_SetLen now (sv_fs s) h (rq_Len req) of
        Panic \<Rightarrow> Panic
      | Done r \<Rightarrow> update_fs s r)"

definition meta_resp :: "MetadataWire \<Rightarrow> Response" where
  "meta_resp m = zero_resp\<lparr>rs_Meta := Some m\<rparr>"

definition dispatch :: "64 word \<Rightarrow> Server \<Rightarrow> Request \<Rightarrow> (Response \<times> Server) outcome" where
  "dispatch now s req =
     (let oper = rq_Op req; fs = sv_fs s; p = rq_Path req in
      if oper = OpReadlink
        then answer s (map_sum id (\<lambda>t. zero_resp\<lparr>rs_Target := t\<rparr>) (Readlink fs p))
      else if oper = OpReadDir
        then answer s (map_sum id (\<lambda>es. zero_resp\<lparr>rs_Entries := es\<rparr>) (ReadDir fs p))
      else if oper = OpCreateDir then update_fs s (CreateDir now fs p)
      else if oper = OpRemoveDir then update_fs s (RemoveDir fs p)
      else if oper = OpRename then update_fs s (Rename fs p (rq_ToPath req))
      else if oper = OpMetadata then answer s (map_sum id meta_resp (Metadata fs p))
      else if oper = OpSymlinkMetadata then answer s (map_sum id meta_resp (Metadata fs p))
      else if oper = OpRemoveFile then update_fs s (RemoveFile fs p)
      else if oper = OpOpen then open_req now s req
      else if oper = OpMount then Done (code_resp ErrUnsupported, s)
      else if oper = OpFileRead then on_handle s (rq_Handle req) (read_req s req)
      else if oper = OpFileWrite then on_handle s (rq_Handle req) (write_req now s req)
      else if oper = OpFileSeek then on_handle s (rq_Handle req) (seek_req s req)
      else if oper = OpFileFlush then on_handle s (rq_Handle req) (\<lambda>h. Done (zero_resp, s))
      else if oper = OpFileClose
        then Done (zero_resp, s\<lparr>sv_handles := AList.delete (rq_Handle req) (sv_handles s)\<rparr>)
      else if oper = OpFileSetLen then on_handle s (rq_Handle req) (setlen_req now s req)
      else Done (code_resp ErrUnsupported, s))"

section \<open>Framing\<close>

datatype frame_error = FEOF | FUnexpectedEOF | FTooLarge nat | FDecode

text \<open>\<open>io.ReadFull\<close> of a buffer of \<open>n\<close> bytes from the bytes still to come.\<close>

definition ReadFull :: "nat \<Rightarrow> bytes \<Rightarrow> frame_error + bytes \<times> bytes" where
  "ReadFull n input =
     (if n \<le> length input then Inr (take n input, drop n input)
      else if input = [] then Inl FEOF else Inl FUnexpectedEOF)"

definition be32 :: "bytes \<Rightarrow> nat" where
  "be32 bs = foldl (\<lambda>acc b. 256 * acc + byte_of b) 0 bs"

definition put_be32 :: "nat \<Rightarrow> bytes" where
  "put_be32 n = map (\<lambda>k. char_of (n div 256 ^ k mod 256)) [3, 2, 1, 0]"

definition max_frame :: nat where "max_frame = 16 * 1024 * 1024"

definition readFrame :: "(bytes \<Rightarrow> 'a option) \<Rightarrow> bytes \<Rightarrow> frame_error + 'a \<times> bytes" where
  "readFrame unmarshal input =
     result_bind (ReadFull 4 input) (\<lambda>(lenBuf, rest).
       let n = be32 lenBuf in
       if n > max_frame then Inl (FTooLarge n)
       else result_bind (ReadFull n rest) (\<lambda>(buf, rest').
         case unmarshal buf of None \<Rightarrow> Inl FDecode | Some msg \<Rightarrow> Inr (msg, rest')))"

text \<open>Writing a frame: the message may fail to encode, and either of the two writes may fail after some of its bytes.  The result
  is what went over the wire and whether all of it did.\<close>

datatype write_fault = LenFails nat | DataFails nat

definition writeFrame :: "('a \<Rightarrow> string + bytes) \<Rightarrow> write_fault option \<Rightarrow> 'a \<Rightarrow> bytes \<times> bool" where
  "writeFrame marshal fault msg =
     (case marshal msg of
        Inl _ \<Rightarrow> ([], False)
      | Inr data \<Rightarrow>
          let lenBuf = put_be32 (length data mod 2 ^ 32) in
          (case fault of
             Some (LenFails n) \<Rightarrow> (take n lenBuf, False)
           | Some (DataFails n) \<Rightarrow> (lenBuf @ take n data, False)
           | None \<Rightarrow> (lenBuf @ data, True)))"

text \<open>The connection loop on the bytes a client sends before it closes its end: the bytes written
  back and the server state.  \<open>clock k\<close> is the time at the \<open>k\<close>-th request and \<open>faults k\<close> the failure of its
  answer; a failure to answer ends the connection after the request took effect.\<close>

lemma readFrame_shorter [termination_simp]:
  "readFrame unmarshal input = Inr (req, rest) \<Longrightarrow> length rest < length input"
  by (auto simp: readFrame_def ReadFull_def Let_def split: if_splits option.splits)

fun handleConn ::
  "(bytes \<Rightarrow> Request option) \<Rightarrow> (Response \<Rightarrow> string + bytes) \<Rightarrow> (nat \<Rightarrow> write_fault option) \<Rightarrow> (nat \<Rightarrow> 64 word) \<Rightarrow> nat \<Rightarrow> Server \<Rightarrow> bytes
     \<Rightarrow> (bytes \<times> Server) outcome" where
  "handleConn unmarshal marshal faults clock k s input =
     (case readFrame unmarshal input of
        Inl e \<Rightarrow> Done ([], s)
      | Inr (req, rest) \<Rightarrow>
          (case dispatch (clock k) s req of
             Panic \<Rightarrow> Panic
           | Done (resp, s') \<Rightarrow>
               (case writeFrame marshal (faults k) resp of (out, ok) \<Rightarrow>
                  if \<not> ok then Done (out, s')
                  else (case handleConn unmarshal marshal faults clock (Suc k) s' rest of
                      Panic \<Rightarrow> Panic
                    | Done (out', s'') \<Rightarrow> Done (out @ out', s'')))))"

declare handleConn.simps [simp del]

end
