(* ===== verification/Machines.thy ===== *)
theory Machines
  imports Main
begin

text \<open>
  State machines in general: the states reachable from an initial one by a step relation labelled
  with inputs, and the interface of an inductive invariant.  A component interprets \<open>invariant\<close>
  on its own step relation.
\<close>

inductive reach :: "('s \<Rightarrow> 'i \<Rightarrow> 's \<Rightarrow> bool) \<Rightarrow> ('s \<Rightarrow> bool) \<Rightarrow> nat \<Rightarrow> 's \<Rightarrow> bool"
  for step :: "'s \<Rightarrow> 'i \<Rightarrow> 's \<Rightarrow> bool" and start :: "'s \<Rightarrow> bool" where
  reach_start: "start s \<Longrightarrow> reach step start 0 s"
| reach_step: "reach step start n s \<Longrightarrow> step s i s' \<Longrightarrow> reach step start (Suc n) s'"

lemma reach_mono:
  "reach step start n s \<Longrightarrow> (\<And>s i s'. step s i s' \<Longrightarrow> step' s i s') \<Longrightarrow> reach step' start n s"
  by (induction rule: reach.induct) (auto intro: reach.intros)

locale invariant =
  fixes step :: "'s \<Rightarrow> 'i \<Rightarrow> 's \<Rightarrow> bool" and start :: "'s \<Rightarrow> bool" and inv :: "'s \<Rightarrow> bool"
  assumes inv_start: "start s \<Longrightarrow> inv s"
    and inv_step: "inv s \<Longrightarrow> step s i s' \<Longrightarrow> inv s'"
begin

lemma inv_reach: "reach step start n s \<Longrightarrow> inv s"
  by (induction rule: reach.induct) (auto intro: inv_start inv_step)

lemma reach_step_inv: "reach step start n s \<Longrightarrow> step s i s' \<Longrightarrow> inv s \<and> inv s'"
  using inv_reach inv_step by blast

end

text \<open>A counter that a step raises by at most one never exceeds the number of steps.\<close>

locale counting = invariant +
  fixes counter :: "'a \<Rightarrow> nat"
  assumes count_start: "start s \<Longrightarrow> counter s = 0"
    and count_step: "inv s \<Longrightarrow> step s i s' \<Longrightarrow> counter s' \<le> Suc (counter s)"
begin

lemma counter_bound: "reach step start n s \<Longrightarrow> counter s \<le> n"
proof (induction rule: reach.induct)
  case (reach_step n s i s')
  then show ?case using inv_reach count_step[of s i s'] by fastforce
qed (simp add: count_start)

end

text \<open>Deterministic machines that answer every input: the answers to a sequence of inputs, and the
  interface of a simulation, under which both machines give the same answers.\<close>

fun run_all :: "('i \<Rightarrow> 's \<Rightarrow> 'r \<times> 's) \<Rightarrow> 'i list \<Rightarrow> 's \<Rightarrow> 'r list \<times> 's" where
  "run_all step [] s = ([], s)"
| "run_all step (i # is) s = (let (r, s') = step i s; (rs, s'') = run_all step is s' in (r # rs, s''))"

locale simulation =
  fixes cstep :: "'i \<Rightarrow> 'c \<Rightarrow> 'r \<times> 'c" and astep :: "'i \<Rightarrow> 'a \<Rightarrow> 'r \<times> 'a"
    and rel :: "'c \<Rightarrow> 'a \<Rightarrow> bool" and admissible :: "'i \<Rightarrow> bool"
  assumes answers: "rel c a \<Longrightarrow> admissible i \<Longrightarrow> fst (cstep i c) = fst (astep i a)"
    and related: "rel c a \<Longrightarrow> admissible i \<Longrightarrow> rel (snd (cstep i c)) (snd (astep i a))"
begin

lemma simulates:
  "rel c a \<Longrightarrow> list_all admissible is \<Longrightarrow>
     fst (run_all cstep is c) = fst (run_all astep is a) \<and> rel (snd (run_all cstep is c)) (snd (run_all astep is a))"
  by (induction "is" arbitrary: c a) (simp_all add: answers related case_prod_beta)

end

end
