(* ===== verification/Vfs_Server_Props.thy ===== *)
theory Vfs_Server_Props
  imports Vfs_Server Machines
begin

text \<open>
  What the VFS server promises: the invariant of its state over every run, which requests keep the tree, fresh handles, exact
  error codes, framing that refines the message protocol, and when a request can stop the process.
\<close>

section \<open>The substring test\<close>

lemma Contains_nth:
  "Contains s sub \<longleftrightarrow> (\<exists>i. i + length sub \<le> length s \<and> take (length sub) (drop i s) = sub)"
proof
  assume "Contains s sub"
  then obtain l r where "s = l @ sub @ r" by (auto simp: Contains_iff)
  then show "\<exists>i. i + length sub \<le> length s \<and> take (length sub) (drop i s) = sub"
    by (intro exI[of _ "length l"]) simp
next
  assume "\<exists>i. i + length sub \<le> length s \<and> take (length sub) (drop i s) = sub"
  then obtain i where "take (length sub) (drop i s) = sub" by blast
  then have "s = take i s @ sub @ drop (length sub) (drop i s)"
    by (metis append_take_drop_id)
  then show "Contains s sub" unfolding Contains_iff by blast
qed

lemma contains_eq: "contains s sub = Contains s sub"
proof -
  have ex: "list_ex P [0..<Suc n] \<longleftrightarrow> (\<exists>i\<le>n. P i)" for P n
    by (auto simp: list_ex_iff less_Suc_eq_le simp del: upt_Suc)
  have "containsLinear s sub \<longleftrightarrow> length sub \<le> length s \<and>
      (\<exists>i\<le>length s - length sub. take (length sub) (drop i s) = sub)"
    unfolding containsLinear_def ex by simp
  then have "containsLinear s sub \<longleftrightarrow> Contains s sub"
    unfolding Contains_nth by (metis add_leD2 le_diff_conv2)
  moreover have "Contains s sub" if "s = sub" using that by (auto simp: Contains_nth)
  moreover have "length sub \<le> length s" if "Contains s sub" using that by (auto simp: Contains_nth)
  ultimately show ?thesis by (cases "s = []") (auto simp: contains_def)
qed

lemma Contains_append_sep:
  assumes "c \<notin> set sub" "sub \<noteq> []"
  shows "Contains (a @ c # b) sub \<longleftrightarrow> Contains a sub \<or> Contains b sub"
proof
  assume "Contains (a @ c # b) sub"
  then obtain l r where "a @ c # b = l @ sub @ r" by (auto simp: Contains_iff)
  then consider u where "a = l @ u" "u @ c # b = sub @ r" | u where "l = a @ u" "c # b = u @ sub @ r"
    by (auto simp: append_eq_append_conv2)
  then show "Contains a sub \<or> Contains b sub"
  proof cases
    case 1
    then obtain w where "u = sub @ w \<or> sub = u @ c # w"
      by (auto simp: append_eq_append_conv2 Cons_eq_append_conv)
    then show ?thesis using 1 assms(1) by (auto simp: Contains_iff)
  next
    case 2
    then show ?thesis using assms by (cases u) (auto simp: Contains_iff Cons_eq_append_conv neq_Nil_conv)
  qed
next
  assume "Contains a sub \<or> Contains b sub"
  then show "Contains (a @ c # b) sub"
    by (auto simp: Contains_iff) (metis append.assoc append_Cons)+
qed

section \<open>Error codes\<close>

definition err_phrases :: "string list" where
  "err_phrases = [''not found'', ''already exists'', ''not a directory'', ''is a directory'',
     ''not empty'', ''not supported'', ''permission'']"

text \<open>A path that contains none of the phrases by which errors are classified.\<close>

definition plain_path :: "string \<Rightarrow> bool" where
  "plain_path p = (\<not> list_ex (Contains p) err_phrases)"

lemma phrase_in_message:
  assumes "plain_path p" "sub \<in> set err_phrases"
  shows "Contains (a @ '': '' @ p) sub \<longleftrightarrow> Contains a sub"
proof -
  have sub: "CHR '':'' \<notin> set sub" "sub \<noteq> []" "hd sub \<noteq> CHR '' ''"
    using assms(2) by (auto simp: err_phrases_def)
  then have "\<not> HasPrefix (CHR '' '' # p) sub" by (cases sub) (auto simp: HasPrefix_def)
  moreover have "\<not> Contains p sub" using assms by (auto simp: plain_path_def list_ex_iff)
  ultimately show ?thesis using Contains_append_sep[of "CHR '':''" sub a "CHR '' '' # p"] sub by simp
qed

lemma errCode_message:
  assumes "plain_path p"
  shows "errCode (a @ '': '' @ p) = errCode a"
  using phrase_in_message[OF assms] unfolding errCode_def contains_eq
  by (simp add: err_phrases_def)

lemma errResp_nonzero [simp]: "rs_Err (errResp e) \<noteq> 0"
  by (simp add: errResp_def errCode_def)

section \<open>Framing\<close>

lemma length_put_be32 [simp]: "length (put_be32 n) = 4"
  by (simp add: put_be32_def)

lemma be32_put_be32: "n < 2 ^ 32 \<Longrightarrow> be32 (put_be32 n) = n"
proof -
  assume n: "n < 2 ^ 32"
  define x y z where x: "x = n div 256" and y: "y = x div 256" and z: "z = y div 256"
  have d: "n div 65536 = y" "n div 16777216 = z"
    unfolding x y z div_mult2_eq[symmetric] by simp_all
  have "z mod 256 = z" using n unfolding d(2)[symmetric] by (simp add: less_mult_imp_div_less)
  then have "be32 (put_be32 n) = 256 * (256 * (256 * z + y mod 256) + x mod 256) + n mod 256"
    unfolding be32_def put_be32_def by (simp add: byte_of_def d x[symmetric])
  also have "256 * z + y mod 256 = y" unfolding z by simp
  also have "256 * y + x mod 256 = x" unfolding y by simp
  also have "256 * x + n mod 256 = n" unfolding x by simp
  finally show ?thesis .
qed

lemma readFrame_writeFrame:
  assumes "marshal m = Inr data" "unmarshal data = Some m'" "length data \<le> max_frame"
  shows "readFrame unmarshal (fst (writeFrame marshal None m) @ rest) = Inr (m', rest)"
  using assms be32_put_be32[of "length data"]
  by (simp add: readFrame_def writeFrame_def ReadFull_def Let_def max_frame_def)

section \<open>The invariant of the server state\<close>

text \<open>What the frame limit and the Go types say of a decoded request.\<close>

definition int64_ok :: "int \<Rightarrow> bool" where
  "int64_ok x = (- (2 ^ 63) \<le> x \<and> x < 2 ^ 63)"

definition wire_ok :: "Request \<Rightarrow> bool" where
  "wire_ok req = (int64_ok (rq_Len req) \<and> int64_ok (rq_SeekPos req) \<and> length (rq_Data req) \<le> max_frame)"

lemma wrap64_ok: "int64_ok (wrap64 x)"
proof -
  have "0 \<le> (x + 2 ^ 63) mod 2 ^ 64" "(x + 2 ^ 63) mod 2 ^ 64 < 2 ^ 64" by simp_all
  then show ?thesis unfolding int64_ok_def wrap64_def by auto
qed

lemma wrap64_advance:
  assumes "0 \<le> p" "p < 2 ^ 63" "0 \<le> n" "n < 2 ^ 63" "p \<le> wrap64 (p + n)"
  shows "wrap64 (p + n) = p + n"
proof (rule ccontr)
  assume a: "wrap64 (p + n) \<noteq> p + n"
  have "p + n \<ge> 2 ^ 63"
  proof (rule ccontr)
    assume "\<not> p + n \<ge> 2 ^ 63"
    then have "(p + n + 2 ^ 63) mod 2 ^ 64 = p + n + 2 ^ 63" using assms by (intro mod_pos_pos_trivial) auto
    then show False using a by (simp add: wrap64_def)
  qed
  then have "(p + n + 2 ^ 63) mod 2 ^ 64 = p + n + 2 ^ 63 - 2 ^ 64"
    using assms by (subst mod_pos_geq) (auto intro: mod_pos_pos_trivial)
  then show False using assms by (simp add: wrap64_def)
qed

definition handles_ok :: "Server \<Rightarrow> bool" where
  "handles_ok s = (gomap_ok (sv_handles s) \<and>
     (\<forall>(i, h)\<in>set (sv_handles s). 0 \<le> h_pos h \<and> h_pos h < 2 ^ 63 \<and> 0 < unat i \<and> unat i \<le> unat (sv_nextHandle s)))"

definition sizes_ok :: "MemFS \<Rightarrow> bool" where
  "sizes_ok fs = (\<forall>(p, n)\<in>set fs. int (length (n_data n)) \<le> 2 ^ 48)"

definition server_ok :: "Server \<Rightarrow> bool" where
  "server_ok s = (gomap_ok (sv_fs s) \<and> sizes_ok (sv_fs s) \<and> handles_ok s)"

text \<open>The requests that keep the tree: they do not remove the root, and do not rename onto a
  directory, onto the source itself or into it.\<close>

definition tree_safe :: "MemFS \<Rightarrow> Request \<Rightarrow> bool" where
  "tree_safe fs req =
     ((rq_Op req = OpRemoveDir \<longrightarrow> cleanPath (rq_Path req) \<noteq> ''/'') \<and>
      (rq_Op req = OpRename \<longrightarrow>
         cleanPath (rq_Path req) \<noteq> ''/'' \<and> cleanPath (rq_ToPath req) \<noteq> cleanPath (rq_Path req) \<and>
         \<not> below (cleanPath (rq_Path req)) (cleanPath (rq_ToPath req)) \<and>
         \<not> is_dir_at fs (cleanPath (rq_ToPath req))))"

lemma handles_ok_iff:
  "handles_ok s \<longleftrightarrow> gomap_ok (sv_handles s) \<and>
     (\<forall>i h. getHandle s i = Some h \<longrightarrow> 0 \<le> h_pos h \<and> h_pos h < 2 ^ 63 \<and> 0 < unat i \<and> unat i \<le> unat (sv_nextHandle s))"
  by (auto simp: handles_ok_def getHandle_def gomap_in_set_iff)

lemma handles_ok_fs [simp]: "handles_ok (s\<lparr>sv_fs := fs\<rparr>) = handles_ok s"
  by (simp add: handles_ok_def)

lemma handles_ok_put:
  "handles_ok s \<Longrightarrow> getHandle s i = Some h \<Longrightarrow> 0 \<le> h_pos h' \<Longrightarrow> h_pos h' < 2 ^ 63 \<Longrightarrow> handles_ok (put_handle i h' s)"
  by (auto simp: handles_ok_iff put_handle_def getHandle_def)

lemma handles_ok_close:
  "handles_ok s \<Longrightarrow> handles_ok (s\<lparr>sv_handles := AList.delete i (sv_handles s)\<rparr>)"
  by (auto simp: handles_ok_iff getHandle_def split: if_splits)

lemma sizes_ok_iff:
  "gomap_ok fs \<Longrightarrow> sizes_ok fs \<longleftrightarrow> (\<forall>p n. map_of fs p = Some n \<longrightarrow> int (length (n_data n)) \<le> 2 ^ 48)"
  by (auto simp: sizes_ok_def gomap_in_set_iff)

lemma sizes_ok_update:
  "gomap_ok fs \<Longrightarrow> sizes_ok fs \<Longrightarrow> int (length (n_data n)) \<le> 2 ^ 48 \<Longrightarrow> sizes_ok (AList.update p n fs)"
  by (simp add: sizes_ok_iff)

lemma sizes_ok_delete: "gomap_ok fs \<Longrightarrow> sizes_ok fs \<Longrightarrow> sizes_ok (AList.delete p fs)"
  by (simp add: sizes_ok_iff)

lemma file_Read_pos:
  "file_Read fs h n = Done (r, h') \<Longrightarrow> 0 \<le> h_pos h \<Longrightarrow> h_pos h < 2 ^ 63 \<Longrightarrow> 0 \<le> h_pos h' \<and> h_pos h' < 2 ^ 63"
  using wrap64_ok[of "h_pos h + n"]
  by (auto simp: file_Read_def Let_def int64_ok_def split: option.splits if_splits)

lemma file_Write_pos:
  "file_Write now fs h d = Done (r, h', fs') \<Longrightarrow> 0 \<le> h_pos h \<Longrightarrow> h_pos h < 2 ^ 63 \<Longrightarrow>
     0 \<le> h_pos h' \<and> h_pos h' < 2 ^ 63"
  using wrap64_ok unfolding int64_ok_def
  by (auto simp: file_Write_def Let_def split: option.splits if_splits)
    (metis of_nat_less_numeral_iff)

lemma file_Seek_pos:
  "file_Seek fs h from off = (r, h') \<Longrightarrow> int64_ok off \<Longrightarrow> 0 \<le> h_pos h \<Longrightarrow> h_pos h < 2 ^ 63 \<Longrightarrow>
     0 \<le> h_pos h' \<and> h_pos h' < 2 ^ 63"
  using wrap64_ok unfolding int64_ok_def
  by (auto simp: file_Seek_def Let_def split: option.splits if_splits)

text \<open>A write that does not panic has not wrapped around, and stores the bytes of \<open>overlay\<close>.\<close>

lemma file_Write_Done:
  assumes "file_Write now fs h d = Done (r, h', fs')" "map_of fs (h_path h) = Some node"
    "pos = (if h_append h then int (length (n_data node)) else h_pos h)"
    "0 \<le> pos" "pos < 2 ^ 63" "length d \<le> max_frame" "int (length (n_data node)) \<le> 2 ^ 48"
  shows "pos + int (length d) \<le> 2 ^ 48"
proof -
  have "pos \<le> wrap64 (pos + int (length d))"
    "wrap64 (pos + int (length d)) \<le> 2 ^ 48"
    using assms by (auto simp: file_Write_def Let_def make_ok_def split: if_splits)
  then show ?thesis
    using wrap64_advance[of pos "int (length d)"] assms(4-6) by (auto simp: max_frame_def)
qed

lemma sizes_file_Write:
  assumes "gomap_ok fs" "sizes_ok fs" "file_Write now fs h d = Done (r, h', fs')"
    "0 \<le> h_pos h" "h_pos h < 2 ^ 63" "length d \<le> max_frame"
  shows "sizes_ok fs'"
proof (cases "map_of fs (h_path h)")
  case (Some node)
  define pos where "pos = (if h_append h then int (length (n_data node)) else h_pos h)"
  have sz: "int (length (n_data node)) \<le> 2 ^ 48" using assms(1,2) Some by (auto simp: sizes_ok_iff)
  then have pos: "0 \<le> pos" "pos < 2 ^ 63" using assms(4,5) by (auto simp: pos_def)
  have le: "pos + int (length d) \<le> 2 ^ 48"
    by (rule file_Write_Done[OF assms(3) Some pos_def pos assms(6) sz])
  have "int (max (length (n_data node)) (nat pos + length d)) \<le> 2 ^ 48"
    using sz le pos(1) by auto
  then show ?thesis
    using file_Write_normal[OF Some pos_def pos(1) le, of now] assms(1-3)
    by (auto intro!: sizes_ok_update)
qed (use assms in \<open>auto simp: file_Write_def\<close>)

lemma sizes_file_SetLen:
  assumes "gomap_ok fs" "sizes_ok fs" "file_SetLen now fs h n = Done (Inr fs')"
  shows "sizes_ok fs'"
proof (cases "map_of fs (h_path h)")
  case (Some node)
  then have "int (length (n_data node)) \<le> 2 ^ 48" using assms(1,2) by (auto simp: sizes_ok_iff)
  then show ?thesis
    using assms Some
    by (auto simp: file_SetLen_def Let_def make_ok_def split: if_splits intro!: sizes_ok_update)
qed (use assms in \<open>auto simp: file_SetLen_def\<close>)

lemma sizes_paths:
  assumes "gomap_ok fs" "sizes_ok fs"
  shows "CreateDir now fs p = Inr fs' \<Longrightarrow> sizes_ok fs'"
    "RemoveDir fs p = Inr fs' \<Longrightarrow> sizes_ok fs'"
    "RemoveFile fs p = Inr fs' \<Longrightarrow> sizes_ok fs'"
    "Open now fs p opts = Inr (h, fs') \<Longrightarrow> sizes_ok fs'"
  using assms
  by (auto simp: CreateDir_def RemoveDir_def RemoveFile_def Open_def Let_def sizes_ok_delete
      split: if_splits option.splits intro!: sizes_ok_update)

lemma gomap_requests:
  assumes "gomap_ok fs"
  shows "CreateDir now fs p = Inr fs' \<Longrightarrow> gomap_ok fs'" "RemoveDir fs p = Inr fs' \<Longrightarrow> gomap_ok fs'"
    "RemoveFile fs p = Inr fs' \<Longrightarrow> gomap_ok fs'" "Open now fs p opts = Inr (h, fs') \<Longrightarrow> gomap_ok fs'"
    "file_Write now fs h d = Done (r, h', fs') \<Longrightarrow> gomap_ok fs'" "file_SetLen now fs h n = Done (Inr fs') \<Longrightarrow> gomap_ok fs'"
  using assms
  by (auto simp: CreateDir_def RemoveDir_def RemoveFile_def Open_def file_Write_def file_SetLen_def Let_def split: if_splits option.splits)

lemma gomap_Rename: "gomap_ok fs \<Longrightarrow> Rename fs a b = Inr fs' \<Longrightarrow> gomap_ok fs'"
  by (auto simp: Rename_def Let_def gomap_ok_fold_move split: option.splits if_splits)

lemma sizes_Rename:
  assumes "gomap_ok fs" "sizes_ok fs" "Rename fs a b = Inr fs'"
  shows "sizes_ok fs'"
proof -
  have mv: "gomap_ok fs \<Longrightarrow> sizes_ok fs \<Longrightarrow> sizes_ok (move_node m fs)" for m fs
    by (auto simp: move_node_def sizes_ok_iff split: option.splits)
  have "gomap_ok fs \<Longrightarrow> sizes_ok fs \<Longrightarrow> sizes_ok (fold move_node ms fs)" for ms fs
    by (induction ms arbitrary: fs) (simp_all add: mv gomap_ok_move_node)
  moreover obtain node where "map_of fs (cleanPath a) = Some node"
    "fs' = AList.delete (cleanPath a) (AList.update (cleanPath b) node
       (if n_isDir node then fold move_node (rename_moves (cleanPath a) (cleanPath b) fs) fs else fs))"
    using Rename_Inr[OF assms(3)] by metis
  moreover have "int (length (n_data node)) \<le> 2 ^ 48" if "map_of fs (cleanPath a) = Some node" for node
    using that assms by (auto simp: sizes_ok_iff)
  ultimately show ?thesis
    using assms(1,2) by (auto intro!: sizes_ok_delete sizes_ok_update simp: gomap_ok_fold_move)
qed

text \<open>Each shape of request keeps the invariant.\<close>

lemma server_ok_answer: "answer s r = Done (resp, s') \<Longrightarrow> s' = s"
  by (simp add: answer_def split: sum.splits)

lemma server_ok_update_fs:
  assumes "server_ok s" "update_fs s r = Done (resp, s')" "\<And>fs'. r = Inr fs' \<Longrightarrow> gomap_ok fs' \<and> sizes_ok fs'"
  shows "server_ok s'"
  using assms by (auto simp: update_fs_def server_ok_def split: sum.splits)

lemma server_ok_on_handle:
  assumes "server_ok s" "on_handle s i f = Done (resp, s')"
    "\<And>h. getHandle s i = Some h \<Longrightarrow> f h = Done (resp, s') \<Longrightarrow> server_ok s'"
  shows "server_ok s'"
  using assms by (auto simp: on_handle_def split: option.splits)

lemma server_ok_handle_pos:
  "server_ok s \<Longrightarrow> getHandle s i = Some h \<Longrightarrow> 0 \<le> h_pos h \<and> h_pos h < 2 ^ 63"
  by (auto simp: server_ok_def handles_ok_iff)

lemma server_ok_put:
  "server_ok s \<Longrightarrow> getHandle s i = Some h \<Longrightarrow> 0 \<le> h_pos h' \<and> h_pos h' < 2 ^ 63 \<Longrightarrow>
     server_ok (put_handle i h' s)"
  using handles_ok_put[of s i h h'] by (simp add: server_ok_def) (simp add: put_handle_def)

lemma unat_Suc_word: "(w :: 64 word) \<noteq> - 1 \<Longrightarrow> unat (w + 1) = Suc (unat w)"
  by (metis unatSuc add.commute add_eq_0_iff2 add.inverse_inverse)

lemma server_ok_open:
  assumes ok: "server_ok s" and nx: "sv_nextHandle s \<noteq> - 1" and D: "open_req now s req = Done (resp, s')"
  shows "server_ok s'"
proof (cases "Open now (sv_fs s) (rq_Path req) (case rq_OpenOpts req of None \<Rightarrow> zero_opts | Some opt \<Rightarrow> opt)")
  case (Inl e)
  then show ?thesis using ok D by (simp add: open_req_def)
next
  case (Inr hf)
  obtain h fs' where hf: "hf = (h, fs')" by (cases hf)
  let ?i = "sv_nextHandle s + 1"
  have s': "s' = put_handle ?i h (s\<lparr>sv_fs := fs', sv_nextHandle := ?i\<rparr>)"
    using D Inr hf by (simp add: open_req_def Let_def)
  have fs: "gomap_ok fs'" "sizes_ok fs'"
    using ok Inr hf gomap_requests(4) sizes_paths(4) by (auto simp: server_ok_def)
  have h: "h_pos h = 0"
    using Inr hf by (auto simp: Open_def new_handle_def Let_def split: if_splits option.splits)
  have "handles_ok s'"
    using ok h unat_Suc_word[OF nx] s'
    by (auto simp: server_ok_def handles_ok_iff put_handle_def getHandle_def le_SucI)
  moreover have "sv_fs s' = fs'" using s' by (simp add: put_handle_def)
  ultimately show ?thesis using fs by (simp add: server_ok_def)
qed

lemma server_ok_read:
  assumes "server_ok s" "getHandle s (rq_Handle req) = Some h" "read_req s req h = Done (resp, s')"
  shows "server_ok s'"
proof (cases "file_Read (sv_fs s) h (rq_Len req)")
  case (Done x)
  then obtain r h' where x: "file_Read (sv_fs s) h (rq_Len req) = Done (r, h')" by (cases x) auto
  have "s' = put_handle (rq_Handle req) h' s"
    using assms(3) x by (auto simp: read_req_def split: sum.splits prod.splits vfs_error.splits)
  then show ?thesis
    using server_ok_put[OF assms(1,2)] file_Read_pos[OF x] server_ok_handle_pos[OF assms(1,2)] by blast
qed (use assms in \<open>simp add: read_req_def\<close>)

lemma server_ok_write:
  assumes "server_ok s" "getHandle s (rq_Handle req) = Some h" "write_req now s req h = Done (resp, s')"
    "wire_ok req"
  shows "server_ok s'"
proof (cases "file_Write now (sv_fs s) h (rq_Data req)")
  case (Done x)
  then obtain r h' fs' where x: "file_Write now (sv_fs s) h (rq_Data req) = Done (r, h', fs')"
    by (cases x) auto
  have s': "s' = put_handle (rq_Handle req) h' (s\<lparr>sv_fs := fs'\<rparr>)"
    using assms(3) x by (simp add: write_req_def)
  note pos = server_ok_handle_pos[OF assms(1,2)]
  have "gomap_ok fs'" "sizes_ok fs'"
    using assms(1,4) gomap_requests(5)[OF _ x] sizes_file_Write[OF _ _ x] pos
    by (auto simp: server_ok_def wire_ok_def)
  then have "server_ok (s\<lparr>sv_fs := fs'\<rparr>)" using assms(1) by (simp add: server_ok_def)
  then show ?thesis
    using server_ok_put[of "s\<lparr>sv_fs := fs'\<rparr>" "rq_Handle req" h h'] file_Write_pos[OF x] pos assms(2) s'
    by (simp add: getHandle_def)
qed (use assms in \<open>simp add: write_req_def\<close>)

lemma server_ok_seek:
  assumes "server_ok s" "getHandle s (rq_Handle req) = Some h" "seek_req s req h = Done (resp, s')" "wire_ok req"
  shows "server_ok s'"
proof -
  obtain r h' where x: "file_Seek (sv_fs s) h (rq_SeekFrom req) (rq_SeekPos req) = (r, h')"
    by fastforce
  have "0 \<le> h_pos h' \<and> h_pos h' < 2 ^ 63"
    using file_Seek_pos[OF x] server_ok_handle_pos[OF assms(1,2)] assms(4) by (simp add: wire_ok_def)
  then show ?thesis
    using assms(3) x server_ok_put[OF assms(1,2), of h'] by (simp add: seek_req_def)
qed

lemma server_ok_setlen:
  assumes "server_ok s" "setlen_req now s req h = Done (resp, s')"
  shows "server_ok s'"
proof (cases "file_SetLen now (sv_fs s) h (rq_Len req)")
  case (Done r)
  then have "update_fs s r = Done (resp, s')" using assms(2) by (simp add: setlen_req_def)
  then show ?thesis
    using server_ok_update_fs[OF assms(1)] gomap_requests(6) sizes_file_SetLen assms(1) Done
    unfolding server_ok_def by metis
qed (use assms in \<open>simp add: setlen_req_def\<close>)

text \<open>The requests on paths change the tree only.\<close>

lemma dispatch_path_ok:
  assumes ok: "server_ok s" and D: "dispatch now s req = Done (resp, s')"
    and op: "rq_Op req \<in> {OpCreateDir, OpRemoveDir, OpRename, OpRemoveFile}"
  shows "server_ok s'"
proof -
  have fs: "gomap_ok (sv_fs s)" "sizes_ok (sv_fs s)" using ok by (auto simp: server_ok_def)
  obtain r where r: "update_fs s r = Done (resp, s')" "r \<in> {CreateDir now (sv_fs s) (rq_Path req), RemoveDir (sv_fs s) (rq_Path req),
      Rename (sv_fs s) (rq_Path req) (rq_ToPath req), RemoveFile (sv_fs s) (rq_Path req)}"
    using D[unfolded dispatch_def Let_def] op by auto
  have "gomap_ok fs' \<and> sizes_ok fs'" if "r = Inr fs'" for fs'
    using r(2) that gomap_requests(1-3)[OF fs(1)] gomap_Rename[OF fs(1)] sizes_paths(1-3)[OF fs] sizes_Rename[OF fs] by fastforce
  then show ?thesis by (rule server_ok_update_fs[OF ok r(1)])
qed

text \<open>The requests on an open handle go through \<open>on_handle\<close>.\<close>

lemma dispatch_handle_ok:
  assumes ok: "server_ok s" and w: "wire_ok req" and D: "dispatch now s req = Done (resp, s')"
    and op: "rq_Op req \<in> {OpFileRead, OpFileWrite, OpFileSeek, OpFileFlush, OpFileSetLen}"
  shows "server_ok s'"
proof -
  note D' = D[unfolded dispatch_def Let_def]
  note go = server_ok_on_handle[OF ok]
  consider (read) "on_handle s (rq_Handle req) (read_req s req) = Done (resp, s')"
    | (put) "on_handle s (rq_Handle req) (write_req now s req) = Done (resp, s')"
    | (seek) "on_handle s (rq_Handle req) (seek_req s req) = Done (resp, s')"
    | (setlen) "on_handle s (rq_Handle req) (setlen_req now s req) = Done (resp, s')"
    | (flush) "rq_Op req = OpFileFlush"
    using op D' by auto
  then show ?thesis
  proof cases
    case read
    then show ?thesis by (rule go) (rule server_ok_read[OF ok])
  next
    case put
    then show ?thesis by (rule go) (rule server_ok_write[OF ok _ _ w])
  next
    case seek
    then show ?thesis by (rule go) (rule server_ok_seek[OF ok _ _ w])
  next
    case setlen
    then show ?thesis by (rule go) (rule server_ok_setlen[OF ok])
  next
    case flush
    then show ?thesis using D' go ok by auto
  qed
qed

lemma dispatch_ok:
  assumes ok: "server_ok s" and w: "wire_ok req" and nx: "sv_nextHandle s \<noteq> - 1" and D: "dispatch now s req = Done (resp, s')"
  shows "server_ok s'"
proof -
  note D' = D[unfolded dispatch_def Let_def]
  consider (path) "rq_Op req \<in> {OpCreateDir, OpRemoveDir, OpRename, OpRemoveFile}"
    | (handle) "rq_Op req \<in> {OpFileRead, OpFileWrite, OpFileSeek, OpFileFlush, OpFileSetLen}"
    | (fresh) "rq_Op req = OpOpen" | (close) "rq_Op req = OpFileClose"
    | (rest) "rq_Op req \<notin> {OpCreateDir, OpRemoveDir, OpRename, OpRemoveFile, OpOpen, OpFileRead,
        OpFileWrite, OpFileSeek, OpFileFlush, OpFileClose, OpFileSetLen}"
    by blast
  then show ?thesis
  proof cases
    case path
    then show ?thesis by (rule dispatch_path_ok[OF ok D])
  next
    case handle
    then show ?thesis by (rule dispatch_handle_ok[OF ok w D])
  next
    case fresh
    then show ?thesis using D' server_ok_open[OF ok nx] by auto
  next
    case close
    then show ?thesis using D' ok handles_ok_close by (auto simp: server_ok_def)
  next
    case rest
    then have "s' = s" using D' by (auto dest: server_ok_answer split: if_splits)
    then show ?thesis using ok by simp
  qed
qed

text \<open>A request that is safe for the tree keeps it well formed, in whatever state the handles are.\<close>

lemma on_handle_fs:
  assumes "on_handle s i f = Done (resp, s')" "wf_fs (sv_fs s)" "\<And>h. f h = Done (resp, s') \<Longrightarrow> wf_fs (sv_fs s')"
  shows "wf_fs (sv_fs s')"
  using assms by (auto simp: on_handle_def split: option.splits)

lemma update_fs_wf:
  assumes "update_fs s r = Done (resp, s')" "wf_fs (sv_fs s)" "\<And>fs'. r = Inr fs' \<Longrightarrow> wf_fs fs'"
  shows "wf_fs (sv_fs s')"
  using assms by (auto simp: update_fs_def split: sum.splits)

lemma handle_req_wf:
  assumes "wf_fs (sv_fs s)"
  shows "read_req s req h = Done (resp, s') \<Longrightarrow> wf_fs (sv_fs s')" "seek_req s req h = Done (resp, s') \<Longrightarrow> wf_fs (sv_fs s')"
    "write_req now s req h = Done (resp, s') \<Longrightarrow> wf_fs (sv_fs s')" "setlen_req now s req h = Done (resp, s') \<Longrightarrow> wf_fs (sv_fs s')"
    "open_req now s req = Done (resp, s') \<Longrightarrow> wf_fs (sv_fs s')"
  using assms wf_file_Write[OF assms] wf_file_SetLen[OF assms] wf_Open[OF assms]
  by (auto simp: read_req_def seek_req_def write_req_def setlen_req_def open_req_def put_handle_def update_fs_def Let_def
      split: outcome.splits sum.splits prod.splits vfs_error.splits)

lemma dispatch_wf:
  assumes wf: "wf_fs (sv_fs s)" and t: "tree_safe (sv_fs s) req" and D: "dispatch now s req = Done (resp, s')"
  shows "wf_fs (sv_fs s')"
proof -
  note D' = D[unfolded dispatch_def Let_def]
  have tree: "wf_fs (sv_fs s')" if "update_fs s r = Done (resp, s')"
    "r = CreateDir now (sv_fs s) (rq_Path req) \<or> r = RemoveFile (sv_fs s) (rq_Path req) \<or>
     rq_Op req = OpRemoveDir \<and> r = RemoveDir (sv_fs s) (rq_Path req) \<or>
     rq_Op req = OpRename \<and> r = Rename (sv_fs s) (rq_Path req) (rq_ToPath req)" for r
  proof (rule update_fs_wf[OF that(1) wf])
    show "wf_fs fs'" if r: "r = Inr fs'" for fs'
      using \<open>_ \<or> _\<close>
    proof (elim disjE conjE)
      show "r = CreateDir now (sv_fs s) (rq_Path req) \<Longrightarrow> ?thesis" using wf_CreateDir[OF wf] r by metis
      show "r = RemoveFile (sv_fs s) (rq_Path req) \<Longrightarrow> ?thesis" using wf_RemoveFile[OF wf] r by metis
      show "rq_Op req = OpRemoveDir \<Longrightarrow> r = RemoveDir (sv_fs s) (rq_Path req) \<Longrightarrow> ?thesis"
        using wf_RemoveDir[OF wf] t r by (metis tree_safe_def)
      show "rq_Op req = OpRename \<Longrightarrow> r = Rename (sv_fs s) (rq_Path req) (rq_ToPath req) \<Longrightarrow> ?thesis"
        using t r by (auto simp: tree_safe_def intro: wf_Rename[OF wf sym])
    qed
  qed
  have hdl: "wf_fs (sv_fs s')" if "on_handle s i f = Done (resp, s')"
    "f \<in> {read_req s req, seek_req s req, write_req now s req, setlen_req now s req, \<lambda>h. Done (zero_resp, s)}" for i f
  proof (rule on_handle_fs[OF that(1) wf])
    show "wf_fs (sv_fs s')" if "f h = Done (resp, s')" for h
      using \<open>f \<in> _\<close> that handle_req_wf(1-4)[OF wf] wf by (elim insertE) (metis, metis, metis, metis, auto)
  qed
  consider (path) "rq_Op req \<in> {OpCreateDir, OpRemoveDir, OpRename, OpRemoveFile}"
    | (handle) "rq_Op req \<in> {OpFileRead, OpFileWrite, OpFileSeek, OpFileFlush, OpFileSetLen}"
    | (fresh) "rq_Op req = OpOpen" | (close) "rq_Op req = OpFileClose"
    | (rest) "rq_Op req \<notin> {OpCreateDir, OpRemoveDir, OpRename, OpRemoveFile, OpOpen, OpFileRead,
        OpFileWrite, OpFileSeek, OpFileFlush, OpFileClose, OpFileSetLen}"
    by blast
  then show ?thesis
  proof cases
    case path
    then obtain r where "update_fs s r = Done (resp, s')"
      "r = CreateDir now (sv_fs s) (rq_Path req) \<or> r = RemoveFile (sv_fs s) (rq_Path req) \<or>
       rq_Op req = OpRemoveDir \<and> r = RemoveDir (sv_fs s) (rq_Path req) \<or>
       rq_Op req = OpRename \<and> r = Rename (sv_fs s) (rq_Path req) (rq_ToPath req)"
      using D' by auto
    then show ?thesis by (rule tree)
  next
    case handle
    then obtain f where "on_handle s (rq_Handle req) f = Done (resp, s')"
      "f \<in> {read_req s req, seek_req s req, write_req now s req, setlen_req now s req, \<lambda>h. Done (zero_resp, s)}"
      using D' by auto
    then show ?thesis by (rule hdl)
  next
    case fresh
    then show ?thesis using D' handle_req_wf(5)[OF wf] by auto
  next
    case close
    then show ?thesis using D' wf by auto
  next
    case rest
    then have "s' = s" using D' by (auto dest: server_ok_answer split: if_splits)
    then show ?thesis using wf by simp
  qed
qed

section \<open>Runs of the server\<close>

text \<open>The server starts on any file system of bounded files.\<close>

definition vfs_start :: "Server \<Rightarrow> bool" where
  "vfs_start s = (\<exists>fs. gomap_ok fs \<and> sizes_ok fs \<and> s = NewServer fs)"

text \<open>One request of any connection, whatever it asks for.  The counter of handles has room for \<open>2 ^ 64 - 1\<close> opens.\<close>

definition vfs_step :: "Server \<Rightarrow> 64 word \<times> Request \<Rightarrow> Server \<Rightarrow> bool" where
  "vfs_step s = (\<lambda>(now, req) s'. wire_ok req \<and> sv_nextHandle s \<noteq> - 1 \<and> (\<exists>resp. dispatch now s req = Done (resp, s')))"

lemma next_kept:
  "answer s r = Done (resp, s') \<Longrightarrow> sv_nextHandle s' = sv_nextHandle s"
  "update_fs s r' = Done (resp, s') \<Longrightarrow> sv_nextHandle s' = sv_nextHandle s"
  "read_req s req h = Done (resp, s') \<Longrightarrow> sv_nextHandle s' = sv_nextHandle s"
  "write_req now s req h = Done (resp, s') \<Longrightarrow> sv_nextHandle s' = sv_nextHandle s"
  "seek_req s req h = Done (resp, s') \<Longrightarrow> sv_nextHandle s' = sv_nextHandle s"
  "setlen_req now s req h = Done (resp, s') \<Longrightarrow> sv_nextHandle s' = sv_nextHandle s"
  by (auto simp: answer_def update_fs_def read_req_def write_req_def seek_req_def setlen_req_def
      put_handle_def split: sum.splits outcome.splits prod.splits vfs_error.splits)

lemma on_handle_Done:
  assumes "on_handle s i f = Done (resp, s')"
  obtains "s' = s" "getHandle s i = None" | h where "getHandle s i = Some h" "f h = Done (resp, s')"
  using assms by (auto simp: on_handle_def split: option.splits)

lemma dispatch_next:
  assumes "dispatch now s req = Done (resp, s')"
  shows "sv_nextHandle s' = sv_nextHandle s \<or> rq_Op req = OpOpen \<and> sv_nextHandle s' = sv_nextHandle s + 1"
  using assms unfolding dispatch_def Let_def
  by (auto split: if_splits dest: next_kept elim!: on_handle_Done
      simp: open_req_def put_handle_def Let_def split: sum.splits)

interpretation vfs: counting vfs_step vfs_start server_ok "\<lambda>s. unat (sv_nextHandle s)"
proof
  show "server_ok s" if "vfs_start s" for s
    using that by (auto simp: vfs_start_def NewServer_def server_ok_def handles_ok_def)
  show "server_ok s'" if "server_ok s" "vfs_step s i s'" for s i s'
    using that dispatch_ok by (auto simp: vfs_step_def)
  show "unat (sv_nextHandle s) = 0" if "vfs_start s" for s
    using that by (auto simp: vfs_start_def NewServer_def)
  show "unat (sv_nextHandle s') \<le> Suc (unat (sv_nextHandle s))"
    if "server_ok s" and st: "vfs_step s i s'" for s i s'
  proof -
    obtain now req resp where "dispatch now s req = Done (resp, s')" "sv_nextHandle s \<noteq> - 1"
      using st by (auto simp: vfs_step_def)
    then show ?thesis using dispatch_next unat_Suc_word by (metis le_Suc_eq order_refl)
  qed
qed

text \<open>The messages of a connection, without the framing.\<close>

fun serve_all :: "(nat \<Rightarrow> 64 word) \<Rightarrow> nat \<Rightarrow> Server \<Rightarrow> Request list \<Rightarrow> (Response list \<times> Server) outcome" where
  "serve_all clock k s [] = Done ([], s)"
| "serve_all clock k s (req # reqs) =
     (case dispatch (clock k) s req of
        Panic \<Rightarrow> Panic
      | Done (resp, s') \<Rightarrow>
          (case serve_all clock (Suc k) s' reqs of
             Panic \<Rightarrow> Panic
           | Done (resps, s'') \<Rightarrow> Done (resp # resps, s'')))"

text \<open>The messages of a connection that ends with the first response that is not delivered.\<close>

fun serve_until ::
  "(nat \<Rightarrow> Response \<Rightarrow> bool) \<Rightarrow> (nat \<Rightarrow> 64 word) \<Rightarrow> nat \<Rightarrow> Server \<Rightarrow> Request list \<Rightarrow> (Response list \<times> Server) outcome" where
  "serve_until delivers clock k s [] = Done ([], s)"
| "serve_until delivers clock k s (req # reqs) =
     (case dispatch (clock k) s req of
        Panic \<Rightarrow> Panic
      | Done (resp, s') \<Rightarrow>
          if \<not> delivers k resp then Done ([resp], s')
          else (case serve_until delivers clock (Suc k) s' reqs of
              Panic \<Rightarrow> Panic
            | Done (resps, s'') \<Rightarrow> Done (resp # resps, s'')))"

definition frame_resps ::
  "(Response \<Rightarrow> string + bytes) \<Rightarrow> (nat \<Rightarrow> write_fault option) \<Rightarrow> nat \<Rightarrow> (Response list \<times> Server) outcome \<Rightarrow> (bytes \<times> Server) outcome" where
  "frame_resps marshal faults k r =
     (case r of
        Panic \<Rightarrow> Panic
      | Done (resps, s) \<Rightarrow> Done (concat (map (\<lambda>(i, resp). fst (writeFrame marshal (faults i) resp)) (enumerate k resps)), s))"

definition client_frames :: "(Request \<Rightarrow> bytes) \<Rightarrow> Request list \<Rightarrow> bytes" where
  "client_frames enc reqs = concat (map (\<lambda>req. fst (writeFrame (\<lambda>r. Inr (enc r)) None req)) reqs)"

lemma handleConn_frames:
  assumes "\<forall>req\<in>set reqs. unmarshal (enc req) = Some req \<and> length (enc req) \<le> max_frame" "readFrame unmarshal rest = Inl e"
  shows "handleConn unmarshal marshal faults clock k s (client_frames enc reqs @ rest) =
    frame_resps marshal faults k (serve_until (\<lambda>i r. snd (writeFrame marshal (faults i) r)) clock k s reqs)"
  using assms(1)
proof (induction reqs arbitrary: k s)
  case Nil
  then show ?case using assms(2) by (simp add: handleConn.simps frame_resps_def client_frames_def)
next
  case (Cons req reqs)
  have "client_frames enc (req # reqs) @ rest = fst (writeFrame (\<lambda>r. Inr (enc r)) None req) @ client_frames enc reqs @ rest"
    by (simp add: client_frames_def)
  then have rd: "readFrame unmarshal (client_frames enc (req # reqs) @ rest) = Inr (req, client_frames enc reqs @ rest)"
    using Cons.prems by (simp add: readFrame_writeFrame[where m' = req])
  have IH: "handleConn unmarshal marshal faults clock (Suc k) s' (client_frames enc reqs @ rest) =
      frame_resps marshal faults (Suc k) (serve_until (\<lambda>i r. snd (writeFrame marshal (faults i) r)) clock (Suc k) s' reqs)" for s'
    using Cons by simp
  show ?case
    by (subst handleConn.simps) (auto simp: rd IH frame_resps_def split: outcome.splits prod.splits)
qed

lemma serve_until_all: "(\<And>i r. delivers i r) \<Longrightarrow> serve_until delivers clock k s reqs = serve_all clock k s reqs"
  by (induction reqs arbitrary: k s) (auto split: outcome.splits prod.splits)

section \<open>Properties\<close>

text \<open>
  C8. In every run of the server, on any file system of files of at most \<open>2 ^ 48\<close> bytes, whatever its connections request and
  with fewer than \<open>2 ^ 64\<close> opens: the files stay a map of bounded files, every open handle has a valid position and a number
  that was issued, and after \<open>n\<close> requests at most \<open>n\<close> handles were issued.  From there, a tree that is well formed stays so
  under every request that does not remove the root and does not rename onto a directory, onto the source itself or below it;
  such requests are the ones that can break it (\<open>memfs_orphans\<close>).
\<close>

theorem server_invariant:
  assumes "reach vfs_step vfs_start n s"
  shows "gomap_ok (sv_fs s) \<and> sizes_ok (sv_fs s) \<and> handles_ok s \<and> unat (sv_nextHandle s) \<le> n \<and>
    (\<forall>now req resp s'. wf_fs (sv_fs s) \<and> tree_safe (sv_fs s) req \<and> dispatch now s req = Done (resp, s') \<longrightarrow> wf_fs (sv_fs s'))"
  using vfs.inv_reach[OF assms] vfs.counter_bound[OF assms] dispatch_wf by (auto simp: server_ok_def)

definition demo_req :: "int \<Rightarrow> string \<Rightarrow> Request" where
  "demo_req oper p = \<lparr>rq_Op = oper, rq_Path = p, rq_ToPath = ''d/g'',
     rq_OpenOpts = Some (zero_opts\<lparr>oo_Write := True, oo_Create := True\<rparr>),
     rq_Handle = 1, rq_Data = ''hello'', rq_Len = 3, rq_SeekFrom = 0, rq_SeekPos = 0\<rparr>"

lemma vfs_step_demo:
  assumes "case dispatch now s req of Done (resp, s') \<Rightarrow> P s' | Panic \<Rightarrow> False"
    "wire_ok req" "sv_nextHandle s \<noteq> - 1"
  shows "\<exists>s'. vfs_step s (now, req) s' \<and> P s'"
  using assms by (auto simp: vfs_step_def split: outcome.splits prod.splits)

lemma vfs_start_demo: "vfs_start (NewServer (NewMemFS 7))"
  unfolding vfs_start_def
  by (intro exI[of _ "NewMemFS 7"]) (simp add: NewMemFS_def gomap_ok_def sizes_ok_def)

theorem server_invariant_witness:
  "\<exists>s. reach vfs_step vfs_start 1 s \<and> is_dir_at (sv_fs s) ''/d'' \<and> sizes_ok (sv_fs s) \<and> handles_ok s \<and>
     (\<forall>resp s'. wf_fs (sv_fs s) \<and> dispatch 7 s (demo_req OpRemoveFile ''f'') = Done (resp, s') \<longrightarrow> wf_fs (sv_fs s'))"
proof -
  let ?s0 = "NewServer (NewMemFS 7)" and ?r = "demo_req OpCreateDir ''d''"
  have start: "reach vfs_step vfs_start 0 ?s0" by (rule reach_start) (rule vfs_start_demo)
  have "case dispatch 7 ?s0 ?r of Done (resp, s') \<Rightarrow> is_dir_at (sv_fs s') ''/d'' | Panic \<Rightarrow> False"
    by code_simp
  moreover have "wire_ok ?r" "sv_nextHandle ?s0 \<noteq> - 1"
    by (simp_all add: wire_ok_def demo_req_def int64_ok_def max_frame_def NewServer_def)
  ultimately obtain s where s: "vfs_step ?s0 (7, ?r) s" "is_dir_at (sv_fs s) ''/d''"
    using vfs_step_demo[where P = "\<lambda>s'. is_dir_at (sv_fs s') ''/d''"] by blast
  have r: "reach vfs_step vfs_start 1 s" using reach_step[OF start s(1)] by simp
  have "tree_safe (sv_fs s) (demo_req OpRemoveFile ''f'')" by (simp add: tree_safe_def demo_req_def)
  then show ?thesis using server_invariant[OF r] s(2) r by blast
qed

text \<open>
  A successful open hands out a number that no open handle has, at position zero of the file
  with the cleaned path, and changes no other handle.
\<close>

lemma open_handle_fresh:
  assumes "reach vfs_step vfs_start n s" "n < 2 ^ 64 - 1" "rq_Op req = OpOpen"
    "dispatch now s req = Done (resp, s')" "rs_Err resp = 0"
  shows "getHandle s (rs_Handle resp) = None \<and>
    (\<exists>h. getHandle s' (rs_Handle resp) = Some h \<and> h_pos h = 0 \<and> h_path h = cleanPath (rq_Path req)) \<and>
    (\<forall>i. i \<noteq> rs_Handle resp \<longrightarrow> getHandle s' i = getHandle s i)"
proof -
  have le: "unat (sv_nextHandle s) \<le> n" by (rule vfs.counter_bound[OF assms(1)])
  have "unat (- 1 :: 64 word) = 2 ^ 64 - 1" by (simp add: unsigned_minus_1_eq_mask mask_eq_exp_minus_1)
  then have nx: "sv_nextHandle s \<noteq> - 1" using le assms(2) by auto
  have ok: "handles_ok s" using vfs.inv_reach[OF assms(1)] by (simp add: server_ok_def)
  define opts where "opts = (case rq_OpenOpts req of None \<Rightarrow> zero_opts | Some opt \<Rightarrow> opt)"
  have D: "open_req now s req = Done (resp, s')" using assms(3,4) by (simp add: dispatch_def)
  obtain h fs' where O: "Open now (sv_fs s) (rq_Path req) opts = Inr (h, fs')"
  proof (cases "Open now (sv_fs s) (rq_Path req) opts")
    case (Inl e)
    then have "resp = errResp e" using D by (simp add: open_req_def opts_def)
    then show ?thesis using assms(5) by simp
  next
    case (Inr x)
    then show ?thesis using that by (cases x) simp
  qed
  have rs: "resp = zero_resp\<lparr>rs_Handle := sv_nextHandle s + 1\<rparr>"
    "s' = put_handle (sv_nextHandle s + 1) h (s\<lparr>sv_fs := fs', sv_nextHandle := sv_nextHandle s + 1\<rparr>)"
    using D O by (simp_all add: open_req_def opts_def Let_def)
  have "h_pos h = 0" "h_path h = cleanPath (rq_Path req)"
    using O by (auto simp: Open_def new_handle_def Let_def split: if_splits option.splits)
  moreover have "getHandle s (sv_nextHandle s + 1) = None"
  proof (rule ccontr)
    assume "getHandle s (sv_nextHandle s + 1) \<noteq> None"
    then have "unat (sv_nextHandle s + 1) \<le> unat (sv_nextHandle s)"
      using ok by (auto simp: handles_ok_iff)
    then show False using unat_Suc_word[OF nx] by simp
  qed
  ultimately show ?thesis using rs by (simp add: put_handle_def getHandle_def)
qed

text \<open>
  C4. The framing carries the message protocol: on the bytes of encoded requests, each within the frame limit, followed by anything
  that is not a further frame (nothing, when the client has closed its end), the connection handler dispatches the requests in
  order up to and including the first whose answer does not encode or is not written completely, writes the framed answers in that
  order, and ends with the state of those requests; or it panics at the same request.  When every answer encodes and no write fails,
  all requests are served.
\<close>

theorem connection_refines_messages:
  assumes "\<forall>req\<in>set reqs. unmarshal (enc req) = Some req \<and> length (enc req) \<le> max_frame"
    "readFrame unmarshal rest = Inl e"
  shows "handleConn unmarshal marshal faults clock k s (client_frames enc reqs @ rest) =
      frame_resps marshal faults k (serve_until (\<lambda>i r. snd (writeFrame marshal (faults i) r)) clock k s reqs) \<and>
    ((\<forall>i. faults i = None) \<and> (\<forall>r. \<exists>data. marshal r = Inr data) \<longrightarrow>
      handleConn unmarshal marshal faults clock k s (client_frames enc reqs @ rest) =
        frame_resps marshal faults k (serve_all clock k s reqs))"
proof -
  have "snd (writeFrame marshal (faults i) r)" if "\<forall>i. faults i = None" "\<forall>r. \<exists>data. marshal r = Inr data" for i r
    using that(1) spec[OF that(2), of r] by (auto simp: writeFrame_def Let_def)
  then show ?thesis using handleConn_frames[OF assms] serve_until_all by auto
qed

text \<open>A client opens a file, writes to it, seeks and reads it back; over a connection whose third answer fails after two bytes of
  its length, the fourth request is not served.\<close>

definition demo_session :: "Request list" where
  "demo_session = [demo_req OpOpen ''f'', demo_req OpFileWrite [], demo_req OpFileSeek [], demo_req OpFileRead []]"

definition demo_enc :: "Request \<Rightarrow> bytes" where
  "demo_enc req = [char_of (nat (rq_Op req))]"

definition demo_dec :: "bytes \<Rightarrow> Request option" where
  "demo_dec bs = find (\<lambda>req. demo_enc req = bs) demo_session"

definition demo_marshal :: "Response \<Rightarrow> string + bytes" where
  "demo_marshal r = Inr (rs_Data r)"

definition demo_faults :: "nat \<Rightarrow> write_fault option" where
  "demo_faults i = (if i = 2 then Some (LenFails 2) else None)"

theorem connection_refines_messages_witness:
  "(case handleConn demo_dec demo_marshal (\<lambda>i. None) (\<lambda>i. 7) 0 (NewServer (NewMemFS 7)) (client_frames demo_enc demo_session @ []) of
      Done (out, s) \<Rightarrow> out = concat (map (\<lambda>d. put_be32 (length d) @ d) [[], [], [], ''hel'']) \<and> ReadAll (sv_fs s) ''f'' = Inr ''hello''
    | Panic \<Rightarrow> False) \<and>
   (case handleConn demo_dec demo_marshal demo_faults (\<lambda>i. 7) 0 (NewServer (NewMemFS 7)) (client_frames demo_enc demo_session @ []) of
      Done (out, s) \<Rightarrow> out = put_be32 0 @ put_be32 0 @ take 2 (put_be32 0) | Panic \<Rightarrow> False)"
proof -
  have codec: "\<forall>req\<in>set demo_session. demo_dec (demo_enc req) = Some req \<and> length (demo_enc req) \<le> max_frame"
    "readFrame demo_dec [] = Inl FEOF"
    by (simp_all add: demo_session_def demo_dec_def demo_enc_def demo_req_def max_frame_def readFrame_def ReadFull_def)
  have total: "\<forall>r. \<exists>data. demo_marshal r = Inr data" by (simp add: demo_marshal_def)
  have put3: "put_be32 (Suc (Suc (Suc 0))) = put_be32 3" by (simp add: numeral_3_eq_3)
  have del: "(\<lambda>i r. snd (writeFrame demo_marshal (demo_faults i) r)) = (\<lambda>i r. i \<noteq> 2)"
    by (auto simp: writeFrame_def demo_marshal_def demo_faults_def Let_def)
  have A: "handleConn demo_dec demo_marshal (\<lambda>i. None) (\<lambda>i. 7) 0 (NewServer (NewMemFS 7)) (client_frames demo_enc demo_session @ []) =
      frame_resps demo_marshal (\<lambda>i. None) 0 (serve_all (\<lambda>i. 7) 0 (NewServer (NewMemFS 7)) demo_session)"
    using connection_refines_messages[OF codec, of demo_marshal "\<lambda>i. None"] total by blast
  have B: "handleConn demo_dec demo_marshal demo_faults (\<lambda>i. 7) 0 (NewServer (NewMemFS 7)) (client_frames demo_enc demo_session @ []) =
      frame_resps demo_marshal demo_faults 0 (serve_until (\<lambda>i r. i \<noteq> 2) (\<lambda>i. 7) 0 (NewServer (NewMemFS 7)) demo_session)"
    using connection_refines_messages[OF codec, of demo_marshal demo_faults] unfolding del by blast
  have a: "case serve_all (\<lambda>i. 7) 0 (NewServer (NewMemFS 7)) demo_session of
      Done (resps, s) \<Rightarrow> map rs_Data resps = [[], [], [], ''hel''] \<and> ReadAll (sv_fs s) ''f'' = Inr ''hello'' | Panic \<Rightarrow> False"
    by code_simp
  have b: "case serve_until (\<lambda>i r. i \<noteq> 2) (\<lambda>i. 7) 0 (NewServer (NewMemFS 7)) demo_session of
      Done (resps, s) \<Rightarrow> map rs_Data resps = [[], [], []] | Panic \<Rightarrow> False"
    by code_simp
  show ?thesis
    unfolding A B using a b
    by (cases "serve_all (\<lambda>i. 7) 0 (NewServer (NewMemFS 7)) demo_session"; cases "serve_until (\<lambda>i r. i \<noteq> 2) (\<lambda>i. 7) 0 (NewServer (NewMemFS 7)) demo_session")
      (auto simp: frame_resps_def map_eq_Cons_conv writeFrame_def demo_marshal_def demo_faults_def put3)
qed

text \<open>
  The error code tells the client what went wrong: on paths that contain none of the phrases
  the classification looks for, each message of the file system gets its own code.
\<close>

lemma errResp_codes:
  assumes "plain_path p"
  shows "rs_Err (errResp (not_found p)) = ErrNotFound \<and>
    rs_Err (errResp (VErr (''parent not found: '' @ p))) = ErrNotFound \<and>
    rs_Err (errResp (VErr (''destination parent not found: '' @ p))) = ErrNotFound \<and>
    rs_Err (errResp (VErr (''already exists: '' @ p))) = ErrAlreadyExists \<and>
    rs_Err (errResp (VErr (''not a directory: '' @ p))) = ErrNotDir \<and>
    rs_Err (errResp (VErr (''is a directory: '' @ p))) = ErrNotFile \<and>
    rs_Err (errResp (VErr (''directory not empty: '' @ p))) = ErrNotEmpty \<and>
    rs_Err (errResp file_deleted) = ErrIO"
proof -
  have codes: "errCode ''not found'' = ErrNotFound" "errCode ''parent not found'' = ErrNotFound"
    "errCode ''destination parent not found'' = ErrNotFound" "errCode ''already exists'' = ErrAlreadyExists"
    "errCode ''not a directory'' = ErrNotDir" "errCode ''is a directory'' = ErrNotFile"
    "errCode ''directory not empty'' = ErrNotEmpty" "errCode ''file deleted'' = ErrIO"
    by code_simp+
  show ?thesis
    using codes errCode_message[OF assms, of "''not found''"] errCode_message[OF assms, of "''parent not found''"]
      errCode_message[OF assms, of "''destination parent not found''"]
      errCode_message[OF assms, of "''already exists''"] errCode_message[OF assms, of "''not a directory''"]
      errCode_message[OF assms, of "''is a directory''"] errCode_message[OF assms, of "''directory not empty''"]
    by (simp add: errResp_def err_text_def not_found_def file_deleted_def)
qed

text \<open>The requests whose sizes are in range: a read or resize of between zero and \<open>2 ^ 48\<close>
  bytes, and a write that ends below \<open>2 ^ 48\<close>.\<close>

definition write_end :: "MemFS \<Rightarrow> memFileHandle \<Rightarrow> bytes \<Rightarrow> int" where
  "write_end fs h d =
     (if h_append h then (case map_of fs (h_path h) of Some node \<Rightarrow> int (length (n_data node)) | None \<Rightarrow> 0)
      else h_pos h) + int (length d)"

definition size_safe :: "Server \<Rightarrow> Request \<Rightarrow> bool" where
  "size_safe s req =
     ((rq_Op req = OpFileRead \<or> rq_Op req = OpFileSetLen \<longrightarrow> 0 \<le> rq_Len req \<and> rq_Len req \<le> 2 ^ 48) \<and>
      (rq_Op req = OpFileWrite \<longrightarrow>
         (case getHandle s (rq_Handle req) of
            None \<Rightarrow> True
          | Some h \<Rightarrow> write_end (sv_fs s) h (rq_Data req) \<le> 2 ^ 48)))"

lemma file_Read_no_panic:
  assumes "sizes_ok fs" "gomap_ok fs" "0 \<le> h_pos h" "0 \<le> n" "n \<le> 2 ^ 48"
  shows "file_Read fs h n \<noteq> Panic"
proof (cases "map_of fs (h_path h)")
  case (Some node)
  then have "int (length (n_data node)) \<le> 2 ^ 48" using assms(1,2) by (auto simp: sizes_ok_iff)
  then show ?thesis
    using Some assms file_Read_normal[OF Some assms(3) _ assms(4)]
    by (cases "h_pos h < int (length (n_data node))") (auto simp: Let_def file_Read_def)
qed (simp add: file_Read_def)

lemma file_Write_no_panic:
  assumes "0 \<le> h_pos h" "write_end fs h d \<le> 2 ^ 48"
  shows "file_Write now fs h d \<noteq> Panic"
proof (cases "map_of fs (h_path h)")
  case (Some node)
  then show ?thesis
    using assms file_Write_normal[OF Some refl, of d now]
    by (cases "h_append h") (simp_all add: write_end_def)
qed (simp add: file_Write_def)

lemma file_SetLen_no_panic: "0 \<le> n \<Longrightarrow> n \<le> 2 ^ 48 \<Longrightarrow> file_SetLen now fs h n \<noteq> Panic"
  by (auto simp: file_SetLen_def Let_def make_ok_def split: option.splits)

lemma on_handle_no_panic:
  "(\<And>h. getHandle s i = Some h \<Longrightarrow> f h \<noteq> Panic) \<Longrightarrow> on_handle s i f \<noteq> Panic"
  by (simp add: on_handle_def split: option.splits)

lemma req_no_panic:
  "file_Read (sv_fs s) h (rq_Len req) \<noteq> Panic \<Longrightarrow> read_req s req h \<noteq> Panic"
  "file_Write now (sv_fs s) h (rq_Data req) \<noteq> Panic \<Longrightarrow> write_req now s req h \<noteq> Panic"
  "file_SetLen now (sv_fs s) h (rq_Len req) \<noteq> Panic \<Longrightarrow> setlen_req now s req h \<noteq> Panic"
  "seek_req s req h \<noteq> Panic" "answer s r \<noteq> Panic" "update_fs s u \<noteq> Panic" "open_req now s req \<noteq> Panic"
  by (auto simp: read_req_def write_req_def setlen_req_def seek_req_def answer_def update_fs_def open_req_def
      Let_def split: outcome.splits prod.splits sum.splits vfs_error.splits)

text \<open>
  C20. In every state the server reaches, on any file system of files of at most \<open>2 ^ 48\<close> bytes and by any requests, a request
  whose sizes are in range is answered: the server does not panic on it, whatever the operation, the path or the handle.
\<close>

theorem dispatch_no_panic:
  assumes "reach vfs_step vfs_start n s" "size_safe s req"
  shows "\<exists>resp s'. dispatch now s req = Done (resp, s')"
proof -
  have ok: "server_ok s" by (rule vfs.inv_reach[OF assms(1)])
  then have fs: "sizes_ok (sv_fs s)" "gomap_ok (sv_fs s)" by (auto simp: server_ok_def)
  have read: "on_handle s (rq_Handle req) (read_req s req) \<noteq> Panic" if "rq_Op req = OpFileRead"
    using that assms(2) server_ok_handle_pos[OF ok]
    by (intro on_handle_no_panic req_no_panic(1) file_Read_no_panic[OF fs]) (auto simp: size_safe_def)
  have wr: "on_handle s (rq_Handle req) (write_req now s req) \<noteq> Panic" if "rq_Op req = OpFileWrite"
    using that assms(2) server_ok_handle_pos[OF ok]
    by (intro on_handle_no_panic req_no_panic(2) file_Write_no_panic) (auto simp: size_safe_def)
  have sl: "on_handle s (rq_Handle req) (setlen_req now s req) \<noteq> Panic" if "rq_Op req = OpFileSetLen"
    using that assms(2)
    by (intro on_handle_no_panic req_no_panic(3) file_SetLen_no_panic) (auto simp: size_safe_def)
  have sk: "on_handle s (rq_Handle req) (seek_req s req) \<noteq> Panic"
    "on_handle s (rq_Handle req) (\<lambda>h. Done (zero_resp, s)) \<noteq> Panic"
    by (auto intro!: on_handle_no_panic simp: req_no_panic)
  have "dispatch now s req \<noteq> Panic"
    unfolding dispatch_def Let_def using read wr sl sk by (simp add: req_no_panic)
  then show ?thesis by (cases "dispatch now s req") auto
qed

theorem dispatch_no_panic_witness:
  "\<exists>resp s'. vfs_start (NewServer (NewMemFS 7)) \<and>
     dispatch 7 (NewServer (NewMemFS 7)) (demo_req OpFileRead []) = Done (resp, s')"
proof -
  let ?s0 = "NewServer (NewMemFS 7)"
  have start: "vfs_start ?s0" "reach vfs_step vfs_start 0 ?s0" by (auto intro: vfs_start_demo reach_start)
  have "size_safe ?s0 (demo_req OpFileRead [])" by (simp add: size_safe_def demo_req_def)
  from dispatch_no_panic[OF start(2) this, of 7] show ?thesis using start(1) by blast
qed

text \<open>
  What a guest can do outside these ranges: after opening and writing a file, resizing it to a
  negative length, reading a negative length, or seeking far ahead and then writing stops the server
  with a panic.
\<close>

definition opened :: Server where
  "opened =
     (case serve_all (\<lambda>k. 7) 0 (NewServer (NewMemFS 7))
        [demo_req OpOpen ''f'', demo_req OpFileWrite [], demo_req OpFileSeek []]
      of Done (_, s) \<Rightarrow> s | Panic \<Rightarrow> NewServer [])"

lemma guest_panics:
  "ReadAll (sv_fs opened) ''f'' = Inr ''hello'' \<and>
   (case dispatch 7 opened (demo_req OpFileSetLen []\<lparr>rq_Len := -1\<rparr>) of Panic \<Rightarrow> True | _ \<Rightarrow> False) \<and>
   (case dispatch 7 opened (demo_req OpFileRead []\<lparr>rq_Len := -1\<rparr>) of Panic \<Rightarrow> True | _ \<Rightarrow> False) \<and>
   (case serve_all (\<lambda>k. 7) 0 opened [demo_req OpFileSeek []\<lparr>rq_SeekPos := 2 ^ 50\<rparr>, demo_req OpFileWrite []]
      of Panic \<Rightarrow> True | _ \<Rightarrow> False)"
  by code_simp

text \<open>
  The open options are not enforced: a file opened for neither reading nor writing can be written
  and read through the handle.  And the error code follows words of the path: removing the directory
  \<open>/x not found\<close> as a file is reported as not found, although the directory is there.
\<close>

lemma server_divergences:
  "(case serve_all (\<lambda>k. 7) 0 (NewServer (NewMemFS 7))
      [demo_req OpOpen ''f''\<lparr>rq_OpenOpts := Some (zero_opts\<lparr>oo_Create := True\<rparr>)\<rparr>,
       demo_req OpFileWrite [], demo_req OpFileSeek [], demo_req OpFileRead []]
      of Done (resps, s) \<Rightarrow> map rs_Err resps = [0, 0, 0, 0] \<and> rs_Data (last resps) = ''hel'' | Panic \<Rightarrow> False) \<and>
   (case serve_all (\<lambda>k. 7) 0 (NewServer (NewMemFS 7))
      [demo_req OpCreateDir ''x not found'', demo_req OpRemoveFile ''x not found''] of
      Done (resps, s) \<Rightarrow> map rs_Err resps = [0, ErrNotFound] \<and> is_dir_at (sv_fs s) ''/x not found'' | Panic \<Rightarrow> False)"
  by code_simp

end
