(* ===== verification/Tool.thy ===== *)
theory Tool
  imports Go_Strings "HOL-Library.Word"
begin

text \<open>
  Component \<open>tool/tool.go\<close>: the static description of packages and tools.  A Go value of
  type \<open>any\<close> is the datatype \<open>go_any\<close> of the shapes JSON and CEL produce (an IEEE
  double is kept as its 64 bits).  The TypeScript type system (\<open>typescript-go/toolbox\<close>) is
  not part of the repository: its operations on signatures are the fields of \<open>ts_api\<close>, a
  parameter of every definition that uses them.
\<close>

datatype go_any =
    ANil
  | ABool bool
  | AInt int
  | AFloat "64 word"
  | AStr string
  | AList "go_any list"
  | AMap "(string \<times> go_any) list"

type_synonym params = "(string, go_any) gomap"
type_synonym schema = "(string, go_any) gomap"

type_synonym ToolRuntime = string

definition RuntimeTypeScriptSandbox :: ToolRuntime where
  "RuntimeTypeScriptSandbox = ''typescript-sandbox''"
definition RuntimeTypeScriptWasixSandbox :: ToolRuntime where
  "RuntimeTypeScriptWasixSandbox = ''typescript+wasix-sandbox''"
definition RuntimeTypeScriptWasip2Sandbox :: ToolRuntime where
  "RuntimeTypeScriptWasip2Sandbox = ''typescript+wasip2-sandbox''"

type_synonym Effect = string

definition EffectReadOnly :: Effect where "EffectReadOnly = ''readOnly''"
definition EffectReversible :: Effect where "EffectReversible = ''reversible''"
definition EffectIrreversible :: Effect where "EffectIrreversible = ''irreversible''"

record ResourceParam =
  rp_Name :: string
  rp_BindingName :: string

record 'sig PackageTool =
  pt_EntryTS :: string
  pt_Idempotent :: "bool option"
  pt_Effect :: Effect
  pt_Description :: string
  pt_ParamsSchema :: "schema option"
  pt_Sig :: "'sig option"
  pt_ResourceParams :: "ResourceParam list"

record 'sig Package =
  pk_Name :: string
  pk_Runtime :: ToolRuntime
  pk_SHA256 :: string
  pk_AdditionalTypeScriptGlobs :: "string list"
  pk_Executables :: "(string, string) gomap"
  pk_Tools :: "'sig PackageTool list"

record TSToolDef =
  ts_Entry :: string
  ts_Files :: "(string, bytes) gomap"
  ts_PackageRoot :: string

record TSWasmToolDef = TSToolDef +
  tw_Executables :: "(string, string) gomap"

record 'sig ResolvedTool =
  rt_Name :: string
  rt_Description :: string
  rt_Sig :: "'sig option"
  rt_Effect :: Effect
  rt_Idempotent :: "bool option"
  rt_ResourceParams :: "ResourceParam list"
  rt_Package :: "'sig Package option"
  rt_TS :: "TSToolDef option"
  rt_TSWasm :: "TSWasmToolDef option"
  rt_paramsSchema :: "schema option"

text \<open>The operations of the TypeScript checker on signatures and types.\<close>

record ('sig, 'ty) ts_api =
  ParamsAsObject :: "'sig \<Rightarrow> 'ty option"
  ToJSONSchema :: "'ty \<Rightarrow> schema option"
  RemoveProperties :: "string list \<Rightarrow> 'ty \<Rightarrow> 'ty"
  SetPropertyLiteral :: "string \<Rightarrow> go_any \<Rightarrow> 'ty \<Rightarrow> 'ty"

definition SetParamsSchema :: "schema option \<Rightarrow> 'sig ResolvedTool \<Rightarrow> 'sig ResolvedTool" where
  "SetParamsSchema s rt = rt\<lparr>rt_paramsSchema := s\<rparr>"

definition ParamsSchema :: "('sig, 'ty) ts_api \<Rightarrow> 'sig ResolvedTool \<Rightarrow> schema option" where
  "ParamsSchema api rt =
     (case rt_Sig rt of
        None \<Rightarrow> rt_paramsSchema rt
      | Some sig \<Rightarrow>
          (case ParamsAsObject api sig of
             None \<Rightarrow> rt_paramsSchema rt
           | Some pt \<Rightarrow> ToJSONSchema api pt))"

end
