(* ===== verification/Toolset.thy ===== *)
theory Toolset
  imports Tool
begin

text \<open>
  Component \<open>toolset/\<close>: the configuration of bindings, their compilation, the toolset an agent
  gets (\<open>resolveTools\<close>, \<open>AgentView\<close>) and the check of each call (\<open>ValidateCall\<close>).
  The CEL engine is a parameter: \<open>cel_Compile\<close> stands for \<open>env.Compile\<close> and
  \<open>env.Program\<close>, \<open>cel_Eval\<close> for \<open>Program.Eval\<close> with the variables \<open>params\<close> and
  \<open>context\<close>.  A Go map is an association list in some iteration order.
\<close>

section \<open>Configuration\<close>

record Binding =
  b_Value :: string
  b_Hidden :: bool
  b_Check :: string

record BoundTool =
  bt_ToolRef :: string
  bt_Bindings :: "(string, Binding) gomap"

record Config =
  cf_Tools :: "BoundTool list"
  cf_ResourceBindings :: "(string, Binding) gomap"
  cf_Context :: "params option"
  cf_Credentials :: "(string, string) gomap"

section \<open>CEL\<close>

record 'p cel_api =
  cel_Compile :: "string \<Rightarrow> string + 'p"
  cel_Eval :: "'p \<Rightarrow> params \<Rightarrow> params \<Rightarrow> string + go_any"

datatype toolset_error =
    CompileError string string
  | ParamValue string toolset_error
  | ParamCheck string toolset_error
  | InTool string toolset_error
  | EvalBindingError string
  | EvalCheckError string
  | CheckNotBool
  | InParam string toolset_error
  | CheckFailed string string
  | UnknownTool string
  | NoExecutable string
  | RunError string

record 'p compiledBinding =
  cb_Binding :: Binding
  cb_value :: "'p option"
  cb_check :: "'p option"

definition wrap_error :: "('e \<Rightarrow> 'f) \<Rightarrow> 'e + 'a \<Rightarrow> 'f + 'a" where
  "wrap_error f r = map_sum f id r"

definition compileBinding :: "'p cel_api \<Rightarrow> string \<Rightarrow> toolset_error + 'p" where
  "compileBinding cel expr = wrap_error (CompileError expr) (cel_Compile cel expr)"

definition evalBinding :: "'p cel_api \<Rightarrow> 'p \<Rightarrow> params \<Rightarrow> params \<Rightarrow> toolset_error + go_any" where
  "evalBinding cel prg ps ctx = wrap_error EvalBindingError (cel_Eval cel prg ps ctx)"

definition evalCheck :: "'p cel_api \<Rightarrow> 'p \<Rightarrow> params \<Rightarrow> params \<Rightarrow> toolset_error + bool" where
  "evalCheck cel prg ps ctx =
     result_bind (wrap_error EvalCheckError (cel_Eval cel prg ps ctx))
       (\<lambda>out. case out of ABool b \<Rightarrow> Inr b | _ \<Rightarrow> Inl CheckNotBool)"

definition compile_opt :: "'p cel_api \<Rightarrow> string \<Rightarrow> toolset_error + 'p option" where
  "compile_opt cel expr = (if expr \<noteq> [] then map_sum id Some (compileBinding cel expr) else Inr None)"

definition compile_one :: "'p cel_api \<Rightarrow> string \<Rightarrow> Binding \<Rightarrow> toolset_error + 'p compiledBinding" where
  "compile_one cel paramName b =
     result_bind (wrap_error (ParamValue paramName) (compile_opt cel (b_Value b))) (\<lambda>v.
     result_bind (wrap_error (ParamCheck paramName) (compile_opt cel (b_Check b))) (\<lambda>c.
       Inr \<lparr>cb_Binding = b, cb_value = v, cb_check = c\<rparr>))"

definition compileBindings ::
  "'p cel_api \<Rightarrow> (string, Binding) gomap \<Rightarrow> toolset_error + (string, 'p compiledBinding) gomap" where
  "compileBindings cel bindings =
     result_fold (\<lambda>(paramName, b) compiled.
         result_bind (compile_one cel paramName b) (\<lambda>cb. Inr (AList.update paramName cb compiled)))
       bindings []"

section \<open>Resolving\<close>

record ('sig, 'p) ResolvedToolset =
  rs_tools :: "'sig ResolvedTool list"
  rs_bindings :: "(string, (string, 'p compiledBinding) gomap) gomap"
  rs_hiddenParams :: "(string, (string, bool) gomap) gomap"
  rs_context :: "params option"

definition merge_resource ::
  "(string, Binding) gomap \<Rightarrow> ResourceParam \<Rightarrow> (string, Binding) gomap \<Rightarrow> (string, Binding) gomap" where
  "merge_resource resourceBindings rp bindings =
     (if map_of bindings (rp_Name rp) \<noteq> None then bindings
      else case map_of resourceBindings (rp_BindingName rp) of
          None \<Rightarrow> bindings
        | Some rb \<Rightarrow> AList.update (rp_Name rp) rb bindings)"

definition tool_bindings :: "Config \<Rightarrow> (string, (string, Binding) gomap) gomap" where
  "tool_bindings cfg = fold (\<lambda>bt m. AList.update (bt_ToolRef bt) (bt_Bindings bt) m) (cf_Tools cfg) []"

definition copy_map :: "('k, 'v) gomap \<Rightarrow> ('k, 'v) gomap \<Rightarrow> ('k, 'v) gomap" where
  "copy_map src dst = fold (\<lambda>(k, v) m. AList.update k v m) src dst"

definition effective_bindings :: "Config \<Rightarrow> 'sig ResolvedTool \<Rightarrow> (string, Binding) gomap" where
  "effective_bindings cfg tool =
     fold (merge_resource (cf_ResourceBindings cfg)) (rt_ResourceParams tool)
       (case map_of (tool_bindings cfg) (rt_Name tool) of None \<Rightarrow> [] | Some tb \<Rightarrow> copy_map tb [])"

definition hidden_of :: "(string, Binding) gomap \<Rightarrow> (string, bool) gomap" where
  "hidden_of bindings =
     fold (\<lambda>(paramName, b) m. if b_Hidden b then AList.update paramName True m else m) bindings []"

definition resolve_tool ::
  "'p cel_api \<Rightarrow> Config \<Rightarrow> 'sig ResolvedTool
     \<Rightarrow> (string, (string, 'p compiledBinding) gomap) gomap \<times> (string, (string, bool) gomap) gomap
     \<Rightarrow> toolset_error + (string, (string, 'p compiledBinding) gomap) gomap \<times> (string, (string, bool) gomap) gomap" where
  "resolve_tool cel cfg tool = (\<lambda>(allCompiled, allHidden).
     let bindings = effective_bindings cfg tool in
     if bindings = [] then Inr (allCompiled, allHidden)
     else result_bind (wrap_error (InTool (rt_Name tool)) (compileBindings cel bindings)) (\<lambda>compiled.
       let hidden = hidden_of bindings in
       Inr (AList.update (rt_Name tool) compiled allCompiled,
            if hidden \<noteq> [] then AList.update (rt_Name tool) hidden allHidden else allHidden)))"

text \<open>The environment of CEL is built from fixed declarations; its construction is taken to succeed.\<close>

definition resolveTools ::
  "'p cel_api \<Rightarrow> 'sig ResolvedTool list \<Rightarrow> Config \<Rightarrow> toolset_error + ('sig, 'p) ResolvedToolset" where
  "resolveTools cel tools cfg =
     result_bind (result_fold (resolve_tool cel cfg) tools ([], [])) (\<lambda>(allCompiled, allHidden).
       Inr \<lparr>rs_tools = tools, rs_bindings = allCompiled, rs_hiddenParams = allHidden,
            rs_context = cf_Context cfg\<rparr>)"

definition NewResolvedToolset :: "'sig ResolvedTool list \<Rightarrow> ('sig, 'p) ResolvedToolset" where
  "NewResolvedToolset tools =
     \<lparr>rs_tools = tools, rs_bindings = [], rs_hiddenParams = [], rs_context = None\<rparr>"

section \<open>Checking a call\<close>

definition map_get :: "('k, ('l, 'v) gomap) gomap \<Rightarrow> 'k \<Rightarrow> ('l, 'v) gomap" where
  "map_get m k = (case map_of m k of None \<Rightarrow> [] | Some v \<Rightarrow> v)"

fun run_checks ::
  "'p cel_api \<Rightarrow> string \<Rightarrow> params \<Rightarrow> params \<Rightarrow> (string, 'p compiledBinding) gomap \<Rightarrow> toolset_error + unit" where
  "run_checks cel toolName agentParams ctx [] = Inr ()"
| "run_checks cel toolName agentParams ctx ((paramName, cb) # rest) =
     (case cb_check cb of
        None \<Rightarrow> run_checks cel toolName agentParams ctx rest
      | Some prg \<Rightarrow>
          result_bind (wrap_error (InParam paramName) (evalCheck cel prg agentParams ctx)) (\<lambda>pass.
            if \<not> pass then Inl (CheckFailed paramName toolName)
            else run_checks cel toolName agentParams ctx rest))"

fun run_values ::
  "'p cel_api \<Rightarrow> params \<Rightarrow> params \<Rightarrow> (string, 'p compiledBinding) gomap \<Rightarrow> params \<Rightarrow> toolset_error + params" where
  "run_values cel agentParams ctx [] fullParams = Inr fullParams"
| "run_values cel agentParams ctx ((paramName, cb) # rest) fullParams =
     (case cb_value cb of
        None \<Rightarrow> run_values cel agentParams ctx rest fullParams
      | Some prg \<Rightarrow>
          result_bind (wrap_error (InParam paramName) (evalBinding cel prg agentParams ctx)) (\<lambda>val.
            run_values cel agentParams ctx rest (AList.update paramName val fullParams)))"

definition ValidateCall ::
  "'p cel_api \<Rightarrow> ('sig, 'p) ResolvedToolset \<Rightarrow> string \<Rightarrow> params \<Rightarrow> toolset_error + params" where
  "ValidateCall cel r toolName agentParams =
     (if \<not> (\<exists>tool\<in>set (rs_tools r). rt_Name tool = toolName) then Inl (UnknownTool toolName)
      else let bindings = map_get (rs_bindings r) toolName in
        if bindings = [] then Inr agentParams
        else let ctx = (case rs_context r of None \<Rightarrow> [] | Some c \<Rightarrow> c) in
          result_bind (run_checks cel toolName agentParams ctx bindings) (\<lambda>_.
            run_values cel agentParams ctx bindings (copy_map agentParams [])))"

section \<open>The agent's view\<close>

record 'sig AgentTool =
  at_Name :: string
  at_Description :: string
  at_ParamsSchema :: "schema option"
  at_Sig :: "'sig option"
  at_hiddenParams :: "(string, bool) gomap"
  at_boundLiterals :: "params"
  at_Effect :: Effect
  at_Idempotent :: "bool option"

definition is_hidden :: "(string, bool) gomap \<Rightarrow> string \<Rightarrow> bool" where
  "is_hidden hidden p = (map_of hidden p = Some True)"

definition ParamsType :: "('sig, 'ty) ts_api \<Rightarrow> 'sig AgentTool \<Rightarrow> 'ty option" where
  "ParamsType api t =
     (case at_Sig t of
        None \<Rightarrow> None
      | Some sig \<Rightarrow>
          (case ParamsAsObject api sig of
             None \<Rightarrow> None
           | Some pt0 \<Rightarrow>
               let pt1 = (if at_hiddenParams t \<noteq> [] then RemoveProperties api (map_keys (at_hiddenParams t)) pt0
                          else pt0)
               in Some (fold (\<lambda>(name, val) pt. SetPropertyLiteral api name val pt) (at_boundLiterals t) pt1)))"

definition agent_literals ::
  "'p cel_api \<Rightarrow> params \<Rightarrow> (string, bool) gomap \<Rightarrow> (string, 'p compiledBinding) gomap \<Rightarrow> params" where
  "agent_literals cel ctx hidden bindings =
     fold (\<lambda>(paramName, cb) literals.
         if is_hidden hidden paramName then literals
         else case cb_value cb of
             None \<Rightarrow> literals
           | Some prg \<Rightarrow>
               (case evalBinding cel prg [] ctx of
                  Inl _ \<Rightarrow> literals
                | Inr val \<Rightarrow> AList.update paramName val literals))
       bindings []"

definition filter_properties :: "(string, bool) gomap \<Rightarrow> schema \<Rightarrow> schema" where
  "filter_properties hidden sch =
     (case map_of sch ''properties'' of
        Some (AMap props) \<Rightarrow>
          AList.update ''properties'' (AMap (filter (\<lambda>(k, v). \<not> is_hidden hidden k) props)) sch
      | _ \<Rightarrow> sch)"

definition keep_required :: "(string, bool) gomap \<Rightarrow> go_any \<Rightarrow> bool" where
  "keep_required hidden v = (case v of AStr name \<Rightarrow> \<not> is_hidden hidden name | _ \<Rightarrow> True)"

definition filter_required :: "(string, bool) gomap \<Rightarrow> schema \<Rightarrow> schema" where
  "filter_required hidden sch =
     (case map_of sch ''required'' of
        Some (AList req) \<Rightarrow>
          let filtered = filter (keep_required hidden) req in
          if filtered \<noteq> [] then AList.update ''required'' (AList filtered) sch
          else AList.delete ''required'' sch
      | _ \<Rightarrow> sch)"

definition filterHiddenParams :: "schema option \<Rightarrow> (string, bool) gomap \<Rightarrow> schema option" where
  "filterHiddenParams sch hidden =
     (case sch of
        None \<Rightarrow> None
      | Some s \<Rightarrow>
          if hidden = [] then Some s
          else Some (filter_required hidden (filter_properties hidden (copy_map s []))))"

definition agent_tool ::
  "'p cel_api \<Rightarrow> ('sig, 'ty) ts_api \<Rightarrow> ('sig, 'p) ResolvedToolset \<Rightarrow> 'sig ResolvedTool \<Rightarrow> 'sig AgentTool" where
  "agent_tool cel api r rt =
     (let hidden = map_get (rs_hiddenParams r) (rt_Name rt);
          ctx = (case rs_context r of None \<Rightarrow> [] | Some c \<Rightarrow> c);
          literals = agent_literals cel ctx hidden (map_get (rs_bindings r) (rt_Name rt));
          at = \<lparr>at_Name = rt_Name rt, at_Description = rt_Description rt, at_ParamsSchema = None,
                at_Sig = rt_Sig rt, at_hiddenParams = hidden, at_boundLiterals = literals,
                at_Effect = rt_Effect rt, at_Idempotent = rt_Idempotent rt\<rparr>
      in at\<lparr>at_ParamsSchema :=
              (case ParamsType api at of
                 Some pt \<Rightarrow> ToJSONSchema api pt
               | None \<Rightarrow> filterHiddenParams (ParamsSchema api rt) hidden)\<rparr>)"

definition AgentView ::
  "'p cel_api \<Rightarrow> ('sig, 'ty) ts_api \<Rightarrow> ('sig, 'p) ResolvedToolset \<Rightarrow> 'sig AgentTool list" where
  "AgentView cel api r = map (agent_tool cel api r) (rs_tools r)"

end
