(* ===== verification/Toolset_Props.thy ===== *)
theory Toolset_Props
  imports Toolset
begin

text \<open>
  What a toolset promises: which binding governs a parameter, that a call goes through exactly when
  every check holds and every value evaluates, that bound values reach the tool whatever the agent
  sends, and what the agent sees of hidden parameters.
\<close>

section \<open>Maps built by loops\<close>

lemma map_of_copy_map:
  "gomap_ok src \<Longrightarrow> map_of (copy_map src dst) k =
     (case map_of src k of Some v \<Rightarrow> Some v | None \<Rightarrow> map_of dst k)"
proof (induction src arbitrary: dst)
  case (Cons kv src)
  obtain a v where kv: "kv = (a, v)" by (cases kv)
  have "map_of src a = None" "gomap_ok src"
    using Cons.prems kv by (auto simp: gomap_ok_def map_of_eq_None_iff)
  then show ?case
    using Cons.IH[of "AList.update a v dst"] kv by (auto simp: copy_map_def split: option.splits)
qed (simp add: copy_map_def)

lemma copy_map_ok: "gomap_ok dst \<Longrightarrow> gomap_ok (copy_map src dst)"
  unfolding copy_map_def by (induction src arbitrary: dst) auto

lemma copy_map_empty [simp]: "gomap_ok src \<Longrightarrow> map_of (copy_map src []) = map_of src"
  by (auto simp: map_of_copy_map split: option.splits)

lemma map_of_hidden_loop:
  "gomap_ok bs \<Longrightarrow>
     map_of (fold (\<lambda>(paramName, b) m. if b_Hidden b then AList.update paramName True m else m) bs m) p =
     (case map_of bs p of Some b \<Rightarrow> if b_Hidden b then Some True else map_of m p | None \<Rightarrow> map_of m p)"
proof (induction bs arbitrary: m)
  case (Cons kv bs)
  obtain a v where kv: "kv = (a, v)" by (cases kv)
  have "map_of bs a = None" "gomap_ok bs"
    using Cons.prems kv by (auto simp: gomap_ok_def map_of_eq_None_iff)
  then show ?case
    using Cons.IH[of "if b_Hidden v then AList.update a True m else m"] kv by (auto split: option.splits)
qed simp

lemma map_of_hidden_of:
  "gomap_ok bs \<Longrightarrow> map_of (hidden_of bs) p =
     (case map_of bs p of Some b \<Rightarrow> if b_Hidden b then Some True else None | None \<Rightarrow> None)"
  by (simp add: hidden_of_def map_of_hidden_loop split: option.splits)

section \<open>Which binding governs a parameter\<close>

definition config_ok :: "Config \<Rightarrow> bool" where
  "config_ok cfg = (\<forall>bt\<in>set (cf_Tools cfg). gomap_ok (bt_Bindings bt))"

text \<open>The last entry for the tool gives the explicit bindings; a resource parameter is bound, when
  it has no explicit binding, by the first resource binding its canonical names select.\<close>

definition explicit_binding :: "Config \<Rightarrow> string \<Rightarrow> string \<Rightarrow> Binding option" where
  "explicit_binding cfg toolName p =
     (case find (\<lambda>bt. bt_ToolRef bt = toolName) (rev (cf_Tools cfg)) of
        None \<Rightarrow> None | Some bt \<Rightarrow> map_of (bt_Bindings bt) p)"

fun resource_binding :: "(string, Binding) gomap \<Rightarrow> ResourceParam list \<Rightarrow> string \<Rightarrow> Binding option" where
  "resource_binding rbs [] p = None"
| "resource_binding rbs (rp # rps) p =
     (if rp_Name rp = p \<and> map_of rbs (rp_BindingName rp) \<noteq> None
      then map_of rbs (rp_BindingName rp) else resource_binding rbs rps p)"

definition governing :: "Config \<Rightarrow> 'sig ResolvedTool \<Rightarrow> string \<Rightarrow> Binding option" where
  "governing cfg tool p =
     (case explicit_binding cfg (rt_Name tool) p of
        Some b \<Rightarrow> Some b
      | None \<Rightarrow> resource_binding (cf_ResourceBindings cfg) (rt_ResourceParams tool) p)"

lemma find_snoc: "find P (xs @ [x]) = (case find P xs of Some y \<Rightarrow> Some y | None \<Rightarrow> if P x then Some x else None)"
  by (induction xs) auto

lemma tool_bindings_loop:
  "map_of (fold (\<lambda>bt m. AList.update (bt_ToolRef bt) (bt_Bindings bt) m) bts m) n =
     (case find (\<lambda>bt. bt_ToolRef bt = n) (rev bts) of Some bt \<Rightarrow> Some (bt_Bindings bt) | None \<Rightarrow> map_of m n)"
  by (induction bts arbitrary: m) (auto simp: find_snoc split: option.splits)

lemma tool_bindings_lookup:
  "map_of (tool_bindings cfg) n =
     map_option bt_Bindings (find (\<lambda>bt. bt_ToolRef bt = n) (rev (cf_Tools cfg)))"
  unfolding tool_bindings_def tool_bindings_loop by (simp split: option.splits)

lemma find_in_set: "find P xs = Some x \<Longrightarrow> x \<in> set xs"
  by (induction xs) (auto split: if_splits)

lemma fold_merge_resource:
  "map_of (fold (merge_resource rbs) rps m) p =
     (case map_of m p of Some b \<Rightarrow> Some b | None \<Rightarrow> resource_binding rbs rps p)"
  by (induction rps arbitrary: m) (auto simp: merge_resource_def split: option.splits)

lemma merge_resource_ok: "gomap_ok m \<Longrightarrow> gomap_ok (fold (merge_resource rbs) rps m)"
  by (induction rps arbitrary: m) (auto simp: merge_resource_def split: option.splits)

lemma effective_bindings_ok: "gomap_ok (effective_bindings cfg tool)"
  by (auto simp: effective_bindings_def intro!: merge_resource_ok copy_map_ok split: option.splits)

lemma effective_bindings_lookup:
  assumes "config_ok cfg"
  shows "map_of (effective_bindings cfg tool) p = governing cfg tool p"
proof (cases "find (\<lambda>bt. bt_ToolRef bt = rt_Name tool) (rev (cf_Tools cfg))")
  case None
  then show ?thesis
    by (simp add: effective_bindings_def tool_bindings_lookup fold_merge_resource governing_def
        explicit_binding_def)
next
  case (Some bt)
  then have "bt \<in> set (cf_Tools cfg)" using find_in_set by fastforce
  then have "gomap_ok (bt_Bindings bt)" using assms by (simp add: config_ok_def)
  then show ?thesis
    using Some by (simp add: effective_bindings_def tool_bindings_lookup fold_merge_resource governing_def
        explicit_binding_def)
qed

section \<open>Compilation\<close>

definition compiled_from :: "'p cel_api \<Rightarrow> string \<Rightarrow> 'p option \<Rightarrow> bool" where
  "compiled_from cel expr prg = (if expr = [] then prg = None else map_sum id Some (cel_Compile cel expr) = Inr prg)"

definition compiles_to :: "'p cel_api \<Rightarrow> Binding \<Rightarrow> 'p compiledBinding \<Rightarrow> bool" where
  "compiles_to cel b cb =
     (cb_Binding cb = b \<and> compiled_from cel (b_Value b) (cb_value cb) \<and> compiled_from cel (b_Check b) (cb_check cb))"

lemma wrap_error_simps [simp]:
  "wrap_error f (Inr x) = Inr x" "wrap_error f (Inl e) = Inl (f e)"
  "wrap_error f r = Inr y \<longleftrightarrow> r = Inr y" "is_ok (wrap_error f r) = is_ok r"
  by (cases r; auto simp: wrap_error_def)+

lemma compile_opt_Inr: "compile_opt cel expr = Inr prg \<longleftrightarrow> compiled_from cel expr prg"
  by (cases "cel_Compile cel expr") (auto simp: compile_opt_def compiled_from_def compileBinding_def wrap_error_def)

lemma compile_one_Inr: "compile_one cel p b = Inr cb \<longleftrightarrow> compiles_to cel b cb"
  by (cases cb) (auto simp: compile_one_def compiles_to_def compile_opt_Inr)

lemma compile_loop:
  assumes "result_fold (\<lambda>(paramName, b) compiled.
         result_bind (compile_one cel paramName b) (\<lambda>cb. Inr (AList.update paramName cb compiled))) bs m0 = Inr m"
    "gomap_ok bs"
  shows "(case map_of bs p of
      None \<Rightarrow> map_of m p = map_of m0 p
    | Some b \<Rightarrow> \<exists>cb. map_of m p = Some cb \<and> compiles_to cel b cb)"
  using assms
proof (induction bs arbitrary: m0)
  case (Cons kv bs)
  obtain a b where kv: "kv = (a, b)" by (cases kv)
  have ab: "map_of bs a = None" "gomap_ok bs"
    using Cons.prems kv by (auto simp: gomap_ok_def map_of_eq_None_iff)
  from Cons.prems(1) kv obtain cb where cb: "compile_one cel a b = Inr cb"
    "result_fold (\<lambda>(paramName, b) compiled.
         result_bind (compile_one cel paramName b) (\<lambda>cb. Inr (AList.update paramName cb compiled))) bs
       (AList.update a cb m0) = Inr m"
    by auto
  from Cons.IH[OF cb(2) ab(2)] show ?case
    using kv ab(1) cb(1) by (auto simp: compile_one_Inr split: option.splits if_splits)
qed simp

lemma compileBindings_lookup:
  assumes "compileBindings cel bs = Inr m" "gomap_ok bs"
  shows "map_of bs p = None \<Longrightarrow> map_of m p = None"
    "map_of bs p = Some b \<Longrightarrow> \<exists>cb. map_of m p = Some cb \<and> compiles_to cel b cb"
  using compile_loop[OF assms(1)[unfolded compileBindings_def] assms(2), of p] by auto

lemma compileBindings_ok: "compileBindings cel bs = Inr m \<Longrightarrow> gomap_ok m"
  unfolding compileBindings_def
  by (erule result_fold_invariant[where P = gomap_ok]) auto

section \<open>Resolving\<close>

definition bindings_at :: "('sig, 'p) ResolvedToolset \<Rightarrow> string \<Rightarrow> (string, 'p compiledBinding) gomap" where
  "bindings_at r n = map_get (rs_bindings r) n"

definition tool_resolved ::
  "'p cel_api \<Rightarrow> Config \<Rightarrow> (string, (string, 'p compiledBinding) gomap) gomap \<Rightarrow>
     (string, (string, bool) gomap) gomap \<Rightarrow> 'sig ResolvedTool \<Rightarrow> bool" where
  "tool_resolved cel cfg cmp0 hid tool =
     (gomap_ok (map_get cmp0 (rt_Name tool)) \<and>
      (\<forall>p. case governing cfg tool p of
             None \<Rightarrow> map_of (map_get cmp0 (rt_Name tool)) p = None \<and> \<not> is_hidden (map_get hid (rt_Name tool)) p
           | Some b \<Rightarrow> (\<exists>cb. map_of (map_get cmp0 (rt_Name tool)) p = Some cb \<and> compiles_to cel b cb) \<and>
               is_hidden (map_get hid (rt_Name tool)) p = b_Hidden b))"

lemma tool_resolved_None:
  assumes "tool_resolved cel cfg cm hid tool" "governing cfg tool p = None"
  shows "map_of (map_get cm (rt_Name tool)) p = None \<and> \<not> is_hidden (map_get hid (rt_Name tool)) p"
proof -
  have "case governing cfg tool p of
      None \<Rightarrow> map_of (map_get cm (rt_Name tool)) p = None \<and> \<not> is_hidden (map_get hid (rt_Name tool)) p
    | Some b \<Rightarrow> (\<exists>cb. map_of (map_get cm (rt_Name tool)) p = Some cb \<and> compiles_to cel b cb) \<and>
        is_hidden (map_get hid (rt_Name tool)) p = b_Hidden b"
    using assms(1) unfolding tool_resolved_def by blast
  then show ?thesis using assms(2) by simp
qed

lemma tool_resolved_Some:
  assumes "tool_resolved cel cfg cm hid tool" "governing cfg tool p = Some b"
  shows "(\<exists>cb. map_of (map_get cm (rt_Name tool)) p = Some cb \<and> compiles_to cel b cb) \<and>
    is_hidden (map_get hid (rt_Name tool)) p = b_Hidden b"
proof -
  have "case governing cfg tool p of
      None \<Rightarrow> map_of (map_get cm (rt_Name tool)) p = None \<and> \<not> is_hidden (map_get hid (rt_Name tool)) p
    | Some b \<Rightarrow> (\<exists>cb. map_of (map_get cm (rt_Name tool)) p = Some cb \<and> compiles_to cel b cb) \<and>
        is_hidden (map_get hid (rt_Name tool)) p = b_Hidden b"
    using assms(1) unfolding tool_resolved_def by blast
  then show ?thesis using assms(2) by simp
qed

lemma map_get_update [simp]:
  "map_get (AList.update k v m) k' = (if k' = k then v else map_get m k')"
  by (simp add: map_get_def)

lemma map_get_Nil [simp]: "map_get [] k = []"
  by (simp add: map_get_def)

lemma empty_lookup: "(\<forall>p. map_of m p = None) \<longleftrightarrow> m = []"
  by (cases m) auto

lemma resolve_tool_step:
  assumes c: "config_ok cfg" and R: "resolve_tool cel cfg tool (cmp0, hid) = Inr (cmp', hid')"
    and fresh: "map_get cmp0 (rt_Name tool) = []" "map_get hid (rt_Name tool) = []"
  shows "tool_resolved cel cfg cmp' hid' tool \<and>
    (\<forall>n. n \<noteq> rt_Name tool \<longrightarrow> map_get cmp' n = map_get cmp0 n \<and> map_get hid' n = map_get hid n)"
proof -
  let ?bs = "effective_bindings cfg tool" and ?n = "rt_Name tool"
  note look = effective_bindings_lookup[OF c, of tool]
  note hok = map_of_hidden_of[OF effective_bindings_ok, of cfg tool]
  show ?thesis
  proof (cases "?bs = []")
    case True
    then have "governing cfg tool p = None" for p using look[of p] by simp
    then show ?thesis
      using True R fresh by (auto simp: resolve_tool_def tool_resolved_def is_hidden_def)
  next
    case False
    then obtain compiled where C: "compileBindings cel ?bs = Inr compiled"
      "cmp' = AList.update ?n compiled cmp0"
      "hid' = (if hidden_of ?bs \<noteq> [] then AList.update ?n (hidden_of ?bs) hid else hid)"
      using R by (auto simp: resolve_tool_def Let_def)
    have H: "map_get hid' ?n = hidden_of ?bs" using C(3) fresh(2) by auto
    have "tool_resolved cel cfg cmp' hid' tool"
      unfolding tool_resolved_def H
      using compileBindings_lookup[OF C(1) effective_bindings_ok] compileBindings_ok[OF C(1)] C(2) look hok
      by (auto simp: is_hidden_def split: option.splits)
    then show ?thesis using C by auto
  qed
qed

lemma resolve_fold:
  assumes "config_ok cfg" "result_fold (resolve_tool cel cfg) tools (cmp0, hid) = Inr (cmp', hid')"
    "distinct (map rt_Name tools)"
    "\<forall>tool\<in>set tools. map_get cmp0 (rt_Name tool) = [] \<and> map_get hid (rt_Name tool) = []"
  shows "(\<forall>tool\<in>set tools. tool_resolved cel cfg cmp' hid' tool) \<and>
    (\<forall>n. n \<notin> rt_Name ` set tools \<longrightarrow> map_get cmp' n = map_get cmp0 n \<and> map_get hid' n = map_get hid n)"
  using assms
proof (induction tools arbitrary: cmp0 hid)
  case (Cons tool tools)
  obtain cmp1 hid1 where R: "resolve_tool cel cfg tool (cmp0, hid) = Inr (cmp1, hid1)"
    "result_fold (resolve_tool cel cfg) tools (cmp1, hid1) = Inr (cmp', hid')"
    using Cons.prems(2) by auto
  have S: "tool_resolved cel cfg cmp1 hid1 tool \<and>
    (\<forall>n. n \<noteq> rt_Name tool \<longrightarrow> map_get cmp1 n = map_get cmp0 n \<and> map_get hid1 n = map_get hid n)"
    using Cons.prems by (intro resolve_tool_step[OF Cons.prems(1) R(1)]) auto
  have IH: "(\<forall>tool\<in>set tools. tool_resolved cel cfg cmp' hid' tool) \<and>
    (\<forall>n. n \<notin> rt_Name ` set tools \<longrightarrow> map_get cmp' n = map_get cmp1 n \<and> map_get hid' n = map_get hid1 n)"
  proof (rule Cons.IH[OF Cons.prems(1) R(2)])
    show "distinct (map rt_Name tools)" using Cons.prems(3) by simp
    show "\<forall>t\<in>set tools. map_get cmp1 (rt_Name t) = [] \<and> map_get hid1 (rt_Name t) = []"
    proof
      fix t
      assume t: "t \<in> set tools"
      then have "rt_Name t \<noteq> rt_Name tool" using Cons.prems(3) by (auto simp: image_iff)
      then show "map_get cmp1 (rt_Name t) = [] \<and> map_get hid1 (rt_Name t) = []"
        using S Cons.prems(4) t by simp
    qed
  qed
  then have same: "map_get cmp' (rt_Name tool) = map_get cmp1 (rt_Name tool)"
    "map_get hid' (rt_Name tool) = map_get hid1 (rt_Name tool)" using Cons.prems(3) by auto
  have "tool_resolved cel cfg cmp' hid' tool = tool_resolved cel cfg cmp1 hid1 tool"
    unfolding tool_resolved_def same ..
  then have "tool_resolved cel cfg cmp' hid' tool" using S by blast
  then show ?case using IH S by auto
qed simp

lemma resolveTools_resolved:
  assumes "config_ok cfg" "distinct (map rt_Name tools)" "resolveTools cel tools cfg = Inr r" "tool \<in> set tools"
  shows "tool_resolved cel cfg (rs_bindings r) (rs_hiddenParams r) tool"
    "rs_tools r = tools" "rs_context r = cf_Context cfg"
proof -
  obtain cmp' hid' where R: "result_fold (resolve_tool cel cfg) tools ([], []) = Inr (cmp', hid')"
    and r: "r = \<lparr>rs_tools = tools, rs_bindings = cmp', rs_hiddenParams = hid', rs_context = cf_Context cfg\<rparr>"
    using assms(3) by (auto simp: resolveTools_def)
  show "tool_resolved cel cfg (rs_bindings r) (rs_hiddenParams r) tool"
    using resolve_fold[OF assms(1) R assms(2)] assms(4) r by simp
  show "rs_tools r = tools" "rs_context r = cf_Context cfg" using r by simp_all
qed

section \<open>Calls\<close>

definition check_passes :: "'p cel_api \<Rightarrow> params \<Rightarrow> params \<Rightarrow> 'p compiledBinding \<Rightarrow> bool" where
  "check_passes cel ps ctx cb =
     (case cb_check cb of None \<Rightarrow> True | Some prg \<Rightarrow> cel_Eval cel prg ps ctx = Inr (ABool True))"

definition bound_value :: "'p cel_api \<Rightarrow> params \<Rightarrow> params \<Rightarrow> 'p compiledBinding \<Rightarrow> (string + go_any) option" where
  "bound_value cel ps ctx cb = map_option (\<lambda>prg. cel_Eval cel prg ps ctx) (cb_value cb)"

definition value_ok :: "'p cel_api \<Rightarrow> params \<Rightarrow> params \<Rightarrow> 'p compiledBinding \<Rightarrow> bool" where
  "value_ok cel ps ctx cb = (case bound_value cel ps ctx cb of None \<Rightarrow> True | Some r \<Rightarrow> is_ok r)"

lemma value_enforced:
  assumes "compiled_from cel e (cb_value cb)" "value_ok cel ps ctx cb"
  shows "if e \<noteq> []
    then \<exists>prg v. cel_Compile cel e = Inr prg \<and> cel_Eval cel prg ps ctx = Inr v \<and> bound_value cel ps ctx cb = Some (Inr v)
    else bound_value cel ps ctx cb = None"
  using assms
  by (cases "cel_Compile cel e") (auto simp: compiled_from_def value_ok_def bound_value_def is_ok_iff
      split: if_splits option.splits)

lemma check_enforced:
  assumes "compiled_from cel e (cb_check cb)" "check_passes cel ps ctx cb" "e \<noteq> []"
  shows "\<exists>prg. cel_Compile cel e = Inr prg \<and> cel_Eval cel prg ps ctx = Inr (ABool True)"
  using assms by (cases "cel_Compile cel e") (auto simp: compiled_from_def check_passes_def split: option.splits)

lemma evalCheck_True: "evalCheck cel prg ps ctx = Inr True \<longleftrightarrow> cel_Eval cel prg ps ctx = Inr (ABool True)"
  by (cases "cel_Eval cel prg ps ctx") (auto simp: evalCheck_def split: go_any.splits)

lemma run_checks_ok:
  "is_ok (run_checks cel n ps ctx bs) \<longleftrightarrow> (\<forall>(p, cb)\<in>set bs. check_passes cel ps ctx cb)"
proof (induction bs)
  case (Cons kv bs)
  obtain p cb where kv: "kv = (p, cb)" by (cases kv)
  show ?case
  proof (cases "cb_check cb")
    case (Some prg)
    then show ?thesis
      using Cons kv evalCheck_True[of cel prg ps ctx]
      by (cases "evalCheck cel prg ps ctx") (auto simp: check_passes_def)
  qed (use Cons kv in \<open>simp add: check_passes_def\<close>)
qed simp

lemma run_values_ok:
  "is_ok (run_values cel ps ctx bs m) \<longleftrightarrow> (\<forall>(p, cb)\<in>set bs. value_ok cel ps ctx cb)"
proof (induction bs arbitrary: m)
  case (Cons kv bs)
  obtain p cb where kv: "kv = (p, cb)" by (cases kv)
  show ?case
  proof (cases "cb_value cb")
    case (Some prg)
    then show ?thesis
      using Cons kv by (cases "cel_Eval cel prg ps ctx") (auto simp: value_ok_def bound_value_def evalBinding_def)
  qed (use Cons kv in \<open>simp add: value_ok_def bound_value_def\<close>)
qed simp

lemma run_values_lookup:
  assumes "run_values cel ps ctx bs m = Inr full" "gomap_ok bs"
  shows "map_of full p =
    (case map_of bs p of
       None \<Rightarrow> map_of m p
     | Some cb \<Rightarrow> (case bound_value cel ps ctx cb of Some (Inr v) \<Rightarrow> Some v | _ \<Rightarrow> map_of m p))"
  using assms
proof (induction bs arbitrary: m)
  case (Cons kv bs)
  obtain a cb where kv: "kv = (a, cb)" by (cases kv)
  have ab: "map_of bs a = None" "gomap_ok bs"
    using Cons.prems kv by (auto simp: gomap_ok_def map_of_eq_None_iff)
  show ?case
  proof (cases "cb_value cb")
    case None
    then show ?thesis using Cons.IH[of m] Cons.prems ab kv by (auto simp: bound_value_def)
  next
    case (Some prg)
    then obtain v where v: "cel_Eval cel prg ps ctx = Inr v"
      "run_values cel ps ctx bs (AList.update a v m) = Inr full"
      using Cons.prems(1) kv by (auto simp: evalBinding_def)
    show ?thesis
      using Cons.IH[OF v(2) ab(2)] ab kv Some v(1)
      by (auto simp: bound_value_def split: option.splits sum.splits)
  qed
qed simp

definition ctx_of :: "('sig, 'p) ResolvedToolset \<Rightarrow> params" where
  "ctx_of r = (case rs_context r of None \<Rightarrow> [] | Some c \<Rightarrow> c)"

lemma ValidateCall_ok_iff:
  "is_ok (ValidateCall cel r n ps) \<longleftrightarrow>
     n \<in> rt_Name ` set (rs_tools r) \<and>
     (\<forall>(p, cb)\<in>set (bindings_at r n). check_passes cel ps (ctx_of r) cb \<and> value_ok cel ps (ctx_of r) cb)"
proof (cases "n \<in> rt_Name ` set (rs_tools r) \<and> bindings_at r n \<noteq> []")
  case True
  then have "is_ok (ValidateCall cel r n ps) \<longleftrightarrow>
      is_ok (run_checks cel n ps (ctx_of r) (bindings_at r n)) \<and>
      is_ok (run_values cel ps (ctx_of r) (bindings_at r n) (copy_map ps []))"
    by (cases "run_checks cel n ps (ctx_of r) (bindings_at r n)")
      (auto simp: ValidateCall_def Let_def bindings_at_def ctx_of_def)
  then show ?thesis using True by (auto simp: run_checks_ok run_values_ok)
next
  case False
  then show ?thesis by (auto simp: ValidateCall_def Let_def bindings_at_def)
qed

lemma ValidateCall_lookup:
  assumes "ValidateCall cel r n ps = Inr full" "gomap_ok (bindings_at r n)" "gomap_ok ps"
  shows "map_of full p =
    (case map_of (bindings_at r n) p of
       None \<Rightarrow> map_of ps p
     | Some cb \<Rightarrow> (case bound_value cel ps (ctx_of r) cb of Some (Inr v) \<Rightarrow> Some v | _ \<Rightarrow> map_of ps p))"
proof (cases "bindings_at r n = []")
  case True
  then show ?thesis using assms(1) by (auto simp: ValidateCall_def Let_def bindings_at_def split: if_splits)
next
  case False
  then have "run_values cel ps (ctx_of r) (bindings_at r n) (copy_map ps []) = Inr full"
    using assms(1) by (auto simp: ValidateCall_def Let_def bindings_at_def ctx_of_def split: if_splits)
  from run_values_lookup[OF this assms(2), of p] show ?thesis
    using assms(3) by (simp split: option.splits sum.splits)
qed

section \<open>Properties\<close>

text \<open>The contract of a call guard, as the runner of tools relies on it: the calls it lets through are
  exactly the permitted ones, and the parameters it hands on are the injected values over what the
  agent sent.\<close>

locale call_guard =
  fixes validate :: "'r \<Rightarrow> string \<Rightarrow> params \<Rightarrow> 'e + params"
    and permitted :: "'r \<Rightarrow> string \<Rightarrow> params \<Rightarrow> bool"
    and injected :: "'r \<Rightarrow> string \<Rightarrow> params \<Rightarrow> string \<Rightarrow> go_any option"
    and guard_ok :: "'r \<Rightarrow> string \<Rightarrow> bool"
  assumes validate_ok: "is_ok (validate r n ps) \<longleftrightarrow> permitted r n ps"
    and validate_params: "validate r n ps = Inr full \<Longrightarrow> guard_ok r n \<Longrightarrow> gomap_ok ps \<Longrightarrow>
      map_of full p = (case injected r n ps p of Some v \<Rightarrow> Some v | None \<Rightarrow> map_of ps p)"
begin

lemma guarded_run:
  assumes "result_bind (validate r n ps) run = Inr out" "guard_ok r n" "gomap_ok ps"
  shows "permitted r n ps \<and> (\<exists>full. run full = Inr out \<and>
    (\<forall>p. map_of full p = (case injected r n ps p of Some v \<Rightarrow> Some v | None \<Rightarrow> map_of ps p)))"
  using assms validate_ok[of r n ps] validate_params[of r n ps] by auto

lemma refused: "\<not> permitted r n ps \<Longrightarrow> \<exists>e. result_bind (validate r n ps) run = Inl e"
  using validate_ok[of r n ps] by (cases "validate r n ps") auto

end

definition call_permitted :: "'p cel_api \<Rightarrow> ('sig, 'p) ResolvedToolset \<Rightarrow> string \<Rightarrow> params \<Rightarrow> bool" where
  "call_permitted cel r n ps =
     (n \<in> rt_Name ` set (rs_tools r) \<and>
      (\<forall>(p, cb)\<in>set (bindings_at r n). check_passes cel ps (ctx_of r) cb \<and> value_ok cel ps (ctx_of r) cb))"

definition injected_value ::
  "'p cel_api \<Rightarrow> ('sig, 'p) ResolvedToolset \<Rightarrow> string \<Rightarrow> params \<Rightarrow> string \<Rightarrow> go_any option" where
  "injected_value cel r n ps p =
     (case map_of (bindings_at r n) p of
        None \<Rightarrow> None
      | Some cb \<Rightarrow> (case bound_value cel ps (ctx_of r) cb of Some (Inr v) \<Rightarrow> Some v | _ \<Rightarrow> None))"

interpretation vc: call_guard "ValidateCall cel" "call_permitted cel" "injected_value cel"
  "\<lambda>r n. gomap_ok (bindings_at r n)" for cel
proof
  show "is_ok (ValidateCall cel r n ps) \<longleftrightarrow> call_permitted cel r n ps" for r n ps
    by (simp add: ValidateCall_ok_iff call_permitted_def)
  show "map_of full p = (case injected_value cel r n ps p of Some v \<Rightarrow> Some v | None \<Rightarrow> map_of ps p)"
    if "ValidateCall cel r n ps = Inr full" "gomap_ok (bindings_at r n)" "gomap_ok ps" for r n ps full p
    using ValidateCall_lookup[OF that, of p]
    by (simp add: injected_value_def split: option.splits sum.splits)
qed

text \<open>
  C1. The policy is enforced end to end: in a toolset resolved from a configuration, a call that is
  let through satisfies the check of every governing binding (it evaluated to true on the
  parameters the agent sent), every parameter with a bound value reaches the tool with that value
  whatever the agent sent for it, and every other parameter is passed on unchanged.
\<close>

theorem bindings_enforced:
  assumes "config_ok cfg" "distinct (map rt_Name tools)" "resolveTools cel tools cfg = Inr r"
    "tool \<in> set tools" "gomap_ok args" "ValidateCall cel r (rt_Name tool) args = Inr full"
  shows "case governing cfg tool p of
      None \<Rightarrow> map_of full p = map_of args p
    | Some b \<Rightarrow>
        (b_Check b \<noteq> [] \<longrightarrow> (\<exists>prg. cel_Compile cel (b_Check b) = Inr prg \<and>
           cel_Eval cel prg args (case cf_Context cfg of None \<Rightarrow> [] | Some c \<Rightarrow> c) = Inr (ABool True))) \<and>
        (if b_Value b \<noteq> []
         then \<exists>prg v. cel_Compile cel (b_Value b) = Inr prg \<and>
           cel_Eval cel prg args (case cf_Context cfg of None \<Rightarrow> [] | Some c \<Rightarrow> c) = Inr v \<and>
           map_of full p = Some v
         else map_of full p = map_of args p)"
proof -
  note res = resolveTools_resolved[OF assms(1-4)]
  have ok: "gomap_ok (bindings_at r (rt_Name tool))"
    using res(1) by (simp add: tool_resolved_def bindings_at_def)
  note look = ValidateCall_lookup[OF assms(6) ok assms(5), of p]
  have ctx: "ctx_of r = (case cf_Context cfg of None \<Rightarrow> [] | Some c \<Rightarrow> c)" by (simp add: ctx_of_def res(3))
  show ?thesis
  proof (cases "governing cfg tool p")
    case None
    then have "map_of (bindings_at r (rt_Name tool)) p = None"
      using tool_resolved_None[OF res(1)] by (simp add: bindings_at_def)
    then show ?thesis using look None by simp
  next
    case (Some b)
    then obtain cb where cb: "map_of (bindings_at r (rt_Name tool)) p = Some cb" "compiles_to cel b cb"
      using tool_resolved_Some[OF res(1)] by (auto simp: bindings_at_def)
    have pass: "check_passes cel args (ctx_of r) cb" "value_ok cel args (ctx_of r) cb"
      using ValidateCall_ok_iff[of cel r "rt_Name tool" args] assms(6) map_of_SomeD[OF cb(1)] by auto
    have "compiled_from cel (b_Value b) (cb_value cb)" "compiled_from cel (b_Check b) (cb_check cb)"
      using cb(2) by (simp_all add: compiles_to_def)
    note enforced = value_enforced[OF this(1) pass(2)] check_enforced[OF this(2) pass(1)]
    have val: "map_of full p = (case bound_value cel args (ctx_of r) cb of Some (Inr v) \<Rightarrow> Some v | _ \<Rightarrow> map_of args p)"
      using look cb(1) by simp
    show ?thesis
      unfolding ctx[symmetric] Some option.case
    proof (intro conjI impI)
      show "\<exists>prg. cel_Compile cel (b_Check b) = Inr prg \<and> cel_Eval cel prg args (ctx_of r) = Inr (ABool True)"
        if "b_Check b \<noteq> []" using enforced(2)[OF that] .
      show "if b_Value b \<noteq> []
        then \<exists>prg v. cel_Compile cel (b_Value b) = Inr prg \<and> cel_Eval cel prg args (ctx_of r) = Inr v \<and>
          map_of full p = Some v
        else map_of full p = map_of args p"
        using enforced(1) val by (cases "b_Value b = []") auto
    qed
  qed
qed

text \<open>A small CEL: \<open>true\<close>, \<open>params.x\<close> and \<open>context.x\<close>; other texts do not compile.\<close>

definition demo_cel :: "string cel_api" where
  "demo_cel = \<lparr>
     cel_Compile = (\<lambda>e. if e = ''true'' \<or> HasPrefix e ''params.'' \<or> HasPrefix e ''context.'' then Inr e else Inl e),
     cel_Eval = (\<lambda>e ps ctx.
       if e = ''true'' then Inr (ABool True)
       else case (if HasPrefix e ''params.'' then map_of ps (TrimPrefix e ''params.'')
                  else map_of ctx (TrimPrefix e ''context.'')) of
           None \<Rightarrow> Inl ''no such key'' | Some v \<Rightarrow> Inr v)\<rparr>"

definition demo_tool :: "string \<Rightarrow> unit ResolvedTool" where
  "demo_tool n = \<lparr>rt_Name = n, rt_Description = [], rt_Sig = None, rt_Effect = EffectReadOnly,
     rt_Idempotent = None, rt_ResourceParams = [\<lparr>rp_Name = ''account_id'', rp_BindingName = ''account''\<rparr>],
     rt_Package = None, rt_TS = None, rt_TSWasm = None,
     rt_paramsSchema = Some [(''properties'', AMap [(''account_id'', ANil), (''q'', ANil)]),
       (''required'', AList [AStr ''account_id''])]\<rparr>"

definition demo_cfg :: Config where
  "demo_cfg = \<lparr>
     cf_Tools = [\<lparr>bt_ToolRef = ''t'', bt_Bindings = [(''ok'', \<lparr>b_Value = [], b_Hidden = False, b_Check = ''params.ok''\<rparr>)]\<rparr>],
     cf_ResourceBindings = [(''account'', \<lparr>b_Value = ''context.id'', b_Hidden = True, b_Check = []\<rparr>)],
     cf_Context = Some [(''id'', AInt 42)], cf_Credentials = []\<rparr>"

definition demo_set :: "(unit, string) ResolvedToolset" where
  "demo_set = projr (resolveTools demo_cel [demo_tool ''t'', demo_tool ''u''] demo_cfg)"

lemma demo_resolved: "resolveTools demo_cel [demo_tool ''t'', demo_tool ''u''] demo_cfg = Inr demo_set"
proof -
  have "is_ok (resolveTools demo_cel [demo_tool ''t'', demo_tool ''u''] demo_cfg)"
    by (simp add: demo_cel_def demo_cfg_def demo_tool_def resolveTools_def resolve_tool_def effective_bindings_def
        tool_bindings_def copy_map_def merge_resource_def compileBindings_def compile_one_def compile_opt_def
        compileBinding_def HasPrefix_def Let_def)
  then show ?thesis by (auto simp: demo_set_def is_ok_iff)
qed

theorem bindings_enforced_witness:
  "governing demo_cfg (demo_tool ''t'') ''account_id'' = Some \<lparr>b_Value = ''context.id'', b_Hidden = True, b_Check = []\<rparr> \<and>
   map_of (projr (ValidateCall demo_cel demo_set ''t'' [(''ok'', ABool True), (''account_id'', AInt 7)])) ''account_id'' =
     Some (AInt 42)"
proof -
  let ?args = "[(''ok'', ABool True), (''account_id'', AInt 7)]"
  have g: "governing demo_cfg (demo_tool ''t'') ''account_id'' =
      Some \<lparr>b_Value = ''context.id'', b_Hidden = True, b_Check = []\<rparr>"
    by (simp add: governing_def explicit_binding_def demo_cfg_def demo_tool_def)
  have c: "config_ok demo_cfg" by (simp add: config_ok_def demo_cfg_def gomap_ok_def)
  have d: "distinct (map rt_Name [demo_tool ''t'', demo_tool ''u''])" by (simp add: demo_tool_def)
  have v: "ValidateCall demo_cel demo_set (rt_Name (demo_tool ''t'')) ?args =
      Inr (projr (ValidateCall demo_cel demo_set ''t'' ?args))" by code_simp
  from bindings_enforced[OF c d demo_resolved _ _ v, of "''account_id''"] show ?thesis
    unfolding g by (simp add: demo_cel_def demo_cfg_def gomap_ok_def HasPrefix_def TrimPrefix_def)
qed

text \<open>
  C29. The iteration order of Go's maps does not matter: with the bindings in any other order the same
  calls go through, and the tool gets the same parameters.
\<close>

theorem ValidateCall_order:
  assumes "rs_tools r' = rs_tools r" "rs_context r' = rs_context r"
    "mset (bindings_at r' n) = mset (bindings_at r n)" "gomap_ok (bindings_at r n)" "gomap_ok ps"
  shows "is_ok (ValidateCall cel r' n ps) = is_ok (ValidateCall cel r n ps) \<and>
    (ValidateCall cel r' n ps = Inr full' \<longrightarrow> ValidateCall cel r n ps = Inr full \<longrightarrow> map_of full' = map_of full)"
proof -
  have "mset (map fst (bindings_at r' n)) = mset (map fst (bindings_at r n))" using assms(3) by simp
  then have "distinct (map fst (bindings_at r' n))"
    using assms(4) mset_eq_imp_distinct_iff unfolding gomap_ok_def by blast
  then have same: "set (bindings_at r' n) = set (bindings_at r n)" "gomap_ok (bindings_at r' n)"
    "ctx_of r' = ctx_of r"
    using assms mset_eq_setD by (auto simp: gomap_ok_def ctx_of_def)
  have "map_of (bindings_at r' n) = map_of (bindings_at r n)"
    using same assms(4) by (intro map_of_inject_set[THEN iffD2]) (auto simp: gomap_ok_def)
  note lookup = ValidateCall_lookup[OF _ same(2) assms(5), unfolded this same(3)]
  have "map_of full' = map_of full"
    if "ValidateCall cel r' n ps = Inr full'" "ValidateCall cel r n ps = Inr full"
    by (rule ext) (simp only: lookup[OF that(1)] ValidateCall_lookup[OF that(2) assms(4,5)])
  moreover have "is_ok (ValidateCall cel r' n ps) = is_ok (ValidateCall cel r n ps)"
    unfolding ValidateCall_ok_iff same assms(1) ..
  ultimately show ?thesis by blast
qed

theorem ValidateCall_order_witness:
  "is_ok (ValidateCall demo_cel demo_set ''t'' [(''ok'', ABool True)]) =
   is_ok (ValidateCall demo_cel (demo_set\<lparr>rs_bindings := [(''t'', rev (bindings_at demo_set ''t''))]\<rparr>) ''t''
     [(''ok'', ABool True)]) \<and>
   length (bindings_at demo_set ''t'') = 2"
proof -
  let ?r = "demo_set\<lparr>rs_bindings := [(''t'', rev (bindings_at demo_set ''t''))]\<rparr>"
  have b: "bindings_at ?r ''t'' = rev (bindings_at demo_set ''t'')" by (simp add: bindings_at_def map_get_def)
  have ok: "gomap_ok (bindings_at demo_set ''t'')" by code_simp
  have "length (bindings_at demo_set ''t'') = 2" by code_simp
  then show ?thesis
    using ValidateCall_order[of ?r demo_set "''t''" "[(''ok'', ABool True)]" demo_cel] b ok
    by (simp add: gomap_ok_def)
qed

text \<open>Whether the configuration hides a parameter of a tool.\<close>

definition hides :: "Config \<Rightarrow> 'sig ResolvedTool \<Rightarrow> string \<Rightarrow> bool" where
  "hides cfg tool p = (case governing cfg tool p of Some b \<Rightarrow> b_Hidden b | None \<Rightarrow> False)"

lemma hidden_iff_hides:
  assumes "tool_resolved cel cfg cm hid tool"
  shows "is_hidden (map_get hid (rt_Name tool)) p = hides cfg tool p"
  using tool_resolved_None[OF assms, of p] tool_resolved_Some[OF assms, of p]
  by (cases "governing cfg tool p") (auto simp: hides_def)

lemma map_of_filter_keys:
  "map_of (filter (\<lambda>(k, v). P k) m) k = (if P k then map_of m k else None)"
  by (induction m) auto

text \<open>The properties and the required names of a JSON schema.\<close>

definition schema_properties :: "schema \<Rightarrow> string \<rightharpoonup> go_any" where
  "schema_properties sch = (case map_of sch ''properties'' of Some (AMap props) \<Rightarrow> map_of props | _ \<Rightarrow> Map.empty)"

definition schema_required :: "schema \<Rightarrow> string set" where
  "schema_required sch = (case map_of sch ''required'' of Some (AList req) \<Rightarrow> {q. AStr q \<in> set req} | _ \<Rightarrow> {})"

lemma properties_filter:
  "schema_properties (filter_properties hidden sch) q = (if is_hidden hidden q then None else schema_properties sch q)"
  "schema_required (filter_properties hidden sch) = schema_required sch"
  by (auto simp: schema_properties_def schema_required_def filter_properties_def map_of_filter_keys split: option.splits go_any.splits)

lemma required_filter:
  assumes "gomap_ok sch"
  shows "schema_required (filter_required hidden sch) = {q \<in> schema_required sch. \<not> is_hidden hidden q}"
    "schema_properties (filter_required hidden sch) = schema_properties sch"
proof -
  have "filter (keep_required hidden) req = [] \<Longrightarrow> AStr q \<in> set req \<Longrightarrow> is_hidden hidden q" for req q
    by (auto simp: filter_empty_conv keep_required_def split: go_any.splits)
  then show "schema_required (filter_required hidden sch) = {q \<in> schema_required sch. \<not> is_hidden hidden q}"
    using assms
    by (cases "map_of sch ''required''"; cases "the (map_of sch ''required'')")
      (auto simp: schema_required_def filter_required_def keep_required_def Let_def)
  show "schema_properties (filter_required hidden sch) = schema_properties sch"
    by (cases "map_of sch ''required''"; cases "the (map_of sch ''required'')")
      (simp_all add: schema_properties_def filter_required_def Let_def)
qed

lemma filterHiddenParams_exact:
  assumes "gomap_ok sch"
  obtains sch' where "filterHiddenParams (Some sch) hidden = Some sch'"
    "schema_properties sch' = (\<lambda>q. if is_hidden hidden q then None else schema_properties sch q)"
    "schema_required sch' = {q \<in> schema_required sch. \<not> is_hidden hidden q}"
proof (cases "hidden = []")
  case True
  then show ?thesis using that[of sch] by (auto simp: filterHiddenParams_def is_hidden_def)
next
  case False
  let ?s1 = "filter_properties hidden (copy_map sch [])"
  have same: "map_of (copy_map sch []) = map_of sch" "gomap_ok (copy_map sch [])"
    using assms copy_map_ok[of "[]" sch] by (simp_all add: gomap_ok_def)
  then have "gomap_ok ?s1" by (auto simp: filter_properties_def split: option.splits go_any.splits)
  note req = required_filter[OF this, of hidden]
  have "schema_properties (copy_map sch []) = schema_properties sch" "schema_required (copy_map sch []) = schema_required sch"
    by (simp_all add: schema_properties_def schema_required_def same)
  then show ?thesis
    using that[of "filter_required hidden ?s1"] False req properties_filter[of hidden "copy_map sch []"]
    by (auto simp: filterHiddenParams_def fun_eq_iff)
qed

text \<open>What the operations of the TypeScript library on object types are documented to do: \<open>RemoveProperties\<close> removes the named
  properties, \<open>SetPropertyLiteral\<close> changes the type of one property, and the JSON schema of a type lists its properties
  and requires only them.\<close>

definition ts_laws :: "('sig, 'ty) ts_api \<Rightarrow> ('ty \<Rightarrow> string set) \<Rightarrow> bool" where
  "ts_laws api props_of \<longleftrightarrow>
     (\<forall>names t. props_of (RemoveProperties api names t) = props_of t - set names) \<and>
     (\<forall>n v t. props_of t \<subseteq> props_of (SetPropertyLiteral api n v t) \<and> props_of (SetPropertyLiteral api n v t) \<subseteq> insert n (props_of t)) \<and>
     (\<forall>t sch. ToJSONSchema api t = Some sch \<longrightarrow> dom (schema_properties sch) = props_of t \<and> schema_required sch \<subseteq> props_of t)"

lemma literals_props:
  assumes "ts_laws api props_of"
  shows "props_of t \<subseteq> props_of (fold (\<lambda>(n, v) t. SetPropertyLiteral api n v t) lits t) \<and>
    props_of (fold (\<lambda>(n, v) t. SetPropertyLiteral api n v t) lits t) \<subseteq> props_of t \<union> fst ` set lits"
proof (induction lits arbitrary: t)
  case (Cons nv lits)
  obtain n v where nv: "nv = (n, v)" by (cases nv)
  have "props_of t \<subseteq> props_of (SetPropertyLiteral api n v t)" "props_of (SetPropertyLiteral api n v t) \<subseteq> insert n (props_of t)"
    using assms by (simp_all add: ts_laws_def)
  then show ?case using Cons[of "SetPropertyLiteral api n v t"] unfolding nv by auto
qed simp

lemma agent_literals_names:
  "fst ` set (agent_literals cel ctx hidden bindings) \<subseteq> {p. \<not> is_hidden hidden p \<and> p \<in> fst ` set bindings}"
proof -
  let ?f = "\<lambda>(p, cb) literals. if is_hidden hidden p then literals else case cb_value cb of None \<Rightarrow> literals
     | Some prg \<Rightarrow> (case evalBinding cel prg [] ctx of Inl _ \<Rightarrow> literals | Inr val \<Rightarrow> AList.update p val literals)"
  have "fst ` set (fold ?f bs m) \<subseteq> fst ` set m \<union> {p. \<not> is_hidden hidden p \<and> p \<in> fst ` set bs}" for bs m
  proof (induction bs arbitrary: m)
    case (Cons b bs)
    obtain p cb where b: "b = (p, cb)" by (cases b)
    define m' where "m' = ?f b m"
    have "m' = m \<or> \<not> is_hidden hidden p \<and> (\<exists>val. m' = AList.update p val m)"
      unfolding b m'_def by (auto split: option.splits sum.splits)
    then have "fst ` set m' \<subseteq> fst ` set m \<union> {q. \<not> is_hidden hidden q \<and> q = p}"
      by (elim disjE conjE exE) (simp_all add: dom_update)
    then have "fst ` set (fold ?f bs m') \<subseteq> fst ` set m \<union> {q. \<not> is_hidden hidden q \<and> (q = p \<or> q \<in> fst ` set bs)}"
      using Cons[of m'] by blast
    then show ?case unfolding m'_def by (simp add: b)
  qed simp
  from this[of bindings "[]"] show ?thesis by (simp add: agent_literals_def)
qed

text \<open>The map of hidden parameters holds only those that are hidden.\<close>

definition only_true :: "(string, bool) gomap \<Rightarrow> bool" where
  "only_true m \<longleftrightarrow> gomap_ok m \<and> (\<forall>p v. map_of m p = Some v \<longrightarrow> v)"

lemma only_true_Nil [simp]: "only_true []"
  by (simp add: only_true_def gomap_ok_def)

lemma only_true_hidden_of: "only_true (hidden_of bs)"
proof -
  have upd: "only_true m \<Longrightarrow> only_true (AList.update q True m)" for m q by (auto simp: only_true_def split: if_splits)
  have "only_true m \<Longrightarrow> only_true (fold (\<lambda>(q, b) m. if b_Hidden b then AList.update q True m else m) bs m)" for m
    by (induction bs arbitrary: m) (auto simp: upd)
  from this[of "[]"] show ?thesis by (simp add: hidden_of_def)
qed

lemma resolved_only_true:
  assumes "resolveTools cel tools cfg = Inr r"
  shows "only_true (map_get (rs_hiddenParams r) n)"
proof -
  obtain c h where R: "result_fold (resolve_tool cel cfg) tools ([], []) = Inr (c, h)" "rs_hiddenParams r = h"
    using assms by (auto simp: resolveTools_def)
  have "\<forall>n. only_true (map_get (snd (c, h)) n)"
  proof (rule result_fold_invariant[OF R(1)])
    show "\<forall>n. only_true (map_get (snd ([], [])) n)" by (simp add: map_get_def)
    show "\<forall>n. only_true (map_get (snd s') n)" if "\<forall>n. only_true (map_get (snd s) n)" "resolve_tool cel cfg x s = Inr s'" for x s s'
      using that only_true_hidden_of by (cases s) (auto simp: resolve_tool_def Let_def map_get_def split: if_splits option.splits)
  qed
  then show ?thesis using R(2) by simp
qed

lemma ParamsType_props:
  assumes "ts_laws api props_of" "at_Sig at = Some sig" "ParamsAsObject api sig = Some pt"
    "only_true (at_hiddenParams at)"
  obtains pt' where "ParamsType api at = Some pt'"
    "{q \<in> props_of pt. \<not> is_hidden (at_hiddenParams at) q} \<subseteq> props_of pt'"
    "props_of pt' \<subseteq> {q \<in> props_of pt. \<not> is_hidden (at_hiddenParams at) q} \<union> fst ` set (at_boundLiterals at)"
proof -
  let ?h = "at_hiddenParams at"
  let ?pt1 = "if ?h \<noteq> [] then RemoveProperties api (map_keys ?h) pt else pt"
  have "set (map_keys ?h) = {q. is_hidden ?h q}"
    using assms(4) unfolding set_map_keys is_hidden_def only_true_def by (auto, metis (full_types))
  then have "props_of ?pt1 = {q \<in> props_of pt. \<not> is_hidden ?h q}"
    using assms(1) by (auto simp: ts_laws_def is_hidden_def)
  then show ?thesis
    using that assms(2,3) literals_props[OF assms(1), of ?pt1 "at_boundLiterals at"] by (auto simp: ParamsType_def Let_def)
qed

text \<open>
  C15. The view of the agent hides what the configuration hides, however the tool is described.  For a tool without
  a usable signature the agent's schema has exactly the properties of the tool's schema that no governing binding hides, with the
  same contents, and requires exactly the required ones among them.  For a tool with a signature, given the documented behaviour of
  the TypeScript library on object types, the agent's schema has every parameter that is not hidden, no other property but
  those that a governing binding sets, and never a hidden one, which is not required either.
\<close>

theorem agent_view_hides:
  assumes "config_ok cfg" "distinct (map rt_Name tools)" "resolveTools cel tools cfg = Inr r" "tool \<in> set tools"
  shows "\<exists>at\<in>set (AgentView cel api r). at_Name at = rt_Name tool \<and>
    (\<forall>sch. (case rt_Sig tool of None \<Rightarrow> True | Some sig \<Rightarrow> ParamsAsObject api sig = None) \<and>
       rt_paramsSchema tool = Some sch \<and> gomap_ok sch \<longrightarrow>
       (\<exists>sch'. at_ParamsSchema at = Some sch' \<and>
          schema_properties sch' = (\<lambda>q. if hides cfg tool q then None else schema_properties sch q) \<and>
          schema_required sch' = {q \<in> schema_required sch. \<not> hides cfg tool q})) \<and>
    (\<forall>props_of sig pt sch'. ts_laws api props_of \<and> rt_Sig tool = Some sig \<and> ParamsAsObject api sig = Some pt \<and>
       at_ParamsSchema at = Some sch' \<longrightarrow>
       {q \<in> props_of pt. \<not> hides cfg tool q} \<subseteq> dom (schema_properties sch') \<and>
       dom (schema_properties sch') \<subseteq> {q. \<not> hides cfg tool q \<and> (q \<in> props_of pt \<or> governing cfg tool q \<noteq> None)} \<and>
       (\<forall>q. hides cfg tool q \<longrightarrow> q \<notin> schema_required sch'))"
proof -
  note res = resolveTools_resolved[OF assms]
  let ?h = "map_get (rs_hiddenParams r) (rt_Name tool)" and ?at = "agent_tool cel api r tool"
  let ?b = "map_get (rs_bindings r) (rt_Name tool)"
  have hid: "is_hidden ?h q = hides cfg tool q" for q by (rule hidden_iff_hides[OF res(1)])
  have at: "at_Name ?at = rt_Name tool" "at_Sig ?at = rt_Sig tool" "at_hiddenParams ?at = ?h"
    by (simp_all add: agent_tool_def Let_def)
  have pt: "at_ParamsSchema ?at = (case ParamsType api ?at of Some pt \<Rightarrow> ToJSONSchema api pt | None \<Rightarrow> filterHiddenParams (ParamsSchema api tool) ?h)"
    by (cases "rt_Sig tool"; cases "ParamsAsObject api (the (rt_Sig tool))") (simp_all add: agent_tool_def Let_def ParamsType_def)
  have lits: "fst ` set (at_boundLiterals ?at) \<subseteq> {q. \<not> hides cfg tool q \<and> governing cfg tool q \<noteq> None}"
  proof -
    have gov: "governing cfg tool q \<noteq> None" if "q \<in> fst ` set ?b" for q
      using that tool_resolved_None[OF res(1), of q] by (auto simp: map_of_eq_None_iff)
    have lit: "at_boundLiterals ?at = agent_literals cel (case rs_context r of None \<Rightarrow> [] | Some c \<Rightarrow> c) ?h ?b"
      by (simp add: agent_tool_def Let_def)
    have "fst ` set (agent_literals cel ctx ?h ?b) \<subseteq> {p. \<not> hides cfg tool p \<and> p \<in> fst ` set ?b}" for ctx
      using agent_literals_names[of cel ctx ?h ?b] unfolding hid .
    then show ?thesis unfolding lit using gov by (intro subsetI) blast
  qed
  have raw: "\<exists>sch'. at_ParamsSchema ?at = Some sch' \<and>
          schema_properties sch' = (\<lambda>q. if hides cfg tool q then None else schema_properties sch q) \<and>
          schema_required sch' = {q \<in> schema_required sch. \<not> hides cfg tool q}"
    if "case rt_Sig tool of None \<Rightarrow> True | Some sig \<Rightarrow> ParamsAsObject api sig = None" "rt_paramsSchema tool = Some sch" "gomap_ok sch" for sch
  proof -
    have "at_ParamsSchema ?at = filterHiddenParams (Some sch) ?h"
      using pt that(1,2) by (auto simp: ParamsType_def ParamsSchema_def at split: option.splits)
    then show ?thesis using filterHiddenParams_exact[OF that(3), of ?h] unfolding hid by metis
  qed
  have sig: "{q \<in> props_of ty. \<not> hides cfg tool q} \<subseteq> dom (schema_properties sch') \<and>
       dom (schema_properties sch') \<subseteq> {q. \<not> hides cfg tool q \<and> (q \<in> props_of ty \<or> governing cfg tool q \<noteq> None)} \<and>
       (\<forall>q. hides cfg tool q \<longrightarrow> q \<notin> schema_required sch')"
    if l: "ts_laws api props_of" and sg: "rt_Sig tool = Some sig" and ob: "ParamsAsObject api sig = Some ty" and sc: "at_ParamsSchema ?at = Some sch'"
    for props_of sig ty sch'
  proof -
    obtain pt' where p: "ParamsType api ?at = Some pt'" "{q \<in> props_of ty. \<not> hides cfg tool q} \<subseteq> props_of pt'"
      "props_of pt' \<subseteq> {q \<in> props_of ty. \<not> hides cfg tool q} \<union> fst ` set (at_boundLiterals ?at)"
      by (rule ParamsType_props[OF l _ ob, of ?at]) (simp_all add: at sg hid resolved_only_true[OF assms(3)])
    have "ToJSONSchema api pt' = Some sch'" using pt p(1) sc by simp
    then have "dom (schema_properties sch') = props_of pt'" "schema_required sch' \<subseteq> props_of pt'" using l by (auto simp: ts_laws_def)
    then show ?thesis using p(2,3) lits by blast
  qed
  have "?at \<in> set (AgentView cel api r)" using assms(4) res(2) by (simp add: AgentView_def)
  then show ?thesis using at(1) raw sig by (intro bexI[of _ ?at] conjI allI impI) auto
qed

definition demo_api :: "(unit, unit) ts_api" where
  "demo_api = \<lparr>ParamsAsObject = (\<lambda>_. None), ToJSONSchema = (\<lambda>_. None),
     RemoveProperties = (\<lambda>_ t. t), SetPropertyLiteral = (\<lambda>_ _ t. t)\<rparr>"

text \<open>A library on which a type is the list of its properties, and a tool with a signature.\<close>

definition names_api :: "(string list, string list) ts_api" where
  "names_api = \<lparr>ParamsAsObject = (\<lambda>sig. Some sig), ToJSONSchema = (\<lambda>t. Some [(''properties'', AMap (map (\<lambda>n. (n, ANil)) t))]),
     RemoveProperties = (\<lambda>names t. filter (\<lambda>n. n \<notin> set names) t), SetPropertyLiteral = (\<lambda>n v t. t)\<rparr>"

lemma names_api_laws: "ts_laws names_api set"
proof -
  have "dom (map_of (map (\<lambda>n. (n, ANil)) t)) = set t" for t :: "string list" by (force simp: dom_map_of_conv_image_fst)
  then show ?thesis by (auto simp: ts_laws_def names_api_def schema_properties_def schema_required_def)
qed

definition sig_tool :: "string list ResolvedTool" where
  "sig_tool = \<lparr>rt_Name = ''t'', rt_Description = [], rt_Sig = Some [''account_id'', ''q''], rt_Effect = EffectReadOnly,
     rt_Idempotent = None, rt_ResourceParams = [\<lparr>rp_Name = ''account_id'', rp_BindingName = ''account''\<rparr>],
     rt_Package = None, rt_TS = None, rt_TSWasm = None, rt_paramsSchema = None\<rparr>"

theorem agent_view_hides_witness:
  "(\<exists>at\<in>set (AgentView demo_cel demo_api demo_set). at_Name at = ''t'' \<and> (\<exists>sch'. at_ParamsSchema at = Some sch' \<and>
      schema_properties sch' ''account_id'' = None \<and> schema_properties sch' ''q'' = Some ANil \<and> ''account_id'' \<notin> schema_required sch')) \<and>
   (\<exists>r. resolveTools demo_cel [sig_tool] demo_cfg = Inr r \<and> (\<exists>at\<in>set (AgentView demo_cel names_api r). at_Name at = ''t'' \<and>
      (\<forall>sch'. at_ParamsSchema at = Some sch' \<longrightarrow> ''account_id'' \<notin> dom (schema_properties sch') \<and> ''q'' \<in> dom (schema_properties sch'))))"
proof (rule conjI)
  have c: "config_ok demo_cfg" by (simp add: config_ok_def demo_cfg_def gomap_ok_def)
  have d: "distinct (map rt_Name [demo_tool ''t'', demo_tool ''u''])" by (simp add: demo_tool_def)
  have t: "rt_Sig (demo_tool ''t'') = None" "rt_Name (demo_tool ''t'') = ''t''" by (simp_all add: demo_tool_def)
  have h: "hides demo_cfg (demo_tool ''t'') ''account_id''" "\<not> hides demo_cfg (demo_tool ''t'') ''q''"
    by (simp_all add: hides_def governing_def explicit_binding_def demo_cfg_def demo_tool_def)
  let ?sch = "[(''properties'', AMap [(''account_id'', ANil), (''q'', ANil)]), (''required'', AList [AStr ''account_id''])]"
  have sch: "rt_paramsSchema (demo_tool ''t'') = Some ?sch" "gomap_ok ?sch" by (simp_all add: demo_tool_def gomap_ok_def)
  from agent_view_hides[OF c d demo_resolved, of "demo_tool ''t''" demo_api]
  obtain at sch' where "at \<in> set (AgentView demo_cel demo_api demo_set)" "at_Name at = ''t''" "at_ParamsSchema at = Some sch'"
    "schema_properties sch' = (\<lambda>q. if hides demo_cfg (demo_tool ''t'') q then None else schema_properties ?sch q)"
    "schema_required sch' = {q \<in> schema_required ?sch. \<not> hides demo_cfg (demo_tool ''t'') q}"
    using t sch by auto
  then show "\<exists>at\<in>set (AgentView demo_cel demo_api demo_set). at_Name at = ''t'' \<and> (\<exists>sch'. at_ParamsSchema at = Some sch' \<and>
      schema_properties sch' ''account_id'' = None \<and> schema_properties sch' ''q'' = Some ANil \<and> ''account_id'' \<notin> schema_required sch')"
    using h by (intro bexI[of _ at] conjI exI[of _ sch']) (auto simp: schema_properties_def)
  have "is_ok (resolveTools demo_cel [sig_tool] demo_cfg)"
    by (simp add: demo_cel_def demo_cfg_def sig_tool_def resolveTools_def resolve_tool_def effective_bindings_def
        tool_bindings_def copy_map_def merge_resource_def compileBindings_def compile_one_def compile_opt_def
        compileBinding_def HasPrefix_def Let_def)
  then obtain r where r: "resolveTools demo_cel [sig_tool] demo_cfg = Inr r" by (cases "resolveTools demo_cel [sig_tool] demo_cfg") auto
  have h': "hides demo_cfg sig_tool ''account_id''" "\<not> hides demo_cfg sig_tool ''q''"
    by (simp_all add: hides_def governing_def explicit_binding_def demo_cfg_def sig_tool_def)
  have s: "rt_Sig sig_tool = Some [''account_id'', ''q'']" "rt_Name sig_tool = ''t''"
    "ParamsAsObject names_api [''account_id'', ''q''] = Some [''account_id'', ''q'']"
    by (simp_all add: sig_tool_def names_api_def)
  have one: "distinct (map rt_Name [sig_tool])" "sig_tool \<in> set [sig_tool]" by simp_all
  obtain at where at: "at \<in> set (AgentView demo_cel names_api r)" "at_Name at = rt_Name sig_tool"
    and B: "\<forall>props_of sig pt sch'. ts_laws names_api props_of \<and> rt_Sig sig_tool = Some sig \<and> ParamsAsObject names_api sig = Some pt \<and>
       at_ParamsSchema at = Some sch' \<longrightarrow>
       {q \<in> props_of pt. \<not> hides demo_cfg sig_tool q} \<subseteq> dom (schema_properties sch') \<and>
       dom (schema_properties sch') \<subseteq> {q. \<not> hides demo_cfg sig_tool q \<and> (q \<in> props_of pt \<or> governing demo_cfg sig_tool q \<noteq> None)} \<and>
       (\<forall>q. hides demo_cfg sig_tool q \<longrightarrow> q \<notin> schema_required sch')"
    using agent_view_hides[OF c one(1) r one(2), of names_api] by (elim bexE conjE)
  have "''account_id'' \<notin> dom (schema_properties sch') \<and> ''q'' \<in> dom (schema_properties sch')" if "at_ParamsSchema at = Some sch'" for sch'
    using B[rule_format, of set "[''account_id'', ''q'']" "[''account_id'', ''q'']" sch'] names_api_laws s that h' by auto
  then show "\<exists>r. resolveTools demo_cel [sig_tool] demo_cfg = Inr r \<and> (\<exists>at\<in>set (AgentView demo_cel names_api r). at_Name at = ''t'' \<and>
      (\<forall>sch'. at_ParamsSchema at = Some sch' \<longrightarrow> ''account_id'' \<notin> dom (schema_properties sch') \<and> ''q'' \<in> dom (schema_properties sch')))"
    using r at s(2) by (intro exI[of _ r] conjI bexI[of _ at]) auto
qed

end
