(* ===== verification/Invoke.thy ===== *)
theory Invoke
  imports Toolset_Props MemFs_Props
begin

text \<open>
  Components \<open>invoke/invoke.go\<close>, \<open>runtime/tswasmcli\<close> and \<open>mcpserver/server.go\<close>: a
  call is validated, the first tool with the name is selected and run.  The JavaScript and WASM
  engines are parameters (\<open>run_ts\<close>, \<open>run_wasm\<close>, and the start of a process); what the
  program itself decides is modelled: which tool and which parameters reach the engine, which
  executables a tool may start and with which arguments, and what the MCP server publishes.
\<close>

section \<open>Running a tool\<close>

type_synonym 'sig engine = "'sig ResolvedTool \<Rightarrow> params \<Rightarrow> string + string"

definition run_selected ::
  "'sig engine \<Rightarrow> 'sig engine \<Rightarrow> ('sig, 'p) ResolvedToolset \<Rightarrow> string \<Rightarrow> params \<Rightarrow> toolset_error + string" where
  "run_selected run_wasm run_ts r toolName fullParams =
     (case find (\<lambda>tool. rt_Name tool = toolName) (rs_tools r) of
        None \<Rightarrow> Inl (UnknownTool toolName)
      | Some tool \<Rightarrow>
          if rt_TSWasm tool \<noteq> None then wrap_error RunError (run_wasm tool fullParams)
          else if rt_TS tool \<noteq> None then wrap_error RunError (run_ts tool fullParams)
          else Inl (NoExecutable (rt_Name tool)))"

definition Run ::
  "'p cel_api \<Rightarrow> 'sig engine \<Rightarrow> 'sig engine \<Rightarrow> ('sig, 'p) ResolvedToolset \<Rightarrow> string \<Rightarrow> params
     \<Rightarrow> toolset_error + string" where
  "Run cel run_wasm run_ts r toolName args =
     result_bind (ValidateCall cel r toolName args) (run_selected run_wasm run_ts r toolName)"

text \<open>\<open>RunWithVFS\<close> differs in the file system handed to the WASM engine; \<open>runTSWasmTool\<close> gives
  it a fresh one.\<close>

definition RunWithVFS ::
  "'p cel_api \<Rightarrow> (MemFS \<Rightarrow> 'sig engine) \<Rightarrow> 'sig engine \<Rightarrow> ('sig, 'p) ResolvedToolset \<Rightarrow> string \<Rightarrow> params
     \<Rightarrow> MemFS \<Rightarrow> toolset_error + string" where
  "RunWithVFS cel run_wasm_vfs run_ts r toolName args memFS =
     result_bind (ValidateCall cel r toolName args) (run_selected (run_wasm_vfs memFS) run_ts r toolName)"

definition runTSWasmTool :: "64 word \<Rightarrow> (MemFS \<Rightarrow> 'sig engine) \<Rightarrow> 'sig engine" where
  "runTSWasmTool now run_wasm_vfs = run_wasm_vfs (NewMemFS now)"

section \<open>What a WASM tool may do\<close>

definition host_ReadFile :: "MemFS \<Rightarrow> string \<Rightarrow> vfs_error + string" where
  "host_ReadFile fs p = ReadAll fs p"

definition host_WriteFile :: "64 word \<Rightarrow> MemFS \<Rightarrow> string \<Rightarrow> string \<Rightarrow> vfs_error + MemFS" where
  "host_WriteFile now fs p data = WriteFile now fs p data"

definition runtimeFlag :: "ToolRuntime \<Rightarrow> string" where
  "runtimeFlag rt = (if rt = RuntimeTypeScriptWasip2Sandbox then ''wasip2-cli'' else ''wasix-cli'')"

record cli_Request =
  cr_WasmPath :: string
  cr_WasmBytes :: bytes
  cr_Args :: "string list"
  cr_Runtime :: string
  cr_VFSSockPath :: string

datatype exec_error =
    Undeclared string string
  | ReadWasm string
  | MissingWasm
  | MissingRuntime
  | ProcessError string

text \<open>The files of a package that is not on disk are those of its archive or an \<open>fs.FS\<close> of the same contents, looked up by their
  exact name; a name that \<open>fs.ReadFile\<close> refuses as invalid is one that no file has.\<close>

definition exec_request ::
  "'sig ResolvedTool \<Rightarrow> TSWasmToolDef \<Rightarrow> ToolRuntime \<Rightarrow> string \<Rightarrow> string \<Rightarrow> string list \<Rightarrow> exec_error + cli_Request" where
  "exec_request tool wasm rt sockPath binary execArgs =
     (case map_of (tw_Executables wasm) binary of
        None \<Rightarrow> Inl (Undeclared (rt_Name tool) binary)
      | Some relativePath \<Rightarrow>
          let req = \<lparr>cr_WasmPath = [], cr_WasmBytes = [], cr_Args = execArgs, cr_Runtime = runtimeFlag rt,
                     cr_VFSSockPath = sockPath\<rparr> in
          if ts_PackageRoot wasm \<noteq> []
          then Inr (req\<lparr>cr_WasmPath := path_Join [ts_PackageRoot wasm, relativePath]\<rparr>)
          else case map_of (ts_Files wasm) relativePath of
              None \<Rightarrow> Inl (ReadWasm binary)
            | Some wasmBytes \<Rightarrow> Inr (req\<lparr>cr_WasmBytes := wasmBytes\<rparr>))"

text \<open>The command line of \<open>wasmcli-sandbox\<close> after the program name, the bytes on its standard input, and the value of
  \<open>TOOLBOX_VFS_SOCK\<close> it gets.  The path of the program is the same for every command (\<open>resolveHostBinaryPath\<close> of
  theory Testutil); it belongs to the parameter that starts a command, whose answer \<open>NotRun\<close> stands for a program that is not
  found.\<close>

record cli_Command =
  cc_args :: "string list"
  cc_env_sock :: "string option"
  cc_stdin :: bytes

definition cli_command :: "cli_Request \<Rightarrow> exec_error + cli_Command" where
  "cli_command req =
     (if cr_WasmPath req = [] \<and> cr_WasmBytes req = [] then Inl MissingWasm
      else if cr_Runtime req = [] then Inl MissingRuntime
      else let wasmArg = (if cr_WasmBytes req \<noteq> [] then ''-'' else cr_WasmPath req) in
        Inr \<lparr>cc_args = [''--runtime'', cr_Runtime req, wasmArg] @ cr_Args req,
             cc_env_sock = (if cr_VFSSockPath req \<noteq> [] then Some (cr_VFSSockPath req) else None),
             cc_stdin = cr_WasmBytes req\<rparr>)"

record cli_Result =
  cl_Stdout :: string
  cl_Stderr :: string
  cl_ExitCode :: int

text \<open>How a process can end: normally, with an exit status, or without having run.\<close>

datatype process_end = Exited string string | ExitError string string int | NotRun string

definition cli_Run :: "(cli_Command \<Rightarrow> process_end) \<Rightarrow> cli_Request \<Rightarrow> exec_error + cli_Result" where
  "cli_Run start req =
     result_bind (cli_command req) (\<lambda>cmd.
       case start cmd of
         Exited out err \<Rightarrow> Inr \<lparr>cl_Stdout = out, cl_Stderr = err, cl_ExitCode = 0\<rparr>
       | ExitError out err code \<Rightarrow> Inr \<lparr>cl_Stdout = out, cl_Stderr = err, cl_ExitCode = code\<rparr>
       | NotRun e \<Rightarrow> Inl (ProcessError e))"

definition host_Exec ::
  "(cli_Command \<Rightarrow> process_end) \<Rightarrow> 'sig ResolvedTool \<Rightarrow> TSWasmToolDef \<Rightarrow> ToolRuntime \<Rightarrow> string \<Rightarrow> string
     \<Rightarrow> string list \<Rightarrow> exec_error + cli_Result" where
  "host_Exec start tool wasm rt sockPath binary execArgs =
     result_bind (exec_request tool wasm rt sockPath binary execArgs) (cli_Run start)"

section \<open>The MCP server\<close>

text \<open>A published tool: its name, description and, unless empty, the schema of its parameters.\<close>

definition newMCPTool :: "('sig, 'ty) ts_api \<Rightarrow> 'sig ResolvedTool \<Rightarrow> string \<times> string \<times> schema option" where
  "newMCPTool api tool =
     (case ParamsSchema api tool of
        None \<Rightarrow> (rt_Name tool, rt_Description tool, None)
      | Some sch \<Rightarrow> (rt_Name tool, rt_Description tool, if sch = [] then None else Some sch))"

definition mcp_tools :: "('sig, 'ty) ts_api \<Rightarrow> ('sig, 'p) ResolvedToolset \<Rightarrow> (string \<times> string \<times> schema option) list" where
  "mcp_tools api r = map (newMCPTool api) (rs_tools r)"

definition argumentMap :: "go_any option \<Rightarrow> params" where
  "argumentMap v = (case v of Some (AMap m) \<Rightarrow> m | _ \<Rightarrow> [])"

datatype mcp_result = ResultText string | ResultError toolset_error

definition handleToolCall ::
  "'p cel_api \<Rightarrow> 'sig engine \<Rightarrow> 'sig engine \<Rightarrow> ('sig, 'p) ResolvedToolset \<Rightarrow> string \<Rightarrow> go_any option \<Rightarrow> mcp_result" where
  "handleToolCall cel run_wasm run_ts r toolName arguments =
     (case Run cel run_wasm run_ts r toolName (argumentMap arguments) of
        Inl e \<Rightarrow> ResultError e | Inr output \<Rightarrow> ResultText output)"

section \<open>Properties\<close>

lemma run_selected_ok:
  assumes "run_selected run_wasm run_ts r n full = Inr out"
  shows "\<exists>tool. find (\<lambda>t. rt_Name t = n) (rs_tools r) = Some tool \<and>
    (if rt_TSWasm tool \<noteq> None then run_wasm tool full = Inr out else rt_TS tool \<noteq> None \<and> run_ts tool full = Inr out)"
  using assms
  by (cases "find (\<lambda>t. rt_Name t = n) (rs_tools r)") (auto simp: run_selected_def split: if_splits)

text \<open>
  C6. A tool runs only on a permitted call: an output comes from the first tool with the requested
  name, every check held on what the agent sent, and the engine was given the injected values over
  the agent's parameters.
\<close>

theorem Run_guarded:
  assumes "Run cel run_wasm run_ts r n args = Inr out" "gomap_ok (bindings_at r n)" "gomap_ok args"
  shows "call_permitted cel r n args \<and>
    (\<exists>tool full. find (\<lambda>t. rt_Name t = n) (rs_tools r) = Some tool \<and>
       (\<forall>p. map_of full p = (case injected_value cel r n args p of Some v \<Rightarrow> Some v | None \<Rightarrow> map_of args p)) \<and>
       (if rt_TSWasm tool \<noteq> None then run_wasm tool full = Inr out
        else rt_TS tool \<noteq> None \<and> run_ts tool full = Inr out))"
proof -
  from vc.guarded_run[OF assms(1)[unfolded Run_def] assms(2,3)]
  obtain full where p: "call_permitted cel r n args" "run_selected run_wasm run_ts r n full = Inr out"
    "\<forall>p. map_of full p = (case injected_value cel r n args p of Some v \<Rightarrow> Some v | None \<Rightarrow> map_of args p)"
    by blast
  then show ?thesis using run_selected_ok by blast
qed

definition demo_ts_set :: "(unit, string) ResolvedToolset" where
  "demo_ts_set = demo_set\<lparr>rs_tools :=
     map (\<lambda>t. t\<lparr>rt_TS := Some \<lparr>ts_Entry = ''t.ts'', ts_Files = [], ts_PackageRoot = []\<rparr>\<rparr>) (rs_tools demo_set)\<rparr>"

definition demo_engine :: "unit engine" where
  "demo_engine tool ps = (case map_of ps ''account_id'' of Some (AInt i) \<Rightarrow> Inr (itoa i) | _ \<Rightarrow> Inl ''no account'')"

theorem Run_guarded_witness:
  "Run demo_cel demo_engine demo_engine demo_ts_set ''t'' [(''ok'', ABool True), (''account_id'', AInt 7)] = Inr ''42'' \<and>
   call_permitted demo_cel demo_ts_set ''t'' [(''ok'', ABool True), (''account_id'', AInt 7)]"
proof -
  have R: "Run demo_cel demo_engine demo_engine demo_ts_set ''t'' [(''ok'', ABool True), (''account_id'', AInt 7)] = Inr ''42''"
    by code_simp
  have "gomap_ok (bindings_at demo_ts_set ''t'')" by code_simp
  then show ?thesis using Run_guarded[OF R] R by (simp add: gomap_ok_def)
qed

text \<open>
  A WASM tool starts declared executables only: the command runs the sandbox with the runtime of the
  package on the file the package declares for the requested name (the bytes of that file from an
  archive, given on standard input), followed by the tool's own arguments.
\<close>

definition declared_command :: "TSWasmToolDef \<Rightarrow> ToolRuntime \<Rightarrow> cli_Command \<Rightarrow> bool" where
  "declared_command wasm rt cmd \<longleftrightarrow>
     (\<exists>binary rel wasmArg execArgs. map_of (tw_Executables wasm) binary = Some rel \<and>
        cc_args cmd = [''--runtime'', runtimeFlag rt, wasmArg] @ execArgs \<and>
        (if ts_PackageRoot wasm \<noteq> [] then wasmArg = path_Join [ts_PackageRoot wasm, rel] \<and> cc_stdin cmd = []
         else wasmArg = ''-'' \<and> map_of (ts_Files wasm) rel = Some (cc_stdin cmd)))"

lemma exec_command_declared:
  assumes "result_bind (exec_request tool wasm rt sock binary execArgs) cli_command = Inr cmd"
  shows "declared_command wasm rt cmd"
proof -
  obtain rel where rel: "map_of (tw_Executables wasm) binary = Some rel"
    using assms by (auto simp: exec_request_def split: option.splits)
  have "\<exists>wasmArg. cc_args cmd = [''--runtime'', runtimeFlag rt, wasmArg] @ execArgs \<and>
      (if ts_PackageRoot wasm \<noteq> [] then wasmArg = path_Join [ts_PackageRoot wasm, rel] \<and> cc_stdin cmd = []
       else wasmArg = ''-'' \<and> map_of (ts_Files wasm) rel = Some (cc_stdin cmd))"
    using assms rel
    by (cases "ts_PackageRoot wasm = []")
      (auto simp: exec_request_def cli_command_def Let_def split: option.splits if_splits)
  then show ?thesis unfolding declared_command_def using rel by blast
qed

text \<open>Every result is the end of a process started on such a command, with its output and its exit status.\<close>

lemma host_Exec_result:
  assumes "host_Exec start tool wasm rt sock binary execArgs = Inr res"
  shows "\<exists>cmd. declared_command wasm rt cmd \<and>
    (start cmd = Exited (cl_Stdout res) (cl_Stderr res) \<and> cl_ExitCode res = 0 \<or>
     start cmd = ExitError (cl_Stdout res) (cl_Stderr res) (cl_ExitCode res))"
proof -
  obtain req cmd where req: "exec_request tool wasm rt sock binary execArgs = Inr req" "cli_command req = Inr cmd"
    "(case start cmd of
         Exited out err \<Rightarrow> Inr \<lparr>cl_Stdout = out, cl_Stderr = err, cl_ExitCode = 0\<rparr>
       | ExitError out err code \<Rightarrow> Inr \<lparr>cl_Stdout = out, cl_Stderr = err, cl_ExitCode = code\<rparr>
       | NotRun e \<Rightarrow> Inl (ProcessError e)) = Inr res"
    using assms unfolding host_Exec_def cli_Run_def result_bind_Inr by blast
  have "declared_command wasm rt cmd"
    using exec_command_declared[of tool wasm rt sock binary execArgs cmd] req(1,2) by simp
  then show ?thesis using req(3) by (cases "start cmd") auto
qed

text \<open>
  Where hiding stops: the MCP server publishes the unfiltered schema of the tool, so a parameter
  that the configuration hides is in what the agent is shown; and a hidden parameter that has no
  bound value is taken from the agent when the agent sends it.
\<close>

definition unbound_cfg :: Config where
  "unbound_cfg = demo_cfg\<lparr>cf_ResourceBindings := [(''account'', \<lparr>b_Value = [], b_Hidden = True, b_Check = []\<rparr>)]\<rparr>"

definition unbound_set :: "(unit, string) ResolvedToolset" where
  "unbound_set = projr (resolveTools demo_cel [demo_tool ''t'', demo_tool ''u''] unbound_cfg)"

definition published_properties :: "schema option \<Rightarrow> string list" where
  "published_properties sch =
     (case sch of
        Some s \<Rightarrow> (case map_of s ''properties'' of Some (AMap props) \<Rightarrow> map fst props | _ \<Rightarrow> [])
      | None \<Rightarrow> [])"

lemma hidden_params_leak:
  "hides demo_cfg (demo_tool ''t'') ''account_id'' \<and>
   map (\<lambda>at. published_properties (at_ParamsSchema at)) (AgentView demo_cel demo_api demo_set) = [[''q''], [''q'']] \<and>
   map (\<lambda>(name, desc, sch). published_properties sch) (mcp_tools demo_api demo_set) =
     [[''account_id'', ''q''], [''account_id'', ''q'']] \<and>
   hides unbound_cfg (demo_tool ''u'') ''account_id'' \<and>
   ValidateCall demo_cel unbound_set ''u'' [(''account_id'', AInt 7)] = Inr [(''account_id'', AInt 7)]"
  by code_simp

end
