(* ===== verification/Manifest.thy ===== *)
theory Manifest
  imports Fqn Tool Go_Path
begin

text \<open>
  Component \<open>packaging/internal/manifest/manifest.go\<close>: the source manifest of a package, what is
  inferred from the names of its entry files (tool name, effect, resource parameters), its
  compilation and the validation of the result against the two embedded JSON schemas.  Decoding
  JSON and the table of irregular plurals (\<open>jinzhu/inflection\<close>) are parameters.
\<close>

section \<open>The source manifest\<close>

record DevManifestToolResource =
  dr_Bindings :: "(string, string) gomap"
  dr_Mode :: string

record DevManifestTool =
  dt_EntryTS :: string
  dt_Idempotent :: "bool option"
  dt_Effect :: "Effect option"
  dt_Resource :: "DevManifestToolResource option"

record DevManifest =
  dm_Name :: string
  dm_Runtime :: ToolRuntime
  dm_AdditionalTypeScriptGlobs :: "string list"
  dm_Executables :: "(string, string) gomap"
  dm_Tools :: "DevManifestTool list"

datatype ValidationMode = ValidationModeDev | ValidationModeDist

datatype manifest_error =
    DevParse string
  | PkgParse string
  | InvalidEntry string string
  | ValidateCompiledErr
  | ValidateDistErr

section \<open>Names of entry files\<close>

text \<open>The dot-separated parts of the file name without its extension.\<close>

definition entry_name :: "string \<Rightarrow> string" where
  "entry_name entryTS = (let base = path_Base entryTS in TrimSuffix base (path_Ext base))"

definition entry_parts :: "string \<Rightarrow> string list" where
  "entry_parts entryTS = Split (CHR ''.'') (entry_name entryTS)"

text \<open>\<open>strings.ToUpper(s[:1])\<close>: a byte that is not ASCII is not valid UTF-8 on its own and
  becomes the encoding of the replacement character.\<close>

definition upper_first :: "char \<Rightarrow> string" where
  "upper_first c = (if byte_of c < 128 then [upper_char c] else map char_of [0xEF :: nat, 0xBF, 0xBD])"

definition camel_segment :: "string \<Rightarrow> string" where
  "camel_segment seg = (case seg of [] \<Rightarrow> [] | c # rest \<Rightarrow> upper_first c @ rest)"

definition kebabToCamel :: "string \<Rightarrow> string" where
  "kebabToCamel s = (case Split (CHR ''-'') s of [] \<Rightarrow> [] | w # ws \<Rightarrow> Join [] (w # map camel_segment ws))"

definition InferToolName :: "string \<Rightarrow> string" where
  "InferToolName entryTS = Join ''.'' (map kebabToCamel (entry_parts entryTS))"

definition kebabSegmentRe :: rx where
  "kebabSegmentRe =
     RSeq (RChar is_lower) (RSeq (RStar (RChar (\<lambda>c. is_lower c \<or> is_digit c)))
       (RStar (RSeq (RLit (CHR ''-'')) (RPlus (RChar (\<lambda>c. is_lower c \<or> is_digit c))))))"

fun check_segments :: "string list \<Rightarrow> string option" where
  "check_segments [] = None"
| "check_segments (seg # segs) = (if \<not> rx_match kebabSegmentRe seg then Some seg else check_segments segs)"

definition validateEntryName :: "string \<Rightarrow> string option" where
  "validateEntryName entryTS = check_segments (entry_parts entryTS)"

definition inferVerb :: "string \<Rightarrow> string" where
  "inferVerb entryTS = last (entry_parts entryTS)"

definition InferEffect :: "string \<Rightarrow> Effect" where
  "InferEffect entryTS =
     (let verb = inferVerb entryTS in
      if verb \<in> {''list'', ''get'', ''read'', ''fetch'', ''search'', ''find'', ''describe''} then EffectReadOnly
      else if verb \<in> {''create'', ''add'', ''clone'', ''new''} then EffectReversible
      else if verb \<in> {''update'', ''delete'', ''remove'', ''set'', ''put'', ''patch'', ''replace'', ''edit'',
                      ''send'', ''post''} then EffectIrreversible
      else EffectIrreversible)"

definition isCollectionMethod :: "string \<Rightarrow> bool" where
  "isCollectionMethod verb =
     (verb \<in> {''list'', ''create'', ''add'', ''append'', ''search'', ''find'', ''new'', ''send'', ''post''})"

definition InferResourceParamsWithMode ::
  "(string \<Rightarrow> string) \<Rightarrow> string \<Rightarrow> string \<Rightarrow> ResourceParam list" where
  "InferResourceParamsWithMode singularize entryTS mode =
     (let parts = entry_parts entryTS in
      if length parts < 3 then []
      else
        let verb = last parts; resources = butlast parts;
            collection = (if mode = ''collection'' then True
                          else if mode = ''member'' then False
                          else isCollectionMethod verb);
            count = (if collection then length resources - 1 else length resources)
        in if count \<le> 0 then []
           else map (\<lambda>res. let name = singularize res @ ''_id'' in
                       \<lparr>rp_Name = name, rp_BindingName = name\<rparr>) (take count resources))"

definition InferResourceParams :: "(string \<Rightarrow> string) \<Rightarrow> string \<Rightarrow> ResourceParam list" where
  "InferResourceParams singularize entryTS = InferResourceParamsWithMode singularize entryTS []"

section \<open>Parsing and compiling\<close>

fun check_entries :: "DevManifestTool list \<Rightarrow> manifest_error + unit" where
  "check_entries [] = Inr ()"
| "check_entries (t # ts) =
     (case validateEntryName (dt_EntryTS t) of
        Some seg \<Rightarrow> Inl (InvalidEntry (dt_EntryTS t) seg)
      | None \<Rightarrow> check_entries ts)"

text \<open>\<open>decode\<close> stands for unmarshalling, the dev schema and unmarshalling into the struct.\<close>

definition ParseDev :: "(bytes \<Rightarrow> string + DevManifest) \<Rightarrow> bytes \<Rightarrow> manifest_error + DevManifest" where
  "ParseDev decode data =
     (case decode data of
        Inl e \<Rightarrow> Inl (DevParse e)
      | Inr m \<Rightarrow> result_bind (check_entries (dm_Tools m)) (\<lambda>_. Inr m))"

definition override_binding :: "(string, string) gomap \<Rightarrow> ResourceParam \<Rightarrow> ResourceParam" where
  "override_binding bindings rp =
     (case map_of bindings (rp_Name rp) of None \<Rightarrow> rp | Some b \<Rightarrow> rp\<lparr>rp_BindingName := b\<rparr>)"

definition compile_tool :: "(string \<Rightarrow> string) \<Rightarrow> DevManifestTool \<Rightarrow> 'sig PackageTool" where
  "compile_tool singularize tool =
     (let effect = (case dt_Effect tool of None \<Rightarrow> InferEffect (dt_EntryTS tool) | Some e \<Rightarrow> e);
          mode = (case dt_Resource tool of None \<Rightarrow> [] | Some r \<Rightarrow> dr_Mode r);
          bindings = (case dt_Resource tool of None \<Rightarrow> [] | Some r \<Rightarrow> dr_Bindings r);
          rps = map (override_binding bindings) (InferResourceParamsWithMode singularize (dt_EntryTS tool) mode)
      in \<lparr>pt_EntryTS = dt_EntryTS tool, pt_Idempotent = dt_Idempotent tool, pt_Effect = effect,
          pt_Description = [], pt_ParamsSchema = None, pt_Sig = None, pt_ResourceParams = rps\<rparr>)"

definition Compile :: "(string \<Rightarrow> string) \<Rightarrow> DevManifest \<Rightarrow> 'sig Package" where
  "Compile singularize dev =
     \<lparr>pk_Name = dm_Name dev, pk_Runtime = dm_Runtime dev, pk_SHA256 = [],
      pk_AdditionalTypeScriptGlobs = dm_AdditionalTypeScriptGlobs dev,
      pk_Executables = dm_Executables dev, pk_Tools = map (compile_tool singularize) (dm_Tools dev)\<rparr>"

section \<open>The schemas\<close>

text \<open>The keys of the JSON object of a tool (\<open>omitempty\<close> drops empty values), the properties the
  schemas allow, and the schemas on a compiled package: \<open>strict\<close> is the dist schema.\<close>

definition tool_keys :: "'sig PackageTool \<Rightarrow> string list" where
  "tool_keys t =
     [''entry_ts''] @ (if pt_Idempotent t \<noteq> None then [''idempotent''] else []) @
     (if pt_Effect t \<noteq> [] then [''effect''] else []) @
     (if pt_Description t \<noteq> [] then [''description''] else []) @
     (case pt_ParamsSchema t of None \<Rightarrow> [] | Some s \<Rightarrow> if s \<noteq> [] then [''paramsSchema''] else []) @
     (if pt_ResourceParams t \<noteq> [] then [''resourceParams''] else [])"

definition schema_tool_properties :: "string list" where
  "schema_tool_properties = [''entry_ts'', ''effect'', ''idempotent'', ''description'', ''paramsSchema'']"

definition schema_effects :: "string list" where
  "schema_effects = [EffectReadOnly, EffectReversible, EffectIrreversible]"

definition schema_runtimes :: "string list" where
  "schema_runtimes = [RuntimeTypeScriptSandbox, RuntimeTypeScriptWasixSandbox, RuntimeTypeScriptWasip2Sandbox]"

definition schema_tool :: "bool \<Rightarrow> 'sig PackageTool \<Rightarrow> bool" where
  "schema_tool strict t =
     (pt_EntryTS t \<noteq> [] \<and> set (tool_keys t) \<subseteq> set schema_tool_properties \<and>
      (strict \<longrightarrow> pt_Effect t \<noteq> []) \<and> (pt_Effect t \<noteq> [] \<longrightarrow> pt_Effect t \<in> set schema_effects))"

definition schema_package :: "bool \<Rightarrow> 'sig Package \<Rightarrow> bool" where
  "schema_package strict pkg =
     (pk_Name pkg \<noteq> [] \<and> pk_Runtime pkg \<in> set schema_runtimes \<and>
      [] \<notin> set (pk_AdditionalTypeScriptGlobs pkg) \<and> [] \<notin> snd ` set (pk_Executables pkg) \<and>
      (pk_Runtime pkg = RuntimeTypeScriptSandbox \<longrightarrow> pk_Executables pkg = []) \<and>
      (\<forall>t\<in>set (pk_Tools pkg). schema_tool strict t))"

definition ValidateCompiled :: "'sig Package \<Rightarrow> ValidationMode \<Rightarrow> manifest_error + string list" where
  "ValidateCompiled pkg mode =
     (if \<not> schema_package False pkg then Inl ValidateCompiledErr
      else if \<not> schema_package True pkg then
        (if mode = ValidationModeDist then Inl ValidateDistErr else Inr [''distribution validation''])
      else Inr [])"

section \<open>Tool names\<close>

lemma kebab_segment_shape:
  assumes "rx_match kebabSegmentRe seg"
  shows "seg \<noteq> []" "is_lower (hd seg)" "\<forall>c\<in>set seg. is_lower c \<or> is_digit c \<or> c = CHR ''-''"
proof -
  have "rx_lang kebabSegmentRe seg" using assms by (simp add: rx_match_iff)
  then show "seg \<noteq> []" "is_lower (hd seg)"
    unfolding kebabSegmentRe_def rx_lang_RChar_seq by auto
  show "\<forall>c\<in>set seg. is_lower c \<or> is_digit c \<or> c = CHR ''-''"
    using rx_match_chars[OF assms] by (auto simp: kebabSegmentRe_def RPlus_def RLit_def)
qed

lemma check_segments_None: "check_segments segs = None \<longleftrightarrow> (\<forall>s\<in>set segs. rx_match kebabSegmentRe s)"
  by (induction segs) auto

lemma Join_Nil_concat: "Join [] ws = concat ws"
  by (induction ws rule: induct_list012) auto

lemma upper_char_alnum: "is_lower c \<or> is_digit c \<Longrightarrow> is_alnum (upper_char c) \<and> byte_of c < 128"
  by (auto simp: upper_char_def is_alnum_def is_lower_def is_upper_def is_digit_def byte_of_def)

lemma camel_segment_chars:
  assumes "\<forall>c\<in>set w. is_lower c \<or> is_digit c" "c \<in> set (camel_segment w)"
  shows "is_alnum c"
  using assms upper_char_alnum[of "hd w"]
  by (cases w) (auto simp: camel_segment_def upper_first_def is_alnum_def)

lemma kebabToCamel_shape:
  assumes "rx_match kebabSegmentRe seg"
  shows "kebabToCamel seg \<noteq> []" "hd (kebabToCamel seg) = hd seg" "\<forall>c\<in>set (kebabToCamel seg). is_alnum c"
proof -
  note shape = kebab_segment_shape[OF assms]
  obtain w ws where S: "Split (CHR ''-'') seg = w # ws" by (cases "Split (CHR ''-'') seg") auto
  have seg: "seg = Join ''-'' (w # ws)" using Join_Split[of "CHR ''-''" seg] S by simp
  have low: "\<forall>v\<in>set (w # ws). \<forall>c\<in>set v. is_lower c \<or> is_digit c"
    using shape(3) Split_part_subset[of _ "CHR ''-''" seg] Split_parts_free[of _ "CHR ''-''" seg] S by fastforce
  have w: "w \<noteq> []"
  proof
    assume "w = []"
    then have "hd seg = CHR ''-'' \<or> seg = []" using seg by (cases ws) (auto simp: Join_Cons)
    then show False using shape by (auto simp: is_lower_def byte_of_def)
  qed
  have K: "kebabToCamel seg = w @ concat (map camel_segment ws)"
    by (simp add: kebabToCamel_def S Join_Nil_concat)
  show "kebabToCamel seg \<noteq> []" using K w by simp
  have "hd seg = hd w" using seg w by (cases ws) (auto simp: Join_Cons)
  then show "hd (kebabToCamel seg) = hd seg" using K w by simp
  show "\<forall>c\<in>set (kebabToCamel seg). is_alnum c"
    using K low camel_segment_chars by (fastforce simp: is_alnum_def)
qed

section \<open>The naming convention\<close>

lemma path_Base_file:
  assumes "slash \<notin> set f" "f \<noteq> []"
  shows "path_Base (d @ slash # f) = f"
proof -
  obtain y ys where y: "rev f = y # ys" "y \<noteq> slash"
    using assms by (cases "rev f") (auto simp flip: set_rev[of f])
  have "dropWhile (\<lambda>c. c = slash) (rev f @ slash # rev d) = rev f @ slash # rev d" using y by simp
  moreover have "takeWhile (\<lambda>c. c \<noteq> slash) (rev f @ slash # rev d) = rev f"
    using assms by (subst takeWhile_append2) auto
  ultimately show ?thesis using assms by (simp add: path_Base_def path_file_part_def Let_def)
qed

lemma path_Ext_ts:
  assumes "slash \<notin> set n"
  shows "path_Ext (n @ ''.ts'') = ''.ts''"
proof -
  have "takeWhile (\<lambda>c. c \<noteq> slash) (rev n) = rev n"
    using assms by (auto simp: takeWhile_eq_all_conv)
  then have "rev (takeWhile (\<lambda>c. c \<noteq> slash) (rev n)) = n" by (simp only: rev_rev_ident)
  then have "path_file_part (n @ ''.ts'') = n @ ''.ts''" by (simp add: path_file_part_def)
  then show ?thesis by (simp add: path_Ext_def Let_def)
qed

lemma set_Join_subset: "c \<in> set (Join sep ws) \<Longrightarrow> c \<in> set sep \<or> (\<exists>w\<in>set ws. c \<in> set w)"
  by (induction ws rule: induct_list012) (auto simp: Join_Cons)

lemma entry_parts_conventional:
  assumes "segs \<noteq> []" "\<forall>s\<in>set segs. s \<noteq> [] \<and> slash \<notin> set s \<and> CHR ''.'' \<notin> set s"
  shows "entry_parts (dir @ ''/'' @ Join ''.'' segs @ ''.ts'') = segs"
proof -
  let ?n = "Join ''.'' segs"
  have n: "slash \<notin> set ?n" using set_Join_subset[of slash "''.''" segs] assms(2) by auto
  have "path_Base (dir @ slash # (?n @ ''.ts'')) = ?n @ ''.ts''"
    using n by (intro path_Base_file) auto
  then have "entry_name (dir @ ''/'' @ ?n @ ''.ts'') = ?n"
    using path_Ext_ts[OF n] TrimSuffix_append[of ?n "''.ts''"] by (simp add: entry_name_def Let_def)
  then show ?thesis using assms by (simp add: entry_parts_def Split_Join)
qed

section \<open>Properties\<close>

text \<open>
  C35. A tool whose entry file passes validation gets a name that a fully qualified tool name can
  carry: it has as many dot-separated segments as the file name, each starts with a lower-case
  letter and consists of ASCII letters and digits, and \<open>ParseToolPath\<close> accepts the whole.
\<close>

theorem inferred_names_valid:
  assumes "validateEntryName e = None"
  shows "ParseToolPath (InferToolName e) = Inr (InferToolName e) \<and>
    length (Split (CHR ''.'') (InferToolName e)) = length (entry_parts e) \<and>
    (\<forall>seg\<in>set (Split (CHR ''.'') (InferToolName e)). seg \<noteq> [] \<and> is_lower (hd seg) \<and> list_all is_alnum seg)"
proof -
  let ?ps = "map kebabToCamel (entry_parts e)"
  have ok: "\<forall>s\<in>set (entry_parts e). rx_match kebabSegmentRe s"
    using assms by (simp add: validateEntryName_def check_segments_None)
  have seg: "s \<noteq> [] \<and> is_lower (hd s) \<and> list_all is_alnum s" if "s \<in> set ?ps" for s
    using that ok kebabToCamel_shape kebab_segment_shape(2) by (auto simp: list_all_iff)
  have dot: "CHR ''.'' \<notin> set s" if "s \<in> set ?ps" for s
    using seg[OF that] by (auto simp: list_all_iff is_alnum_def is_digit_def is_lower_def is_upper_def byte_of_def)
  have ne: "?ps \<noteq> []" by (simp add: entry_parts_def)
  then have split: "Split (CHR ''.'') (InferToolName e) = ?ps"
    unfolding InferToolName_def using dot by (intro Split_Join) auto
  have "\<forall>w\<in>set (Split (CHR ''.'') (InferToolName e)). w \<noteq> [] \<and> (\<forall>c\<in>set w. c \<noteq> CHR ''.'')"
    unfolding split using seg dot by metis
  then have "rx_match toolPathPattern (InferToolName e)"
    unfolding rx_match_iff toolPathPattern_def rx_sep_by_def by (subst rx_sep_list) auto
  moreover have "InferToolName e \<noteq> []" using split seg ne by (cases "InferToolName e") auto
  ultimately show ?thesis using split seg by (simp add: ParseToolPath_def)
qed

theorem inferred_names_valid_witness:
  "validateEntryName ''tools/edge-cases.async-complex.ts'' = None \<and>
   InferToolName ''tools/edge-cases.async-complex.ts'' = ''edgeCases.asyncComplex'' \<and>
   ParseToolPath (InferToolName ''tools/edge-cases.async-complex.ts'') =
     Inr (InferToolName ''tools/edge-cases.async-complex.ts'')"
proof -
  have "validateEntryName ''tools/edge-cases.async-complex.ts'' = None"
    "InferToolName ''tools/edge-cases.async-complex.ts'' = ''edgeCases.asyncComplex''" by code_simp+
  then show ?thesis using inferred_names_valid by blast
qed

text \<open>
  The resource convention: an entry \<open>dir/r1.r2...rn.verb.ts\<close> with at least two resources has one
  parameter \<open><singular>_id\<close> for each resource, the deepest one left out exactly when the mode is
  \<open>collection\<close>, or when it is neither \<open>collection\<close> nor \<open>member\<close> and the verb works on a
  collection; with fewer resources it has none.
\<close>

lemma resource_convention:
  assumes "\<forall>s\<in>set (rs @ [verb]). s \<noteq> [] \<and> slash \<notin> set s \<and> CHR ''.'' \<notin> set s"
  shows "map rp_Name (InferResourceParamsWithMode sing (dir @ ''/'' @ Join ''.'' (rs @ [verb]) @ ''.ts'') mode) =
    (if length rs < 2 then []
     else map (\<lambda>r. sing r @ ''_id'')
       (if mode = ''collection'' \<or> mode \<noteq> ''member'' \<and> isCollectionMethod verb then butlast rs else rs))"
proof -
  have "entry_parts (dir @ ''/'' @ Join ''.'' (rs @ [verb]) @ ''.ts'') = rs @ [verb]"
    using assms by (intro entry_parts_conventional) auto
  then show ?thesis
    by (auto simp: InferResourceParamsWithMode_def Let_def butlast_conv_take comp_def)
qed

text \<open>
  No package with a resource tool can be loaded: when the name of one of its tools yields a resource
  parameter, the compiled package fails validation in both modes, because the schemas allow no
  \<open>resourceParams\<close> key.
\<close>

lemma resource_tools_rejected:
  assumes "tool \<in> set (dm_Tools dev)"
    "InferResourceParamsWithMode sing (dt_EntryTS tool) (case dt_Resource tool of None \<Rightarrow> [] | Some r \<Rightarrow> dr_Mode r) \<noteq> []"
  shows "ValidateCompiled (Compile sing dev :: 'sig Package) mode = Inl ValidateCompiledErr"
proof -
  have "pt_ResourceParams (compile_tool sing tool :: 'sig PackageTool) \<noteq> []"
    using assms(2) by (simp add: compile_tool_def Let_def)
  then have "\<not> schema_tool False (compile_tool sing tool :: 'sig PackageTool)"
    by (auto simp: schema_tool_def tool_keys_def schema_tool_properties_def)
  then have "\<not> schema_package False (Compile sing dev :: 'sig Package)"
    using assms(1) by (auto simp: schema_package_def Compile_def)
  then show ?thesis by (simp add: ValidateCompiled_def)
qed

definition demo_dev :: DevManifest where
  "demo_dev = \<lparr>dm_Name = ''zendesk'', dm_Runtime = RuntimeTypeScriptSandbox, dm_AdditionalTypeScriptGlobs = [],
     dm_Executables = [], dm_Tools = [\<lparr>dt_EntryTS = ''tools/account.tickets.list.ts'', dt_Idempotent = None,
       dt_Effect = None, dt_Resource = None\<rparr>]\<rparr>"

text \<open>
  Distinct valid entry names can get the same tool name: the hyphen before a digit leaves no
  trace.
\<close>

lemma tool_name_collision:
  "validateEntryName ''tools/api.get-2.ts'' = None \<and> validateEntryName ''tools/api.get2.ts'' = None \<and>
   InferToolName ''tools/api.get-2.ts'' = InferToolName ''tools/api.get2.ts''"
  by code_simp

end
