(* ===== verification/Registry.thy ===== *)
theory Registry
  imports Versions Go_Path
begin

text \<open>
  Components \<open>registry/cache.go\<close>, \<open>registry/source.go\<close>, \<open>registry/git_source.go\<close> and
  \<open>registry/resolver.go\<close>: the package cache on disk, the two sources of packages, and the
  resolver that verifies what it serves.  The disk is a map from paths to contents.  Parameters:
  \<open>sha\<close> (hex SHA-256), the HTTP client, the git command, the packer, decoding of the two JSON
  replies, the parser of timestamps, and the loader of an archive and its manifest.
\<close>

section \<open>Metadata\<close>

definition sha256HexPattern :: rx where "sha256HexPattern = RRep 64 (RChar is_hex)"
definition gitCommitSHAPattern :: rx where "gitCommitSHAPattern = RRep 40 (RChar is_hex)"

definition ResolvedFromGitHubRelease :: string where "ResolvedFromGitHubRelease = ''github-release''"
definition ResolvedFromGitSource :: string where "ResolvedFromGitSource = ''git-source''"

record ResolveMetadata =
  ArchiveSHA256 :: string
  GitSHA :: string
  ResolvedFrom :: string
  ResolvedAt :: string

datatype metadata_error = BadArchiveSHA string | BadGitSHA string | BadResolvedFrom string | BadResolvedAt string

text \<open>\<open>rfc3339 s\<close> is the time as \<open>20060102150405\<close> in UTC, if \<open>s\<close> is in RFC 3339 format.\<close>

definition metadata_Validate :: "(string \<Rightarrow> string option) \<Rightarrow> ResolveMetadata \<Rightarrow> metadata_error + unit" where
  "metadata_Validate rfc3339 m =
     (if \<not> rx_match sha256HexPattern (ArchiveSHA256 m) then Inl (BadArchiveSHA (ArchiveSHA256 m))
      else if \<not> rx_match gitCommitSHAPattern (GitSHA m) then Inl (BadGitSHA (GitSHA m))
      else if ResolvedFrom m \<noteq> ResolvedFromGitHubRelease \<and> ResolvedFrom m \<noteq> ResolvedFromGitSource
      then Inl (BadResolvedFrom (ResolvedFrom m))
      else if rfc3339 (ResolvedAt m) = None then Inl (BadResolvedAt (ResolvedAt m))
      else Inr ())"

record FetchResult =
  fr_Archive :: bytes
  fr_Manifest :: bytes
  fr_Metadata :: ResolveMetadata

datatype fetch_error = ErrReleaseNotFound | FetchError string

section \<open>GitHub releases\<close>

record githubReleaseAsset =
  as_ID :: int
  as_Name :: string

record githubRelease =
  gr_ID :: int
  gr_TagName :: string
  gr_Assets :: "githubReleaseAsset list"

record githubRef =
  ref_Type :: string
  ref_SHA :: string

definition githubRepoForModule :: "ModulePath \<Rightarrow> fetch_error + string \<times> string" where
  "githubRepoForModule module =
     (let parts = Split slash module in
      if length parts < 3 then Inl (FetchError ''must contain host/owner/repo'')
      else if parts ! 1 = [] \<or> parts ! 2 = [] then Inl (FetchError ''must contain non-empty owner and repo'')
      else Inr (parts ! 1, parts ! 2))"

text \<open>\<open>url.PathEscape\<close>.\<close>

definition hex_digit :: "nat \<Rightarrow> char" where
  "hex_digit n = (if n < 10 then char_of (48 + n) else char_of (55 + n))"

definition path_safe :: "char \<Rightarrow> bool" where
  "path_safe c = (is_alnum c \<or> c \<in> set ''-_.~$&+=:@'')"

definition PathEscape :: "string \<Rightarrow> string" where
  "PathEscape s = concat (map (\<lambda>c. if path_safe c then [c]
     else [CHR ''%'', hex_digit (byte_of c div 16), hex_digit (byte_of c mod 16)]) s)"

record http_response =
  hr_Status :: int
  hr_Body :: bytes

text \<open>The clients of the GitHub API: a GET of a URL with an \<open>Accept\<close> header, or an error.\<close>

record github_api =
  api_baseURL :: string
  api_Get :: "string \<Rightarrow> string \<Rightarrow> string + http_response"
  api_decodeRelease :: "bytes \<Rightarrow> githubRelease option"
  api_decodeRef :: "bytes \<Rightarrow> githubRef option"

definition TrimRight_slash :: "string \<Rightarrow> string" where
  "TrimRight_slash s = rev (dropWhile (\<lambda>c. c = slash) (rev s))"

definition NewGitHubReleaseSource_url :: "string \<Rightarrow> string" where
  "NewGitHubReleaseSource_url baseURL =
     TrimRight_slash (if TrimSpace baseURL = [] then ''https://api.github.com'' else baseURL)"

definition status_ok :: "http_response \<Rightarrow> bool" where
  "status_ok r = (200 \<le> hr_Status r \<and> hr_Status r < 300)"

definition http_get :: "github_api \<Rightarrow> string \<Rightarrow> string \<Rightarrow> fetch_error + http_response" where
  "http_get api accept path = map_sum FetchError id (api_Get api accept (api_baseURL api @ path))"

definition repo_path :: "string \<Rightarrow> string \<Rightarrow> string \<Rightarrow> string" where
  "repo_path owner repo rest = ''/repos/'' @ PathEscape owner @ ''/'' @ PathEscape repo @ rest"

definition fetchReleaseByTag :: "github_api \<Rightarrow> string \<Rightarrow> string \<Rightarrow> string \<Rightarrow> fetch_error + githubRelease" where
  "fetchReleaseByTag api owner repo tag =
     result_bind (http_get api [] (repo_path owner repo (''/releases/tags/'' @ PathEscape tag))) (\<lambda>resp.
       if hr_Status resp = 404 then Inl ErrReleaseNotFound
       else if \<not> status_ok resp then Inl (FetchError ''unexpected status'')
       else case api_decodeRelease api (hr_Body resp) of
           None \<Rightarrow> Inl (FetchError ''decode response'') | Some release \<Rightarrow> Inr release)"

definition fetchTagCommitSHA :: "github_api \<Rightarrow> string \<Rightarrow> string \<Rightarrow> string \<Rightarrow> fetch_error + string" where
  "fetchTagCommitSHA api owner repo tag =
     result_bind (http_get api [] (repo_path owner repo (''/git/ref/tags/'' @ PathEscape tag))) (\<lambda>resp.
       if \<not> status_ok resp then Inl (FetchError ''unexpected status'')
       else case api_decodeRef api (hr_Body resp) of
           None \<Rightarrow> Inl (FetchError ''decode response'')
         | Some ref \<Rightarrow>
             if ref_Type ref \<noteq> ''commit'' then Inl (FetchError ''expected commit'')
             else if \<not> rx_match gitCommitSHAPattern (ref_SHA ref) then Inl (FetchError ''invalid commit sha'')
             else Inr (ToLower (ref_SHA ref)))"

definition downloadAsset :: "github_api \<Rightarrow> string \<Rightarrow> string \<Rightarrow> int \<Rightarrow> fetch_error + bytes" where
  "downloadAsset api owner repo assetID =
     result_bind (http_get api ''application/octet-stream'' (repo_path owner repo (''/releases/assets/'' @ itoa assetID)))
       (\<lambda>resp. if \<not> status_ok resp then Inl (FetchError ''unexpected status'') else Inr (hr_Body resp))"

text \<open>The loop over the assets: the first archive and the first manifest.  An asset that ends in
  \<open>.toolbox.pkg\<close> is never the manifest.\<close>

definition is_archive_asset :: "githubReleaseAsset \<Rightarrow> bool" where
  "is_archive_asset a = HasSuffix (as_Name a) ''.toolbox.pkg''"

definition pick_asset ::
  "githubReleaseAsset \<Rightarrow> githubReleaseAsset option \<times> githubReleaseAsset option
     \<Rightarrow> githubReleaseAsset option \<times> githubReleaseAsset option" where
  "pick_asset asset = (\<lambda>(archiveAsset, manifestAsset).
     if is_archive_asset asset then (if archiveAsset = None then Some asset else archiveAsset, manifestAsset)
     else if as_Name asset = ''toolbox.pkg.json''
     then (archiveAsset, if manifestAsset = None then Some asset else manifestAsset)
     else (archiveAsset, manifestAsset))"

definition mk_metadata :: "(bytes \<Rightarrow> string) \<Rightarrow> bytes \<Rightarrow> string \<Rightarrow> string \<Rightarrow> string \<Rightarrow> ResolveMetadata" where
  "mk_metadata sha archive gitSHA from now =
     \<lparr>ArchiveSHA256 = sha archive, GitSHA = gitSHA, ResolvedFrom = from, ResolvedAt = now\<rparr>"

definition checked_result ::
  "(string \<Rightarrow> string option) \<Rightarrow> bytes \<Rightarrow> bytes \<Rightarrow> ResolveMetadata \<Rightarrow> fetch_error + FetchResult" where
  "checked_result rfc3339 archive manifest metadata =
     (case metadata_Validate rfc3339 metadata of
        Inl e \<Rightarrow> Inl (FetchError ''invalid metadata'')
      | Inr u \<Rightarrow> Inr \<lparr>fr_Archive = archive, fr_Manifest = manifest, fr_Metadata = metadata\<rparr>)"

definition GitHub_Fetch ::
  "(bytes \<Rightarrow> string) \<Rightarrow> (string \<Rightarrow> string option) \<Rightarrow> string \<Rightarrow> github_api \<Rightarrow> ModulePath \<Rightarrow> Version
     \<Rightarrow> fetch_error + FetchResult" where
  "GitHub_Fetch sha rfc3339 now api module version =
     result_bind (githubRepoForModule module) (\<lambda>(owner, repo).
     let tag = (if HasPrefix version ''v'' then version else ''v'' @ version) in
     result_bind (fetchReleaseByTag api owner repo tag) (\<lambda>release.
       if gr_Assets release = [] then Inl (FetchError ''has no assets'')
       else case fold pick_asset (gr_Assets release) (None, None) of
           (None, _) \<Rightarrow> Inl (FetchError ''missing archive asset'')
         | (Some _, None) \<Rightarrow> Inl (FetchError ''missing manifest asset'')
         | (Some archiveAsset, Some manifestAsset) \<Rightarrow>
             result_bind (fetchTagCommitSHA api owner repo tag) (\<lambda>gitSHA.
             result_bind (downloadAsset api owner repo (as_ID archiveAsset)) (\<lambda>archive.
             result_bind (downloadAsset api owner repo (as_ID manifestAsset)) (\<lambda>manifest.
               checked_result rfc3339 archive manifest
                 (mk_metadata sha archive gitSHA ResolvedFromGitHubRelease now))))))"

section \<open>Git checkouts\<close>

text \<open>A git command is its directory and arguments; its outcome may depend on the commands run before
  it, so the command takes the history.\<close>

type_synonym git_cmd = "string \<times> string list"
type_synonym git = "git_cmd list \<Rightarrow> git_cmd \<Rightarrow> string + string"

definition cloneURL :: "string \<Rightarrow> ModulePath \<Rightarrow> string" where
  "cloneURL URLPrefix module = (if TrimSpace URLPrefix = [] then ''https://'' else URLPrefix) @ module"

definition runGit :: "git \<Rightarrow> git_cmd list \<Rightarrow> git_cmd \<Rightarrow> fetch_error + string \<times> git_cmd list" where
  "runGit git hist cmd =
     map_sum FetchError (\<lambda>out. (TrimSpace out, hist @ [cmd])) (git hist cmd)"

definition checkout_dir :: string where "checkout_dir = ''repo''"

definition cloneTaggedVersion :: "git \<Rightarrow> Version \<Rightarrow> string \<Rightarrow> fetch_error + git_cmd list" where
  "cloneTaggedVersion git version url =
     map_sum id snd (runGit git [] ([], [''clone'', ''--depth=1'', ''--branch'', version, url, checkout_dir]))"

definition clonePseudoVersion ::
  "git \<Rightarrow> (string \<Rightarrow> string option) \<Rightarrow> Version \<Rightarrow> string \<Rightarrow> fetch_error + git_cmd list" where
  "clonePseudoVersion git rfc3339 version url =
     result_bind (runGit git [] ([], [''clone'', url, checkout_dir])) (\<lambda>(_, h1).
     result_bind (runGit git h1 (checkout_dir, [''rev-parse'', ''--verify'', PseudoCommit version @ ''^{commit}'']))
       (\<lambda>(commit, h2).
     result_bind (runGit git h2 (checkout_dir, [''show'', ''-s'', ''--format=%cI'', commit])) (\<lambda>(commitDate, h3).
       case rfc3339 commitDate of
         None \<Rightarrow> Inl (FetchError ''invalid commit timestamp'')
       | Some resolvedTimestamp \<Rightarrow>
           if resolvedTimestamp \<noteq> PseudoTimestamp version then Inl (FetchError ''timestamp mismatch'')
           else map_sum id snd (runGit git h3 (checkout_dir, [''checkout'', commit])))))"

definition Git_Fetch ::
  "(bytes \<Rightarrow> string) \<Rightarrow> (string \<Rightarrow> string option) \<Rightarrow> string \<Rightarrow> git \<Rightarrow> (git_cmd list \<Rightarrow> string + bytes \<times> bytes)
     \<Rightarrow> string \<Rightarrow> ModulePath \<Rightarrow> Version \<Rightarrow> fetch_error + FetchResult" where
  "Git_Fetch sha rfc3339 now git pack URLPrefix module version =
     (let url = cloneURL URLPrefix module in
      result_bind (if IsPseudo version then clonePseudoVersion git rfc3339 version url
                   else cloneTaggedVersion git version url) (\<lambda>hist.
      result_bind (runGit git hist (checkout_dir, [''rev-parse'', ''HEAD''])) (\<lambda>(gitSHA, hist').
        if \<not> rx_match gitCommitSHAPattern gitSHA then Inl (FetchError ''invalid commit sha'')
        else result_bind (map_sum FetchError id (pack hist')) (\<lambda>(archive, manifest).
          checked_result rfc3339 archive manifest
            (mk_metadata sha archive (ToLower gitSHA) ResolvedFromGitSource now)))))"

section \<open>The cache\<close>

record cachePaths =
  cp_archive :: string
  cp_manifest :: string
  cp_info :: string

definition NewCache :: "string \<Rightarrow> string \<Rightarrow> string option \<Rightarrow> string option" where
  "NewCache dir envDir userCacheDir =
     (if dir \<noteq> [] then Some dir
      else if envDir \<noteq> [] then Some envDir
      else map_option (\<lambda>u. path_Join [u, ''toolbox'', ''pkg'']) userCacheDir)"

definition cache_paths :: "string \<Rightarrow> ModulePath \<Rightarrow> Version \<Rightarrow> cachePaths" where
  "cache_paths root module version =
     (let base = path_Join [root, module, ''@v'', version] in
      \<lparr>cp_archive = base @ ''.pkg'', cp_manifest = base @ ''.manifest'', cp_info = base @ ''.info''\<rparr>)"

definition cache_Has :: "string \<Rightarrow> disk \<Rightarrow> ModulePath \<Rightarrow> Version \<Rightarrow> bool" where
  "cache_Has root d module version =
     (let p = cache_paths root module version in
      \<forall>path\<in>set [cp_archive p, cp_manifest p, cp_info p]. map_of d path \<noteq> None)"

definition info_json :: "Version \<Rightarrow> bytes" where
  "info_json v = ''{'' @ [CHR 0x22] @ ''version'' @ [CHR 0x22] @ '':'' @ [CHR 0x22] @ v @ [CHR 0x22] @ ''}''"

datatype cache_error = MkdirError | WriteError string | ReadError string | LoadError string

text \<open>Writing may fail at any file; what was written before stays.  A failing write is one that cannot open the file; one that
  fails later, with the file truncated, is outside the model (the hash check of a cache hit catches such an archive only
  with a lock entry or through its manifest).\<close>

fun write_files :: "(string \<Rightarrow> bool) \<Rightarrow> (string \<times> bytes) list \<Rightarrow> disk \<Rightarrow> (cache_error + unit) \<times> disk" where
  "write_files can_write [] d = (Inr (), d)"
| "write_files can_write ((path, data) # files) d =
     (if can_write path then write_files can_write files (AList.update path data d)
      else (Inl (WriteError path), d))"

definition cache_Put ::
  "string \<Rightarrow> (string \<Rightarrow> bool) \<Rightarrow> ModulePath \<Rightarrow> Version \<Rightarrow> bytes \<Rightarrow> bytes \<Rightarrow> disk \<Rightarrow> (cache_error + unit) \<times> disk" where
  "cache_Put root can_write module version archiveBytes manifestBytes d =
     (let p = cache_paths root module version in
      if \<not> can_write (path_Dir (cp_archive p)) then (Inl MkdirError, d)
      else write_files can_write
        [(cp_archive p, archiveBytes), (cp_manifest p, manifestBytes), (cp_info p, info_json version)] d)"

definition cache_ArchiveSHA256 ::
  "(bytes \<Rightarrow> string) \<Rightarrow> string \<Rightarrow> disk \<Rightarrow> ModulePath \<Rightarrow> Version \<Rightarrow> cache_error + string" where
  "cache_ArchiveSHA256 sha root d module version =
     (let p = cp_archive (cache_paths root module version) in
      case map_of d p of None \<Rightarrow> Inl (ReadError p) | Some b \<Rightarrow> Inr (sha b))"

definition cache_LoadArchive ::
  "(bytes \<Rightarrow> bytes \<Rightarrow> string + 'pkg) \<Rightarrow> string \<Rightarrow> disk \<Rightarrow> ModulePath \<Rightarrow> Version \<Rightarrow> cache_error + 'pkg" where
  "cache_LoadArchive load root d module version =
     (let p = cache_paths root module version in
      case map_of d (cp_manifest p) of
        None \<Rightarrow> Inl (ReadError (cp_manifest p))
      | Some m \<Rightarrow>
          (case map_of d (cp_archive p) of
             None \<Rightarrow> Inl (ReadError (cp_archive p))
           | Some a \<Rightarrow> map_sum LoadError id (load a m)))"

section \<open>The resolver\<close>

record 'pkg ResolveResult =
  rr_Package :: 'pkg
  rr_Metadata :: ResolveMetadata

datatype resolve_error =
    InvalidExpected metadata_error
  | CacheHashFailed cache_error
  | CacheLoadFailed cache_error
  | NoSources
  | SourceFailed nat fetch_error
  | SourcesExhausted nat
  | InvalidSourceMetadata metadata_error
  | IntegrityMismatch string string
  | CacheWriteFailed cache_error
  | LoadAfterWriteFailed cache_error

type_synonym package_fetch = "ModulePath \<Rightarrow> Version \<Rightarrow> fetch_error + FetchResult"

fun try_sources ::
  "nat \<Rightarrow> package_fetch list \<Rightarrow> ModulePath \<Rightarrow> Version \<Rightarrow> resolve_error + FetchResult" where
  "try_sources i [] module version = Inl (SourcesExhausted i)"
| "try_sources i (src # srcs) module version =
     (case src module version of
        Inr r \<Rightarrow> Inr r
      | Inl ErrReleaseNotFound \<Rightarrow> try_sources (Suc i) srcs module version
      | Inl e \<Rightarrow> Inl (SourceFailed i e))"

definition fetchFromSources ::
  "package_fetch list \<Rightarrow> ModulePath \<Rightarrow> Version \<Rightarrow> resolve_error + FetchResult" where
  "fetchFromSources sources module version =
     (if sources = [] then Inl NoSources else try_sources 0 sources module version)"

text \<open>What the resolver depends on.\<close>

record 'pkg resolver_env =
  re_sha :: "bytes \<Rightarrow> string"
  re_rfc3339 :: "string \<Rightarrow> string option"
  re_load :: "bytes \<Rightarrow> bytes \<Rightarrow> string + 'pkg"
  re_root :: string
  re_can_write :: "string \<Rightarrow> bool"
  re_sources :: "package_fetch list"

definition fetch_and_store ::
  "'pkg resolver_env \<Rightarrow> disk \<Rightarrow> ModulePath \<Rightarrow> Version \<Rightarrow> ResolveMetadata option
     \<Rightarrow> (resolve_error + 'pkg ResolveResult) \<times> disk" where
  "fetch_and_store env d module version expected =
     (case fetchFromSources (re_sources env) module version of
        Inl e \<Rightarrow> (Inl e, d)
      | Inr fetch \<Rightarrow>
          (case metadata_Validate (re_rfc3339 env) (fr_Metadata fetch) of
             Inl e \<Rightarrow> (Inl (InvalidSourceMetadata e), d)
           | Inr _ \<Rightarrow>
               if (case expected of
                     None \<Rightarrow> False
                   | Some e \<Rightarrow> \<not> EqualFold (ArchiveSHA256 (fr_Metadata fetch)) (ArchiveSHA256 e))
               then (Inl (IntegrityMismatch (ArchiveSHA256 (the expected)) (ArchiveSHA256 (fr_Metadata fetch))), d)
               else
                 (case cache_Put (re_root env) (re_can_write env) module version (fr_Archive fetch)
                         (fr_Manifest fetch) d of
                    (Inl e, d') \<Rightarrow> (Inl (CacheWriteFailed e), d')
                  | (Inr _, d') \<Rightarrow>
                      (case cache_LoadArchive (re_load env) (re_root env) d' module version of
                         Inl e \<Rightarrow> (Inl (LoadAfterWriteFailed e), d')
                       | Inr pkg \<Rightarrow> (Inr \<lparr>rr_Package = pkg, rr_Metadata = fr_Metadata fetch\<rparr>, d')))))"

definition ResolveWithExpected ::
  "'pkg resolver_env \<Rightarrow> disk \<Rightarrow> ModulePath \<Rightarrow> Version \<Rightarrow> ResolveMetadata option
     \<Rightarrow> (resolve_error + 'pkg ResolveResult) \<times> disk" where
  "ResolveWithExpected env d module version expected =
     (case (case expected of None \<Rightarrow> Inr () | Some e \<Rightarrow> metadata_Validate (re_rfc3339 env) e) of
        Inl e \<Rightarrow> (Inl (InvalidExpected e), d)
      | Inr _ \<Rightarrow>
          if cache_Has (re_root env) d module version then
            (case cache_ArchiveSHA256 (re_sha env) (re_root env) d module version of
               Inl e \<Rightarrow> (Inl (CacheHashFailed e), d)
             | Inr archiveSHA \<Rightarrow>
                 if (case expected of None \<Rightarrow> True | Some e \<Rightarrow> EqualFold archiveSHA (ArchiveSHA256 e)) then
                   (case cache_LoadArchive (re_load env) (re_root env) d module version of
                      Inl e \<Rightarrow> (Inl (CacheLoadFailed e), d)
                    | Inr pkg \<Rightarrow>
                        (Inr \<lparr>rr_Package = pkg,
                              rr_Metadata = (case expected of
                                None \<Rightarrow> \<lparr>ArchiveSHA256 = archiveSHA, GitSHA = [], ResolvedFrom = [], ResolvedAt = []\<rparr>
                              | Some e \<Rightarrow> e\<lparr>ArchiveSHA256 := archiveSHA\<rparr>)\<rparr>, d))
                 else fetch_and_store env d module version expected)
          else fetch_and_store env d module version expected)"

definition Resolve ::
  "'pkg resolver_env \<Rightarrow> disk \<Rightarrow> ModulePath \<Rightarrow> Version \<Rightarrow> (resolve_error + 'pkg ResolveResult) \<times> disk" where
  "Resolve env d module version = ResolveWithExpected env d module version None"

section \<open>Listing versions\<close>

datatype list_error = NoListSources | NoVersionSources | ListFailed nat string | ListNotFound

text \<open>A source either cannot list, or answers with an error or a list.\<close>

type_synonym lister = "(ModulePath \<Rightarrow> fetch_error + Version list) option"

record list_state =
  ls_versions :: "Version list"
  ls_sources :: nat
  ls_success :: bool
  ls_firstErr :: "list_error option"

fun add_new :: "Version list \<Rightarrow> Version list \<Rightarrow> Version list" where
  "add_new [] acc = acc"
| "add_new (v # vs) acc = (if v \<in> set acc then add_new vs acc else add_new vs (acc @ [v]))"

definition list_source :: "ModulePath \<Rightarrow> nat \<times> lister \<Rightarrow> list_state \<Rightarrow> list_state" where
  "list_source module = (\<lambda>(i, src) s.
     case src of
       None \<Rightarrow> s
     | Some lister \<Rightarrow>
         let s1 = s\<lparr>ls_sources := Suc (ls_sources s)\<rparr> in
         (case lister module of
            Inl ErrReleaseNotFound \<Rightarrow> s1
          | Inl (FetchError e) \<Rightarrow>
              (if ls_firstErr s1 = None then s1\<lparr>ls_firstErr := Some (ListFailed i e)\<rparr> else s1)
          | Inr listed \<Rightarrow> s1\<lparr>ls_success := True, ls_versions := add_new listed (ls_versions s1)\<rparr>))"

definition ListVersions :: "lister list \<Rightarrow> ModulePath \<Rightarrow> list_error + Version list" where
  "ListVersions sources module =
     (if sources = [] then Inl NoListSources
      else
        let s = fold (list_source module) (enumerate 0 sources)
                  \<lparr>ls_versions = [], ls_sources = 0, ls_success = False, ls_firstErr = None\<rparr> in
        if ls_sources s = 0 then Inl NoVersionSources
        else if ls_versions s = [] then
          (case ls_firstErr s of
             Some e \<Rightarrow> if \<not> ls_success s then Inl e else Inl ListNotFound
           | None \<Rightarrow> Inl ListNotFound)
        else Inr (sortVersionsDesc (ls_versions s)))"

end
