(* ===== verification/Registry_Props.thy ===== *)
theory Registry_Props
  imports Registry
begin

text \<open>
  What the registry promises: every source hands out metadata that is valid and hashes its own
  archive, the resolver serves only bytes that match the lock, a resolved package is served again
  from the cache, sources are tried in order, and cache paths of ordinary modules are distinct and
  below the root.
\<close>

section \<open>The contract of a package source\<close>

locale package_source =
  fixes sha :: "bytes \<Rightarrow> string" and rfc3339 :: "string \<Rightarrow> string option" and fetch :: package_fetch
  assumes fetch_hash: "fetch m v = Inr r \<Longrightarrow> ArchiveSHA256 (fr_Metadata r) = sha (fr_Archive r)"
    and fetch_valid: "fetch m v = Inr r \<Longrightarrow> metadata_Validate rfc3339 (fr_Metadata r) = Inr ()"
begin

lemma fetch_sha_format: "fetch m v = Inr r \<Longrightarrow> rx_match sha256HexPattern (sha (fr_Archive r))"
  using fetch_valid[of m v r] fetch_hash[of m v r] by (auto simp: metadata_Validate_def split: if_splits)

lemma fetch_provenance:
  "fetch m v = Inr r \<Longrightarrow> ResolvedFrom (fr_Metadata r) \<in> {ResolvedFromGitHubRelease, ResolvedFromGitSource}"
  using fetch_valid[of m v r] by (auto simp: metadata_Validate_def split: if_splits)

end

lemma checked_result_Inr:
  "checked_result rfc archive manifest md = Inr r \<longleftrightarrow>
     metadata_Validate rfc md = Inr () \<and> r = \<lparr>fr_Archive = archive, fr_Manifest = manifest, fr_Metadata = md\<rparr>"
  by (auto simp: checked_result_def split: sum.splits)

interpretation github: package_source sha rfc3339 "GitHub_Fetch sha rfc3339 now api" for sha rfc3339 now api
  by unfold_locales
    (auto simp: GitHub_Fetch_def Let_def checked_result_Inr mk_metadata_def split: if_splits option.splits prod.splits)

interpretation git: package_source sha rfc3339 "Git_Fetch sha rfc3339 now git pack prefix"
  for sha rfc3339 now git pack prefix
  by unfold_locales
    (auto simp: Git_Fetch_def Let_def checked_result_Inr mk_metadata_def split: if_splits prod.splits)

text \<open>The sources the program configures.\<close>

datatype source_config =
    GitHubSource github_api
  | GitSource git "git_cmd list \<Rightarrow> string + bytes \<times> bytes" string

fun source_fetch :: "(bytes \<Rightarrow> string) \<Rightarrow> (string \<Rightarrow> string option) \<Rightarrow> string \<Rightarrow> source_config \<Rightarrow> package_fetch" where
  "source_fetch sha rfc now (GitHubSource api) = GitHub_Fetch sha rfc now api"
| "source_fetch sha rfc now (GitSource git pack prefix) = Git_Fetch sha rfc now git pack prefix"

lemma package_source_source_fetch: "package_source sha rfc (source_fetch sha rfc now c)"
  by (cases c) (simp_all add: github.package_source_axioms git.package_source_axioms)

definition env_ok :: "'pkg resolver_env \<Rightarrow> bool" where
  "env_ok env = (\<exists>now cfgs. re_sources env = map (source_fetch (re_sha env) (re_rfc3339 env) now) cfgs)"

section \<open>Sources in order\<close>

lemma try_sources_Inr:
  "try_sources i srcs m v = Inr r \<longleftrightarrow>
     (\<exists>j<length srcs. (srcs ! j) m v = Inr r \<and> (\<forall>k<j. (srcs ! k) m v = Inl ErrReleaseNotFound))"
proof (induction srcs arbitrary: i)
  case (Cons src srcs)
  have step: "(\<exists>j<length (src # srcs). ((src # srcs) ! j) m v = Inr r \<and>
        (\<forall>k<j. ((src # srcs) ! k) m v = Inl ErrReleaseNotFound)) \<longleftrightarrow>
      src m v = Inr r \<or> src m v = Inl ErrReleaseNotFound \<and>
        (\<exists>j<length srcs. (srcs ! j) m v = Inr r \<and> (\<forall>k<j. (srcs ! k) m v = Inl ErrReleaseNotFound))"
    by (auto simp: Ex_less_Suc2 All_less_Suc2)
  show ?case unfolding step by (simp add: Cons.IH split: sum.splits fetch_error.splits)
qed simp

lemma fetch_from_honest:
  assumes "fetchFromSources srcs m v = Inr r" "\<forall>src\<in>set srcs. package_source sha rfc src"
  shows "ArchiveSHA256 (fr_Metadata r) = sha (fr_Archive r) \<and> metadata_Validate rfc (fr_Metadata r) = Inr ()"
proof -
  obtain j where "j < length srcs" "(srcs ! j) m v = Inr r"
    using assms(1) by (auto simp: fetchFromSources_def try_sources_Inr split: if_splits)
  moreover from this have "package_source sha rfc (srcs ! j)" using assms(2) by simp
  ultimately show ?thesis
    using package_source.fetch_hash package_source.fetch_valid by blast
qed

lemma env_sources: "env_ok env \<Longrightarrow> \<forall>src\<in>set (re_sources env). package_source (re_sha env) (re_rfc3339 env) src"
  by (auto simp: env_ok_def package_source_source_fetch)

section \<open>The cache\<close>

lemma cache_paths_distinct:
  "cp_archive (cache_paths root m v) \<noteq> cp_manifest (cache_paths root m v)"
  "cp_archive (cache_paths root m v) \<noteq> cp_info (cache_paths root m v)"
  "cp_manifest (cache_paths root m v) \<noteq> cp_info (cache_paths root m v)"
  by (simp_all add: cache_paths_def Let_def)

lemma cache_Put_Inr:
  assumes "cache_Put root w m v a man d = (Inr u, d')"
  shows "map_of d' = (map_of d)(cp_archive (cache_paths root m v) \<mapsto> a,
    cp_manifest (cache_paths root m v) \<mapsto> man, cp_info (cache_paths root m v) \<mapsto> info_json v)"
  using assms by (auto simp: cache_Put_def Let_def split: if_splits)

lemma cache_Put_files:
  assumes "cache_Put root w m v a man d = (Inr u, d')"
  shows "cache_Has root d' m v" "map_of d' (cp_archive (cache_paths root m v)) = Some a"
    "map_of d' (cp_manifest (cache_paths root m v)) = Some man"
  using cache_Put_Inr[OF assms] cache_paths_distinct[of root m v] by (auto simp: cache_Has_def Let_def)

lemma cache_LoadArchive_Inr:
  "cache_LoadArchive load root d m v = Inr pkg \<longleftrightarrow>
     (\<exists>a man. map_of d (cp_archive (cache_paths root m v)) = Some a \<and>
        map_of d (cp_manifest (cache_paths root m v)) = Some man \<and> load a man = Inr pkg)"
proof -
  have "map_sum LoadError id x = Inr pkg \<longleftrightarrow> x = Inr pkg" for x by (cases x) auto
  then show ?thesis by (auto simp: cache_LoadArchive_def Let_def split: option.splits)
qed

lemma cache_SHA_Inr:
  "cache_ArchiveSHA256 sha root d m v = Inr s \<longleftrightarrow>
     (\<exists>a. map_of d (cp_archive (cache_paths root m v)) = Some a \<and> s = sha a)"
  by (auto simp: cache_ArchiveSHA256_def Let_def split: option.splits)

section \<open>The resolver\<close>

definition served :: "'pkg resolver_env \<Rightarrow> disk \<Rightarrow> ModulePath \<Rightarrow> Version \<Rightarrow> 'pkg ResolveResult \<Rightarrow> bytes \<Rightarrow> bool" where
  "served env d m v res a =
     (cache_Has (re_root env) d m v \<and>
      map_of d (cp_archive (cache_paths (re_root env) m v)) = Some a \<and>
      cache_LoadArchive (re_load env) (re_root env) d m v = Inr (rr_Package res) \<and>
      ArchiveSHA256 (rr_Metadata res) = re_sha env a)"

definition lock_accepts :: "ResolveMetadata option \<Rightarrow> string \<Rightarrow> bool" where
  "lock_accepts expected s = (case expected of None \<Rightarrow> True | Some e \<Rightarrow> EqualFold s (ArchiveSHA256 e))"

lemma fetch_and_store_Inr:
  assumes "fetch_and_store env d m v expected = (Inr res, d')" "env_ok env"
  shows "\<exists>a. served env d' m v res a \<and> lock_accepts expected (re_sha env a) \<and>
    metadata_Validate (re_rfc3339 env) (rr_Metadata res) = Inr ()"
proof -
  obtain fetch where F: "fetchFromSources (re_sources env) m v = Inr fetch"
    using assms(1) by (cases "fetchFromSources (re_sources env) m v") (auto simp: fetch_and_store_def)
  note honest = fetch_from_honest[OF F env_sources[OF assms(2)]]
  define P where "P = cache_Put (re_root env) (re_can_write env) m v (fr_Archive fetch) (fr_Manifest fetch) d"
  have acc: "lock_accepts expected (ArchiveSHA256 (fr_Metadata fetch))"
    using assms(1) F honest by (auto simp: fetch_and_store_def lock_accepts_def split: if_splits option.splits)
  have "(case P of (Inl e, d') \<Rightarrow> (Inl (CacheWriteFailed e), d')
        | (Inr _, d') \<Rightarrow> (case cache_LoadArchive (re_load env) (re_root env) d' m v of
             Inl e \<Rightarrow> (Inl (LoadAfterWriteFailed e), d')
           | Inr pkg \<Rightarrow> (Inr \<lparr>rr_Package = pkg, rr_Metadata = fr_Metadata fetch\<rparr>, d'))) = (Inr res, d')"
    using assms(1) F honest acc
    by (auto simp: fetch_and_store_def P_def lock_accepts_def split: if_splits option.splits)
  then obtain u where Q: "P = (Inr u, d')"
    "cache_LoadArchive (re_load env) (re_root env) d' m v = Inr (rr_Package res)"
    "rr_Metadata res = fr_Metadata fetch"
    by (auto split: sum.splits prod.splits)
  show ?thesis
    using cache_Put_files[OF Q(1)[unfolded P_def]] Q honest acc by (auto simp: served_def)
qed

lemma ResolveWithExpected_Inr:
  assumes "ResolveWithExpected env d m v expected = (Inr res, d')" "env_ok env"
  shows "\<exists>a. served env d' m v res a \<and> lock_accepts expected (re_sha env a)"
proof -
  have fs: ?thesis if "fetch_and_store env d m v expected = (Inr res, d')"
    using fetch_and_store_Inr[OF that assms(2)] by blast
  show ?thesis
  proof (cases "cache_Has (re_root env) d m v")
    case False
    then show ?thesis
      using assms(1) fs by (auto simp: ResolveWithExpected_def split: sum.splits option.splits)
  next
    case True
    then obtain a where a: "map_of d (cp_archive (cache_paths (re_root env) m v)) = Some a"
      by (auto simp: cache_Has_def Let_def)
    then have sha: "cache_ArchiveSHA256 (re_sha env) (re_root env) d m v = Inr (re_sha env a)"
      by (simp add: cache_SHA_Inr)
    show ?thesis
    proof (cases "lock_accepts expected (re_sha env a)")
      case False
      then show ?thesis
        using assms(1) fs True sha
        by (auto simp: ResolveWithExpected_def lock_accepts_def split: sum.splits option.splits)
    next
      case acc: True
      then have "cache_LoadArchive (re_load env) (re_root env) d m v = Inr (rr_Package res)"
        "ArchiveSHA256 (rr_Metadata res) = re_sha env a" "d' = d"
        using assms(1) True sha
        by (auto simp: ResolveWithExpected_def lock_accepts_def split: sum.splits option.splits)
      then show ?thesis using True a acc by (auto simp: served_def)
    qed
  qed
qed

section \<open>Where the cache writes\<close>

text \<open>A module path without \<open>.\<close> and \<open>..\<close> segments.\<close>

definition plain_module :: "ModulePath \<Rightarrow> bool" where
  "plain_module m = list_all proper_seg (Split slash m)"

lemma version_proper: "ParseVersion v = Inr v \<Longrightarrow> proper_seg v"
proof -
  assume v: "ParseVersion v = Inr v"
  then have "HasPrefix v ''v''"
    by (auto simp: ParseVersion_def rx_match_iff semverPattern_def HasPrefix_iff split: if_splits)
  then show ?thesis
    using version_no_slash_at[of v] v by (auto simp: proper_seg_def HasPrefix_iff)
qed

lemma cache_base:
  assumes "clean_abs root" "root \<noteq> ''/''" "plain_module m" "proper_seg v"
  shows "path_Join [root, m, ''@v'', v] = root @ ''/'' @ m @ ''/@v/'' @ v"
proof -
  obtain rs where r: "root = abs_path rs" "\<forall>s\<in>set rs. proper_seg s"
    using assms(1) by (auto simp: clean_abs_iff)
  then have rne: "rs \<noteq> []" using assms(2) by auto
  define ms where "ms = Split slash m"
  have m: "m = Join [slash] ms" "\<forall>s\<in>set ms. proper_seg s" "ms \<noteq> []"
    using assms(3) Join_Split[of slash m] by (auto simp: ms_def plain_module_def list_all_iff)
  have "[] \<notin> set (Split slash m)" using m(2) by (auto simp: ms_def proper_seg_def)
  then have mne: "m \<noteq> []" by auto
  have at: "proper_seg ''@v''" by (simp add: proper_seg_def)
  have J: "Join [slash] [root, m, ''@v'', v] = abs_path (rs @ ms @ [''@v'', v])"
    using r rne m by (simp add: abs_path_def Join_append Join_Cons)
  have "v \<noteq> []" "root \<noteq> []" using assms(4) r by (auto simp: proper_seg_def abs_path_def)
  then have "path_Join [root, m, ''@v'', v] = path_Clean (abs_path (rs @ ms @ [''@v'', v]))"
    using mne J by (simp add: path_Join_def Let_def)
  also have "\<dots> = abs_path (rs @ ms @ [''@v'', v])"
    using r m at assms(4) by (intro path_Clean_abs_path) auto
  also have "\<dots> = root @ ''/'' @ m @ ''/@v/'' @ v"
    using J by (simp add: Join_Cons)
  finally show ?thesis .
qed

section \<open>What resolving depends on and writes\<close>

definition cache_files :: "string \<Rightarrow> ModulePath \<Rightarrow> Version \<Rightarrow> string set" where
  "cache_files root m v =
     (let p = cache_paths root m v in {cp_archive p, cp_manifest p, cp_info p})"

lemma served_cong:
  assumes "served env d m v res a" "\<And>x. x \<in> cache_files (re_root env) m v \<Longrightarrow> map_of D x = map_of d x"
  shows "served env D m v res a"
proof -
  let ?p = "cache_paths (re_root env) m v"
  have "map_of D (cp_archive ?p) = map_of d (cp_archive ?p)" "map_of D (cp_manifest ?p) = map_of d (cp_manifest ?p)"
    "map_of D (cp_info ?p) = map_of d (cp_info ?p)"
    using assms(2) by (auto simp: cache_files_def Let_def)
  then show ?thesis using assms(1) by (auto simp: served_def cache_Has_def cache_LoadArchive_Inr Let_def)
qed

text \<open>What is served needs no source: with its metadata as the lock entry it comes from the cache.\<close>

lemma served_replay:
  assumes "served env d m v res a" "metadata_Validate (re_rfc3339 env) (rr_Metadata res) = Inr ()"
  shows "ResolveWithExpected (env\<lparr>re_sources := srcs, re_can_write := w\<rparr>) d m v (Some (rr_Metadata res)) = (Inr res, d)"
proof -
  have "cache_ArchiveSHA256 (re_sha env) (re_root env) d m v = Inr (ArchiveSHA256 (rr_Metadata res))"
    using assms(1) by (simp add: served_def cache_SHA_Inr)
  moreover have "rr_Metadata res\<lparr>ArchiveSHA256 := ArchiveSHA256 (rr_Metadata res)\<rparr> = rr_Metadata res" by simp
  ultimately show ?thesis using assms by (simp add: ResolveWithExpected_def served_def)
qed

lemma write_files_frame:
  "write_files w files d = (r, d') \<Longrightarrow> x \<notin> fst ` set files \<Longrightarrow> map_of d' x = map_of d x"
  by (induction w files d rule: write_files.induct) (auto split: if_splits)

lemma cache_Put_frame:
  "cache_Put root w m v a man d = (r, d') \<Longrightarrow> x \<notin> cache_files root m v \<Longrightarrow> map_of d' x = map_of d x"
  by (auto simp: cache_Put_def Let_def cache_files_def split: if_splits dest!: write_files_frame)

lemma ResolveWithExpected_frame:
  assumes "ResolveWithExpected env d m v e = (r, d')" "x \<notin> cache_files (re_root env) m v"
  shows "map_of d' x = map_of d x"
proof -
  have "map_of d' x = map_of d x" if "fetch_and_store env d m v e = (r, d')"
    using that cache_Put_frame[OF _ assms(2)]
    by (auto simp: fetch_and_store_def split: sum.splits prod.splits option.splits if_splits)
  then show ?thesis
    using assms(1) by (auto simp: ResolveWithExpected_def split: sum.splits option.splits if_splits)
qed

lemma cache_files_disjoint:
  assumes "clean_abs root" "root \<noteq> ''/''" "plain_module m" "plain_module m'"
    "ParseVersion v = Inr v" "ParseVersion v' = Inr v'" "m \<noteq> m'"
  shows "cache_files root m v \<inter> cache_files root m' v' = {}"
proof -
  let ?b = "\<lambda>m v. root @ ''/'' @ m @ ''/@v/'' @ v"
  have p: "cache_files root m v = {?b m v @ ''.pkg'', ?b m v @ ''.manifest'', ?b m v @ ''.info''}"
    "cache_files root m' v' = {?b m' v' @ ''.pkg'', ?b m' v' @ ''.manifest'', ?b m' v' @ ''.info''}"
    using assms version_proper by (simp_all add: cache_files_def cache_paths_def Let_def cache_base)
  have ns: "slash \<notin> set v" "slash \<notin> set v'" using version_no_slash_at[of v] version_no_slash_at[of v'] assms(5,6) by auto
  have "?b m v @ e \<noteq> ?b m' v' @ e'" if "slash \<notin> set e" "slash \<notin> set e'" for e e'
  proof
    assume "?b m v @ e = ?b m' v' @ e'"
    then have "(m @ ''/@v'') @ slash # (v @ e) = (m' @ ''/@v'') @ slash # (v' @ e')" by simp
    from last_sep_unique[OF this] show False using ns that assms(7) by auto
  qed
  then show ?thesis unfolding p by auto
qed

section \<open>Properties\<close>

text \<open>
  C2. Integrity: whatever the GitHub and git sources answer and whatever is in the cache, a resolved
  package was loaded from the archive and manifest that are now in the cache, the returned metadata
  carries the hash of exactly that archive, and with a lock entry that hash is the locked one.
\<close>

theorem resolve_integrity:
  assumes "env_ok env" "ResolveWithExpected env d m v expected = (Inr res, d')"
  shows "\<exists>a man.
    map_of d' (cp_archive (cache_paths (re_root env) m v)) = Some a \<and>
    map_of d' (cp_manifest (cache_paths (re_root env) m v)) = Some man \<and>
    re_load env a man = Inr (rr_Package res) \<and>
    ArchiveSHA256 (rr_Metadata res) = re_sha env a \<and>
    (case expected of None \<Rightarrow> True | Some e \<Rightarrow> EqualFold (re_sha env a) (ArchiveSHA256 e))"
  using ResolveWithExpected_Inr[OF assms(2,1)]
  by (auto simp: served_def cache_LoadArchive_Inr lock_accepts_def)

definition demo_sha :: "bytes \<Rightarrow> string" where
  "demo_sha b = replicate 60 (CHR ''0'') @ take 4 (b @ ''0000'')"

definition demo_meta :: ResolveMetadata where
  "demo_meta = \<lparr>ArchiveSHA256 = demo_sha ''ab'', GitSHA = replicate 40 (CHR ''1''),
     ResolvedFrom = ResolvedFromGitSource, ResolvedAt = ''t''\<rparr>"

definition demo_git :: git where
  "demo_git hist cmd = (if snd cmd = [''rev-parse'', ''HEAD''] then Inr (replicate 40 (CHR ''1'')) else Inr [])"

definition demo_env :: "bytes \<Rightarrow> (bytes \<times> bytes) resolver_env" where
  "demo_env archive = \<lparr>re_sha = demo_sha, re_rfc3339 = (\<lambda>s. if s = ''t'' then Some s else None),
     re_load = (\<lambda>a m. Inr (a, m)), re_root = ''/c'', re_can_write = (\<lambda>p. True),
     re_sources = map (source_fetch demo_sha (\<lambda>s. if s = ''t'' then Some s else None) ''t'')
       [GitSource demo_git (\<lambda>h. Inr (archive, ''man'')) []]\<rparr>"

lemma demo_env_ok: "env_ok (demo_env archive)"
  unfolding env_ok_def demo_env_def
  by (rule exI[of _ "''t''"], rule exI[of _ "[GitSource demo_git (\<lambda>h. Inr (archive, ''man'')) []]"]) simp

theorem resolve_integrity_witness:
  "case ResolveWithExpected (demo_env ''ab'') [] ''x.org/y'' ''v1.0.0'' (Some demo_meta) of
     (Inr res, d') \<Rightarrow> ArchiveSHA256 (rr_Metadata res) = demo_sha ''ab'' \<and> rr_Package res = (''ab'', ''man'')
   | (Inl e, d') \<Rightarrow> False"
proof -
  let ?r = "ResolveWithExpected (demo_env ''ab'') [] ''x.org/y'' ''v1.0.0'' (Some demo_meta)"
  have E: "?r = (Inr (projr (fst ?r)), snd ?r)" by code_simp
  have "map_of (snd ?r) (cp_archive (cache_paths (re_root (demo_env ''ab'')) ''x.org/y'' ''v1.0.0'')) = Some ''ab''"
    "rr_Package (projr (fst ?r)) = (''ab'', ''man'')" by code_simp+
  then show ?thesis
    using resolve_integrity[OF demo_env_ok E] by (subst E) (auto simp: demo_env_def)
qed

text \<open>
  A resolved package is served again: resolving the same version with the returned metadata as the
  lock entry gives the same package and metadata from the cache, without asking any source and
  without writing.
\<close>

lemma resolve_again:
  assumes "env_ok env" "ResolveWithExpected env d m v expected = (Inr res, d')"
    "metadata_Validate (re_rfc3339 env) (rr_Metadata res) = Inr ()"
  shows "ResolveWithExpected (env\<lparr>re_sources := srcs, re_can_write := w\<rparr>) d' m v (Some (rr_Metadata res)) = (Inr res, d')"
  using ResolveWithExpected_Inr[OF assms(2,1)] served_replay[OF _ assms(3)] by blast

text \<open>
  Sources are tried in order: the result is that of the first source that does not answer
  \<open>ErrReleaseNotFound\<close>; an error of another kind stops the search there.
\<close>

lemma sources_in_order:
  "fetchFromSources srcs m v = Inr r \<longleftrightarrow>
     (\<exists>j<length srcs. (srcs ! j) m v = Inr r \<and>
        list_all (\<lambda>src. src m v = Inl ErrReleaseNotFound) (take j srcs))"
  by (auto simp: fetchFromSources_def try_sources_Inr list_all_length)

text \<open>
  C16. An archive that does not match the lock is refused, and the cache is left as it was: with a valid
  lock entry, when the cached archive is absent or has another hash and the fetched one has another
  hash too, resolving fails with an integrity error.
\<close>

theorem mismatch_refused:
  assumes "metadata_Validate (re_rfc3339 env) e = Inr ()" "env_ok env"
    "\<not> cache_Has (re_root env) d m v \<or>
     (\<exists>a. map_of d (cp_archive (cache_paths (re_root env) m v)) = Some a \<and> \<not> EqualFold (re_sha env a) (ArchiveSHA256 e))"
    "fetchFromSources (re_sources env) m v = Inr fetch"
    "\<not> EqualFold (re_sha env (fr_Archive fetch)) (ArchiveSHA256 e)"
  shows "ResolveWithExpected env d m v (Some e) =
    (Inl (IntegrityMismatch (ArchiveSHA256 e) (re_sha env (fr_Archive fetch))), d)"
proof -
  note honest = fetch_from_honest[OF assms(4) env_sources[OF assms(2)]]
  have F: "fetch_and_store env d m v (Some e) =
      (Inl (IntegrityMismatch (ArchiveSHA256 e) (re_sha env (fr_Archive fetch))), d)"
    using assms(4,5) honest by (simp add: fetch_and_store_def)
  show ?thesis
  proof (cases "cache_Has (re_root env) d m v")
    case True
    then obtain a where "cache_ArchiveSHA256 (re_sha env) (re_root env) d m v = Inr (re_sha env a)"
      "\<not> EqualFold (re_sha env a) (ArchiveSHA256 e)"
      using assms(3) by (auto simp: cache_SHA_Inr)
    then show ?thesis using F True assms(1) by (simp add: ResolveWithExpected_def)
  qed (use F assms(1) in \<open>simp add: ResolveWithExpected_def\<close>)
qed

theorem mismatch_refused_witness:
  "ResolveWithExpected (demo_env ''cd'') [] ''x.org/y'' ''v1.0.0'' (Some demo_meta) =
     (Inl (IntegrityMismatch (demo_sha ''ab'') (demo_sha ''cd'')), [])"
proof -
  let ?f = "projr (fetchFromSources (re_sources (demo_env ''cd'')) ''x.org/y'' ''v1.0.0'')"
  have F: "fetchFromSources (re_sources (demo_env ''cd'')) ''x.org/y'' ''v1.0.0'' = Inr ?f" by code_simp
  have a: "fr_Archive ?f = ''cd''" by code_simp
  have v: "metadata_Validate (re_rfc3339 (demo_env ''cd'')) demo_meta = Inr ()" by code_simp
  have ne: "\<not> EqualFold (re_sha (demo_env ''cd'') (fr_Archive ?f)) (ArchiveSHA256 demo_meta)" by code_simp
  have "\<not> cache_Has (re_root (demo_env ''cd'')) [] ''x.org/y'' ''v1.0.0''" by code_simp
  from mismatch_refused[OF v demo_env_ok disjI1[OF this] F ne] show ?thesis
    unfolding a by (simp add: demo_env_def demo_meta_def)
qed

text \<open>
  Cache files of modules without dot segments lie below the cache root, and no two packages share
  one: the path determines module and version.
\<close>

lemma cache_paths_confined:
  assumes "clean_abs root" "root \<noteq> ''/''" "plain_module m" "ParseVersion v = Inr v"
    "plain_module m'" "ParseVersion v' = Inr v'"
  shows "cp_archive (cache_paths root m v) = root @ ''/'' @ m @ ''/@v/'' @ v @ ''.pkg'' \<and>
    (cp_archive (cache_paths root m v) = cp_archive (cache_paths root m' v') \<longleftrightarrow> m = m' \<and> v = v')"
proof -
  have p: "cp_archive (cache_paths root m v) = root @ ''/'' @ m @ ''/@v/'' @ v @ ''.pkg''"
    "cp_archive (cache_paths root m' v') = root @ ''/'' @ m' @ ''/@v/'' @ v' @ ''.pkg''"
    using assms version_proper by (simp_all add: cache_paths_def Let_def cache_base)
  have "m = m' \<and> v = v'" if "m @ ''/@v/'' @ v = m' @ ''/@v/'' @ v'"
  proof -
    have "slash \<notin> set v" "slash \<notin> set v'"
      using version_no_slash_at[of v] version_no_slash_at[of v'] assms(4,6) by auto
    then have "m @ ''/@v'' = m' @ ''/@v'' \<and> v = v'"
      using that last_sep_unique[of "m @ ''/@v''" slash v "m' @ ''/@v''" v'] by simp
    then show ?thesis by simp
  qed
  then show ?thesis using p by auto
qed

text \<open>
  Outside these: \<open>ParseModulePath\<close> accepts a module path of dot-dot segments, whose cache files are
  not below the root; and a cache hit without a lock entry returns metadata that does not
  validate, so it cannot be written to a lock file.
\<close>

lemma registry_divergences:
  "is_ok (ParseModulePath ''../../evil'') \<and>
   cp_archive (cache_paths ''/home/u/cache'' ''../../evil'' ''v1.0.0'') = ''/home/evil/@v/v1.0.0.pkg'' \<and>
   (case Resolve (demo_env ''ab'')
      (snd (ResolveWithExpected (demo_env ''ab'') [] ''x.org/y'' ''v1.0.0'' (Some demo_meta))) ''x.org/y'' ''v1.0.0'' of
      (Inr res, d) \<Rightarrow> \<not> is_ok (metadata_Validate (re_rfc3339 (demo_env ''ab'')) (rr_Metadata res)) | (Inl e, d) \<Rightarrow> False)"
  by code_simp

end
