(* ===== verification/Source.thy ===== *)
theory Source
  imports Manifest
begin

text \<open>
  Components \<open>packaging/internal/source/source.go\<close> and \<open>sourcefs.go\<close>: loading a package from a
  directory, the file system restricted to what the manifest declares, and the tools of a loaded
  package.  Parameters: the glob library, the extraction of metadata from TypeScript, and decoding
  of manifests.  The loop that collects the directories of a file need not end, so it is a partial
  function.
\<close>

section \<open>The restricted file system\<close>

text \<open>The underlying tree: a path holds a file with its contents or a directory.\<close>

datatype fs_node = FileNode bytes | DirNode

type_synonym base_fs = "(string, fs_node) gomap"

record sourceFS =
  sf_base :: base_fs
  sf_files :: "string list"
  sf_dirs :: "string list"

definition cleanFSPath :: "string \<Rightarrow> string" where
  "cleanFSPath name = (let clean = path_Clean name in if clean = ''/'' then ''.'' else clean)"

definition sourceFS_Open :: "sourceFS \<Rightarrow> string \<Rightarrow> fs_node option" where
  "sourceFS_Open f name =
     (let clean = cleanFSPath name in
      if clean \<in> set (sf_files f) then map_of (sf_base f) clean
      else if clean \<in> set (sf_dirs f) then map_of (sf_base f) clean
      else None)"

definition sourceFS_Stat :: "sourceFS \<Rightarrow> string \<Rightarrow> fs_node option" where
  "sourceFS_Stat f name =
     (let clean = cleanFSPath name in
      if clean \<in> set (sf_files f) then map_of (sf_base f) clean
      else if clean \<in> set (sf_dirs f) then map_of (sf_base f) clean
      else None)"

text \<open>\<open>fs.ReadDir\<close> of the tree: the names of the entries of a directory, sorted.\<close>

definition base_ReadDir :: "base_fs \<Rightarrow> string \<Rightarrow> string list option" where
  "base_ReadDir base d =
     (if map_of base d \<noteq> Some DirNode then None
      else Some (sort_strings [path_Base p. (p, n) \<leftarrow> base, p \<noteq> ''.'', path_Dir p = d]))"

definition sourceFS_ReadDir :: "sourceFS \<Rightarrow> string \<Rightarrow> string list option" where
  "sourceFS_ReadDir f name =
     (let clean = cleanFSPath name in
      if clean \<notin> set (sf_dirs f) then None
      else map_option (filter (\<lambda>entry.
             let child = cleanFSPath (path_Join [clean, entry]) in
             child \<in> set (sf_files f) \<or> child \<in> set (sf_dirs f))) (base_ReadDir (sf_base f) clean))"

text \<open>\<open>glob_files pattern\<close> stands for the regular files below the package directory that match the
  pattern, as slash-separated relative paths.\<close>

definition allowedTypeScriptFiles :: "(string \<Rightarrow> string list) \<Rightarrow> 'sig Package \<Rightarrow> string list" where
  "allowedTypeScriptFiles glob_files pkg =
     map (\<lambda>t. cleanFSPath (pt_EntryTS t)) (pk_Tools pkg) @
     map (\<lambda>(name, execPath). cleanFSPath execPath) (pk_Executables pkg) @
     concat (map (\<lambda>glob. map cleanFSPath (glob_files glob)) (pk_AdditionalTypeScriptGlobs pkg))"

partial_function (option) dir_chain :: "string \<Rightarrow> string list \<Rightarrow> string list option" where
  [code]: "dir_chain dir dirs =
     (if dir = ''.'' then Some (dir # dirs) else dir_chain (path_Dir dir) (dir # dirs))"

fun allowed_dirs_loop :: "string list \<Rightarrow> string list \<Rightarrow> string list option" where
  "allowed_dirs_loop [] dirs = Some dirs"
| "allowed_dirs_loop (file # files) dirs =
     (case dir_chain (path_Dir file) dirs of None \<Rightarrow> None | Some dirs' \<Rightarrow> allowed_dirs_loop files dirs')"

definition allowedDirectories :: "string list \<Rightarrow> string list option" where
  "allowedDirectories files = allowed_dirs_loop files [''.'']"

definition NewSourceFS :: "(string \<Rightarrow> string list) \<Rightarrow> base_fs \<Rightarrow> 'sig Package \<Rightarrow> sourceFS option" where
  "NewSourceFS glob_files base pkg =
     (let files = allowedTypeScriptFiles glob_files pkg in
      map_option (\<lambda>dirs. \<lparr>sf_base = base, sf_files = files, sf_dirs = dirs\<rparr>) (allowedDirectories files))"

section \<open>Metadata from the sources\<close>

record 'sig tool_meta =
  tm_Description :: string
  tm_Sig :: "'sig option"
  tm_ParamsSchema :: "schema option"

text \<open>The parameters: what the TypeScript checker extracts from an entry, and the JSDoc tags of a
  signature.\<close>

record ('fs, 'sig) ts_extract =
  tx_Extract :: "'fs \<Rightarrow> string \<Rightarrow> 'sig tool_meta option"
  tx_Tags :: "'sig \<Rightarrow> (string \<times> string) list"

definition apply_tag :: "string \<times> string \<Rightarrow> 'sig PackageTool \<Rightarrow> 'sig PackageTool" where
  "apply_tag = (\<lambda>(name, txt) t.
     if name = ''effect'' then (if txt \<noteq> [] then t\<lparr>pt_Effect := txt\<rparr> else t)
     else if name = ''idempotent'' then t\<lparr>pt_Idempotent := Some True\<rparr>
     else t)"

definition enrich_tool :: "('fs, 'sig) ts_extract \<Rightarrow> 'fs \<Rightarrow> 'sig PackageTool \<Rightarrow> 'sig PackageTool" where
  "enrich_tool tx files tool =
     (case tx_Extract tx files (pt_EntryTS tool) of
        None \<Rightarrow> tool
      | Some meta \<Rightarrow>
          let t1 = (if tm_Description meta \<noteq> [] then tool\<lparr>pt_Description := tm_Description meta\<rparr> else tool);
              t2 = t1\<lparr>pt_Sig := tm_Sig meta\<rparr>;
              t3 = (if tm_Sig meta = None \<and> tm_ParamsSchema meta \<noteq> None
                    then t2\<lparr>pt_ParamsSchema := tm_ParamsSchema meta\<rparr> else t2)
          in case tm_Sig meta of None \<Rightarrow> t3 | Some sig \<Rightarrow> fold apply_tag (tx_Tags tx sig) t3)"

definition EnrichToolMetadata :: "('fs, 'sig) ts_extract \<Rightarrow> 'fs \<Rightarrow> 'sig Package \<Rightarrow> 'sig Package" where
  "EnrichToolMetadata tx files pkg = pkg\<lparr>pk_Tools := map (enrich_tool tx files) (pk_Tools pkg)\<rparr>"

section \<open>Loaded packages\<close>

record ('fs, 'sig) LoadedPackage =
  lp_Package :: "'sig Package"
  lp_Files :: 'fs
  lp_Dir :: string

datatype load_error = ReadManifest | ManifestError manifest_error

text \<open>A result of \<open>None\<close> is a load that does not return.\<close>

definition LoadDirWithMode ::
  "(bytes \<Rightarrow> string + DevManifest) \<Rightarrow> (string \<Rightarrow> string) \<Rightarrow> (string \<Rightarrow> string list) \<Rightarrow> (sourceFS, 'sig) ts_extract
     \<Rightarrow> base_fs \<Rightarrow> string \<Rightarrow> ValidationMode \<Rightarrow> (load_error + (sourceFS, 'sig) LoadedPackage \<times> string list) option" where
  "LoadDirWithMode decode singularize glob_files tx base dir mode =
     (case map_of base ''toolbox.devpkg.json'' of
        Some (FileNode raw) \<Rightarrow>
          (case ParseDev decode raw of
             Inl e \<Rightarrow> Some (Inl (ManifestError e))
           | Inr dev \<Rightarrow>
               let pkg = Compile singularize dev in
               (case NewSourceFS glob_files base pkg of
                  None \<Rightarrow> None
                | Some files \<Rightarrow>
                    let pkg' = EnrichToolMetadata tx files pkg in
                    (case ValidateCompiled pkg' mode of
                       Inl e \<Rightarrow> Some (Inl (ManifestError e))
                     | Inr warnings \<Rightarrow>
                         Some (Inr (\<lparr>lp_Package = pkg', lp_Files = files, lp_Dir = dir\<rparr>, warnings)))))
      | _ \<Rightarrow> Some (Inl ReadManifest))"

definition LoadDir ::
  "(bytes \<Rightarrow> string + DevManifest) \<Rightarrow> (string \<Rightarrow> string) \<Rightarrow> (string \<Rightarrow> string list) \<Rightarrow> (sourceFS, 'sig) ts_extract
     \<Rightarrow> base_fs \<Rightarrow> string \<Rightarrow> (load_error + (sourceFS, 'sig) LoadedPackage) option" where
  "LoadDir decode singularize glob_files tx base dir =
     map_option (map_sum id fst) (LoadDirWithMode decode singularize glob_files tx base dir ValidationModeDev)"

text \<open>A compiled package is read from \<open>toolbox.pkg.json\<close>; here the signatures are added after
  the validation.\<close>

definition LoadBuiltDirWithMode ::
  "(bytes \<Rightarrow> string + 'sig Package) \<Rightarrow> (string \<Rightarrow> string list) \<Rightarrow> (sourceFS, 'sig) ts_extract
     \<Rightarrow> base_fs \<Rightarrow> string \<Rightarrow> ValidationMode \<Rightarrow> (load_error + (sourceFS, 'sig) LoadedPackage) option" where
  "LoadBuiltDirWithMode decode glob_files tx base dir mode =
     (case map_of base ''toolbox.pkg.json'' of
        Some (FileNode raw) \<Rightarrow>
          (case decode raw of
             Inl e \<Rightarrow> Some (Inl (ManifestError (PkgParse e)))
           | Inr pkg \<Rightarrow>
               (case ValidateCompiled pkg mode of
                  Inl e \<Rightarrow> Some (Inl (ManifestError e))
                | Inr _ \<Rightarrow>
                    map_option (\<lambda>files. Inr \<lparr>lp_Package = EnrichToolMetadata tx files pkg, lp_Files = files, lp_Dir = dir\<rparr>)
                      (NewSourceFS glob_files base pkg)))
      | _ \<Rightarrow> Some (Inl ReadManifest))"

text \<open>\<open>ts_files\<close> gives the contents of the files a tool can open.\<close>

definition resolved_tool ::
  "('fs \<Rightarrow> (string, bytes) gomap) \<Rightarrow> ('fs, 'sig) LoadedPackage \<Rightarrow> 'sig PackageTool \<Rightarrow> 'sig ResolvedTool" where
  "resolved_tool contents p t =
     (let name = InferToolName (pt_EntryTS t);
          baseDef = \<lparr>ts_Entry = pt_EntryTS t, ts_Files = contents (lp_Files p), ts_PackageRoot = lp_Dir p\<rparr>;
          wasm = (pk_Runtime (lp_Package p) = RuntimeTypeScriptWasixSandbox \<or>
                  pk_Runtime (lp_Package p) = RuntimeTypeScriptWasip2Sandbox)
      in \<lparr>rt_Name = name,
          rt_Description = (if pt_Description t = [] then name else pt_Description t),
          rt_Sig = pt_Sig t, rt_Effect = pt_Effect t, rt_Idempotent = pt_Idempotent t,
          rt_ResourceParams = pt_ResourceParams t, rt_Package = Some (lp_Package p),
          rt_TS = (if wasm then None else Some baseDef),
          rt_TSWasm = (if wasm then Some \<lparr>ts_Entry = ts_Entry baseDef, ts_Files = ts_Files baseDef,
                         ts_PackageRoot = ts_PackageRoot baseDef,
                         tw_Executables = pk_Executables (lp_Package p)\<rparr> else None),
          rt_paramsSchema = pt_ParamsSchema t\<rparr>)"

definition ResolvedTools ::
  "('fs \<Rightarrow> (string, bytes) gomap) \<Rightarrow> ('fs, 'sig) LoadedPackage \<Rightarrow> 'sig ResolvedTool list" where
  "ResolvedTools contents p = map (resolved_tool contents p) (pk_Tools (lp_Package p))"

end
