(* ===== verification/Source_Props.thy ===== *)
theory Source_Props
  imports Source
begin

text \<open>
  The restricted file system of a package: which directories it exposes, that it exposes nothing
  else, and for which entries building it does not return.
\<close>

section \<open>The directories of relative paths\<close>

abbreviation rel_path :: "string list \<Rightarrow> string" where
  "rel_path segs \<equiv> Join [slash] segs"

lemma rel_path_head:
  assumes "\<forall>s\<in>set segs. proper_seg s" "segs \<noteq> []"
  obtains c r where "rel_path segs = c # r" "c \<noteq> slash"
proof -
  obtain s rest where segs: "segs = s # rest" using assms(2) by (cases segs) auto
  obtain t where t: "rel_path segs = s @ t" unfolding segs by (cases rest) auto
  obtain c cs where "s = c # cs" "c \<noteq> slash"
    using assms(1) segs by (cases s) (auto simp: proper_seg_def)
  then show ?thesis using that t by simp
qed

lemma path_Clean_rel_gen:
  assumes "rel_path segs = c # r" "c \<noteq> slash" "Split slash (p # ps) = ws" "clean_segs False [] ws = segs" "p \<noteq> slash"
  shows "path_Clean (p # ps) = rel_path segs"
  using assms by (simp add: path_Clean_def Let_def)

lemma Split_rel:
  assumes "\<forall>s\<in>set segs. proper_seg s" "segs \<noteq> []"
  shows "Split slash (rel_path segs) = segs"
  using assms by (intro Split_Join) (auto simp: proper_seg_def)

lemma path_Clean_rel:
  assumes "\<forall>s\<in>set segs. proper_seg s" "segs \<noteq> []"
  shows "path_Clean (rel_path segs) = rel_path segs"
proof -
  obtain c r where cr: "rel_path segs = c # r" "c \<noteq> slash" by (rule rel_path_head[OF assms])
  have "path_Clean (c # r) = rel_path segs"
    using Split_rel[OF assms] assms(1) cr by (intro path_Clean_rel_gen[OF cr]) (auto simp: clean_segs_id)
  then show ?thesis using cr by simp
qed

lemma clean_segs_trailing:
  "\<forall>s\<in>set xs. proper_seg s \<Longrightarrow> clean_segs r st (xs @ ['''']) = rev st @ xs"
  by (induction xs arbitrary: st) (auto simp: proper_seg_def)

lemma path_Dir_rel:
  assumes "\<forall>s\<in>set (xs @ [x]). proper_seg s"
  shows "path_Dir (rel_path (xs @ [x])) = (if xs = [] then ''.'' else rel_path xs)"
proof (cases "xs = []")
  case True
  have "path_dir_part x = []"
    using assms by (auto simp: path_dir_part_def proper_seg_def dropWhile_eq_Nil_conv)
  then show ?thesis using True by (simp add: path_Dir_def path_Clean_def)
next
  case False
  have xs: "\<forall>s\<in>set xs. proper_seg s" "slash \<notin> set x" using assms by (auto simp: proper_seg_def)
  obtain c r where cr: "rel_path xs = c # r" "c \<noteq> slash" by (rule rel_path_head[OF xs(1) False])
  have "path_dir_part (rel_path (xs @ [x])) = c # r @ [slash]"
    using False path_dir_part_snoc[OF xs(2), of "rel_path xs"] cr by (simp add: Join_snoc)
  moreover have "Split slash (c # r @ [slash]) = xs @ ['''']"
    using Split_snoc_sep[of slash "rel_path xs"] Split_rel[OF xs(1) False] cr by simp
  then have "path_Clean (c # r @ [slash]) = rel_path xs"
    using xs(1) by (intro path_Clean_rel_gen[OF cr]) (auto simp: clean_segs_trailing cr(2))
  ultimately show ?thesis using False by (simp add: path_Dir_def)
qed

lemma rel_path_not_dot:
  assumes "\<forall>s\<in>set xs. proper_seg s" "xs \<noteq> []"
  shows "rel_path xs \<noteq> ''.''"
proof
  assume "rel_path xs = ''.''"
  then have "xs = Split slash ''.''" using Split_rel[OF assms] by metis
  then show False using assms(1) by (simp add: proper_seg_def)
qed

text \<open>The directories from a path up to the root of the package.\<close>

lemma dir_chain_rel:
  assumes "\<forall>s\<in>set xs. proper_seg s"
  shows "\<exists>dirs'. dir_chain (if xs = [] then ''.'' else rel_path xs) dirs = Some dirs' \<and>
    set dirs' = insert ''.'' (set dirs \<union> (\<lambda>i. rel_path (take i xs)) ` {1..length xs})"
  using assms
proof (induction xs arbitrary: dirs rule: rev_induct)
  case Nil
  show ?case by (subst dir_chain.simps) simp
next
  case (snoc x xs)
  let ?p = "rel_path (xs @ [x])"
  have ne: "?p \<noteq> ''.''" using rel_path_not_dot[of "xs @ [x]"] snoc.prems by simp
  have "dir_chain ?p dirs = dir_chain (if xs = [] then ''.'' else rel_path xs) (?p # dirs)"
    using ne path_Dir_rel[OF snoc.prems] by (subst dir_chain.simps) simp
  moreover obtain dirs' where d: "dir_chain (if xs = [] then ''.'' else rel_path xs) (?p # dirs) = Some dirs'"
    "set dirs' = insert ''.'' (set (?p # dirs) \<union> (\<lambda>i. rel_path (take i xs)) ` {1..length xs})"
    using snoc.IH[of "?p # dirs"] snoc.prems by auto
  moreover have "(\<lambda>i. rel_path (take i (xs @ [x]))) ` {1..length (xs @ [x])} =
      insert ?p ((\<lambda>i. rel_path (take i xs)) ` {1..length xs})"
  proof -
    have "{1..length (xs @ [x])} = insert (Suc (length xs)) {1..length xs}" by auto
    moreover have "(\<lambda>i. rel_path (take i (xs @ [x]))) ` {1..length xs} = (\<lambda>i. rel_path (take i xs)) ` {1..length xs}"
      by (intro image_cong) auto
    ultimately show ?thesis by simp
  qed
  ultimately show ?case by auto
qed

text \<open>A relative path in clean form.\<close>

definition nice_path :: "string \<Rightarrow> bool" where
  "nice_path p = list_all proper_seg (Split slash p)"

definition parents :: "string \<Rightarrow> string set" where
  "parents p = (\<lambda>i. rel_path (take i (Split slash p))) ` {1..<length (Split slash p)}"

lemma nice_path_rel:
  assumes "nice_path p"
  obtains xs x where "p = rel_path (xs @ [x])" "Split slash p = xs @ [x]" "\<forall>s\<in>set (xs @ [x]). proper_seg s"
proof -
  have "p = rel_path (Split slash p)" by (simp add: Join_Split)
  moreover obtain xs x where "Split slash p = xs @ [x]" by (cases "Split slash p" rule: rev_cases) auto
  ultimately show ?thesis using that[of xs x] assms by (metis nice_path_def list_all_iff)
qed

lemma dir_chain_nice:
  assumes "nice_path p"
  shows "\<exists>dirs'. dir_chain (path_Dir p) dirs = Some dirs' \<and> set dirs' = insert ''.'' (set dirs \<union> parents p)"
proof -
  obtain xs x where p: "p = rel_path (xs @ [x])" "Split slash p = xs @ [x]" "\<forall>s\<in>set (xs @ [x]). proper_seg s"
    by (rule nice_path_rel[OF assms])
  have "parents p = (\<lambda>i. rel_path (take i xs)) ` {1..length xs}"
    unfolding parents_def p(2) by (intro image_cong) auto
  then show ?thesis using dir_chain_rel[of xs dirs] path_Dir_rel[OF p(3)] p(1,3) by auto
qed

lemma allowed_dirs_loop_nice:
  assumes "list_all nice_path files"
  shows "\<exists>dirs'. allowed_dirs_loop files dirs = Some dirs' \<and>
    set dirs' = set dirs \<union> (\<Union>p\<in>set files. insert ''.'' (parents p))"
  using assms
proof (induction files arbitrary: dirs)
  case (Cons p files)
  obtain d1 where d1: "dir_chain (path_Dir p) dirs = Some d1" "set d1 = insert ''.'' (set dirs \<union> parents p)"
    using dir_chain_nice[of p dirs] Cons.prems by auto
  then show ?case using Cons.IH[of d1] Cons.prems by auto
qed simp

lemma path_Dir_absolute: "HasPrefix d ''/'' \<Longrightarrow> HasPrefix (path_Dir d) ''/''"
proof -
  assume "HasPrefix d ''/''"
  then obtain r where d: "d = slash # r" by (auto simp: HasPrefix_iff)
  have "\<exists>r'. path_dir_part d = slash # r'"
  proof (cases "slash \<in> set r")
    case True
    then obtain a b where "r = a @ slash # b" "slash \<notin> set b" by (metis split_list_last)
    then show ?thesis using d path_dir_part_snoc[of b "slash # a"] by simp
  next
    case False
    then show ?thesis using d path_dir_part_snoc[of r "[]"] by simp
  qed
  then show ?thesis by (auto simp: path_Dir_def path_Clean_def HasPrefix_iff)
qed

lemma dir_chain_relative:
  assumes "dir_chain d dirs = Some r"
  shows "\<not> HasPrefix d ''/''"
proof (rule dir_chain.raw_induct[where P = "\<lambda>d dirs r. \<not> HasPrefix d ''/''", OF _ assms])
  fix f d dirs r
  assume IH: "\<And>d dirs r. f d dirs = Some r \<Longrightarrow> \<not> HasPrefix d ''/''"
    and eq: "(if d = ''.'' then Some (d # dirs) else f (path_Dir d) (d # dirs)) = Some r"
  show "\<not> HasPrefix d ''/''"
  proof (cases "d = ''.''")
    case False
    then have "\<not> HasPrefix (path_Dir d) ''/''" using IH eq by auto
    then show ?thesis using path_Dir_absolute by blast
  qed (simp add: HasPrefix_def)
qed

lemma dir_chain_absolute: "HasPrefix d ''/'' \<Longrightarrow> dir_chain d dirs = None"
  using dir_chain_relative by (cases "dir_chain d dirs") auto

lemma allowed_dirs_loop_absolute:
  "f \<in> set files \<Longrightarrow> HasPrefix f ''/'' \<Longrightarrow> allowed_dirs_loop files dirs = None"
proof (induction files arbitrary: dirs)
  case (Cons g gs)
  then show ?case
    using dir_chain_absolute[OF path_Dir_absolute] by (auto split: option.splits)
qed simp

lemma NewSourceFS_nice:
  assumes "list_all nice_path (allowedTypeScriptFiles glob pkg)"
  shows "\<exists>f. NewSourceFS glob base pkg = Some f \<and> sf_base f = base \<and>
    sf_files f = allowedTypeScriptFiles glob pkg \<and>
    set (sf_dirs f) = insert ''.'' (\<Union>p\<in>set (allowedTypeScriptFiles glob pkg). parents p)"
  using allowed_dirs_loop_nice[OF assms, of "[''.'']"]
  by (auto simp: NewSourceFS_def allowedDirectories_def Let_def)

lemma sourceFS_Open_iff:
  "sourceFS_Open f name = Some n \<longleftrightarrow>
     cleanFSPath name \<in> set (sf_files f) \<union> set (sf_dirs f) \<and> map_of (sf_base f) (cleanFSPath name) = Some n"
  by (auto simp: sourceFS_Open_def Let_def)

section \<open>Properties\<close>

text \<open>
  C21. Building the restricted file system of a package with relative file paths returns, and exposes
  exactly the declared files and the directories on the way to them: an open through it succeeds
  exactly on a path of the package that is the root, a declared path or a proper prefix of one.
\<close>

theorem source_dirs_exact:
  assumes "list_all nice_path (allowedTypeScriptFiles glob pkg)"
  shows "\<exists>f. NewSourceFS glob base pkg = Some f \<and>
    set (sf_dirs f) = insert ''.'' (\<Union>p\<in>set (allowedTypeScriptFiles glob pkg). parents p) \<and>
    (\<forall>name n. sourceFS_Open f name = Some n \<longleftrightarrow>
       map_of base (cleanFSPath name) = Some n \<and>
       (cleanFSPath name = ''.'' \<or> cleanFSPath name \<in> set (allowedTypeScriptFiles glob pkg) \<or>
        (\<exists>p\<in>set (allowedTypeScriptFiles glob pkg). cleanFSPath name \<in> parents p)))"
proof -
  obtain f where f: "NewSourceFS glob base pkg = Some f" "sf_base f = base" "sf_files f = allowedTypeScriptFiles glob pkg"
    "set (sf_dirs f) = insert ''.'' (\<Union>p\<in>set (allowedTypeScriptFiles glob pkg). parents p)"
    using NewSourceFS_nice[OF assms] by blast
  have "sourceFS_Open f name = Some n \<longleftrightarrow>
       map_of base (cleanFSPath name) = Some n \<and>
       (cleanFSPath name = ''.'' \<or> cleanFSPath name \<in> set (allowedTypeScriptFiles glob pkg) \<or>
        (\<exists>p\<in>set (allowedTypeScriptFiles glob pkg). cleanFSPath name \<in> parents p))" for name n
    unfolding sourceFS_Open_iff f by blast
  then show ?thesis using f by blast
qed

definition demo_pkg :: "string \<Rightarrow> unit Package" where
  "demo_pkg entry = \<lparr>pk_Name = ''p'', pk_Runtime = RuntimeTypeScriptSandbox, pk_SHA256 = [],
     pk_AdditionalTypeScriptGlobs = [], pk_Executables = [],
     pk_Tools = [\<lparr>pt_EntryTS = entry, pt_Idempotent = None, pt_Effect = EffectReadOnly, pt_Description = [],
       pt_ParamsSchema = None, pt_Sig = None, pt_ResourceParams = []\<rparr>]\<rparr>"

theorem source_dirs_exact_witness:
  "\<exists>f. NewSourceFS (\<lambda>g. []) [(''a/b/t.ts'', FileNode ''x''), (''u.ts'', FileNode ''y'')] (demo_pkg ''./a/b/t.ts'') = Some f \<and>
     ''a/b'' \<in> set (sf_dirs f) \<and> sourceFS_Open f ''a/./b/t.ts'' = Some (FileNode ''x'') \<and> sourceFS_Open f ''u.ts'' = None"
proof -
  let ?base = "[(''a/b/t.ts'', FileNode ''x''), (''u.ts'', FileNode ''y'')]"
  have files: "allowedTypeScriptFiles (\<lambda>g. []) (demo_pkg ''./a/b/t.ts'') = [''a/b/t.ts'']" by code_simp
  have nice: "list_all nice_path (allowedTypeScriptFiles (\<lambda>g. []) (demo_pkg ''./a/b/t.ts''))" by code_simp
  have c: "cleanFSPath ''a/./b/t.ts'' = ''a/b/t.ts''" "cleanFSPath ''u.ts'' = ''u.ts''" by code_simp+
  have pa: "parents ''a/b/t.ts'' = {''a'', ''a/b''}" by code_simp
  obtain f where f:
    "NewSourceFS (\<lambda>g. []) ?base (demo_pkg ''./a/b/t.ts'') = Some f"
    "set (sf_dirs f) = insert ''.'' (\<Union>p\<in>set [''a/b/t.ts'']. parents p)"
    "\<forall>name n. sourceFS_Open f name = Some n \<longleftrightarrow>
       map_of ?base (cleanFSPath name) = Some n \<and>
       (cleanFSPath name = ''.'' \<or> cleanFSPath name \<in> set [''a/b/t.ts''] \<or>
        (\<exists>p\<in>set [''a/b/t.ts'']. cleanFSPath name \<in> parents p))"
    using source_dirs_exact[OF nice, of ?base, unfolded files] by (elim exE conjE) (rule that; assumption)
  have o1: "sourceFS_Open f ''a/./b/t.ts'' = Some (FileNode ''x'')"
    using f(3)[rule_format, of "''a/./b/t.ts''" "FileNode ''x''"] unfolding c by simp
  have "\<not> sourceFS_Open f ''u.ts'' = Some n" for n
    unfolding f(3)[rule_format] c using pa by simp
  then have o2: "sourceFS_Open f ''u.ts'' = None" by (metis not_None_eq)
  have "''a/b'' \<in> set (sf_dirs f)" unfolding f(2) using pa by simp
  then show ?thesis using f(1) o1 o2 by blast
qed

text \<open>
  An absolute entry path hangs the loader: when a tool's entry starts with a slash (and is not the
  root itself), the loop that collects parent directories never reaches \<open>.\<close> and loading does not
  return, although the manifest passes validation.
\<close>

lemma absolute_entry_hangs:
  assumes "t \<in> set (pk_Tools pkg)" "HasPrefix (pt_EntryTS t) ''/''" "path_Clean (pt_EntryTS t) \<noteq> ''/''"
  shows "NewSourceFS glob base pkg = None"
proof -
  let ?f = "cleanFSPath (pt_EntryTS t)"
  have "?f \<in> set (allowedTypeScriptFiles glob pkg)" using assms(1) by (auto simp: allowedTypeScriptFiles_def)
  moreover have "HasPrefix ?f ''/''"
    using assms(2,3) by (auto simp: cleanFSPath_def Let_def path_Clean_def HasPrefix_iff)
  ultimately have "allowedDirectories (allowedTypeScriptFiles glob pkg) = None"
    unfolding allowedDirectories_def by (rule allowed_dirs_loop_absolute)
  then show ?thesis by (simp add: NewSourceFS_def Let_def)
qed

end
