(* ===== verification/Archive.thy ===== *)
theory Archive
  imports Source_Props
begin

text \<open>
  Component \<open>packaging/internal/archive/archive.go\<close>: packing a loaded package into an archive with
  an external manifest, loading it back with all its checks, and the in-memory file system of an
  archive.  Parameters (\<open>codec\<close>): tar with zstd in both directions, the JSON form of a package in
  both directions, and SHA-256.  Loading collects the directories of every file by the same kind of
  loop as \<open>Source\<close>, so it may not return.
\<close>

section \<open>Archives\<close>

datatype tar_entry = TarDir string | TarReg string bytes | TarOther string

record 'sig codec =
  co_tar :: "tar_entry list \<Rightarrow> bytes"
  co_untar :: "bytes \<Rightarrow> string + tar_entry list"
  co_encode :: "'sig Package \<Rightarrow> bytes"
  co_decode :: "bytes \<Rightarrow> string + 'sig Package"
  co_sha :: "bytes \<Rightarrow> string"

record archiveMemFS =
  am_files :: "(string, bytes) gomap"
  am_dirs :: "string list"

datatype archive_error =
    ReadExternal string
  | ReadArchive string
  | ReadTar string
  | ParseInternal string
  | MissingInternal
  | ParseExternal string
  | MissingSHA
  | SHAMismatch string string
  | ManifestMismatch
  | InvalidDist manifest_error

definition PkgManifestFilename :: string where "PkgManifestFilename = ''toolbox.pkg.json''"

definition ArchiveExtension :: string where "ArchiveExtension = ''.toolbox.pkg''"

definition newline :: string where "newline = [CHR 0x0A]"

section \<open>Packing\<close>

text \<open>\<open>fs.WalkDir\<close> over the restricted file system: entries in the order of their names, a
  directory before its contents; the first error of the callback ends the walk.  \<open>None\<close> is
  a walk that runs out of fuel.  The fuel bounds the depth, and no path has more segments than
  characters plus one.\<close>

datatype walk_error = WalkStat | WalkReadDir string | WalkInfo string | WalkOpen string

fun collect :: "('a \<Rightarrow> ('e + 'b list) option) \<Rightarrow> 'a list \<Rightarrow> ('e + 'b list) option" where
  "collect g [] = Some (Inr [])"
| "collect g (x # xs) =
     (case g x of
        None \<Rightarrow> None
      | Some (Inl e) \<Rightarrow> Some (Inl e)
      | Some (Inr ys) \<Rightarrow> map_option (map_sum id ((@) ys)) (collect g xs))"

definition walk_entry ::
  "(string \<Rightarrow> (walk_error + (string \<times> fs_node) list) option) \<Rightarrow> sourceFS \<Rightarrow> string
     \<Rightarrow> (walk_error + (string \<times> fs_node) list) option" where
  "walk_entry sub f p =
     (case map_of (sf_base f) p of
        None \<Rightarrow> Some (Inl (WalkInfo p))
      | Some DirNode \<Rightarrow> map_option (map_sum id ((#) (p, DirNode))) (sub p)
      | Some (FileNode _) \<Rightarrow>
          (case sourceFS_Open f p of
             Some (FileNode b) \<Rightarrow> Some (Inr [(p, FileNode b)])
           | _ \<Rightarrow> Some (Inl (WalkOpen p))))"

fun walk_tree :: "nat \<Rightarrow> sourceFS \<Rightarrow> string \<Rightarrow> (walk_error + (string \<times> fs_node) list) option" where
  "walk_tree 0 f dir = None"
| "walk_tree (Suc n) f dir =
     (case sourceFS_ReadDir f dir of
        None \<Rightarrow> Some (Inl (WalkReadDir dir))
      | Some names \<Rightarrow> collect (\<lambda>name. walk_entry (walk_tree n f) f (path_Join [dir, name])) names)"

definition walk_fuel :: "sourceFS \<Rightarrow> nat" where
  "walk_fuel f = fold max (map (\<lambda>(p, _). length p + 2) (sf_base f)) 1"

definition walk :: "sourceFS \<Rightarrow> (walk_error + (string \<times> fs_node) list) option" where
  "walk f =
     (case sourceFS_Stat f ''.'' of
        None \<Rightarrow> Some (Inl WalkStat)
      | Some (FileNode _) \<Rightarrow> Some (Inr [])
      | Some DirNode \<Rightarrow> walk_tree (walk_fuel f) f ''.'')"

definition tar_node :: "string \<times> fs_node \<Rightarrow> tar_entry" where
  "tar_node = (\<lambda>(p, n). case n of FileNode b \<Rightarrow> TarReg p b | DirNode \<Rightarrow> TarDir p)"

definition pack_entries :: "'sig codec \<Rightarrow> 'sig Package \<Rightarrow> (string \<times> fs_node) list \<Rightarrow> tar_entry list" where
  "pack_entries co pkg nodes =
     map tar_node nodes @ [TarReg PkgManifestFilename (co_encode co (pkg\<lparr>pk_SHA256 := []\<rparr>))]"

record PackResult =
  pr_ArchivePath :: string
  pr_ManifestPath :: string

datatype pack_error = AddFiles walk_error | WriteArchive string | WriteManifest string

text \<open>Both files are written to the disk; a write that fails leaves what was written before.  A failing \<open>os.WriteFile\<close> is one that
  cannot open the file: one that fails later, with the file truncated or half written, is outside the model.
  \<open>co_encode\<close> stands for both \<open>json.Marshal\<close> and \<open>json.MarshalIndent\<close>, of which only is used that the decoder reads their
  output alike.\<close>

definition Pack ::
  "'sig codec \<Rightarrow> (string \<Rightarrow> bool) \<Rightarrow> (sourceFS, 'sig) LoadedPackage \<Rightarrow> string \<Rightarrow> disk
     \<Rightarrow> ((pack_error + PackResult) \<times> disk) option" where
  "Pack co can_write loaded outDir d =
     (case walk (lp_Files loaded) of
        None \<Rightarrow> None
      | Some (Inl e) \<Rightarrow> Some (Inl (AddFiles e), d)
      | Some (Inr nodes) \<Rightarrow>
          let archiveData = co_tar co (pack_entries co (lp_Package loaded) nodes);
              archivePath = path_Join [outDir, pk_Name (lp_Package loaded) @ ArchiveExtension];
              externalManifest = co_encode co ((lp_Package loaded)\<lparr>pk_SHA256 := co_sha co archiveData\<rparr>) @ newline;
              manifestPath = path_Join [outDir, PkgManifestFilename]
          in if \<not> can_write archivePath then Some (Inl (WriteArchive archivePath), d)
             else let d1 = AList.update archivePath archiveData d in
               if \<not> can_write manifestPath then Some (Inl (WriteManifest manifestPath), d1)
               else Some (Inr \<lparr>pr_ArchivePath = archivePath, pr_ManifestPath = manifestPath\<rparr>,
                          AList.update manifestPath externalManifest d1))"

section \<open>Loading\<close>

partial_function (option) parent_dirs :: "string \<Rightarrow> string list \<Rightarrow> string list option" where
  [code]: "parent_dirs dir dirs =
     (if dir = ''.'' then Some dirs else parent_dirs (path_Dir dir) (dir # dirs))"

fun extract_loop ::
  "(bytes \<Rightarrow> string + 'sig Package) \<Rightarrow> tar_entry list \<Rightarrow> archiveMemFS \<Rightarrow> 'sig Package option
     \<Rightarrow> (archive_error + archiveMemFS \<times> 'sig Package option) option" where
  "extract_loop decode [] fs pkg = Some (Inr (fs, pkg))"
| "extract_loop decode (TarDir n # es) fs pkg =
     extract_loop decode es
       (fs\<lparr>am_dirs := TrimSuffix (TrimPrefix n ''./'') ''/'' # am_dirs fs\<rparr>) pkg"
| "extract_loop decode (TarOther n # es) fs pkg = extract_loop decode es fs pkg"
| "extract_loop decode (TarReg n content # es) fs pkg =
     (let name = TrimPrefix n ''./'' in
      case parent_dirs (path_Dir name) (am_dirs fs) of
        None \<Rightarrow> None
      | Some dirs \<Rightarrow>
          let fs' = fs\<lparr>am_files := AList.update name content (am_files fs), am_dirs := dirs\<rparr> in
          if name = PkgManifestFilename then
            (case decode content of
               Inl e \<Rightarrow> Some (Inl (ParseInternal e))
             | Inr p \<Rightarrow> extract_loop decode es fs' (Some p))
          else extract_loop decode es fs' pkg)"

definition extractArchive :: "'sig codec \<Rightarrow> bytes \<Rightarrow> (archive_error + archiveMemFS \<times> 'sig Package) option" where
  "extractArchive co data =
     (case co_untar co data of
        Inl e \<Rightarrow> Some (Inl (ReadTar e))
      | Inr entries \<Rightarrow>
          map_option (\<lambda>r. result_bind r (\<lambda>(fs, pkg). case pkg of None \<Rightarrow> Inl MissingInternal | Some p \<Rightarrow> Inr (fs, p)))
            (extract_loop (co_decode co) entries \<lparr>am_files = [], am_dirs = [''.'']\<rparr> None))"

definition verify_archive ::
  "'sig codec \<Rightarrow> (archiveMemFS, 'sig) ts_extract \<Rightarrow> bytes \<Rightarrow> 'sig Package
     \<Rightarrow> (archive_error + (archiveMemFS, 'sig) LoadedPackage) option" where
  "verify_archive co tx archiveData external =
     (if pk_SHA256 external = [] then Some (Inl MissingSHA)
      else if pk_SHA256 external \<noteq> co_sha co archiveData
      then Some (Inl (SHAMismatch (pk_SHA256 external) (co_sha co archiveData)))
      else
        map_option (\<lambda>r. result_bind r (\<lambda>(fs, internal).
            if co_encode co (external\<lparr>pk_SHA256 := []\<rparr>) \<noteq> co_encode co (internal\<lparr>pk_SHA256 := []\<rparr>)
            then Inl ManifestMismatch
            else case ValidateCompiled external ValidationModeDist of
                Inl e \<Rightarrow> Inl (InvalidDist e)
              | Inr _ \<Rightarrow> Inr \<lparr>lp_Package = EnrichToolMetadata tx fs external, lp_Files = fs, lp_Dir = []\<rparr>))
          (extractArchive co archiveData))"

definition LoadArchive ::
  "'sig codec \<Rightarrow> (archiveMemFS, 'sig) ts_extract \<Rightarrow> disk \<Rightarrow> string \<Rightarrow> string
     \<Rightarrow> (archive_error + (archiveMemFS, 'sig) LoadedPackage) option" where
  "LoadArchive co tx d archivePath manifestPath =
     (case map_of d manifestPath of
        None \<Rightarrow> Some (Inl (ReadExternal manifestPath))
      | Some externalRaw \<Rightarrow>
          (case co_decode co externalRaw of
             Inl e \<Rightarrow> Some (Inl (ParseExternal e))
           | Inr external \<Rightarrow>
               (case map_of d archivePath of
                  None \<Rightarrow> Some (Inl (ReadArchive archivePath))
                | Some archiveData \<Rightarrow> verify_archive co tx archiveData external)))"

section \<open>The file system of an archive\<close>

definition cleanName :: "string \<Rightarrow> string" where
  "cleanName name = (let n = TrimPrefix name ''./'' in if n = [] then ''.'' else n)"

definition archive_Open :: "archiveMemFS \<Rightarrow> string \<Rightarrow> fs_node option" where
  "archive_Open a name =
     (let n = cleanName name in
      if n \<in> set (am_dirs a) then Some DirNode else map_option FileNode (map_of (am_files a) n))"

definition archive_ReadFile :: "archiveMemFS \<Rightarrow> string \<Rightarrow> bytes option" where
  "archive_ReadFile a name = map_of (am_files a) (cleanName name)"

definition archive_Stat :: "archiveMemFS \<Rightarrow> string \<Rightarrow> (string \<times> bool \<times> int) option" where
  "archive_Stat a name =
     (let n = cleanName name in
      if n \<in> set (am_dirs a) then Some (path_Base n, True, 0)
      else map_option (\<lambda>b. (path_Base n, False, int (length b))) (map_of (am_files a) n))"

text \<open>The entries of a directory: a name, whether it is a directory, and the size of a file.  The
  first loop runs over the files, the second over the directories.\<close>

definition entry_rest :: "string \<Rightarrow> string \<Rightarrow> string option" where
  "entry_rest dir name =
     (let prefix = (if dir = ''.'' then [] else dir @ ''/'') in
      if \<not> HasPrefix name prefix then None
      else let rest = TrimPrefix name prefix in if Contains rest ''/'' then None else Some rest)"

fun entries_loop :: "string \<Rightarrow> (string \<times> bool \<times> int) list \<Rightarrow> string list \<Rightarrow> (string \<times> bool \<times> int) list" where
  "entries_loop dir [] seen = []"
| "entries_loop dir ((name, isDir, sz) # items) seen =
     (if isDir \<and> name = dir then entries_loop dir items seen
      else case entry_rest dir name of
          None \<Rightarrow> entries_loop dir items seen
        | Some rest \<Rightarrow>
            if rest \<in> set seen then entries_loop dir items seen
            else (rest, isDir, sz) # entries_loop dir items (rest # seen))"

definition dirEntries :: "archiveMemFS \<Rightarrow> string \<Rightarrow> (string \<times> bool \<times> int) list" where
  "dirEntries a dir =
     entries_loop dir (map (\<lambda>(n, b). (n, False, int (length b))) (am_files a) @
                       map (\<lambda>n. (n, True, 0)) (remdups (am_dirs a))) []"

definition archive_ReadDir :: "archiveMemFS \<Rightarrow> string \<Rightarrow> (string \<times> bool \<times> int) list option" where
  "archive_ReadDir a name =
     (let n = cleanName name in if n \<notin> set (am_dirs a) then None else Some (dirEntries a n))"

end
