(* ===== verification/Package_Tree.thy ===== *)
theory Package_Tree
  imports Source_Props "HOL-Library.Sublist"
begin

text \<open>
  The tree below a package directory: relative paths as lists of segments, ancestors, and the
  children that \<open>ReadDir\<close> of the restricted file system lists.
\<close>

section \<open>Paths as segments\<close>

definition segs_of :: "string \<Rightarrow> string list" where
  "segs_of p = (if p = ''.'' then [] else Split slash p)"

definition path_of :: "string list \<Rightarrow> string" where
  "path_of xs = (if xs = [] then ''.'' else rel_path xs)"

definition node_path :: "string \<Rightarrow> bool" where
  "node_path p = (p = ''.'' \<or> nice_path p)"

named_theorems node_path \<open>facts about paths of nodes\<close>

lemma node_path_dot [simp]: "node_path ''.''" by (simp add: node_path_def)

lemma segs_of_dot [simp]: "segs_of ''.'' = []" by (simp add: segs_of_def)

lemma path_of_Nil [simp]: "path_of [] = ''.''" by (simp add: path_of_def)

lemma nice_path_not_dot [simp]: "\<not> nice_path ''.''" by (simp add: nice_path_def proper_seg_def)

lemma path_of_segs [simp]: "path_of (segs_of p) = p"
  by (simp add: path_of_def segs_of_def Join_Split)

lemma segs_of_path:
  assumes "\<forall>s\<in>set xs. proper_seg s"
  shows "segs_of (path_of xs) = xs"
  using assms rel_path_not_dot Split_rel by (cases "xs = []") (auto simp: segs_of_def path_of_def)

lemma segs_proper: "node_path p \<Longrightarrow> \<forall>s\<in>set (segs_of p). proper_seg s"
  by (auto simp: node_path_def nice_path_def segs_of_def list_all_iff)

lemma segs_Nil_iff [simp]: "segs_of p = [] \<longleftrightarrow> p = ''.''" "[] = segs_of p \<longleftrightarrow> p = ''.''"
  by (simp_all add: segs_of_def)

lemma segs_inj: "segs_of p = segs_of q \<longleftrightarrow> p = q"
  by (metis path_of_segs)

lemma node_path_of: "\<forall>s\<in>set xs. proper_seg s \<Longrightarrow> node_path (path_of xs)"
  by (cases "xs = []") (simp_all add: node_path_def nice_path_def path_of_def Split_rel list_all_iff)

lemma path_Dir_segs:
  assumes "nice_path p"
  shows "path_Dir p = path_of (butlast (segs_of p))"
proof -
  have np: "node_path p" and "p \<noteq> ''.''" using assms by (auto simp: node_path_def)
  then obtain xs x where xs: "segs_of p = xs @ [x]" by (metis rev_exhaust segs_Nil_iff(1))
  moreover have "p = rel_path (xs @ [x])" using path_of_segs[of p] xs by (simp add: path_of_def)
  ultimately show ?thesis using path_Dir_rel[of xs x] segs_proper[OF np] by (simp add: path_of_def)
qed

lemma segs_Dir:
  assumes "nice_path p"
  shows "segs_of (path_Dir p) = butlast (segs_of p)"
  unfolding path_Dir_segs[OF assms] using assms
  by (intro segs_of_path) (meson in_set_butlastD node_path_def segs_proper)

lemma length_segs: "length (segs_of p) \<le> length p + 1"
proof -
  have "length (Split c s) \<le> length s + 1" for c and s :: string
    by (induction s) (auto split: list.splits)
  then show ?thesis by (auto simp: segs_of_def)
qed

lemma path_Base_rel:
  assumes "proper_seg x"
  shows "path_Base (rel_path (xs @ [x])) = x"
proof (cases "xs = []")
  case True
  obtain y c where x: "x = y @ [c]" "c \<noteq> slash"
    using assms by (cases x rule: rev_cases) (auto simp: proper_seg_def)
  moreover have "slash \<notin> set x" "x \<noteq> []" using assms by (auto simp: proper_seg_def)
  moreover have "takeWhile (\<lambda>c. c \<noteq> slash) (rev y) = rev y"
    unfolding takeWhile_eq_all_conv using x assms by (auto simp: proper_seg_def)
  ultimately show ?thesis
    using True by (simp add: path_Base_def Let_def path_file_part_def del: takeWhile_eq_all_conv)
next
  case False
  then show ?thesis using path_Base_below[OF assms] by (simp add: Join_snoc)
qed

lemma cleanFSPath_node: "node_path p \<Longrightarrow> cleanFSPath p = p"
proof (cases "p = ''.''")
  case True
  then show ?thesis by (simp add: cleanFSPath_def path_Clean_def Let_def)
next
  case False
  assume n: "node_path p"
  have r: "p = rel_path (segs_of p)" "segs_of p \<noteq> []"
    using False path_of_segs[of p] by (auto simp: path_of_def split: if_splits)
  then have "path_Clean p = p" using path_Clean_rel[OF segs_proper[OF n]] by metis
  moreover have "p \<noteq> ''/''" using r rel_path_head[OF segs_proper[OF n]] by (metis list.inject)
  ultimately show ?thesis by (simp add: cleanFSPath_def)
qed

lemma path_Join_child:
  assumes "nice_path p"
  shows "path_Join [path_Dir p, path_Base p] = p"
proof -
  have np: "node_path p" and "p \<noteq> ''.''" using assms by (auto simp: node_path_def)
  then obtain xs x where xs: "segs_of p = xs @ [x]" by (metis rev_exhaust segs_Nil_iff(1))
  have pr: "\<forall>s\<in>set (xs @ [x]). proper_seg s" using segs_proper[OF np] xs by simp
  have p: "p = rel_path (xs @ [x])" using path_of_segs[of p] xs by (simp add: path_of_def)
  have b: "path_Base p = x" using path_Base_rel p pr by simp
  have "path_Join [path_Dir p, x] = p"
  proof (cases "xs = []")
    case True
    have "clean_segs False [] (Split slash (CHR ''.'' # slash # x)) = [x]"
      using pr True Split_append_sep[of slash "''.''" x] by (auto simp: proper_seg_def Split_free)
    then show ?thesis
      using True p path_Dir_rel[OF pr] pr
      by (auto simp: path_Join_def proper_seg_def path_Clean_def Let_def)
  next
    case False
    then have "rel_path xs \<noteq> []" using rel_path_head[of xs] pr by (metis Un_iff list.simps(3) set_append)
    then have "path_Join [path_Dir p, x] = path_Clean (rel_path xs @ slash # x)"
      using False p path_Dir_rel[OF pr] pr by (auto simp: path_Join_def proper_seg_def)
    also have "\<dots> = p" using path_Clean_rel[OF pr] False p by (simp add: Join_snoc)
    finally show ?thesis .
  qed
  then show ?thesis using b by simp
qed

section \<open>The tree of a package directory\<close>

text \<open>Every path but the root is made of ordinary segments and lies in a directory of the tree.\<close>

definition tree_ok :: "base_fs \<Rightarrow> bool" where
  "tree_ok base =
     (gomap_ok base \<and> map_of base ''.'' = Some DirNode \<and>
      list_all (\<lambda>(p, n). p = ''.'' \<or> nice_path p \<and> map_of base (path_Dir p) = Some DirNode) base)"

lemma tree_node:
  assumes "tree_ok base" "map_of base p = Some n" "p \<noteq> ''.''"
  shows "nice_path p" "map_of base (path_Dir p) = Some DirNode"
  using assms map_of_SomeD[OF assms(2)] by (auto simp: tree_ok_def list_all_iff)

lemma tree_node_path: "tree_ok base \<Longrightarrow> map_of base p = Some n \<Longrightarrow> node_path p"
  using tree_node(1) node_path_def by blast

text \<open>What holds of a node and passes from a node to its parent holds of every ancestor.\<close>

lemma prefix_butlast: "prefix xs ys \<Longrightarrow> xs \<noteq> ys \<Longrightarrow> prefix xs (butlast ys)"
  by (auto simp: prefix_def butlast_append)

lemma ancestor_induct:
  assumes up: "\<And>q. P q \<Longrightarrow> q \<noteq> ''.'' \<Longrightarrow> nice_path q \<and> P (path_Dir q)"
    and "P q" "prefix xs (segs_of q)"
  shows "P (path_of xs)"
  using assms(2,3)
proof (induction "length (segs_of q)" arbitrary: q rule: less_induct)
  case less
  show ?case
  proof (cases "xs = segs_of q")
    case False
    then have "q \<noteq> ''.''" using less.prems(2) by auto
    then have q: "nice_path q" "P (path_Dir q)" using up less.prems(1) by auto
    have "prefix xs (segs_of (path_Dir q))"
      using prefix_butlast[OF less.prems(2) False] by (simp add: segs_Dir[OF q(1)])
    moreover have "length (segs_of (path_Dir q)) < length (segs_of q)"
      using \<open>q \<noteq> ''.''\<close> by (simp add: segs_Dir[OF q(1)])
    ultimately show ?thesis using less.hyps q(2) by blast
  qed (simp add: less.prems(1))
qed

lemma tree_ancestor:
  assumes "tree_ok base" "map_of base q = Some n" "strict_prefix xs (segs_of q)"
  shows "map_of base (path_of xs) = Some DirNode"
proof -
  have ne: "q \<noteq> ''.''" using assms(3) by auto
  then have q: "nice_path q" "map_of base (path_Dir q) = Some DirNode" using tree_node[OF assms(1,2)] by auto
  have "prefix xs (segs_of (path_Dir q))"
    using assms(3) prefix_butlast[of xs "segs_of q"] by (simp add: segs_Dir[OF q(1)] strict_prefix_def)
  then show ?thesis
    using ancestor_induct[of "\<lambda>p. map_of base p = Some DirNode"] q(2) tree_node[OF assms(1)] by blast
qed

section \<open>What the restricted file system lists\<close>

text \<open>Declared directories are those on the way to declared files, and no declared file is a
  directory outside them.\<close>

definition view_ok :: "sourceFS \<Rightarrow> bool" where
  "view_ok f =
     (tree_ok (sf_base f) \<and> ''.'' \<in> set (sf_dirs f) \<and>
      list_all (\<lambda>q. q = ''.'' \<or> nice_path q \<and> path_Dir q \<in> set (sf_dirs f)) (sf_files f @ sf_dirs f) \<and>
      list_all (\<lambda>q. map_of (sf_base f) q = Some DirNode \<longrightarrow> q \<in> set (sf_dirs f)) (sf_files f))"

abbreviation exposed :: "sourceFS \<Rightarrow> string \<Rightarrow> bool" where
  "exposed f q \<equiv> q \<in> set (sf_files f) \<or> q \<in> set (sf_dirs f)"

lemma exposed_ancestor:
  assumes "view_ok f" "exposed f q" "prefix xs (segs_of q)"
  shows "exposed f (path_of xs)"
  by (rule ancestor_induct[of "exposed f", OF _ assms(2,3)])
    (use assms(1) in \<open>auto simp: view_ok_def list_all_iff\<close>)

definition children :: "base_fs \<Rightarrow> string \<Rightarrow> string list" where
  "children base d = [p. (p, n) \<leftarrow> base, p \<noteq> ''.'', path_Dir p = d]"

lemma set_children:
  "gomap_ok base \<Longrightarrow> set (children base d) = {p. p \<noteq> ''.'' \<and> path_Dir p = d \<and> map_of base p \<noteq> None}"
  by (force simp: children_def gomap_in_set_iff)

lemma children_names: "[path_Base p. (p, n) \<leftarrow> base, p \<noteq> ''.'', path_Dir p = d] = map path_Base (children base d)"
  by (induction base) (auto simp: children_def)

lemma distinct_children: "gomap_ok base \<Longrightarrow> distinct (children base d)"
  by (induction base) (force simp: children_def gomap_ok_def)+

lemma ReadDir_names:
  assumes "view_ok f" "d \<in> set (sf_dirs f)" "map_of (sf_base f) d = Some DirNode"
  obtains names where "sourceFS_ReadDir f d = Some names" "distinct names"
    "(\<lambda>name. path_Join [d, name]) ` set names = {p \<in> set (children (sf_base f) d). exposed f p}"
    "inj_on (\<lambda>name. path_Join [d, name]) (set names)"
proof -
  let ?b = "sf_base f" and ?join = "\<lambda>name. path_Join [d, name]"
  have t: "tree_ok ?b" "gomap_ok ?b" using assms(1) by (auto simp: view_ok_def tree_ok_def)
  have clean: "cleanFSPath d = d" using cleanFSPath_node[OF tree_node_path[OF t(1) assms(3)]] .
  have rejoin: "?join (path_Base p) = p" "cleanFSPath p = p" if "p \<in> set (children ?b d)" for p
    using that path_Join_child[of p] tree_node(1)[OF t(1)] cleanFSPath_node[OF tree_node_path[OF t(1)]]
    by (auto simp: set_children[OF t(2)])
  define ok where "ok = (\<lambda>entry. exposed f (cleanFSPath (?join entry)))"
  let ?names = "filter ok (sort_strings (map path_Base (children ?b d)))"
  let ?C = "{p \<in> set (children ?b d). exposed f p}"
  have R: "sourceFS_ReadDir f d = Some ?names"
    using assms clean by (simp add: sourceFS_ReadDir_def base_ReadDir_def Let_def ok_def children_names)
  have inj: "inj_on path_Base (set (children ?b d))"
    using rejoin by (intro inj_on_inverseI[where g = ?join]) auto
  have D: "distinct ?names"
    using inj distinct_children[OF t(2)] by (simp add: sort_strings_eq distinct_map)
  have S: "set ?names = path_Base ` ?C" using rejoin by (auto simp: ok_def)
  have "?join ` set ?names = ?C" unfolding S image_image using rejoin by force
  moreover have "inj_on ?join (set ?names)"
    unfolding S using rejoin by (auto intro!: inj_onI)
  ultimately show ?thesis using that[of ?names] R D by blast
qed

end
