(* ===== verification/Archive_Props.thy ===== *)
theory Archive_Props
  imports Archive Package_Tree
begin

text \<open>
  Archives: the walk over a package visits exactly the exposed nodes and has enough fuel, packing
  and loading are inverse, and what is altered in between is refused.
\<close>

section \<open>The walk\<close>

lemma collect_concat:
  "\<forall>x\<in>set xs. g x = Some (Inr (h x)) \<Longrightarrow> collect g xs = Some (Inr (concat (map h xs)))"
  by (induction xs) auto

lemma distinct_concat_map:
  assumes "distinct xs" "\<And>x. x \<in> set xs \<Longrightarrow> distinct (F x)"
    "\<And>x y. x \<in> set xs \<Longrightarrow> y \<in> set xs \<Longrightarrow> x \<noteq> y \<Longrightarrow> set (F x) \<inter> set (F y) = {}"
  shows "distinct (concat (map F xs))"
  using assms
proof (induction xs)
  case (Cons x xs)
  have "distinct (concat (map F xs))" using Cons by (intro Cons.IH) auto
  moreover have "set (F x) \<inter> set (F y) = {}" if "y \<in> set xs" for y
    using that Cons.prems(1) by (intro Cons.prems(3)) auto
  ultimately show ?case using Cons.prems(2) by auto
qed simp

text \<open>The exposed nodes at or below a path.\<close>

definition nodes_at :: "sourceFS \<Rightarrow> string list \<Rightarrow> (string \<times> fs_node) set" where
  "nodes_at f xs = {(q, n). map_of (sf_base f) q = Some n \<and> prefix xs (segs_of q) \<and> exposed f q}"

lemma file_nodes_at:
  assumes "tree_ok (sf_base f)" "map_of (sf_base f) p = Some (FileNode b)" "exposed f p"
  shows "nodes_at f (segs_of p) = {(p, FileNode b)}"
proof -
  have "q = p" if "map_of (sf_base f) q = Some n" "prefix (segs_of p) (segs_of q)" for q n
  proof (rule ccontr)
    assume "q \<noteq> p"
    then have "strict_prefix (segs_of p) (segs_of q)" using that(2) segs_inj by (auto simp: strict_prefix_def)
    from tree_ancestor[OF assms(1) that(1) this] show False using assms(2) by simp
  qed
  then show ?thesis using assms by (fastforce simp: nodes_at_def)
qed

lemma dir_nodes_at:
  assumes "map_of (sf_base f) p = Some DirNode" "exposed f p"
  shows "nodes_at f (segs_of p) =
    insert (p, DirNode) {(q, n). map_of (sf_base f) q = Some n \<and> strict_prefix (segs_of p) (segs_of q) \<and> exposed f q}"
  using assms by (auto simp: nodes_at_def strict_prefix_def segs_inj)

text \<open>The nodes strictly below a directory are those at its exposed children.\<close>

lemma nodes_below:
  assumes v: "view_ok f" and d: "map_of (sf_base f) dir = Some DirNode"
  shows "{(q, n). map_of (sf_base f) q = Some n \<and> strict_prefix (segs_of dir) (segs_of q) \<and> exposed f q} =
    (\<Union>p\<in>{p \<in> set (children (sf_base f) dir). exposed f p}. nodes_at f (segs_of p))"
proof -
  have t: "tree_ok (sf_base f)" "gomap_ok (sf_base f)" using v by (auto simp: view_ok_def tree_ok_def)
  have up: "segs_of p = segs_of dir @ [last (segs_of p)]" if "p \<in> set (children (sf_base f) dir)" for p
  proof -
    have "nice_path p" "path_Dir p = dir" "p \<noteq> ''.''" using that tree_node(1)[OF t(1)] by (auto simp: set_children[OF t(2)])
    then show ?thesis using segs_Dir[of p] append_butlast_last_id[of "segs_of p"] by simp
  qed
  have "\<exists>p\<in>set (children (sf_base f) dir). exposed f p \<and> prefix (segs_of p) (segs_of q)"
    if q: "map_of (sf_base f) q = Some n" "strict_prefix (segs_of dir) (segs_of q)" "exposed f q" for q n
  proof -
    obtain x zs where x: "segs_of q = (segs_of dir @ [x]) @ zs"
      using q(2) by (auto simp: strict_prefix_def prefix_def neq_Nil_conv)
    let ?xs = "segs_of dir @ [x]"
    have pr: "\<forall>s\<in>set ?xs. proper_seg s" using segs_proper[OF tree_node_path[OF t(1) q(1)]] x by auto
    note p = segs_of_path[OF pr] node_path_of[OF pr]
    have "nice_path (path_of ?xs)" using p by (auto simp: node_path_def)
    moreover from this have "path_Dir (path_of ?xs) = dir" by (simp add: path_Dir_segs p(1))
    moreover have "map_of (sf_base f) (path_of ?xs) \<noteq> None"
      using q(1) x tree_ancestor[OF t(1) q(1), of ?xs] path_of_segs[of q] by (cases zs) (auto simp: strict_prefix_def)
    moreover have "exposed f (path_of ?xs)" using exposed_ancestor[OF v q(3), of ?xs] x by auto
    moreover have "prefix (segs_of (path_of ?xs)) (segs_of q)" unfolding p(1) x by simp
    ultimately show ?thesis by (intro bexI[of _ "path_of ?xs"]) (auto simp: set_children[OF t(2)])
  qed
  moreover have "strict_prefix (segs_of dir) (segs_of q)"
    if "p \<in> set (children (sf_base f) dir)" "prefix (segs_of p) (segs_of q)" for p q
    using that(2) up[OF that(1)] by (metis prefix_order.less_le_trans strict_prefixI')
  ultimately show ?thesis by (fastforce simp: nodes_at_def)
qed

lemma child_depth:
  assumes "tree_ok m" "gomap_ok m" "p \<in> set (children m dir)"
  shows "length (segs_of p) = Suc (length (segs_of dir))"
proof -
  have p: "nice_path p" "path_Dir p = dir" "p \<noteq> ''.''"
    using assms(3) tree_node(1)[OF assms(1)] by (auto simp: set_children[OF assms(2)])
  then show ?thesis using segs_Dir[of p] by (cases "segs_of p") auto
qed

text \<open>One entry of a directory, given that the walk of a subdirectory is exact, contributes the nodes at and below it.\<close>

lemma walk_entry_exact:
  assumes v: "view_ok f" and p: "p \<in> set (children (sf_base f) dir)" "exposed f p"
    and walk_sub: "\<And>d. d = p \<Longrightarrow> d \<in> set (sf_dirs f) \<Longrightarrow> map_of (sf_base f) d = Some DirNode \<Longrightarrow>
      \<exists>ys. walk_sub d = Some (Inr ys) \<and> distinct (map fst ys) \<and>
        set ys = {(q, m). map_of (sf_base f) q = Some m \<and> strict_prefix (segs_of d) (segs_of q) \<and> exposed f q}"
  shows "\<exists>ys. walk_entry walk_sub f p = Some (Inr ys) \<and> distinct (map fst ys) \<and> set ys = nodes_at f (segs_of p)"
proof -
  have t: "tree_ok (sf_base f)" "gomap_ok (sf_base f)" using v by (auto simp: view_ok_def tree_ok_def)
  obtain m where m: "map_of (sf_base f) p = Some m" using p(1) by (auto simp: set_children[OF t(2)])
  show ?thesis
  proof (cases m)
    case (FileNode b)
    have "sourceFS_Open f p = Some (FileNode b)"
      using p(2) m FileNode cleanFSPath_node[OF tree_node_path[OF t(1) m]] by (auto simp: sourceFS_Open_def)
    then show ?thesis using m FileNode file_nodes_at[OF t(1) _ p(2)] by (simp add: walk_entry_def)
  next
    case DirNode
    have d: "p \<in> set (sf_dirs f)" using p(2) v m DirNode by (auto simp: view_ok_def list_all_iff)
    obtain ys where ys: "walk_sub p = Some (Inr ys)" "distinct (map fst ys)"
      "set ys = {(q, m). map_of (sf_base f) q = Some m \<and> strict_prefix (segs_of p) (segs_of q) \<and> exposed f q}"
      using walk_sub[OF refl d] m DirNode by auto
    then show ?thesis using m DirNode dir_nodes_at[OF _ p(2)] by (auto simp: walk_entry_def)
  qed
qed

lemma walk_tree_exact:
  assumes v: "view_ok f" and "dir \<in> set (sf_dirs f)" "map_of (sf_base f) dir = Some DirNode"
    and "\<forall>q\<in>dom (map_of (sf_base f)). length (segs_of q) < n + length (segs_of dir)"
  shows "\<exists>nodes. walk_tree n f dir = Some (Inr nodes) \<and> distinct (map fst nodes) \<and>
    set nodes = {(q, m). map_of (sf_base f) q = Some m \<and> strict_prefix (segs_of dir) (segs_of q) \<and> exposed f q}"
  using assms(2-4)
proof (induction n arbitrary: dir)
  case 0
  then show ?case by (auto simp: dom_def)
next
  case (Suc n)
  have t: "tree_ok (sf_base f)" "gomap_ok (sf_base f)" using v by (auto simp: view_ok_def tree_ok_def)
  obtain names where names: "sourceFS_ReadDir f dir = Some names" "distinct names"
    "(\<lambda>name. path_Join [dir, name]) ` set names = {p \<in> set (children (sf_base f) dir). exposed f p}"
    "inj_on (\<lambda>name. path_Join [dir, name]) (set names)"
    by (rule ReadDir_names[OF v Suc.prems(1,2)])
  let ?join = "\<lambda>name. path_Join [dir, name]"
  note child = child_depth[OF t]
  have entry: "\<exists>ys. walk_entry (walk_tree n f) f p = Some (Inr ys) \<and> distinct (map fst ys) \<and> set ys = nodes_at f (segs_of p)"
    if p: "p \<in> set (children (sf_base f) dir)" "exposed f p" for p
    by (rule walk_entry_exact[OF v p]) (use Suc.IH[of p] Suc.prems(3) child[OF p(1)] in auto)
  let ?g = "\<lambda>name. walk_entry (walk_tree n f) f (?join name)"
  define h where "h = (\<lambda>name. projr (the (?g name)))"
  have h: "?g name = Some (Inr (h name))" "distinct (map fst (h name))" "set (h name) = nodes_at f (segs_of (?join name))"
    if "name \<in> set names" for name
  proof -
    have "?join name \<in> {p \<in> set (children (sf_base f) dir). exposed f p}" using names(3) that by blast
    then obtain ys where "?g name = Some (Inr ys)" "distinct (map fst ys)" "set ys = nodes_at f (segs_of (?join name))"
      using entry by blast
    then show "?g name = Some (Inr (h name))" "distinct (map fst (h name))"
      "set (h name) = nodes_at f (segs_of (?join name))" by (simp_all add: h_def)
  qed
  have "walk_tree (Suc n) f dir = Some (Inr (concat (map h names)))"
    using names(1) collect_concat[of names ?g h] h(1) by simp
  moreover have "set (concat (map h names)) =
      {(q, m). map_of (sf_base f) q = Some m \<and> strict_prefix (segs_of dir) (segs_of q) \<and> exposed f q}"
    unfolding nodes_below[OF v Suc.prems(2)] names(3)[symmetric] using h(3) by auto
  moreover have "distinct (concat (map (\<lambda>name. map fst (h name)) names))"
  proof (rule distinct_concat_map[OF names(2) h(2)])
    fix x y assume xy: "x \<in> set names" "y \<in> set names" "x \<noteq> y"
    then have ne: "segs_of (?join x) \<noteq> segs_of (?join y)"
      using names(4) by (auto simp: segs_inj inj_on_def)
    have "length (segs_of (?join x)) = length (segs_of (?join y))"
      using xy(1,2) names(3) child by (metis (mono_tags, lifting) image_eqI mem_Collect_eq)
    then have "\<not> (prefix (segs_of (?join x)) zs \<and> prefix (segs_of (?join y)) zs)" for zs
      using ne by (metis prefix_length_prefix prefix_order.antisym order_refl)
    then show "set (map fst (h x)) \<inter> set (map fst (h y)) = {}"
      using h(3)[OF xy(1)] h(3)[OF xy(2)] by (auto simp: nodes_at_def)
  qed
  ultimately show ?case by (auto simp: map_concat comp_def)
qed

lemma fold_max_ge: "(a :: nat) \<le> fold max xs a \<and> (\<forall>x\<in>set xs. x \<le> fold max xs a)"
proof (induction xs arbitrary: a)
  case (Cons y ys)
  from Cons[of "max y a"] show ?case by auto
qed simp

text \<open>The walk of a package ends, without an error, after visiting each exposed node of the tree once.\<close>

lemma walk_exact:
  assumes "view_ok f"
  obtains nodes where "walk f = Some (Inr nodes)" "gomap_ok nodes"
    "\<And>p. map_of nodes p = (if p \<noteq> ''.'' \<and> exposed f p then map_of (sf_base f) p else None)"
proof -
  have r: "''.'' \<in> set (sf_dirs f)" "map_of (sf_base f) ''.'' = Some DirNode"
    using assms by (auto simp: view_ok_def tree_ok_def)
  have "length (segs_of q) < walk_fuel f + length (segs_of ''.'')" if "q \<in> dom (map_of (sf_base f))" for q
  proof -
    have "length q + 2 \<in> set (map (\<lambda>(p, _). length p + 2) (sf_base f))"
      using that map_of_SomeD[of "sf_base f" q] by force
    then have "length q + 2 \<le> walk_fuel f" using fold_max_ge unfolding walk_fuel_def by blast
    then show ?thesis using length_segs[of q] by simp
  qed
  then obtain nodes where n: "walk_tree (walk_fuel f) f ''.'' = Some (Inr nodes)" "gomap_ok nodes"
    "set nodes = {(q, m). map_of (sf_base f) q = Some m \<and> strict_prefix (segs_of ''.'') (segs_of q) \<and> exposed f q}"
    using walk_tree_exact[OF assms r, of "walk_fuel f"] by (auto simp: gomap_ok_def)
  have "sourceFS_Stat f ''.'' = Some DirNode"
    using r cleanFSPath_node[of "''.''"] by (auto simp: sourceFS_Stat_def Let_def)
  then have w: "walk f = Some (Inr nodes)" using n(1) by (simp add: walk_def)
  have "map_of nodes p = (if p \<noteq> ''.'' \<and> exposed f p then map_of (sf_base f) p else None)" for p
  proof -
    have "map_of nodes p = Some m \<longleftrightarrow> map_of (sf_base f) p = Some m \<and> p \<noteq> ''.'' \<and> exposed f p" for m
      using n(3) unfolding gomap_in_set_iff[OF n(2), symmetric]
      by (auto simp: strict_prefix_def)
    then show ?thesis by (metis not_None_eq)
  qed
  then show ?thesis using that w n(2) by blast
qed

section \<open>Extraction returns on relative paths\<close>

lemma nice_path_trim: "nice_path p \<Longrightarrow> TrimPrefix p ''./'' = p"
proof -
  assume n: "nice_path p"
  have "\<not> HasPrefix p ''./''"
  proof
    assume "HasPrefix p ''./''"
    then obtain r where "p = ''.'' @ slash # r" by (auto simp: HasPrefix_iff)
    then have "Split slash p = ''.'' # Split slash r" using Split_append_sep[of slash "''.''" r] by simp
    then show False using n by (simp add: nice_path_def proper_seg_def)
  qed
  then show ?thesis by (simp add: TrimPrefix_def)
qed

lemma parent_dirs_rel:
  assumes "\<forall>s\<in>set xs. proper_seg s"
  shows "\<exists>dirs'. parent_dirs (if xs = [] then ''.'' else rel_path xs) dirs = Some dirs'"
  using assms
proof (induction xs arbitrary: dirs rule: rev_induct)
  case Nil
  show ?case by (subst parent_dirs.simps) simp
next
  case (snoc x xs)
  have "rel_path (xs @ [x]) \<noteq> ''.''" using rel_path_not_dot[of "xs @ [x]"] snoc.prems by simp
  then have "parent_dirs (rel_path (xs @ [x])) dirs =
      parent_dirs (if xs = [] then ''.'' else rel_path xs) (rel_path (xs @ [x]) # dirs)"
    using path_Dir_rel[OF snoc.prems] by (subst parent_dirs.simps) simp
  then show ?case using snoc.IH[of "rel_path (xs @ [x]) # dirs"] snoc.prems by simp
qed

lemma parent_dirs_nice: "nice_path p \<Longrightarrow> \<exists>dirs'. parent_dirs (path_Dir p) dirs = Some dirs'"
proof -
  assume "nice_path p"
  then obtain xs x where p: "p = rel_path (xs @ [x])" "\<forall>s\<in>set (xs @ [x]). proper_seg s" by (metis nice_path_rel)
  then show ?thesis using parent_dirs_rel[of xs dirs] path_Dir_rel[OF p(2)] by simp
qed

definition put_node :: "string \<times> fs_node \<Rightarrow> (string, bytes) gomap \<Rightarrow> (string, bytes) gomap" where
  "put_node = (\<lambda>(p, n) m. case n of FileNode b \<Rightarrow> AList.update p b m | DirNode \<Rightarrow> m)"

lemma extract_nodes:
  assumes "\<forall>(p, n)\<in>set nodes. nice_path p \<and> p \<noteq> PkgManifestFilename"
  shows "\<exists>dirs'. extract_loop decode (map tar_node nodes @ es) fs pkg =
    extract_loop decode es \<lparr>am_files = fold put_node nodes (am_files fs), am_dirs = dirs'\<rparr> pkg"
  using assms
proof (induction nodes arbitrary: fs)
  case Nil
  show ?case by (rule exI[of _ "am_dirs fs"], cases fs) simp
next
  case (Cons pn nodes)
  obtain p n where pn: "pn = (p, n)" by (cases pn)
  have p: "nice_path p" "p \<noteq> PkgManifestFilename" using Cons.prems pn by auto
  have IH: "\<exists>dirs'. extract_loop decode (map tar_node nodes @ es) fs' pkg =
      extract_loop decode es \<lparr>am_files = fold put_node nodes (am_files fs'), am_dirs = dirs'\<rparr> pkg" for fs'
    using Cons by simp
  show ?case
  proof (cases n)
    case (FileNode b)
    obtain d where "parent_dirs (path_Dir p) (am_dirs fs) = Some d" using parent_dirs_nice[OF p(1)] by blast
    then show ?thesis
      using IH[of "fs\<lparr>am_files := AList.update p b (am_files fs), am_dirs := d\<rparr>"] p nice_path_trim[OF p(1)] pn FileNode
      by (simp add: tar_node_def put_node_def Let_def)
  next
    case DirNode
    then show ?thesis
      using IH[of "fs\<lparr>am_dirs := TrimSuffix (TrimPrefix p ''./'') ''/'' # am_dirs fs\<rparr>"] pn
      by (simp add: tar_node_def put_node_def)
  qed
qed

lemma put_nodes_lookup:
  assumes "gomap_ok nodes"
  shows "map_of (fold put_node nodes m) p =
    (case map_of nodes p of Some (FileNode b) \<Rightarrow> Some b | _ \<Rightarrow> map_of m p)"
  using assms
proof (induction nodes arbitrary: m)
  case (Cons pn nodes)
  obtain q n where pn: "pn = (q, n)" by (cases pn)
  have "map_of nodes q = None" "gomap_ok nodes"
    using Cons.prems pn by (auto simp: gomap_ok_def map_of_eq_None_iff)
  then show ?case
    using Cons.IH[of "put_node pn m"] pn by (auto simp: put_node_def split: option.splits fs_node.splits)
qed simp

lemma extract_packed:
  assumes "\<forall>(p, n)\<in>set nodes. nice_path p \<and> p \<noteq> PkgManifestFilename" "gomap_ok nodes"
    "co_untar co (co_tar co (pack_entries co pkg nodes)) = Inr (pack_entries co pkg nodes)"
    "co_decode co (co_encode co (pkg\<lparr>pk_SHA256 := []\<rparr>)) = Inr p'"
  shows "\<exists>fs. extractArchive co (co_tar co (pack_entries co pkg nodes)) = Some (Inr (fs, p')) \<and>
    (\<forall>p. p \<noteq> PkgManifestFilename \<longrightarrow>
       map_of (am_files fs) p = (case map_of nodes p of Some (FileNode b) \<Rightarrow> Some b | _ \<Rightarrow> None))"
proof -
  let ?int = "co_encode co (pkg\<lparr>pk_SHA256 := []\<rparr>)"
  obtain dirs where L: "extract_loop (co_decode co) (map tar_node nodes @ [TarReg PkgManifestFilename ?int])
      \<lparr>am_files = [], am_dirs = [''.'']\<rparr> None =
    extract_loop (co_decode co) [TarReg PkgManifestFilename ?int]
      \<lparr>am_files = fold put_node nodes [], am_dirs = dirs\<rparr> None"
    using extract_nodes[OF assms(1), of "co_decode co" "[TarReg PkgManifestFilename ?int]"
        "\<lparr>am_files = [], am_dirs = [''.'']\<rparr>" None] by auto
  have man: "nice_path PkgManifestFilename" by code_simp
  obtain dirs' where d: "parent_dirs (path_Dir PkgManifestFilename) dirs = Some dirs'"
    using parent_dirs_nice[OF man] by blast
  let ?fs = "\<lparr>am_files = AList.update PkgManifestFilename ?int (fold put_node nodes []), am_dirs = dirs'\<rparr>"
  have "extractArchive co (co_tar co (pack_entries co pkg nodes)) = Some (Inr (?fs, p'))"
    using assms(3,4) L d nice_path_trim[OF man] by (simp add: extractArchive_def Let_def pack_entries_def)
  moreover have "map_of (am_files ?fs) p = (case map_of nodes p of Some (FileNode b) \<Rightarrow> Some b | _ \<Rightarrow> None)"
    if "p \<noteq> PkgManifestFilename" for p
    using that put_nodes_lookup[OF assms(2), of "[]" p] by (simp split: option.splits fs_node.splits)
  ultimately show ?thesis by blast
qed

lemma extract_loop_errors: "extract_loop decode es fs pkg = Some (Inl e) \<Longrightarrow> \<exists>s. e = ParseInternal s"
  by (induction decode es fs pkg rule: extract_loop.induct) (auto simp: Let_def split: option.splits if_splits sum.splits)

section \<open>Packing a declared package\<close>

text \<open>What the code relies on of its libraries, for the entries and the package at hand: the archive
  format and the JSON form of a package are faithful (a signature is not part of the JSON, white
  space at the end is ignored), and a hash is not empty.\<close>

definition strip_sigs :: "'sig Package \<Rightarrow> 'sig Package" where
  "strip_sigs pkg = pkg\<lparr>pk_Tools := map (\<lambda>t. t\<lparr>pt_Sig := None\<rparr>) (pk_Tools pkg)\<rparr>"

definition codec_faithful :: "'sig codec \<Rightarrow> tar_entry list \<Rightarrow> 'sig Package \<Rightarrow> bool" where
  "codec_faithful co es pkg =
     (co_untar co (co_tar co es) = Inr es \<and> co_sha co (co_tar co es) \<noteq> [] \<and>
      (\<forall>s\<in>set [[], co_sha co (co_tar co es)]. let p = pkg\<lparr>pk_SHA256 := s\<rparr> in
         co_encode co (strip_sigs p) = co_encode co p \<and>
         (\<forall>space\<in>set [[], newline]. co_decode co (co_encode co p @ space) = Inr (strip_sigs p))))"

lemma codec_faithfulD:
  assumes "codec_faithful co es pkg" "s = [] \<or> s = co_sha co (co_tar co es)"
  shows "co_untar co (co_tar co es) = Inr es" "co_sha co (co_tar co es) \<noteq> []"
    "co_encode co (strip_sigs (pkg\<lparr>pk_SHA256 := s\<rparr>)) = co_encode co (pkg\<lparr>pk_SHA256 := s\<rparr>)"
    "co_decode co (co_encode co (pkg\<lparr>pk_SHA256 := s\<rparr>)) = Inr (strip_sigs (pkg\<lparr>pk_SHA256 := s\<rparr>))"
    "co_decode co (co_encode co (pkg\<lparr>pk_SHA256 := s\<rparr>) @ newline) = Inr (strip_sigs (pkg\<lparr>pk_SHA256 := s\<rparr>))"
  using assms unfolding codec_faithful_def Let_def by auto

lemma strip_sigs_sha: "(strip_sigs pkg)\<lparr>pk_SHA256 := s\<rparr> = strip_sigs (pkg\<lparr>pk_SHA256 := s\<rparr>)"
  by (simp add: strip_sigs_def)

lemma pk_SHA256_strip: "pk_SHA256 (strip_sigs pkg) = pk_SHA256 pkg"
  by (simp add: strip_sigs_def)

lemma ValidateCompiled_strip: "ValidateCompiled (strip_sigs (pkg\<lparr>pk_SHA256 := s\<rparr>)) mode = ValidateCompiled pkg mode"
proof -
  have "schema_tool b (t\<lparr>pt_Sig := None\<rparr>) = schema_tool b t" for b and t :: "'a PackageTool"
    by (simp add: schema_tool_def tool_keys_def)
  then have "schema_package b (strip_sigs (pkg\<lparr>pk_SHA256 := s\<rparr>)) = schema_package b pkg" for b
    by (simp add: schema_package_def strip_sigs_def)
  then show ?thesis by (simp add: ValidateCompiled_def)
qed

text \<open>The declared files of a package: ordinary relative paths, outside the place of the internal
  manifest, that are not directories.\<close>

definition declared_ok :: "base_fs \<Rightarrow> string list \<Rightarrow> bool" where
  "declared_ok base files =
     list_all (\<lambda>q. nice_path q \<and> hd (Split slash q) \<noteq> PkgManifestFilename \<and> map_of base q \<noteq> Some DirNode) files"

lemma parents_prefix:
  assumes "nice_path p" "q \<in> parents p"
  shows "nice_path q" "hd (Split slash q) = hd (Split slash p)" "path_Dir q = ''.'' \<or> path_Dir q \<in> parents p"
proof -
  obtain i where i: "1 \<le> i" "i < length (Split slash p)" "q = rel_path (take i (Split slash p))"
    using assms(2) by (auto simp: parents_def)
  have pr: "\<forall>s\<in>set (take i (Split slash p)). proper_seg s" "take i (Split slash p) \<noteq> []"
    using assms(1) i by (auto simp: nice_path_def list_all_iff dest: in_set_takeD)
  then have q: "Split slash q = take i (Split slash p)" using i(3) Split_rel by auto
  then show n: "nice_path q" using pr by (auto simp: nice_path_def list_all_iff)
  show "hd (Split slash q) = hd (Split slash p)" using q i(1) by (cases "Split slash p") (auto simp: take_Cons')
  have "q \<noteq> ''.''" using n by auto
  then have "path_Dir q = path_of (take (i - 1) (Split slash p))"
    using path_Dir_segs[OF n] q i(2) by (simp add: segs_of_def butlast_take)
  moreover have "i = 1 \<or> i - 1 \<in> {1..<length (Split slash p)}" using i(1,2) by auto
  ultimately show "path_Dir q = ''.'' \<or> path_Dir q \<in> parents p"
    unfolding parents_def by (auto simp: path_of_def)
qed

lemma path_Dir_parents: "nice_path p \<Longrightarrow> path_Dir p = ''.'' \<or> path_Dir p \<in> parents p"
proof -
  assume n: "nice_path p"
  then have "p \<noteq> ''.''" by auto
  then have d: "path_Dir p = path_of (butlast (Split slash p))" using path_Dir_segs[OF n] by (simp add: segs_of_def)
  show ?thesis
  proof (cases "butlast (Split slash p) = []")
    case False
    then have "path_Dir p = rel_path (take (length (Split slash p) - 1) (Split slash p))"
      using d by (simp add: path_of_def butlast_conv_take)
    moreover have "length (Split slash p) - 1 \<in> {1..<length (Split slash p)}"
      using False by (cases "Split slash p") (auto simp: Suc_le_eq split: if_splits)
    ultimately show ?thesis unfolding parents_def by blast
  qed (simp add: d)
qed

lemma declared_view:
  assumes "tree_ok base" "declared_ok base (allowedTypeScriptFiles glob pkg)" "NewSourceFS glob base pkg = Some f"
  shows "view_ok f" "\<not> exposed f PkgManifestFilename" "sf_base f = base"
proof -
  let ?files = "allowedTypeScriptFiles glob pkg"
  have ok: "nice_path q" "hd (Split slash q) \<noteq> PkgManifestFilename" "map_of base q \<noteq> Some DirNode" if "q \<in> set ?files" for q
    using that assms(2) by (auto simp: declared_ok_def list_all_iff)
  then have "list_all nice_path ?files" by (simp add: list_all_iff)
  then have f: "sf_base f = base" "sf_files f = ?files" "set (sf_dirs f) = insert ''.'' (\<Union>p\<in>set ?files. parents p)"
    using NewSourceFS_nice[of glob pkg base] assms(3) by auto
  have cls: "q = ''.'' \<or> nice_path q \<and> path_Dir q \<in> set (sf_dirs f)" if "exposed f q" for q
  proof -
    have "q = ''.'' \<or> (\<exists>p\<in>set ?files. q = p \<or> q \<in> parents p)" using that unfolding f by auto
    then consider "q = ''.''" | p where "p \<in> set ?files" "q = p \<or> q \<in> parents p" by blast
    then show ?thesis
    proof cases
      case 2
      then have "nice_path q \<and> (path_Dir q = ''.'' \<or> path_Dir q \<in> parents p)"
        using ok(1)[OF 2(1)] parents_prefix(1,3)[of p q] path_Dir_parents[of p] by auto
      then show ?thesis using 2(1) unfolding f by auto
    qed simp
  qed
  then show "view_ok f" using assms(1) f ok(3) by (auto simp: view_ok_def list_all_iff)
  show "sf_base f = base" by (rule f)
  have man: "hd (Split slash PkgManifestFilename) = PkgManifestFilename" "PkgManifestFilename \<noteq> ''.''" by code_simp+
  have "hd (Split slash q) \<noteq> PkgManifestFilename" if "exposed f q" "q \<noteq> ''.''" for q
    using that ok(1,2) unfolding f by (auto, metis parents_prefix(2))
  then show "\<not> exposed f PkgManifestFilename" using man by blast
qed

lemma clean_segs_last:
  assumes "proper_seg x"
  shows "\<exists>ys. clean_segs r st (xs @ [x]) = ys @ [x]"
proof (induction r st xs rule: clean_segs.induct)
  case (1 r st)
  then show ?case using assms by (auto simp: proper_seg_def)
qed (auto split: list.splits)

lemma path_Clean_last:
  assumes "Split slash p = xs @ [x]" "proper_seg x"
  shows "path_Clean p = x \<or> (\<exists>d. path_Clean p = d @ slash # x)"
proof (cases p)
  case Nil
  then show ?thesis using assms by (simp add: proper_seg_def)
next
  case (Cons c r)
  show ?thesis
  proof (cases "c = slash")
    case True
    then have "[] # Split slash r = xs @ [x]" using assms(1) Cons Split_append_sep[of slash "[]" r] by simp
    then obtain xs' where "Split slash r = xs' @ [x]" by (cases xs) auto
    moreover obtain ys where "clean_segs True [] (xs' @ [x]) = ys @ [x]" using clean_segs_last[OF assms(2)] by blast
    ultimately have "path_Clean p = slash # Join [slash] (ys @ [x])"
      using Cons True by (simp add: path_Clean_rooted abs_path_def)
    then show ?thesis by (cases "ys = []") (auto simp: Join_snoc simp flip: append_Cons)
  next
    case False
    obtain ys where ys: "clean_segs False [] (xs @ [x]) = ys @ [x]" using clean_segs_last[OF assms(2)] by blast
    moreover have "Join [slash] (ys @ [x]) \<noteq> []" using assms(2) by (cases "ys = []") (auto simp: Join_snoc proper_seg_def)
    ultimately have "path_Clean p = Join [slash] (ys @ [x])" using Cons False assms(1) by (simp add: path_Clean_def Let_def)
    then show ?thesis by (cases "ys = []") (auto simp: Join_snoc)
  qed
qed

lemma path_Clean_ends: "Split slash p = xs @ [x] \<Longrightarrow> proper_seg x \<Longrightarrow> \<exists>ys. path_Clean p = ys @ x"
  using path_Clean_last[of p xs x] by (metis append.assoc append.left_neutral append_Cons)

lemma path_Base_seg: "proper_seg x \<Longrightarrow> path_Base x = x"
  using path_Base_below[of x "[]"] path_file_part_def[of x]
  by (cases "rev x") (auto simp: path_Base_def Let_def path_file_part_def proper_seg_def takeWhile_eq_all_conv simp flip: set_rev[of x])

lemma Split_last_ends:
  assumes "slash \<notin> set e"
  shows "\<exists>xs t. Split slash (n @ e) = xs @ [t @ e]"
proof (cases "slash \<in> set n")
  case True
  then obtain a b where "n = a @ slash # b" "slash \<notin> set b" by (metis split_list_last)
  moreover have "\<exists>ws. Split slash (a @ slash # w) = ws @ Split slash w" for a w
  proof (induction "length a" arbitrary: a rule: less_induct)
    case less
    show ?case
    proof (cases "slash \<in> set a")
      case True
      then obtain u v where uv: "a = u @ slash # v" "slash \<notin> set u" by (metis split_list_first)
      then obtain ws where "Split slash (v @ slash # w) = ws @ Split slash w" using less[of v] by auto
      then show ?thesis using uv Split_append_sep[of slash u "v @ slash # w"] by auto
    qed (use Split_append_sep[of slash a w] in auto)
  qed
  ultimately show ?thesis using assms Split_free[of slash "b @ e"] by (metis Un_iff append.assoc append_Cons set_append)
qed (use assms Split_free[of slash "n @ e"] in auto)

lemma Split_last_sep: "slash \<notin> set e \<Longrightarrow> last (Split slash (d @ slash # e)) = e"
proof (induction "length d" arbitrary: d rule: less_induct)
  case less
  show ?case
  proof (cases "slash \<in> set d")
    case True
    then obtain u v where "d = u @ slash # v" "slash \<notin> set u" by (metis split_list_first)
    then show ?thesis using less(1)[of v] less.prems Split_append_sep[of slash u "v @ slash # e"] by simp
  qed (use Split_append_sep[of slash d e] Split_free[OF less.prems] in simp)
qed

lemma path_Join_last:
  assumes "slash \<notin> set e" "length e > 2"
  shows "\<exists>t. proper_seg (t @ e) \<and> (n = [] \<longrightarrow> t = []) \<and>
    (path_Join [d, n @ e] = t @ e \<or> (\<exists>ys. path_Join [d, n @ e] = ys @ slash # t @ e))"
proof -
  have "n @ e \<noteq> []" using assms by auto
  then have J: "path_Join [d, n @ e] = path_Clean (if d = [] then n @ e else (d @ slash # n) @ e)"
    by (auto simp: path_Join_def)
  let ?q = "if d = [] then n @ e else (d @ slash # n) @ e"
  obtain xs t where st: "Split slash ?q = xs @ [t @ e]"
    using Split_last_ends[OF assms(1), of n] Split_last_ends[OF assms(1), of "d @ slash # n"] by (cases "d = []") auto
  have "slash \<notin> set (t @ e)" using Split_parts_free[of "t @ e" slash ?q] unfolding st by simp
  moreover have "length (t @ e) \<noteq> length ''.''" "length (t @ e) \<noteq> length ''..''" "t @ e \<noteq> []"
    using assms(2) by auto
  ultimately have "proper_seg (t @ e)" unfolding proper_seg_def by metis
  moreover have "t = []" if "n = []"
  proof -
    have "last (Split slash ?q) = e"
      using that assms(1) Split_last_sep[OF assms(1)] Split_free[OF assms(1)] by simp
    then show ?thesis using st by simp
  qed
  ultimately show ?thesis using path_Clean_last[OF st] J by auto
qed

lemma path_Join_ends: "slash \<notin> set e \<Longrightarrow> length e > 2 \<Longrightarrow> \<exists>ys. path_Join [d, n @ e] = ys @ e"
  using path_Join_last[of e n d] by (metis append.assoc append_Cons)

lemma path_Join_Base:
  assumes "slash \<notin> set e" "length e > 2"
  shows "HasSuffix (path_Base (path_Join [d, n @ e])) e" "path_Base (path_Join [d, e]) = e"
proof -
  have B: "path_Base q = x" if "proper_seg x" "q = x \<or> (\<exists>ys. q = ys @ slash # x)" for q x
    using that path_Base_seg path_Base_below by blast
  show "HasSuffix (path_Base (path_Join [d, n @ e])) e" using path_Join_last[OF assms, of n d] B by (metis HasSuffix_append)
  show "path_Base (path_Join [d, e]) = e" using path_Join_last[OF assms, of "[]" d] B by auto
qed

lemma pack_paths_distinct: "path_Join [d, n @ ArchiveExtension] \<noteq> path_Join [d, PkgManifestFilename]"
proof -
  obtain a where "path_Join [d, n @ ArchiveExtension] = a @ ArchiveExtension"
    using path_Join_ends[of ArchiveExtension d n] by (auto simp: ArchiveExtension_def)
  moreover obtain b where "path_Join [d, [] @ PkgManifestFilename] = b @ PkgManifestFilename"
    using path_Join_ends[of PkgManifestFilename d "[]"] by (auto simp: PkgManifestFilename_def)
  moreover have "last ArchiveExtension \<noteq> last PkgManifestFilename" "ArchiveExtension \<noteq> []" "PkgManifestFilename \<noteq> []"
    by (simp_all add: ArchiveExtension_def PkgManifestFilename_def)
  ultimately show ?thesis by (metis append_Nil last_append)
qed

section \<open>Properties\<close>

text \<open>
  C5. What is packed loads back: a package whose declared files are ordinary relative paths of its
  directory and that is valid for distribution packs without an error, and loading the two files
  that were written returns, passes every check, and gives the same package with the hash of the
  archive and exactly the exposed files with their contents (and the internal manifest).
\<close>

theorem pack_load_roundtrip:
  assumes tree: "tree_ok base" "declared_ok base (allowedTypeScriptFiles glob src)"
    "NewSourceFS glob base src = Some (lp_Files loaded)"
    and co: "\<forall>nodes. walk (lp_Files loaded) = Some (Inr nodes) \<longrightarrow>
      codec_faithful co (pack_entries co (lp_Package loaded) nodes) (lp_Package loaded)"
    and valid: "is_ok (ValidateCompiled (lp_Package loaded) ValidationModeDist)"
    and writable: "can_write (path_Join [outDir, pk_Name (lp_Package loaded) @ ArchiveExtension])"
      "can_write (path_Join [outDir, PkgManifestFilename])"
  shows "\<exists>res d' archive fs. Pack co can_write loaded outDir d = Some (Inr res, d') \<and>
    map_of d' (pr_ArchivePath res) = Some archive \<and>
    LoadArchive co tx d' (pr_ArchivePath res) (pr_ManifestPath res) =
      Some (Inr \<lparr>lp_Package = EnrichToolMetadata tx fs (strip_sigs ((lp_Package loaded)\<lparr>pk_SHA256 := co_sha co archive\<rparr>)),
        lp_Files = fs, lp_Dir = []\<rparr>) \<and>
    (\<forall>p. p \<noteq> PkgManifestFilename \<longrightarrow> map_of (am_files fs) p =
       (case map_of base p of
          Some (FileNode b) \<Rightarrow> if exposed (lp_Files loaded) p then Some b else None
        | _ \<Rightarrow> None))"
proof -
  let ?pkg = "lp_Package loaded" and ?f = "lp_Files loaded"
  note view = declared_view[OF tree]
  obtain nodes where nodes: "walk ?f = Some (Inr nodes)" "gomap_ok nodes"
    "\<And>p. map_of nodes p = (if p \<noteq> ''.'' \<and> exposed ?f p then map_of base p else None)"
    using walk_exact[OF view(1)] view(3) by metis
  define archive where "archive = co_tar co (pack_entries co ?pkg nodes)"
  let ?ext = "?pkg\<lparr>pk_SHA256 := co_sha co archive\<rparr>" and ?int = "?pkg\<lparr>pk_SHA256 := []\<rparr>"
  note C = codec_faithfulD[OF co[rule_format, OF nodes(1)], folded archive_def]
  let ?ap = "path_Join [outDir, pk_Name ?pkg @ ArchiveExtension]" and ?mp = "path_Join [outDir, PkgManifestFilename]"
  let ?d = "AList.update ?mp (co_encode co ?ext @ newline) (AList.update ?ap archive d)"
  have P: "Pack co can_write loaded outDir d = Some (Inr \<lparr>pr_ArchivePath = ?ap, pr_ManifestPath = ?mp\<rparr>, ?d)"
    using nodes(1) writable by (simp add: Pack_def archive_def Let_def)
  have ne: "?ap \<noteq> ?mp" by (rule pack_paths_distinct)
  have paths: "\<forall>(p, n)\<in>set nodes. nice_path p \<and> p \<noteq> PkgManifestFilename"
    using view(1,2) nodes(3)
    by (auto simp: gomap_in_set_iff[OF nodes(2)] view_ok_def list_all_iff split: if_splits)
  obtain fs where fs: "extractArchive co archive = Some (Inr (fs, strip_sigs ?int))"
    "\<And>p. p \<noteq> PkgManifestFilename \<Longrightarrow> map_of (am_files fs) p = (case map_of nodes p of Some (FileNode b) \<Rightarrow> Some b | _ \<Rightarrow> None)"
    using extract_packed[OF paths nodes(2), of co ?pkg] C(1,4)[of "[]"] unfolding archive_def by auto
  have "verify_archive co tx archive (strip_sigs ?ext) =
      Some (Inr \<lparr>lp_Package = EnrichToolMetadata tx fs (strip_sigs ?ext), lp_Files = fs, lp_Dir = []\<rparr>)"
    using valid C(2) fs(1) by (auto simp: verify_archive_def strip_sigs_sha ValidateCompiled_strip is_ok_iff pk_SHA256_strip)
  then have "LoadArchive co tx ?d ?ap ?mp =
      Some (Inr \<lparr>lp_Package = EnrichToolMetadata tx fs (strip_sigs ?ext), lp_Files = fs, lp_Dir = []\<rparr>)"
    using C(5)[of "co_sha co archive"] ne by (simp add: LoadArchive_def)
  moreover have "map_of (am_files fs) p = (case map_of base p of
          Some (FileNode b) \<Rightarrow> if exposed ?f p then Some b else None | _ \<Rightarrow> None)"
    if "p \<noteq> PkgManifestFilename" for p
    using fs(2)[OF that] nodes(3)[of p] view(1) unfolding view(3)[symmetric]
    by (auto simp: view_ok_def tree_ok_def split: option.splits fs_node.splits)
  ultimately show ?thesis using P ne
    by (intro exI[of _ "\<lparr>pr_ArchivePath = ?ap, pr_ManifestPath = ?mp\<rparr>"] exI[of _ ?d] exI[of _ archive] exI[of _ fs]) simp
qed

definition demo_base :: base_fs where
  "demo_base = [(''.'', DirNode), (''tools'', DirNode), (''tools/t.ts'', FileNode ''code''), (''x'', FileNode ''y'')]"

definition demo_loaded :: "(sourceFS, unit) LoadedPackage" where
  "demo_loaded = \<lparr>lp_Package = demo_pkg ''tools/t.ts'',
     lp_Files = the (NewSourceFS (\<lambda>g. []) demo_base (demo_pkg ''tools/t.ts'')), lp_Dir = ''/p''\<rparr>"

definition demo_nodes :: "(string \<times> fs_node) list" where
  "demo_nodes = [(''tools'', DirNode), (''tools/t.ts'', FileNode ''code'')]"

definition demo_codec :: "unit codec" where
  "demo_codec = \<lparr>co_tar = (\<lambda>es. ''A''),
     co_untar = (\<lambda>b. Inr (map tar_node demo_nodes @ [TarReg PkgManifestFilename ''I''])),
     co_encode = (\<lambda>p. if pk_SHA256 p = [] then ''I'' else ''E''),
     co_decode = (\<lambda>b. Inr ((demo_pkg ''tools/t.ts'')\<lparr>pk_SHA256 := (if HasPrefix b ''I'' then [] else ''h'')\<rparr>)),
     co_sha = (\<lambda>b. if b = ''A'' then ''h'' else ''other'')\<rparr>"

definition demo_extract :: "(archiveMemFS, unit) ts_extract" where
  "demo_extract = \<lparr>tx_Extract = (\<lambda>f e. None), tx_Tags = (\<lambda>s. [])\<rparr>"

lemma demo_faithful:
  "\<forall>nodes. walk (lp_Files demo_loaded) = Some (Inr nodes) \<longrightarrow>
     codec_faithful demo_codec (pack_entries demo_codec (lp_Package demo_loaded) nodes) (lp_Package demo_loaded)"
proof -
  have "walk (lp_Files demo_loaded) = Some (Inr demo_nodes)" by code_simp
  moreover have "codec_faithful demo_codec (pack_entries demo_codec (lp_Package demo_loaded) demo_nodes) (lp_Package demo_loaded)"
    by code_simp
  ultimately show ?thesis by simp
qed

theorem pack_load_roundtrip_witness:
  "\<exists>res d' fs. Pack demo_codec (\<lambda>p. True) demo_loaded ''/out'' [] = Some (Inr res, d') \<and>
    (\<exists>lp. LoadArchive demo_codec demo_extract d' (pr_ArchivePath res) (pr_ManifestPath res) = Some (Inr lp) \<and>
      lp_Files lp = fs) \<and>
    map_of (am_files fs) ''tools/t.ts'' = Some ''code'' \<and> map_of (am_files fs) ''x'' = None"
proof -
  have tree: "tree_ok demo_base" "declared_ok demo_base (allowedTypeScriptFiles (\<lambda>g. []) (demo_pkg ''tools/t.ts''))"
    "NewSourceFS (\<lambda>g. []) demo_base (demo_pkg ''tools/t.ts'') = Some (lp_Files demo_loaded)"
    "is_ok (ValidateCompiled (lp_Package demo_loaded) ValidationModeDist)" by code_simp+
  have b: "map_of demo_base ''tools/t.ts'' = Some (FileNode ''code'')" "map_of demo_base ''x'' = Some (FileNode ''y'')"
    "exposed (lp_Files demo_loaded) ''tools/t.ts''" "\<not> exposed (lp_Files demo_loaded) ''x''"
    "''tools/t.ts'' \<noteq> PkgManifestFilename" "''x'' \<noteq> PkgManifestFilename" by code_simp+
  from pack_load_roundtrip[where can_write = "\<lambda>p. True" and outDir = "''/out''", OF tree(1-3) demo_faithful tree(4) TrueI TrueI,
      of "[]" demo_extract]
  obtain res d' archive fs where r: "Pack demo_codec (\<lambda>p. True) demo_loaded ''/out'' [] = Some (Inr res, d')"
    "LoadArchive demo_codec demo_extract d' (pr_ArchivePath res) (pr_ManifestPath res) =
      Some (Inr \<lparr>lp_Package = EnrichToolMetadata demo_extract fs (strip_sigs ((lp_Package demo_loaded)\<lparr>pk_SHA256 := co_sha demo_codec archive\<rparr>)),
        lp_Files = fs, lp_Dir = []\<rparr>)"
    "\<forall>p. p \<noteq> PkgManifestFilename \<longrightarrow> map_of (am_files fs) p =
       (case map_of demo_base p of
          Some (FileNode b) \<Rightarrow> if exposed (lp_Files demo_loaded) p then Some b else None | _ \<Rightarrow> None)"
    by (elim exE conjE) (rule that, assumption+)
  then have "map_of (am_files fs) ''tools/t.ts'' = Some ''code''" "map_of (am_files fs) ''x'' = None"
    using b by simp_all
  then show ?thesis using r(1,2) by (intro exI conjI) (assumption | simp)+
qed

text \<open>
  C22. Tampering is refused: with the manifest that was published for an archive, any bytes with another
  hash are rejected with a hash mismatch, before anything is unpacked; and an archive with the right
  hash is only accepted when its internal manifest is the external one up to the hash, so a package
  that loads always carries the hash of the bytes it came from.
\<close>

theorem tampered_archive_refused:
  assumes "map_of d manifestPath = Some external" "map_of d archivePath = Some archive"
    "co_decode co external = Inr ext" "pk_SHA256 ext \<noteq> []"
  shows "(LoadArchive co tx d archivePath manifestPath = Some (Inl (SHAMismatch (pk_SHA256 ext) (co_sha co archive)))
      \<longleftrightarrow> co_sha co archive \<noteq> pk_SHA256 ext) \<and>
    (LoadArchive co tx d archivePath manifestPath = Some (Inr lp) \<longrightarrow>
      pk_SHA256 (lp_Package lp) = co_sha co archive \<and>
      (\<exists>int. extractArchive co archive = Some (Inr (lp_Files lp, int)) \<and>
         co_encode co (ext\<lparr>pk_SHA256 := []\<rparr>) = co_encode co (int\<lparr>pk_SHA256 := []\<rparr>)))"
proof -
  have L: "LoadArchive co tx d archivePath manifestPath = verify_archive co tx archive ext"
    using assms by (simp add: LoadArchive_def)
  have noSHA: "extractArchive co archive \<noteq> Some (Inl (SHAMismatch a b))" for a b
    by (auto simp: extractArchive_def result_bind_Inl split: sum.splits option.splits dest!: extract_loop_errors)
  show ?thesis
    using assms(4) noSHA unfolding L verify_archive_def
    by (cases "ValidateCompiled ext ValidationModeDist") (auto simp: result_bind_Inl EnrichToolMetadata_def split: if_splits option.splits sum.splits)
qed

theorem tampered_archive_refused_witness:
  "LoadArchive demo_codec demo_extract [(''a'', ''B''), (''m'', ''E'')] ''a'' ''m'' = Some (Inl (SHAMismatch ''h'' ''other''))"
proof -
  have "co_decode demo_codec ''E'' = Inr ((demo_pkg ''tools/t.ts'')\<lparr>pk_SHA256 := ''h''\<rparr>)" by code_simp
  from tampered_archive_refused[of "[(''a'', ''B''), (''m'', ''E'')]" "''m''" "''E''" "''a''" "''B''", OF _ _ this]
  show ?thesis by (simp add: demo_codec_def)
qed

end
