(* ===== verification/Builder.thy ===== *)
theory Builder
  imports Toolset_Props Registry_Props Archive
begin

text \<open>
  The builder of \<open>toolset/toolset.go\<close>: it collects packages from source directories, archives and
  the registry, in the order in which they are added, and resolves all their tools.  A package has
  the files of a directory or of an archive.  Parameters (\<open>builder_env\<close>): the libraries of the
  loaders and the directories on disk.  A result of \<open>None\<close> is a load that does not return.
\<close>

section \<open>The loaders\<close>

datatype pkg_files = SourceFiles sourceFS | ArchiveFiles archiveMemFS

type_synonym 'sig loaded = "(pkg_files, 'sig) LoadedPackage"

record 'sig builder_env =
  be_decodeDev :: "bytes \<Rightarrow> string + DevManifest"
  be_singularize :: "string \<Rightarrow> string"
  be_glob :: "string \<Rightarrow> string \<Rightarrow> string list"
  be_dirs :: "string \<Rightarrow> base_fs"
  be_extract :: "(pkg_files, 'sig) ts_extract"
  be_codec :: "'sig codec"
  be_contents :: "pkg_files \<Rightarrow> (string, bytes) gomap"

definition extract_with :: "('fs \<Rightarrow> pkg_files) \<Rightarrow> (pkg_files, 'sig) ts_extract \<Rightarrow> ('fs, 'sig) ts_extract" where
  "extract_with wrap tx = \<lparr>tx_Extract = (\<lambda>f. tx_Extract tx (wrap f)), tx_Tags = tx_Tags tx\<rparr>"

definition as_loaded :: "('fs \<Rightarrow> pkg_files) \<Rightarrow> ('fs, 'sig) LoadedPackage \<Rightarrow> 'sig loaded" where
  "as_loaded wrap p = \<lparr>lp_Package = lp_Package p, lp_Files = wrap (lp_Files p), lp_Dir = lp_Dir p\<rparr>"

definition LoadDev :: "'sig builder_env \<Rightarrow> string \<Rightarrow> (load_error + 'sig loaded) option" where
  "LoadDev env dir =
     map_option (map_sum id (as_loaded SourceFiles))
       (LoadDir (be_decodeDev env) (be_singularize env) (be_glob env dir)
          (extract_with SourceFiles (be_extract env)) (be_dirs env dir) dir)"

definition pkg_LoadArchive ::
  "'sig builder_env \<Rightarrow> disk \<Rightarrow> string \<Rightarrow> string \<Rightarrow> (archive_error + 'sig loaded) option" where
  "pkg_LoadArchive env d archivePath manifestPath =
     map_option (map_sum id (as_loaded ArchiveFiles))
       (LoadArchive (be_codec env) (extract_with ArchiveFiles (be_extract env)) d archivePath manifestPath)"

datatype pkg_error = LoadFailed load_error | PackFailed pack_error

definition pkg_Pack ::
  "'sig builder_env \<Rightarrow> (string \<Rightarrow> bool) \<Rightarrow> string \<Rightarrow> string \<Rightarrow> disk \<Rightarrow> ((pkg_error + PackResult) \<times> disk) option" where
  "pkg_Pack env can_write dir outDir d =
     (case LoadDirWithMode (be_decodeDev env) (be_singularize env) (be_glob env dir)
             (extract_with SourceFiles (be_extract env)) (be_dirs env dir) dir ValidationModeDist of
        None \<Rightarrow> None
      | Some (Inl e) \<Rightarrow> Some (Inl (LoadFailed e), d)
      | Some (Inr (loaded, warnings)) \<Rightarrow>
          map_option (map_prod (map_sum PackFailed id) id) (Pack (be_codec env) can_write loaded outDir d))"

section \<open>The builder\<close>

record 'sig Builder =
  bd_packages :: "'sig loaded list"
  bd_resolver :: "'sig loaded resolver_env option"

datatype builder_error =
    DirError load_error
  | ArchiveError archive_error
  | NoResolver
  | BadModule fqn_error
  | BadVersion fqn_error
  | ResolveError resolve_error

definition New :: "'sig Builder" where
  "New = \<lparr>bd_packages = [], bd_resolver = None\<rparr>"

definition NewWithResolver :: "'sig loaded resolver_env \<Rightarrow> 'sig Builder" where
  "NewWithResolver resolver = \<lparr>bd_packages = [], bd_resolver = Some resolver\<rparr>"

definition append_pkg :: "'sig loaded \<Rightarrow> 'sig Builder \<Rightarrow> 'sig Builder" where
  "append_pkg p b = b\<lparr>bd_packages := bd_packages b @ [p]\<rparr>"

definition AddFromDir ::
  "'sig builder_env \<Rightarrow> string \<Rightarrow> 'sig Builder \<Rightarrow> ((builder_error + unit) \<times> 'sig Builder) option" where
  "AddFromDir env dir b =
     map_option (\<lambda>r. case r of Inl e \<Rightarrow> (Inl (DirError e), b) | Inr pkg \<Rightarrow> (Inr (), append_pkg pkg b)) (LoadDev env dir)"

definition AddFromArchive ::
  "'sig builder_env \<Rightarrow> disk \<Rightarrow> string \<Rightarrow> string \<Rightarrow> 'sig Builder \<Rightarrow> ((builder_error + unit) \<times> 'sig Builder) option" where
  "AddFromArchive env d archivePath manifestPath b =
     map_option (\<lambda>r. case r of Inl e \<Rightarrow> (Inl (ArchiveError e), b) | Inr pkg \<Rightarrow> (Inr (), append_pkg pkg b))
       (pkg_LoadArchive env d archivePath manifestPath)"

definition AddFromRegistryWithExpected ::
  "string \<Rightarrow> string \<Rightarrow> ResolveMetadata option \<Rightarrow> 'sig Builder \<Rightarrow> disk
     \<Rightarrow> (builder_error + ResolveMetadata) \<times> 'sig Builder \<times> disk" where
  "AddFromRegistryWithExpected modulePath version expected b d =
     (case bd_resolver b of
        None \<Rightarrow> (Inl NoResolver, b, d)
      | Some resolver \<Rightarrow>
          (case ParseModulePath modulePath of
             Inl e \<Rightarrow> (Inl (BadModule e), b, d)
           | Inr module \<Rightarrow>
               (case ParseVersion version of
                  Inl e \<Rightarrow> (Inl (BadVersion e), b, d)
                | Inr ver \<Rightarrow>
                    (case ResolveWithExpected resolver d module ver expected of
                       (Inl e, d') \<Rightarrow> (Inl (ResolveError e), b, d')
                     | (Inr result, d') \<Rightarrow>
                         (Inr (rr_Metadata result), append_pkg (rr_Package result) b, d')))))"

definition AddFromRegistry ::
  "string \<Rightarrow> string \<Rightarrow> 'sig Builder \<Rightarrow> disk \<Rightarrow> (builder_error + unit) \<times> 'sig Builder \<times> disk" where
  "AddFromRegistry modulePath version b d =
     (case AddFromRegistryWithExpected modulePath version None b d of
        (r, b', d') \<Rightarrow> (map_sum id (\<lambda>_. ()) r, b', d'))"

definition Packages :: "'sig Builder \<Rightarrow> 'sig Package list" where
  "Packages b = map lp_Package (bd_packages b)"

definition builder_Resolve ::
  "'p cel_api \<Rightarrow> 'sig builder_env \<Rightarrow> 'sig Builder \<Rightarrow> Config \<Rightarrow> toolset_error + ('sig, 'p) ResolvedToolset" where
  "builder_Resolve cel env b cfg =
     resolveTools cel (concat (map (ResolvedTools (be_contents env)) (bd_packages b))) cfg"

definition ResolveTools ::
  "'p cel_api \<Rightarrow> 'sig ResolvedTool list \<Rightarrow> Config \<Rightarrow> toolset_error + ('sig, 'p) ResolvedToolset" where
  "ResolveTools cel tools cfg = resolveTools cel tools cfg"

end
