(* ===== verification/Toolset_File.thy ===== *)
theory Toolset_File
  imports Builder
begin

text \<open>
  Component \<open>toolsetfile\<close>: the declarative \<open>*.toolset.json\<close> file with its \<open>*.toolset.lock\<close> and
  \<open>*.toolset.local.json\<close> siblings.  Validation and the setters mutate the file also when they fail,
  so every operation returns the new file.  Parameters: the JSON form of a string (\<open>jstr\<close>), and
  decoding of the three files (JSON syntax, the embedded schema, and the typed value).
\<close>

section \<open>Data\<close>

record ToolEntry =
  te_Tool :: string
  te_parsed :: ToolFQN

record ToolsetFile =
  tf_Packages :: "(string, string) gomap option"
  tf_Tools :: "ToolEntry list"
  tf_parsedPackages :: "(ModulePath, Version) gomap option"
  tf_filename :: string
  tf_lockFilename :: string
  tf_localFilename :: string

record ToolsetLockEntry =
  le_ArchiveSHA256 :: string
  le_GitSHA :: string
  le_ResolvedFrom :: string
  le_ResolvedAt :: string

record ToolsetLockFile =
  lf_Packages :: "(string, ToolsetLockEntry) gomap option"
  lf_parsedPackages :: "(PackageVer, ToolsetLockEntry) gomap option"

record ToolsetLocalFile =
  lo_Replace :: "(string, string) gomap option"
  lo_parsedReplace :: "(ModulePath, string) gomap option"
  lo_filename :: string

datatype write_step = CreateTemp | ChmodTemp | WriteTemp | CloseTemp | RenameTemp

datatype toolsetfile_error =
    BadFilename string
  | FileNotExist string
  | DecodeError string
  | BadPackage string fqn_error
  | BadTool nat fqn_error
  | UndeclaredModule nat string
  | VersionMismatch nat string string
  | NoPackages
  | ModuleNotDeclared string
  | BadLockKey string fqn_error
  | BadLockEntry string metadata_error
  | BadReplace string fqn_error
  | WriteFailed write_step
  | NotLoaded
  | LocalReplace string builder_error
  | PackageError builder_error
  | BindError toolset_error

abbreviation map_or_nil :: "('k, 'v) gomap option \<Rightarrow> ('k, 'v) gomap" where
  "map_or_nil m \<equiv> (case m of None \<Rightarrow> [] | Some x \<Rightarrow> x)"

definition sorted_keys :: "(string, 'v) gomap \<Rightarrow> string list" where
  "sorted_keys m = sort_strings (map fst m)"

section \<open>File names\<close>

definition toolsetFilenameSuffix :: string where "toolsetFilenameSuffix = ''.toolset.json''"
definition toolsetLockFilenameSuffix :: string where "toolsetLockFilenameSuffix = ''.toolset.lock''"
definition toolsetLocalFilenameSuffix :: string where "toolsetLocalFilenameSuffix = ''.toolset.local.json''"

definition deriveToolsetLockFilename :: "string \<Rightarrow> toolsetfile_error + string" where
  "deriveToolsetLockFilename filename =
     (if \<not> HasSuffix filename toolsetFilenameSuffix then Inl (BadFilename filename)
      else Inr (TrimSuffix filename toolsetFilenameSuffix @ toolsetLockFilenameSuffix))"

definition deriveToolsetLocalFilename :: "string \<Rightarrow> toolsetfile_error + string" where
  "deriveToolsetLocalFilename filename =
     (if \<not> HasSuffix filename toolsetFilenameSuffix then Inl (BadFilename filename)
      else Inr (TrimSuffix filename toolsetFilenameSuffix @ toolsetLocalFilenameSuffix))"

section \<open>Writing through a temporary file\<close>

text \<open>The file is written under a temporary name in the same directory and renamed over the target;
  the deferred removal of the temporary file runs in every case.  \<open>fault\<close> is the step that
  fails, with the bytes that reached the temporary file.  The intermediate states of the disk are not part of the result, and
  the removal, whose error the code ignores, is taken to succeed: where it does not, the temporary file is left behind and
  all other files are as stated.\<close>

definition write_via_temp ::
  "(write_step \<times> bytes) option \<Rightarrow> string \<Rightarrow> string \<Rightarrow> bytes \<Rightarrow> disk \<Rightarrow> (toolsetfile_error + unit) \<times> disk" where
  "write_via_temp fault temp filename data d =
     (case fault of
        Some (CreateTemp, _) \<Rightarrow> (Inl (WriteFailed CreateTemp), d)
      | Some (step, partial) \<Rightarrow> (Inl (WriteFailed step), AList.delete temp (AList.update temp partial d))
      | None \<Rightarrow>
          (Inr (), AList.delete temp (AList.update filename data (AList.delete temp (AList.update temp data d)))))"

section \<open>The toolset file\<close>

fun parse_packages ::
  "(string, string) gomap \<Rightarrow> string list \<Rightarrow> (ModulePath, Version) gomap \<Rightarrow> toolsetfile_error + (ModulePath, Version) gomap" where
  "parse_packages pkgs [] acc = Inr acc"
| "parse_packages pkgs (raw # keys) acc =
     (case ParseModulePath raw of
        Inl e \<Rightarrow> Inl (BadPackage raw e)
      | Inr module \<Rightarrow>
          (case ParseVersion (case map_of pkgs raw of None \<Rightarrow> [] | Some v \<Rightarrow> v) of
             Inl e \<Rightarrow> Inl (BadPackage raw e)
           | Inr version \<Rightarrow> parse_packages pkgs keys (AList.update module version acc)))"

text \<open>The loop over the tools: the entries before a failing one keep their new parsed names.\<close>

fun parse_tools ::
  "(ModulePath, Version) gomap \<Rightarrow> nat \<Rightarrow> ToolEntry list \<Rightarrow> (toolsetfile_error + unit) \<times> ToolEntry list" where
  "parse_tools parsed i [] = (Inr (), [])"
| "parse_tools parsed i (t # ts) =
     (case ParseToolFQN (te_Tool t) of
        Inl e \<Rightarrow> (Inl (BadTool i e), t # ts)
      | Inr fqn \<Rightarrow>
          (case map_of parsed (fqn_Module fqn) of
             None \<Rightarrow> (Inl (UndeclaredModule i (fqn_Module fqn)), t # ts)
           | Some declared \<Rightarrow>
               if fqn_Version fqn \<noteq> declared then (Inl (VersionMismatch i (fqn_Version fqn) declared), t # ts)
               else
                 (case parse_tools parsed (Suc i) ts of
                    (r, ts') \<Rightarrow> (r, t\<lparr>te_parsed := fqn\<rparr> # ts'))))"

definition file_validate :: "ToolsetFile \<Rightarrow> (toolsetfile_error + unit) \<times> ToolsetFile" where
  "file_validate f =
     (let pkgs = map_or_nil (tf_Packages f) in
      case parse_packages pkgs (sorted_keys pkgs) [] of
        Inl e \<Rightarrow> (Inl e, f)
      | Inr parsed \<Rightarrow>
          (case parse_tools parsed 0 (tf_Tools f) of
             (Inl e, ts) \<Rightarrow> (Inl e, f\<lparr>tf_Tools := ts\<rparr>)
           | (Inr _, ts) \<Rightarrow> (Inr (), f\<lparr>tf_Tools := ts, tf_parsedPackages := Some parsed\<rparr>)))"

definition zero_fqn :: ToolFQN where "zero_fqn = \<lparr>fqn_Module = [], fqn_Version = [], fqn_Tool = []\<rparr>"

text \<open>\<open>decode\<close> gives the packages and the tool names of a file whose JSON matches the schema.\<close>

definition Load ::
  "(bytes \<Rightarrow> string + (string, string) gomap \<times> string list) \<Rightarrow> disk \<Rightarrow> string \<Rightarrow> toolsetfile_error + ToolsetFile" where
  "Load decode d filename =
     result_bind (deriveToolsetLockFilename filename) (\<lambda>lockFilename.
     result_bind (deriveToolsetLocalFilename filename) (\<lambda>localFilename.
       case map_of d filename of
         None \<Rightarrow> Inl (FileNotExist filename)
       | Some data \<Rightarrow>
           (case decode data of
              Inl e \<Rightarrow> Inl (DecodeError e)
            | Inr (pkgs, tools) \<Rightarrow>
                let f = \<lparr>tf_Packages = Some pkgs,
                         tf_Tools = map (\<lambda>t. \<lparr>te_Tool = t, te_parsed = zero_fqn\<rparr>) tools,
                         tf_parsedPackages = None, tf_filename = [], tf_lockFilename = [], tf_localFilename = []\<rparr> in
                (case file_validate f of
                   (Inl e, _) \<Rightarrow> Inl e
                 | (Inr _, f') \<Rightarrow>
                     Inr (f'\<lparr>tf_filename := filename, tf_lockFilename := lockFilename,
                             tf_localFilename := localFilename\<rparr>)))))"

definition set_tool_version :: "ModulePath \<Rightarrow> Version \<Rightarrow> ToolEntry \<Rightarrow> ToolEntry" where
  "set_tool_version module version t =
     (if fqn_Module (te_parsed t) \<noteq> module then t
      else let p = (te_parsed t)\<lparr>fqn_Version := version\<rparr> in \<lparr>te_Tool = ToolFQN_String p, te_parsed = p\<rparr>)"

definition SetPackageVersion :: "ToolsetFile \<Rightarrow> ModulePath \<Rightarrow> Version \<Rightarrow> (toolsetfile_error + unit) \<times> ToolsetFile" where
  "SetPackageVersion f module version =
     (case tf_Packages f of
        None \<Rightarrow> (Inl NoPackages, f)
      | Some pkgs \<Rightarrow>
          if map_of pkgs module = None then (Inl (ModuleNotDeclared module), f)
          else file_validate
            (f\<lparr>tf_Packages := Some (AList.update module version pkgs),
               tf_Tools := map (set_tool_version module version) (tf_Tools f)\<rparr>))"

definition nl :: string where "nl = [CHR 0x0A]"
definition quote :: "string \<Rightarrow> string" where "quote s = [CHR 0x22] @ s @ [CHR 0x22]"

text \<open>A block of lines, each indented by four, separated by commas.\<close>

fun comma_lines :: "string list \<Rightarrow> string" where
  "comma_lines [] = []"
| "comma_lines [x] = ''    '' @ x @ nl"
| "comma_lines (x # y # zs) = ''    '' @ x @ '','' @ nl @ comma_lines (y # zs)"

definition package_line :: "(string \<Rightarrow> bytes) \<Rightarrow> (string, string) gomap \<Rightarrow> string \<Rightarrow> string" where
  "package_line jstr pkgs raw = jstr raw @ '': '' @ jstr (case map_of pkgs raw of None \<Rightarrow> [] | Some v \<Rightarrow> v)"

definition tool_line :: "(string \<Rightarrow> bytes) \<Rightarrow> ToolEntry \<Rightarrow> string" where
  "tool_line jstr t = ''{'' @ quote ''tool'' @ '':'' @ jstr (te_Tool t) @ ''}''"

definition file_text :: "(string \<Rightarrow> bytes) \<Rightarrow> (string, string) gomap \<Rightarrow> ToolEntry list \<Rightarrow> bytes" where
  "file_text jstr pkgs tools =
     ''{'' @ nl @ ''  '' @ quote ''packages'' @ '': {'' @
     (if pkgs \<noteq> [] then nl @ comma_lines (map (package_line jstr pkgs) (sorted_keys pkgs)) @ ''  },'' @ nl
      else ''},'' @ nl) @
     ''  '' @ quote ''tools'' @ '': ['' @
     (if tools \<noteq> [] then nl @ comma_lines (map (tool_line jstr) tools) @ ''  ]'' @ nl else '']'' @ nl) @
     ''}'' @ nl"

definition file_encodeStable :: "(string \<Rightarrow> bytes) \<Rightarrow> ToolsetFile \<Rightarrow> (toolsetfile_error + bytes) \<times> ToolsetFile" where
  "file_encodeStable jstr f =
     (case file_validate f of
        (Inl e, f') \<Rightarrow> (Inl e, f')
      | (Inr _, f') \<Rightarrow> (Inr (file_text jstr (map_or_nil (tf_Packages f')) (tf_Tools f')), f'))"

definition rename_file :: "string \<Rightarrow> ToolsetFile \<Rightarrow> ToolsetFile" where
  "rename_file filename f =
     f\<lparr>tf_filename := filename,
       tf_lockFilename := (case deriveToolsetLockFilename filename of Inr n \<Rightarrow> n | Inl _ \<Rightarrow> tf_lockFilename f),
       tf_localFilename := (case deriveToolsetLocalFilename filename of Inr n \<Rightarrow> n | Inl _ \<Rightarrow> tf_localFilename f)\<rparr>"

definition toolset_Write ::
  "(string \<Rightarrow> bytes) \<Rightarrow> (write_step \<times> bytes) option \<Rightarrow> string \<Rightarrow> ToolsetFile \<Rightarrow> string \<Rightarrow> disk
     \<Rightarrow> (toolsetfile_error + unit) \<times> ToolsetFile \<times> disk" where
  "toolset_Write jstr fault temp f filename d =
     (case file_encodeStable jstr f of
        (Inl e, f') \<Rightarrow> (Inl e, f', d)
      | (Inr data, f') \<Rightarrow>
          (case write_via_temp fault temp filename data d of
             (Inl e, d') \<Rightarrow> (Inl e, f', d')
           | (Inr _, d') \<Rightarrow> (Inr (), rename_file filename f', d')))"

section \<open>The lock file\<close>

definition entry_validate :: "(string \<Rightarrow> string option) \<Rightarrow> ToolsetLockEntry \<Rightarrow> metadata_error + unit" where
  "entry_validate rfc3339 e =
     (if \<not> rx_match sha256HexPattern (le_ArchiveSHA256 e) then Inl (BadArchiveSHA (le_ArchiveSHA256 e))
      else if \<not> rx_match gitCommitSHAPattern (le_GitSHA e) then Inl (BadGitSHA (le_GitSHA e))
      else if le_ResolvedFrom e \<noteq> ''github-release'' \<and> le_ResolvedFrom e \<noteq> ''git-source''
      then Inl (BadResolvedFrom (le_ResolvedFrom e))
      else if rfc3339 (le_ResolvedAt e) = None then Inl (BadResolvedAt (le_ResolvedAt e))
      else Inr ())"

definition zero_entry :: ToolsetLockEntry where
  "zero_entry = \<lparr>le_ArchiveSHA256 = [], le_GitSHA = [], le_ResolvedFrom = [], le_ResolvedAt = []\<rparr>"

definition lock_entry :: "(string, ToolsetLockEntry) gomap \<Rightarrow> string \<Rightarrow> ToolsetLockEntry" where
  "lock_entry pkgs raw = (case map_of pkgs raw of None \<Rightarrow> zero_entry | Some e \<Rightarrow> e)"

fun parse_lock ::
  "(string \<Rightarrow> string option) \<Rightarrow> (string, ToolsetLockEntry) gomap \<Rightarrow> string list \<Rightarrow> (PackageVer, ToolsetLockEntry) gomap
     \<Rightarrow> toolsetfile_error + (PackageVer, ToolsetLockEntry) gomap" where
  "parse_lock rfc3339 pkgs [] acc = Inr acc"
| "parse_lock rfc3339 pkgs (raw # keys) acc =
     (case ParsePackageVer raw of
        Inl e \<Rightarrow> Inl (BadLockKey raw e)
      | Inr pkg \<Rightarrow>
          (case entry_validate rfc3339 (lock_entry pkgs raw) of
             Inl e \<Rightarrow> Inl (BadLockEntry raw e)
           | Inr _ \<Rightarrow> parse_lock rfc3339 pkgs keys (AList.update pkg (lock_entry pkgs raw) acc)))"

definition lock_validate ::
  "(string \<Rightarrow> string option) \<Rightarrow> ToolsetLockFile \<Rightarrow> (toolsetfile_error + unit) \<times> ToolsetLockFile" where
  "lock_validate rfc3339 f =
     (let pkgs = map_or_nil (lf_Packages f); f1 = f\<lparr>lf_Packages := Some pkgs\<rparr> in
      case parse_lock rfc3339 pkgs (sorted_keys pkgs) [] of
        Inl e \<Rightarrow> (Inl e, f1)
      | Inr parsed \<Rightarrow> (Inr (), f1\<lparr>lf_parsedPackages := Some parsed\<rparr>))"

definition LoadLock ::
  "(string \<Rightarrow> string option) \<Rightarrow> (bytes \<Rightarrow> string + (string, ToolsetLockEntry) gomap) \<Rightarrow> disk \<Rightarrow> string
     \<Rightarrow> toolsetfile_error + ToolsetLockFile" where
  "LoadLock rfc3339 decode d filename =
     (case map_of d filename of
        None \<Rightarrow> Inl (FileNotExist filename)
      | Some data \<Rightarrow>
          (case decode data of
             Inl e \<Rightarrow> Inl (DecodeError e)
           | Inr pkgs \<Rightarrow>
               (case lock_validate rfc3339 \<lparr>lf_Packages = Some pkgs, lf_parsedPackages = None\<rparr> of
                  (Inl e, _) \<Rightarrow> Inl e
                | (Inr _, f) \<Rightarrow> Inr f)))"

definition entry_json :: "(string \<Rightarrow> bytes) \<Rightarrow> ToolsetLockEntry \<Rightarrow> bytes" where
  "entry_json jstr e =
     ''{'' @ quote ''archive_sha256'' @ '':'' @ jstr (le_ArchiveSHA256 e) @ '','' @
     quote ''git_sha'' @ '':'' @ jstr (le_GitSHA e) @ '','' @
     quote ''resolved_from'' @ '':'' @ jstr (le_ResolvedFrom e) @ '','' @
     quote ''resolved_at'' @ '':'' @ jstr (le_ResolvedAt e) @ ''}''"

definition lock_line :: "(string \<Rightarrow> bytes) \<Rightarrow> (string, ToolsetLockEntry) gomap \<Rightarrow> string \<Rightarrow> string" where
  "lock_line jstr pkgs raw =
     jstr raw @ '': '' @ entry_json jstr (lock_entry pkgs raw)"

definition lock_text :: "(string \<Rightarrow> bytes) \<Rightarrow> (string, ToolsetLockEntry) gomap \<Rightarrow> bytes" where
  "lock_text jstr pkgs =
     ''{'' @ nl @
     (if pkgs = [] then ''  '' @ quote ''packages'' @ '': {}'' @ nl
      else ''  '' @ quote ''packages'' @ '': {'' @ nl @
           comma_lines (map (lock_line jstr pkgs) (sorted_keys pkgs)) @ ''  }'' @ nl) @
     ''}'' @ nl"

definition lock_encodeStable ::
  "(string \<Rightarrow> string option) \<Rightarrow> (string \<Rightarrow> bytes) \<Rightarrow> ToolsetLockFile \<Rightarrow> (toolsetfile_error + bytes) \<times> ToolsetLockFile" where
  "lock_encodeStable rfc3339 jstr f =
     (case lock_validate rfc3339 f of
        (Inl e, f') \<Rightarrow> (Inl e, f')
      | (Inr _, f') \<Rightarrow> (Inr (lock_text jstr (map_or_nil (lf_Packages f'))), f'))"

definition lock_Write ::
  "(string \<Rightarrow> string option) \<Rightarrow> (string \<Rightarrow> bytes) \<Rightarrow> (write_step \<times> bytes) option \<Rightarrow> string \<Rightarrow> ToolsetLockFile \<Rightarrow> string \<Rightarrow> disk
     \<Rightarrow> (toolsetfile_error + unit) \<times> disk" where
  "lock_Write rfc3339 jstr fault temp f filename d =
     (case lock_encodeStable rfc3339 jstr f of
        (Inl e, _) \<Rightarrow> (Inl e, d)
      | (Inr data, _) \<Rightarrow> write_via_temp fault temp filename data d)"

section \<open>The local overlay\<close>

fun parse_replace ::
  "(string, string) gomap \<Rightarrow> string list \<Rightarrow> (ModulePath, string) gomap \<Rightarrow> toolsetfile_error + (ModulePath, string) gomap" where
  "parse_replace rep [] acc = Inr acc"
| "parse_replace rep (raw # keys) acc =
     (case ParseModulePath raw of
        Inl e \<Rightarrow> Inl (BadReplace raw e)
      | Inr module \<Rightarrow>
          parse_replace rep keys (AList.update module (case map_of rep raw of None \<Rightarrow> [] | Some dir \<Rightarrow> dir) acc))"

definition local_validate :: "ToolsetLocalFile \<Rightarrow> (toolsetfile_error + unit) \<times> ToolsetLocalFile" where
  "local_validate f =
     (let rep = map_or_nil (lo_Replace f); f1 = f\<lparr>lo_Replace := Some rep\<rparr> in
      case parse_replace rep (sorted_keys rep) [] of
        Inl e \<Rightarrow> (Inl e, f1)
      | Inr parsed \<Rightarrow> (Inr (), f1\<lparr>lo_parsedReplace := Some parsed\<rparr>))"

definition LoadLocal :: "(bytes \<Rightarrow> string + (string, string) gomap) \<Rightarrow> disk \<Rightarrow> string \<Rightarrow> toolsetfile_error + ToolsetLocalFile" where
  "LoadLocal decode d filename =
     (case map_of d filename of
        None \<Rightarrow> Inl (FileNotExist filename)
      | Some data \<Rightarrow>
          (case decode data of
             Inl e \<Rightarrow> Inl (DecodeError e)
           | Inr rep \<Rightarrow>
               (case local_validate \<lparr>lo_Replace = Some rep, lo_parsedReplace = None, lo_filename = []\<rparr> of
                  (Inl e, _) \<Rightarrow> Inl e
                | (Inr _, f) \<Rightarrow> Inr (f\<lparr>lo_filename := filename\<rparr>))))"

text \<open>A missing overlay is \<open>None\<close>.\<close>

definition ReplacementDir :: "ToolsetLocalFile option \<Rightarrow> ModulePath \<Rightarrow> string option" where
  "ReplacementDir f module =
     (case f of None \<Rightarrow> None | Some lf \<Rightarrow> map_of (map_or_nil (lo_parsedReplace lf)) module)"

definition ReplacementDirAbs :: "ToolsetLocalFile option \<Rightarrow> ModulePath \<Rightarrow> string option" where
  "ReplacementDirAbs f module =
     (case ReplacementDir f module of
        None \<Rightarrow> None
      | Some dir \<Rightarrow>
          Some (if HasPrefix dir ''/'' \<or> lo_filename (the f) = [] then path_Clean dir
                else path_Clean (path_Join [path_Dir (lo_filename (the f)), dir])))"

definition file_LoadLocal ::
  "(bytes \<Rightarrow> string + (string, string) gomap) \<Rightarrow> disk \<Rightarrow> ToolsetFile \<Rightarrow> toolsetfile_error + ToolsetLocalFile option" where
  "file_LoadLocal decode d f =
     (if tf_localFilename f = [] then Inl NotLoaded
      else case LoadLocal decode d (tf_localFilename f) of
          Inl (FileNotExist n) \<Rightarrow> Inr None
        | Inl e \<Rightarrow> Inl e
        | Inr file \<Rightarrow> Inr (Some file))"

section \<open>Resolving\<close>

record ('sig, 'p) file_env =
  fe_builder :: "'sig builder_env"
  fe_cel :: "'p cel_api"
  fe_rfc3339 :: "string \<Rightarrow> string option"
  fe_jstr :: "string \<Rightarrow> bytes"
  fe_decodeLock :: "bytes \<Rightarrow> string + (string, ToolsetLockEntry) gomap"
  fe_decodeLocal :: "bytes \<Rightarrow> string + (string, string) gomap"
  fe_temp :: string
  fe_fault :: "(write_step \<times> bytes) option"

definition as_metadata :: "ToolsetLockEntry \<Rightarrow> ResolveMetadata" where
  "as_metadata e =
     \<lparr>ArchiveSHA256 = le_ArchiveSHA256 e, GitSHA = le_GitSHA e, ResolvedFrom = le_ResolvedFrom e, ResolvedAt = le_ResolvedAt e\<rparr>"

definition as_entry :: "ResolveMetadata \<Rightarrow> ToolsetLockEntry" where
  "as_entry m =
     \<lparr>le_ArchiveSHA256 = ArchiveSHA256 m, le_GitSHA = GitSHA m, le_ResolvedFrom = ResolvedFrom m, le_ResolvedAt = ResolvedAt m\<rparr>"

definition package_key :: "ModulePath \<Rightarrow> Version \<Rightarrow> string" where
  "package_key module version = module @ ''@'' @ version"

definition existing_lock :: "('sig, 'p) file_env \<Rightarrow> disk \<Rightarrow> ToolsetFile \<Rightarrow> toolsetfile_error + (string, ToolsetLockEntry) gomap" where
  "existing_lock env d f =
     (if tf_lockFilename f = [] then Inr []
      else case LoadLock (fe_rfc3339 env) (fe_decodeLock env) d (tf_lockFilename f) of
          Inl (FileNotExist n) \<Rightarrow> Inr []
        | Inl e \<Rightarrow> Inl e
        | Inr lock \<Rightarrow> Inr (map_or_nil (lf_Packages lock)))"

text \<open>The loop over the declared packages: the builder, the new lock and the disk are threaded through.\<close>

fun resolve_packages ::
  "('sig, 'p) file_env \<Rightarrow> ToolsetLocalFile option \<Rightarrow> (string, ToolsetLockEntry) gomap \<Rightarrow> (ModulePath \<times> Version) list
     \<Rightarrow> 'sig Builder \<Rightarrow> (string, ToolsetLockEntry) gomap \<Rightarrow> disk
     \<Rightarrow> ((toolsetfile_error + 'sig Builder \<times> (string, ToolsetLockEntry) gomap) \<times> disk) option" where
  "resolve_packages env overlay old [] b lock d = Some (Inr (b, lock), d)"
| "resolve_packages env overlay old ((module, version) # mods) b lock d =
     (let key = package_key module version in
      case ReplacementDirAbs overlay module of
        Some localDir \<Rightarrow>
          (case AddFromDir (fe_builder env) localDir b of
             None \<Rightarrow> None
           | Some (Inl e, _) \<Rightarrow> Some (Inl (LocalReplace localDir e), d)
           | Some (Inr _, b') \<Rightarrow> resolve_packages env overlay old mods b' lock d)
      | None \<Rightarrow>
          (case AddFromRegistryWithExpected module version (map_option as_metadata (map_of old key)) b d of
             (Inl e, _, d') \<Rightarrow> Some (Inl (PackageError e), d')
           | (Inr metadata, b', d') \<Rightarrow>
               resolve_packages env overlay old mods b' (AList.update key (as_entry metadata) lock) d'))"

definition sorted_modules :: "(ModulePath, Version) gomap \<Rightarrow> (ModulePath \<times> Version) list" where
  "sorted_modules parsed = go_sort (\<lambda>a b. fst a < fst b) parsed"

definition file_Resolve ::
  "('sig, 'p) file_env \<Rightarrow> 'sig loaded resolver_env \<Rightarrow> ToolsetFile \<Rightarrow> disk
     \<Rightarrow> ((toolsetfile_error + ('sig, 'p) ResolvedToolset) \<times> disk) option" where
  "file_Resolve env resolver f d =
     (case tf_parsedPackages f of
        None \<Rightarrow> Some (Inl NotLoaded, d)
      | Some parsed \<Rightarrow>
          (case existing_lock env d f of
             Inl e \<Rightarrow> Some (Inl e, d)
           | Inr old \<Rightarrow>
               (case file_LoadLocal (fe_decodeLocal env) d f of
                  Inl e \<Rightarrow> Some (Inl e, d)
                | Inr overlay \<Rightarrow>
                    (case resolve_packages env overlay old (sorted_modules parsed) (NewWithResolver resolver) old d of
                       None \<Rightarrow> None
                     | Some (Inl e, d') \<Rightarrow> Some (Inl e, d')
                     | Some (Inr (b, lock), d') \<Rightarrow>
                         let written = (if tf_lockFilename f = [] then (Inr (), d')
                            else lock_Write (fe_rfc3339 env) (fe_jstr env) (fe_fault env) (fe_temp env)
                                   \<lparr>lf_Packages = Some lock, lf_parsedPackages = None\<rparr> (tf_lockFilename f) d') in
                         (case written of
                            (Inl e, d'') \<Rightarrow> Some (Inl e, d'')
                          | (Inr _, d'') \<Rightarrow>
                              Some (map_sum BindError id
                                (builder_Resolve (fe_cel env) (fe_builder env) b
                                  \<lparr>cf_Tools = [], cf_ResourceBindings = [], cf_Context = None, cf_Credentials = []\<rparr>), d''))))))"

end
