(* ===== verification/Toolset_File_Props.thy ===== *)
theory Toolset_File_Props
  imports Toolset_File
begin

text \<open>
  Toolset files: validation and version changes keep the file consistent, files are written
  atomically and independently of map order, and a resolved lock reproduces the resolution.
\<close>

section \<open>Maps and sorted keys\<close>

lemma set_sorted_keys [simp]: "set (sorted_keys m) = dom (map_of m)"
  by (auto simp: sorted_keys_def dom_map_of_conv_image_fst)

lemma sorted_keys_eq:
  assumes "gomap_ok m" "gomap_ok m'" "map_of m = map_of m'"
  shows "sorted_keys m = sorted_keys m'"
proof -
  have "set (map fst m) = set (map fst m')" using assms(3) by (metis dom_map_of_conv_image_fst set_map)
  moreover have "distinct (map fst m)" "distinct (map fst m')" using assms by (auto simp: gomap_ok_def)
  ultimately show ?thesis
    unfolding sorted_keys_def sort_strings_eq by (intro sorted_distinct_set_unique) auto
qed

section \<open>Validation\<close>

abbreviation or_empty :: "string option \<Rightarrow> string" where
  "or_empty v \<equiv> (case v of None \<Rightarrow> [] | Some x \<Rightarrow> x)"

lemma parse_packages_Inr:
  "parse_packages pkgs keys acc = Inr res \<longleftrightarrow>
     (\<forall>k\<in>set keys. is_ok (ParseModulePath k) \<and> is_ok (ParseVersion (or_empty (map_of pkgs k)))) \<and>
     res = fold (\<lambda>k. AList.update k (or_empty (map_of pkgs k))) keys acc"
proof (induction keys arbitrary: acc)
  case (Cons k keys)
  show ?case
  proof (cases "ParseModulePath k")
    case (Inr m)
    then have [simp]: "m = k" by (simp add: parse_Inr)
    show ?thesis
    proof (cases "ParseVersion (or_empty (map_of pkgs k))")
      case (Inr v)
      moreover from this have "v = or_empty (map_of pkgs k)" by (simp add: parse_Inr)
      ultimately show ?thesis using \<open>ParseModulePath k = Inr m\<close> Cons by simp
    qed (use \<open>ParseModulePath k = Inr m\<close> in simp)
  qed simp
qed auto

lemma map_of_fold_update:
  "map_of (fold (\<lambda>k. AList.update k (g k)) keys acc) k = (if k \<in> set keys then Some (g k) else map_of acc k)"
  by (induction keys arbitrary: acc) auto

lemma gomap_ok_fold_update: "gomap_ok acc \<Longrightarrow> gomap_ok (fold (\<lambda>k. AList.update k (g k)) keys acc)"
  by (induction keys arbitrary: acc) auto

lemma parse_packages_all:
  assumes "parse_packages pkgs (sorted_keys pkgs) [] = Inr parsed"
  shows "map_of parsed = map_of pkgs" "gomap_ok parsed"
proof -
  have p: "parsed = fold (\<lambda>k. AList.update k (or_empty (map_of pkgs k))) (sorted_keys pkgs) []"
    using assms by (simp add: parse_packages_Inr)
  then show "gomap_ok parsed" by (simp add: gomap_ok_fold_update)
  show "map_of parsed = map_of pkgs"
    unfolding p by (rule ext) (auto simp: map_of_fold_update split: option.splits)
qed

definition tool_matches :: "(ModulePath \<rightharpoonup> Version) \<Rightarrow> ToolEntry \<Rightarrow> ToolFQN \<Rightarrow> bool" where
  "tool_matches declared t fqn =
     (ParseToolFQN (te_Tool t) = Inr fqn \<and> declared (fqn_Module fqn) = Some (fqn_Version fqn))"

lemma parse_tools_Inr:
  "parse_tools parsed i ts = (Inr (), ts') \<longleftrightarrow>
     list_all2 (\<lambda>t t'. \<exists>fqn. tool_matches (map_of parsed) t fqn \<and> t' = t\<lparr>te_parsed := fqn\<rparr>) ts ts'"
proof (induction ts arbitrary: i ts')
  case (Cons t ts)
  obtain r ts2 where R: "parse_tools parsed (Suc i) ts = (r, ts2)" by force
  have IH: "r = Inr () \<and> ts2 = zs \<longleftrightarrow>
      list_all2 (\<lambda>t t'. \<exists>fqn. tool_matches (map_of parsed) t fqn \<and> t' = t\<lparr>te_parsed := fqn\<rparr>) ts zs" for zs
    using Cons[of "Suc i" zs] R by simp
  show ?case
    using R unfolding list_all2_Cons1 IH[symmetric]
    by (auto simp: tool_matches_def split: sum.splits option.splits)
qed auto

text \<open>A file as \<open>Load\<close> leaves it: its packages parse, every tool is declared at its version, and the
  parsed parts are those of the text.\<close>

definition file_ok :: "ToolsetFile \<Rightarrow> bool" where
  "file_ok f = (\<exists>pkgs parsed. tf_Packages f = Some pkgs \<and> gomap_ok pkgs \<and>
     list_all (\<lambda>(k, v). is_ok (ParseModulePath k) \<and> is_ok (ParseVersion v)) pkgs \<and>
     list_all (\<lambda>t. tool_matches (map_of pkgs) t (te_parsed t)) (tf_Tools f) \<and>
     tf_parsedPackages f = Some parsed \<and> gomap_ok parsed \<and> map_of parsed = map_of pkgs)"

lemma file_validate_Inr:
  assumes "file_validate f = (Inr (), f')" "tf_Packages f = Some pkgs" "gomap_ok pkgs"
  shows "file_ok f'" "tf_Packages f' = Some pkgs"
    "list_all2 (\<lambda>t t'. tool_matches (map_of pkgs) t (te_parsed t') \<and> te_Tool t' = te_Tool t) (tf_Tools f) (tf_Tools f')"
proof -
  obtain parsed ts where P: "parse_packages pkgs (sorted_keys pkgs) [] = Inr parsed"
    "parse_tools parsed 0 (tf_Tools f) = (Inr (), ts)" "f' = f\<lparr>tf_Tools := ts, tf_parsedPackages := Some parsed\<rparr>"
    using assms(1,2) by (auto simp: file_validate_def Let_def split: sum.splits prod.splits)
  note M = parse_packages_all[OF P(1)]
  have T: "list_all2 (\<lambda>t t'. \<exists>fqn. tool_matches (map_of pkgs) t fqn \<and> t' = t\<lparr>te_parsed := fqn\<rparr>) (tf_Tools f) ts"
    using P(2) unfolding parse_tools_Inr M(1) .
  show L: "list_all2 (\<lambda>t t'. tool_matches (map_of pkgs) t (te_parsed t') \<and> te_Tool t' = te_Tool t) (tf_Tools f) (tf_Tools f')"
    using T P(3) by (auto elim!: list_all2_mono)
  show "tf_Packages f' = Some pkgs" using assms(2) P(3) by simp
  have "list_all (\<lambda>t. tool_matches (map_of pkgs) t (te_parsed t)) (tf_Tools f')"
    using L by (auto simp: list_all_length list_all2_conv_all_nth tool_matches_def)
  moreover have "is_ok (ParseModulePath k) \<and> is_ok (ParseVersion v)" if "(k, v) \<in> set pkgs" for k v
  proof -
    have "map_of pkgs k = Some v" using that assms(3) by (simp add: gomap_in_set_iff)
    then have "k \<in> set (sorted_keys pkgs)" "or_empty (map_of pkgs k) = v" by auto
    then show ?thesis using P(1) unfolding parse_packages_Inr by metis
  qed
  then have "list_all (\<lambda>(k, v). is_ok (ParseModulePath k) \<and> is_ok (ParseVersion v)) pkgs" by (auto simp: list_all_iff)
  ultimately show "file_ok f'" using assms P(3) M by (auto simp: file_ok_def)
qed

lemma file_validate_ok:
  assumes "tf_Packages f = Some pkgs" "gomap_ok pkgs"
    "list_all (\<lambda>(k, v). is_ok (ParseModulePath k) \<and> is_ok (ParseVersion v)) pkgs"
    "list_all (\<lambda>t. tool_matches (map_of pkgs) t (te_parsed t)) (tf_Tools f)"
  shows "\<exists>parsed. file_validate f = (Inr (), f\<lparr>tf_parsedPackages := Some parsed\<rparr>)"
proof -
  obtain parsed where P: "parse_packages pkgs (sorted_keys pkgs) [] = Inr parsed"
    using assms(2,3) parse_packages_Inr[of pkgs "sorted_keys pkgs" "[]"]
    by (fastforce simp: list_all_iff gomap_in_set_iff dom_def)
  have "parse_tools parsed 0 (tf_Tools f) = (Inr (), tf_Tools f)"
    using assms(4) unfolding parse_tools_Inr parse_packages_all(1)[OF P]
    by (fastforce simp: list_all_length list_all2_conv_all_nth)
  then show ?thesis using P assms(1) by (auto simp: file_validate_def)
qed

section \<open>Writing\<close>

lemma write_via_temp_Inr:
  "write_via_temp fault temp filename data d = (Inr (), d') \<longleftrightarrow>
     fault = None \<and> d' = AList.delete temp (AList.update filename data (AList.delete temp (AList.update temp data d)))"
  by (auto simp: write_via_temp_def split: option.splits write_step.splits)

lemma write_via_temp_map:
  assumes "write_via_temp fault temp filename data d = (r, d')" "map_of d temp = None" "filename \<noteq> temp"
  shows "map_of d' = (if fault = None then (map_of d)(filename \<mapsto> data) else map_of d)"
  using assms by (auto simp: write_via_temp_def fun_eq_iff split: option.splits write_step.splits)

lemma lock_text_cong:
  assumes "gomap_ok m" "gomap_ok m'" "map_of m = map_of m'"
  shows "lock_text jstr m = lock_text jstr m'"
proof -
  have "m = [] \<longleftrightarrow> m' = []" using assms(3) by (metis dom_eq_empty_conv dom_map_of_conv_image_fst image_is_empty set_empty)
  then show ?thesis
    using sorted_keys_eq[OF assms] assms(3) by (simp add: lock_text_def lock_line_def[abs_def] lock_entry_def)
qed

lemma file_text_cong:
  assumes "gomap_ok m" "gomap_ok m'" "map_of m = map_of m'"
  shows "file_text jstr m tools = file_text jstr m' tools"
proof -
  have "m = [] \<longleftrightarrow> m' = []" using assms(3) by (metis dom_eq_empty_conv dom_map_of_conv_image_fst image_is_empty set_empty)
  then show ?thesis
    using sorted_keys_eq[OF assms] assms(3) by (simp add: file_text_def package_line_def[abs_def])
qed

section \<open>The lock\<close>

definition lock_ok :: "(string \<Rightarrow> string option) \<Rightarrow> (string \<rightharpoonup> ToolsetLockEntry) \<Rightarrow> bool" where
  "lock_ok rfc m = (\<forall>k e. m k = Some e \<longrightarrow> is_ok (ParsePackageVer k) \<and> entry_validate rfc e = Inr ())"

lemma parse_lock_Inr:
  "is_ok (parse_lock rfc pkgs keys acc) \<longleftrightarrow>
     (\<forall>k\<in>set keys. is_ok (ParsePackageVer k) \<and> entry_validate rfc (lock_entry pkgs k) = Inr ())"
  by (induction keys arbitrary: acc) (auto split: sum.splits)

lemma lock_validate_ok:
  "is_ok (fst (lock_validate rfc f)) \<longleftrightarrow> lock_ok rfc (map_of (map_or_nil (lf_Packages f)))"
  "map_or_nil (lf_Packages (snd (lock_validate rfc f))) = map_or_nil (lf_Packages f)"
proof -
  let ?m = "map_or_nil (lf_Packages f)"
  have "lock_ok rfc (map_of ?m) \<longleftrightarrow> is_ok (parse_lock rfc ?m (sorted_keys ?m) [])"
    unfolding lock_ok_def parse_lock_Inr lock_entry_def by (auto simp: dom_def)
  then show "is_ok (fst (lock_validate rfc f)) \<longleftrightarrow> lock_ok rfc (map_of ?m)"
    by (auto simp: lock_validate_def Let_def split: sum.splits)
  show "map_or_nil (lf_Packages (snd (lock_validate rfc f))) = ?m"
    by (auto simp: lock_validate_def Let_def split: sum.splits)
qed

lemma lock_validate_cases:
  obtains f' where "lock_ok rfc (map_of (map_or_nil (lf_Packages f)))" "lock_validate rfc f = (Inr (), f')"
      "map_or_nil (lf_Packages f') = map_or_nil (lf_Packages f)"
    | e f' where "\<not> lock_ok rfc (map_of (map_or_nil (lf_Packages f)))" "lock_validate rfc f = (Inl e, f')"
proof -
  obtain r f' where R: "lock_validate rfc f = (r, f')" by force
  note V = lock_validate_ok[of rfc f, unfolded R, simplified]
  show ?thesis using that R V by (cases r) auto
qed

lemma lock_Write_Inr:
  "lock_Write rfc jstr fault temp \<lparr>lf_Packages = Some m, lf_parsedPackages = p\<rparr> filename d = (Inr (), d') \<longleftrightarrow>
     lock_ok rfc (map_of m) \<and> write_via_temp fault temp filename (lock_text jstr m) d = (Inr (), d')"
  by (rule lock_validate_cases[of rfc "\<lparr>lf_Packages = Some m, lf_parsedPackages = p\<rparr>"])
    (auto simp: lock_Write_def lock_encodeStable_def)

lemma LoadLock_Inr:
  assumes "map_of d filename = Some data" "decode data = Inr m" "lock_ok rfc (map_of m)"
  shows "\<exists>lock. LoadLock rfc decode d filename = Inr lock \<and> map_or_nil (lf_Packages lock) = m"
  by (rule lock_validate_cases[of rfc "\<lparr>lf_Packages = Some m, lf_parsedPackages = None\<rparr>"])
    (use assms in \<open>auto simp: LoadLock_def\<close>)

lemma entry_validate_as_entry: "entry_validate rfc (as_entry m) = metadata_Validate rfc m"
  by (simp add: entry_validate_def metadata_Validate_def as_entry_def ResolvedFromGitHubRelease_def ResolvedFromGitSource_def)

lemma as_metadata_entry [simp]: "as_metadata (as_entry m) = m"
  by (simp add: as_metadata_def as_entry_def)

text \<open>The key of a lock entry determines module and version.\<close>

lemma package_key_inj:
  assumes "is_ok (ParseVersion v)" "is_ok (ParseVersion v')" "package_key m v = package_key m' v'"
  shows "m = m' \<and> v = v'"
  using assms version_no_slash_at[of v] version_no_slash_at[of v'] last_sep_unique[of m "CHR ''@''" v m' v']
  by (auto simp: package_key_def)

section \<open>Resolving again\<close>

text \<open>The packages that come from the registry, and the files of the disk that resolving them writes.\<close>

definition remote :: "ToolsetLocalFile option \<Rightarrow> (ModulePath \<times> Version) list \<Rightarrow> (ModulePath \<times> Version) list" where
  "remote overlay mods = filter (\<lambda>(m, v). ReplacementDirAbs overlay m = None) mods"

definition remote_files :: "string \<Rightarrow> ToolsetLocalFile option \<Rightarrow> (ModulePath \<times> Version) list \<Rightarrow> string set" where
  "remote_files root overlay mods = (\<Union>(m, v)\<in>set (remote overlay mods). cache_files root m v)"

definition remote_keys :: "ToolsetLocalFile option \<Rightarrow> (ModulePath \<times> Version) list \<Rightarrow> string set" where
  "remote_keys overlay mods = (\<lambda>(m, v). package_key m v) ` set (remote overlay mods)"

definition remote_ok :: "string \<Rightarrow> ToolsetLocalFile option \<Rightarrow> (ModulePath \<times> Version) list \<Rightarrow> bool" where
  "remote_ok root overlay mods =
     (clean_abs root \<and> root \<noteq> ''/'' \<and> distinct (map fst mods) \<and>
      list_all (\<lambda>(m, v). plain_module m \<and> ParseVersion v = Inr v) (remote overlay mods))"

lemma remote_simps [simp]:
  "remote overlay [] = []"
  "remote overlay ((m, v) # mods) = (if ReplacementDirAbs overlay m = None then (m, v) # remote overlay mods else remote overlay mods)"
  by (simp_all add: remote_def)

lemma remote_files_simps [simp]:
  "remote_files root overlay ((m, v) # mods) =
     (if ReplacementDirAbs overlay m = None then cache_files root m v else {}) \<union> remote_files root overlay mods"
  "remote_keys overlay ((m, v) # mods) =
     (if ReplacementDirAbs overlay m = None then {package_key m v} else {}) \<union> remote_keys overlay mods"
  by (auto simp: remote_files_def remote_keys_def)

lemma remote_ok_Cons:
  assumes "remote_ok root overlay ((m, v) # mods)"
  shows "remote_ok root overlay mods"
    "ReplacementDirAbs overlay m = None \<Longrightarrow> cache_files root m v \<inter> remote_files root overlay mods = {}"
    "ReplacementDirAbs overlay m = None \<Longrightarrow> package_key m v \<notin> remote_keys overlay mods"
proof -
  show R: "remote_ok root overlay mods" using assms by (auto simp: remote_ok_def split: if_splits)
  have ne: "m' \<noteq> m \<and> plain_module m' \<and> ParseVersion v' = Inr v'" if "(m', v') \<in> set (remote overlay mods)" for m' v'
    using that assms by (auto simp: remote_ok_def remote_def list_all_iff split: if_splits) force+
  assume r: "ReplacementDirAbs overlay m = None"
  then have m: "plain_module m" "ParseVersion v = Inr v" "clean_abs root" "root \<noteq> ''/''"
    using assms by (auto simp: remote_ok_def)
  show "cache_files root m v \<inter> remote_files root overlay mods = {}"
  proof -
    have "cache_files root m v \<inter> cache_files root m' v' = {}" if "(m', v') \<in> set (remote overlay mods)" for m' v'
      using ne[OF that] m cache_files_disjoint[of root m m' v v'] by auto
    then show ?thesis by (auto simp: remote_files_def)
  qed
  show "package_key m v \<notin> remote_keys overlay mods"
  proof
    assume "package_key m v \<in> remote_keys overlay mods"
    then obtain m' v' where "(m', v') \<in> set (remote overlay mods)" "package_key m v = package_key m' v'"
      by (auto simp: remote_keys_def)
    then show False using ne[of m' v'] m(2) package_key_inj[of v v' m m'] by auto
  qed
qed

lemma AddFromRegistry_Inr:
  assumes "AddFromRegistryWithExpected m v e b d = (Inr md, b', d')" "bd_resolver b = Some R"
  obtains res where "is_ok (ParseModulePath m)" "is_ok (ParseVersion v)"
    "ResolveWithExpected R d m v e = (Inr res, d')" "md = rr_Metadata res" "b' = append_pkg (rr_Package res) b"
  using assms that
  by (auto simp: AddFromRegistryWithExpected_def parse_Inr split: sum.splits prod.splits)

lemma AddFromRegistry_ok:
  assumes "is_ok (ParseModulePath m)" "is_ok (ParseVersion v)" "bd_resolver b = Some R"
    "ResolveWithExpected R d m v e = (Inr res, d')"
  shows "AddFromRegistryWithExpected m v e b d = (Inr (rr_Metadata res), append_pkg (rr_Package res) b, d')"
proof -
  have "ParseModulePath m = Inr m" "ParseVersion v = Inr v" using assms(1,2) parse_Inr by (metis is_ok_iff)+
  then show ?thesis using assms(3,4) by (simp add: AddFromRegistryWithExpected_def)
qed

lemma append_pkg_simps [simp]:
  "bd_resolver (append_pkg p b) = bd_resolver b" "bd_packages (append_pkg p b) = bd_packages b @ [p]"
  by (simp_all add: append_pkg_def)

lemma AddFromDir_Some:
  "AddFromDir env dir b = Some (Inr u, b') \<longleftrightarrow> (\<exists>pkg. LoadDev env dir = Some (Inr pkg) \<and> b' = append_pkg pkg b)"
proof (cases "LoadDev env dir")
  case (Some r)
  then show ?thesis by (cases r) (auto simp: AddFromDir_def)
qed (simp add: AddFromDir_def)

text \<open>Resolving writes only the files of the remote packages and changes only their lock entries.\<close>

lemma resolve_packages_frame:
  assumes "resolve_packages env overlay old mods b lock d = Some (Inr (b', lock'), d')" "bd_resolver b = Some R"
  shows "bd_resolver b' = Some R \<and> (gomap_ok lock \<longrightarrow> gomap_ok lock') \<and>
    (\<forall>x. x \<notin> remote_files (re_root R) overlay mods \<longrightarrow> map_of d' x = map_of d x) \<and>
    (\<forall>k. k \<notin> remote_keys overlay mods \<longrightarrow> map_of lock' k = map_of lock k)"
  using assms
proof (induction mods arbitrary: b lock d)
  case (Cons mv mods)
  obtain m v where mv: "mv = (m, v)" by (cases mv)
  show ?case
  proof (cases "ReplacementDirAbs overlay m")
    case (Some dir)
    then obtain b1 where "AddFromDir (fe_builder env) dir b = Some (Inr (), b1)"
      "resolve_packages env overlay old mods b1 lock d = Some (Inr (b', lock'), d')"
      using Cons.prems(1) mv by (auto simp: Let_def split: option.splits sum.splits prod.splits)
    then show ?thesis using Cons.IH[of b1 lock d] Cons.prems(2) Some mv by (auto simp: AddFromDir_Some)
  next
    case None
    let ?key = "package_key m v"
    obtain md b1 d1 where A: "AddFromRegistryWithExpected m v (map_option as_metadata (map_of old ?key)) b d = (Inr md, b1, d1)"
      "resolve_packages env overlay old mods b1 (AList.update ?key (as_entry md) lock) d1 = Some (Inr (b', lock'), d')"
      using Cons.prems(1) mv None by (auto simp: Let_def split: sum.splits prod.splits)
    obtain res where R: "ResolveWithExpected R d m v (map_option as_metadata (map_of old ?key)) = (Inr res, d1)"
      "b1 = append_pkg (rr_Package res) b"
      by (rule AddFromRegistry_Inr[OF A(1) Cons.prems(2)])
    show ?thesis
      using Cons.IH[OF A(2)] R(2) Cons.prems(2) ResolveWithExpected_frame[OF R(1)] None mv by auto
  qed
qed simp

text \<open>Replaying: with the new lock as the old one, and the cache files as the first run left them, the
  same packages are added without any source and without writing.\<close>

text \<open>A module resolved once is resolved again from the cache files it left and its lock entry, whatever the sources.\<close>

lemma add_replay:
  assumes A: "AddFromRegistryWithExpected m v expected b d = (Inr md, b1, d1)"
    and R: "bd_resolver b = Some R" "env_ok R" and valid: "entry_validate (re_rfc3339 R) (as_entry md) = Inr ()"
    and same: "\<forall>x\<in>cache_files (re_root R) m v. map_of D x = map_of d1 x"
  obtains pkg where "b1 = append_pkg pkg b"
    "\<And>c. bd_resolver c = Some (R\<lparr>re_sources := srcs, re_can_write := w\<rparr>) \<Longrightarrow>
      AddFromRegistryWithExpected m v (Some md) c D = (Inr md, append_pkg pkg c, D)"
proof -
  obtain res where res: "is_ok (ParseModulePath m)" "is_ok (ParseVersion v)"
    "ResolveWithExpected R d m v expected = (Inr res, d1)"
    "md = rr_Metadata res" "b1 = append_pkg (rr_Package res) b"
    by (rule AddFromRegistry_Inr[OF A R(1)])
  have "metadata_Validate (re_rfc3339 R) (rr_Metadata res) = Inr ()"
    using valid res(4) unfolding entry_validate_as_entry[symmetric] by simp
  moreover obtain a where "served R d1 m v res a" using ResolveWithExpected_Inr[OF res(3) R(2)] by blast
  then have "served R D m v res a" by (rule served_cong) (use same in blast)
  ultimately have "ResolveWithExpected (R\<lparr>re_sources := srcs, re_can_write := w\<rparr>) D m v (Some (rr_Metadata res)) = (Inr res, D)"
    by (intro served_replay)
  then show thesis using AddFromRegistry_ok[OF res(1,2)] res(4,5) by (intro that[of "rr_Package res"]) simp_all
qed

lemma resolve_packages_replay:
  assumes "resolve_packages env overlay old mods b lock d = Some (Inr (b', lock'), d')" "bd_resolver b = Some R"
    "env_ok R" "remote_ok (re_root R) overlay mods" "re_rfc3339 R = rfc" "lock_ok rfc (map_of lock')"
    "\<forall>x\<in>remote_files (re_root R) overlay mods. map_of D x = map_of d' x"
    "\<forall>k\<in>remote_keys overlay mods. map_of old2 k = map_of lock' k"
    "bd_resolver c = Some (R\<lparr>re_sources := srcs, re_can_write := w\<rparr>)" "bd_packages c = bd_packages b"
  shows "\<exists>c' lock2'. resolve_packages env overlay old2 mods c lock2 D = Some (Inr (c', lock2'), D) \<and>
    bd_packages c' = bd_packages b' \<and> (gomap_ok lock2 \<longrightarrow> gomap_ok lock2') \<and>
    (\<forall>k. map_of lock2' k = (if k \<in> remote_keys overlay mods then map_of lock' k else map_of lock2 k))"
  using assms
proof (induction mods arbitrary: b lock d c lock2)
  case Nil
  then show ?case by (auto simp: remote_keys_def)
next
  case (Cons mv mods)
  obtain m v where mv: "mv = (m, v)" by (cases mv)
  note ok = remote_ok_Cons[OF Cons.prems(4)[unfolded mv]]
  show ?case
  proof (cases "ReplacementDirAbs overlay m")
    case (Some dir)
    then obtain pkg where P: "LoadDev (fe_builder env) dir = Some (Inr pkg)"
      "resolve_packages env overlay old mods (append_pkg pkg b) lock d = Some (Inr (b', lock'), d')"
      using Cons.prems(1) mv by (auto simp: Let_def AddFromDir_Some split: option.splits sum.splits prod.splits)
    have "AddFromDir (fe_builder env) dir c = Some (Inr (), append_pkg pkg c)" using P(1) by (simp add: AddFromDir_Some)
    then show ?thesis
      using Cons.IH[OF P(2), of "append_pkg pkg c" lock2] Cons.prems(2-) ok(1) Some mv by (simp add: Let_def)
  next
    case None
    let ?key = "package_key m v" and ?R = "R\<lparr>re_sources := srcs, re_can_write := w\<rparr>"
    obtain md b1 d1 where A: "AddFromRegistryWithExpected m v (map_option as_metadata (map_of old ?key)) b d = (Inr md, b1, d1)"
      "resolve_packages env overlay old mods b1 (AList.update ?key (as_entry md) lock) d1 = Some (Inr (b', lock'), d')"
      using Cons.prems(1) mv None by (auto simp: Let_def split: sum.splits prod.splits)
    have b1: "bd_resolver b1 = Some R" using AddFromRegistry_Inr[OF A(1) Cons.prems(2)] Cons.prems(2) by (metis append_pkg_simps(1))
    note frame = resolve_packages_frame[OF A(2) b1]
    have entry: "map_of lock' ?key = Some (as_entry md)" using frame ok(3)[OF None] by simp
    then have valid: "entry_validate (re_rfc3339 R) (as_entry md) = Inr ()"
      using Cons.prems(5,6) unfolding lock_ok_def by blast
    have "\<forall>x\<in>cache_files (re_root R) m v. map_of D x = map_of d1 x"
      using ok(2)[OF None] frame Cons.prems(7) None mv by auto
    then obtain pkg where pkg: "b1 = append_pkg pkg b"
      "\<And>c. bd_resolver c = Some ?R \<Longrightarrow> AddFromRegistryWithExpected m v (Some md) c D = (Inr md, append_pkg pkg c, D)"
      by (rule add_replay[OF A(1) Cons.prems(2,3) valid, where srcs = srcs and w = w]) blast
    have again: "AddFromRegistryWithExpected m v (map_option as_metadata (map_of old2 ?key)) c D = (Inr md, append_pkg pkg c, D)"
      using pkg(2)[OF Cons.prems(9)] entry Cons.prems(8) None mv by simp
    have "\<exists>c' lock2'. resolve_packages env overlay old2 mods (append_pkg pkg c) (AList.update ?key (as_entry md) lock2) D =
          Some (Inr (c', lock2'), D) \<and> bd_packages c' = bd_packages b' \<and>
        (gomap_ok (AList.update ?key (as_entry md) lock2) \<longrightarrow> gomap_ok lock2') \<and>
        (\<forall>k. map_of lock2' k = (if k \<in> remote_keys overlay mods then map_of lock' k
           else map_of (AList.update ?key (as_entry md) lock2) k))"
      using Cons.prems(7-10) None mv pkg(1)
      by (intro Cons.IH[OF A(2) b1 Cons.prems(3) ok(1) Cons.prems(5,6)]) auto
    then show ?thesis using again entry ok(3)[OF None] None mv by (auto simp: Let_def)
  qed
qed

lemma builder_Resolve_cong:
  "bd_packages b = bd_packages b' \<Longrightarrow> builder_Resolve cel env b cfg = builder_Resolve cel env b' cfg"
  by (simp add: builder_Resolve_def)

lemma existing_lock_ok:
  assumes "existing_lock env d f = Inr old" "\<forall>b p. fe_decodeLock env b = Inr p \<longrightarrow> gomap_ok p"
  shows "gomap_ok old"
proof (cases "tf_lockFilename f = []")
  case False
  show ?thesis
  proof (cases "LoadLock (fe_rfc3339 env) (fe_decodeLock env) d (tf_lockFilename f)")
    case (Inl e)
    then show ?thesis using assms False by (cases e) (auto simp: existing_lock_def)
  next
    case (Inr lock)
    then obtain m f' where "fe_decodeLock env (the (map_of d (tf_lockFilename f))) = Inr m"
      "lock_validate (fe_rfc3339 env) \<lparr>lf_Packages = Some m, lf_parsedPackages = None\<rparr> = (Inr (), lock)"
      by (auto simp: LoadLock_def split: option.splits sum.splits prod.splits)
    moreover from this have "map_or_nil (lf_Packages lock) = m"
      using lock_validate_ok(2)[of "fe_rfc3339 env" "\<lparr>lf_Packages = Some m, lf_parsedPackages = None\<rparr>"] by simp
    ultimately show ?thesis using assms Inr False by (auto simp: existing_lock_def)
  qed
qed (use assms in \<open>simp add: existing_lock_def\<close>)

lemma file_LoadLocal_cong:
  "map_of d (tf_localFilename f) = map_of d' (tf_localFilename f) \<Longrightarrow> file_LoadLocal decode d f = file_LoadLocal decode d' f"
  by (simp add: file_LoadLocal_def LoadLocal_def)

text \<open>The names a toolset file uses on the disk are apart from each other and from the cache.\<close>

definition names_apart :: "('sig, 'p) file_env \<Rightarrow> string \<Rightarrow> ToolsetFile \<Rightarrow> (ModulePath \<times> Version) list \<Rightarrow> disk \<Rightarrow> bool" where
  "names_apart env root f mods d =
     (distinct [tf_lockFilename f, tf_localFilename f, fe_temp env] \<and> map_of d (fe_temp env) = None \<and>
      list_all (\<lambda>(m, v). list_all (\<lambda>n. n \<notin> cache_files root m v) [tf_lockFilename f, tf_localFilename f, fe_temp env]) mods)"

lemma set_sorted_modules [simp]: "set (sorted_modules p) = set p"
  by (simp add: sorted_modules_def)

lemma file_Resolve_Inr:
  assumes "file_Resolve env R f d = Some (Inr ts, d')" "tf_parsedPackages f = Some parsed" "tf_lockFilename f \<noteq> []"
  obtains old overlay b lock d1 where "existing_lock env d f = Inr old" "file_LoadLocal (fe_decodeLocal env) d f = Inr overlay"
    "resolve_packages env overlay old (sorted_modules parsed) (NewWithResolver R) old d = Some (Inr (b, lock), d1)"
    "lock_ok (fe_rfc3339 env) (map_of lock)"
    "write_via_temp (fe_fault env) (fe_temp env) (tf_lockFilename f) (lock_text (fe_jstr env) lock) d1 = (Inr (), d')"
    "map_sum BindError id (builder_Resolve (fe_cel env) (fe_builder env) b
       \<lparr>cf_Tools = [], cf_ResourceBindings = [], cf_Context = None, cf_Credentials = []\<rparr>) = Inr ts"
proof -
  obtain old where old: "existing_lock env d f = Inr old"
    using assms by (cases "existing_lock env d f") (auto simp: file_Resolve_def)
  obtain overlay where ov: "file_LoadLocal (fe_decodeLocal env) d f = Inr overlay"
    using assms old by (cases "file_LoadLocal (fe_decodeLocal env) d f") (auto simp: file_Resolve_def)
  obtain b lock d1 where rp: "resolve_packages env overlay old (sorted_modules parsed) (NewWithResolver R) old d = Some (Inr (b, lock), d1)"
    using assms old ov
    by (auto simp: file_Resolve_def split: option.splits prod.splits sum.splits)
  obtain r d2 where w: "lock_Write (fe_rfc3339 env) (fe_jstr env) (fe_fault env) (fe_temp env)
       \<lparr>lf_Packages = Some lock, lf_parsedPackages = None\<rparr> (tf_lockFilename f) d1 = (r, d2)" by force
  have fin: "r = Inr () \<and> d2 = d' \<and> map_sum BindError id (builder_Resolve (fe_cel env) (fe_builder env) b
       \<lparr>cf_Tools = [], cf_ResourceBindings = [], cf_Context = None, cf_Credentials = []\<rparr>) = Inr ts"
    using assms old ov rp w by (cases r) (auto simp: file_Resolve_def Let_def)
  then have "lock_ok (fe_rfc3339 env) (map_of lock)"
    "write_via_temp (fe_fault env) (fe_temp env) (tf_lockFilename f) (lock_text (fe_jstr env) lock) d1 = (Inr (), d')"
    using w lock_Write_Inr[of "fe_rfc3339 env" "fe_jstr env" "fe_fault env" "fe_temp env" lock None "tf_lockFilename f" d1 d'] by auto
  then show ?thesis using that[OF old ov rp] fin by blast
qed

text \<open>Conversely, a run whose steps succeed succeeds; and a written lock is the existing lock of the
  next run.\<close>

lemma file_Resolve_ok:
  assumes "tf_parsedPackages f = Some parsed" "tf_lockFilename f \<noteq> []"
    "existing_lock env d f = Inr old" "file_LoadLocal (fe_decodeLocal env) d f = Inr overlay"
    "resolve_packages env overlay old (sorted_modules parsed) (NewWithResolver R) old d = Some (Inr (b, lock), d1)"
    "lock_ok (fe_rfc3339 env) (map_of lock)"
    "write_via_temp (fe_fault env) (fe_temp env) (tf_lockFilename f) (lock_text (fe_jstr env) lock) d1 = (Inr (), d')"
    "map_sum BindError id (builder_Resolve (fe_cel env) (fe_builder env) b
       \<lparr>cf_Tools = [], cf_ResourceBindings = [], cf_Context = None, cf_Credentials = []\<rparr>) = Inr ts"
  shows "file_Resolve env R f d = Some (Inr ts, d')"
proof -
  have "lock_Write (fe_rfc3339 env) (fe_jstr env) (fe_fault env) (fe_temp env)
      \<lparr>lf_Packages = Some lock, lf_parsedPackages = None\<rparr> (tf_lockFilename f) d1 = (Inr (), d')"
    unfolding lock_Write_Inr using assms(6,7) by simp
  then show ?thesis using assms by (simp add: file_Resolve_def)
qed

lemma existing_lock_reload:
  assumes "map_of d (tf_lockFilename f) = Some data" "fe_decodeLock env data = Inr lock'" "lock_ok (fe_rfc3339 env) (map_of lock')"
    "tf_lockFilename f \<noteq> []"
  shows "existing_lock env d f = Inr lock'"
  using LoadLock_Inr[of d "tf_lockFilename f" data "fe_decodeLock env" lock' "fe_rfc3339 env"] assms
  by (auto simp: existing_lock_def)

text \<open>The lock that a run computes.\<close>

definition resolved_lock :: "('sig, 'p) file_env \<Rightarrow> 'sig loaded resolver_env \<Rightarrow> ToolsetFile \<Rightarrow> disk \<Rightarrow> (string, ToolsetLockEntry) gomap" where
  "resolved_lock env R f d =
     (case (existing_lock env d f, file_LoadLocal (fe_decodeLocal env) d f) of
        (Inr old, Inr overlay) \<Rightarrow>
          (case resolve_packages env overlay old (sorted_modules (map_or_nil (tf_parsedPackages f))) (NewWithResolver R) old d of
             Some (Inr (b, lock), d1) \<Rightarrow> lock | _ \<Rightarrow> [])
      | _ \<Rightarrow> [])"

section \<open>Properties\<close>

text \<open>
  C3. A lock file reproduces the resolution: after a toolset file was resolved, its lock file is there
  and resolving it again gives the same toolset, from the lock and the cache alone: no source is
  asked (they may be any, or none), nothing is written to the cache, and the disk, the lock
  file included, is as before.  The decoder must read back what was written, up to the order of
  the map.
\<close>

theorem resolve_reproducible:
  assumes run: "file_Resolve env R f d = Some (Inr ts, d')" "tf_parsedPackages f = Some parsed" "tf_lockFilename f \<noteq> []"
    and R: "env_ok R" "re_rfc3339 R = fe_rfc3339 env"
    and apart: "clean_abs (re_root R)" "re_root R \<noteq> ''/''" "gomap_ok parsed"
      "list_all (\<lambda>(m, v). plain_module m \<and> ParseVersion v = Inr v) parsed" "names_apart env (re_root R) f parsed d"
    and decoder: "\<forall>b p. fe_decodeLock env b = Inr p \<longrightarrow> gomap_ok p"
      "fe_decodeLock env (lock_text (fe_jstr env) (resolved_lock env R f d)) = Inr lock'"
      "map_of lock' = map_of (resolved_lock env R f d)"
  shows "map_of d' (tf_lockFilename f) = Some (lock_text (fe_jstr env) (resolved_lock env R f d)) \<and>
    (\<exists>d''. file_Resolve env (R\<lparr>re_sources := srcs, re_can_write := w\<rparr>) f d' = Some (Inr ts, d'') \<and> map_of d'' = map_of d')"
proof -
  let ?R = "R\<lparr>re_sources := srcs, re_can_write := w\<rparr>" and ?mods = "sorted_modules parsed"
  obtain old overlay b lock d1 where S: "existing_lock env d f = Inr old" "file_LoadLocal (fe_decodeLocal env) d f = Inr overlay"
    "resolve_packages env overlay old ?mods (NewWithResolver R) old d = Some (Inr (b, lock), d1)"
    "lock_ok (fe_rfc3339 env) (map_of lock)"
    "write_via_temp (fe_fault env) (fe_temp env) (tf_lockFilename f) (lock_text (fe_jstr env) lock) d1 = (Inr (), d')"
    "map_sum BindError id (builder_Resolve (fe_cel env) (fe_builder env) b
       \<lparr>cf_Tools = [], cf_ResourceBindings = [], cf_Context = None, cf_Credentials = []\<rparr>) = Inr ts"
    by (rule file_Resolve_Inr[OF run])
  have res: "bd_resolver (NewWithResolver R) = Some R" by (simp add: NewWithResolver_def)
  note frame = resolve_packages_frame[OF S(3) res]
  let ?files = "remote_files (re_root R) overlay ?mods"
  have names: "tf_lockFilename f \<notin> ?files" "tf_localFilename f \<notin> ?files" "fe_temp env \<notin> ?files"
    "tf_lockFilename f \<noteq> fe_temp env" "tf_localFilename f \<noteq> tf_lockFilename f" "tf_localFilename f \<noteq> fe_temp env"
    "map_of d (fe_temp env) = None"
    using apart(5) by (auto simp: names_apart_def remote_files_def remote_def list_all_iff)
  have fault: "fe_fault env = None" using S(5) by (simp add: write_via_temp_Inr)
  have D: "map_of d' = (map_of d1)(tf_lockFilename f \<mapsto> lock_text (fe_jstr env) lock)"
    using write_via_temp_map[OF S(5)] names frame fault by simp
  have mods: "remote_ok (re_root R) overlay ?mods"
    using apart by (auto simp: remote_ok_def sorted_modules_def gomap_ok_def list_all_iff remote_def distinct_map)
  have olds: "gomap_ok lock" using frame existing_lock_ok[OF S(1) decoder(1)] by blast
  have "resolved_lock env R f d = lock" using S(1-3) run(2) by (simp add: resolved_lock_def)
  then have L: "fe_decodeLock env (lock_text (fe_jstr env) lock) = Inr lock'" "map_of lock' = map_of lock"
    and lockE: "resolved_lock env R f d = lock" using decoder by auto
  have "\<exists>d''. file_Resolve env ?R f d' = Some (Inr ts, d'') \<and> map_of d'' = map_of d'"
  proof -
    have E: "existing_lock env d' f = Inr lock'" using existing_lock_reload[OF _ L(1) _ run(3), of d'] D L(2) S(4) by simp
    have O: "file_LoadLocal (fe_decodeLocal env) d' f = Inr overlay"
      using S(2) file_LoadLocal_cong[of d' f d] D names frame by simp
    have same: "\<forall>x\<in>?files. map_of d' x = map_of d1 x" using D names(1) by auto
    have keys: "\<forall>k\<in>remote_keys overlay ?mods. map_of lock' k = map_of lock k" using L(2) by simp
    obtain c lock2 where C: "resolve_packages env overlay lock' ?mods (NewWithResolver ?R) lock' d' = Some (Inr (c, lock2), d')"
      "bd_packages c = bd_packages b" "gomap_ok lock' \<longrightarrow> gomap_ok lock2"
      "\<forall>k. map_of lock2 k = (if k \<in> remote_keys overlay ?mods then map_of lock k else map_of lock' k)"
      using resolve_packages_replay[OF S(3) res R(1) mods R(2) S(4) same keys, of "NewWithResolver ?R" w srcs lock']
      by (auto simp: NewWithResolver_def)
    have lock2: "map_of lock2 = map_of lock" "gomap_ok lock2" using C(3,4) L decoder(1) by (auto simp: fun_eq_iff)
    obtain d'' where W: "write_via_temp None (fe_temp env) (tf_lockFilename f) (lock_text (fe_jstr env) lock2) d' = (Inr (), d'')"
      by (simp add: write_via_temp_Inr)
    have d'': "map_of d'' = map_of d'"
      using write_via_temp_map[OF W] names D frame lock_text_cong[OF lock2(2) olds lock2(1)] by auto
    have "file_Resolve env ?R f d' = Some (Inr ts, d'')"
      by (rule file_Resolve_ok[OF run(2,3) E O C(1)]) (use S(4,6) lock2(1) W fault builder_Resolve_cong[OF C(2), of "fe_cel env" "fe_builder env"] in simp_all)
    then show ?thesis using d'' by blast
  qed
  then show ?thesis using D lockE by auto
qed

definition demo_lp :: "unit loaded" where
  "demo_lp = \<lparr>lp_Package = demo_pkg ''tools/t.ts'', lp_Files = ArchiveFiles \<lparr>am_files = [], am_dirs = []\<rparr>, lp_Dir = []\<rparr>"

definition demo_R :: "unit loaded resolver_env" where
  "demo_R = \<lparr>re_sha = demo_sha, re_rfc3339 = (\<lambda>s. if s = ''t'' then Some s else None),
     re_load = (\<lambda>a m. Inr demo_lp), re_root = ''/c'', re_can_write = (\<lambda>p. True),
     re_sources = map (source_fetch demo_sha (\<lambda>s. if s = ''t'' then Some s else None) ''t'')
       [GitSource demo_git (\<lambda>h. Inr (''ab'', ''man'')) []]\<rparr>"

definition demo_be :: "unit builder_env" where
  "demo_be = \<lparr>be_decodeDev = (\<lambda>b. Inl []), be_singularize = (\<lambda>s. s), be_glob = (\<lambda>d p. []), be_dirs = (\<lambda>d. []),
     be_extract = \<lparr>tx_Extract = (\<lambda>f e. None), tx_Tags = (\<lambda>s. [])\<rparr>,
     be_codec = \<lparr>co_tar = (\<lambda>es. []), co_untar = (\<lambda>b. Inl []), co_encode = (\<lambda>p. []), co_decode = (\<lambda>b. Inl []),
       co_sha = (\<lambda>b. [])\<rparr>, be_contents = (\<lambda>f. [])\<rparr>"

definition demo_fe :: "(unit, string) file_env" where
  "demo_fe = \<lparr>fe_builder = demo_be, fe_cel = demo_cel, fe_rfc3339 = (\<lambda>s. if s = ''t'' then Some s else None), fe_jstr = quote,
     fe_decodeLock = (\<lambda>b. Inr [(''x.org/y@v1.0.0'', as_entry demo_meta)]), fe_decodeLocal = (\<lambda>b. Inl []),
     fe_temp = ''/w/tmp'', fe_fault = None\<rparr>"

definition demo_file :: ToolsetFile where
  "demo_file = \<lparr>tf_Packages = Some [(''x.org/y'', ''v1.0.0'')],
     tf_Tools = [\<lparr>te_Tool = ''x.org/y@v1.0.0/a.b'', te_parsed = \<lparr>fqn_Module = ''x.org/y'', fqn_Version = ''v1.0.0'', fqn_Tool = ''a.b''\<rparr>\<rparr>],
     tf_parsedPackages = Some [(''x.org/y'', ''v1.0.0'')], tf_filename = ''/w/a.toolset.json'',
     tf_lockFilename = ''/w/a.toolset.lock'', tf_localFilename = ''/w/a.toolset.local.json''\<rparr>"

theorem resolve_reproducible_witness:
  "\<exists>ts d' d''. file_Resolve demo_fe demo_R demo_file [] = Some (Inr ts, d') \<and> d' \<noteq> [] \<and>
     file_Resolve demo_fe (demo_R\<lparr>re_sources := [], re_can_write := (\<lambda>p. False)\<rparr>) demo_file d' = Some (Inr ts, d'') \<and>
     map_of d'' = map_of d'"
proof -
  have "(case file_Resolve demo_fe demo_R demo_file [] of Some (Inr ts, d') \<Rightarrow> d' \<noteq> [] | _ \<Rightarrow> False)" by code_simp
  then obtain ts d' where run: "file_Resolve demo_fe demo_R demo_file [] = Some (Inr ts, d')" "d' \<noteq> []"
    by (auto split: option.splits prod.splits sum.splits)
  have p: "tf_parsedPackages demo_file = Some [(''x.org/y'', ''v1.0.0'')]" "tf_lockFilename demo_file \<noteq> []"
    by (simp_all add: demo_file_def)
  have ok: "env_ok demo_R"
    unfolding env_ok_def demo_R_def
    by (rule exI[of _ "''t''"], rule exI[of _ "[GitSource demo_git (\<lambda>h. Inr (''ab'', ''man'')) []]"]) simp
  have rfc: "re_rfc3339 demo_R = fe_rfc3339 demo_fe" by (simp add: demo_R_def demo_fe_def)
  have apart: "clean_abs (re_root demo_R)" "re_root demo_R \<noteq> ''/''" "gomap_ok [(''x.org/y'', ''v1.0.0'')]"
    "list_all (\<lambda>(m, v). plain_module m \<and> ParseVersion v = Inr v) [(''x.org/y'', ''v1.0.0'')]"
    "names_apart demo_fe (re_root demo_R) demo_file [(''x.org/y'', ''v1.0.0'')] []" by code_simp+
  have lock: "resolved_lock demo_fe demo_R demo_file [] = [(''x.org/y@v1.0.0'', as_entry demo_meta)]" by code_simp
  have dec: "\<forall>b p. fe_decodeLock demo_fe b = Inr p \<longrightarrow> gomap_ok p"
    "fe_decodeLock demo_fe (lock_text (fe_jstr demo_fe) (resolved_lock demo_fe demo_R demo_file [])) =
       Inr [(''x.org/y@v1.0.0'', as_entry demo_meta)]"
    "map_of [(''x.org/y@v1.0.0'', as_entry demo_meta)] = map_of (resolved_lock demo_fe demo_R demo_file [])"
    unfolding lock by (simp_all add: demo_fe_def gomap_ok_def)
  from resolve_reproducible[OF run(1) p ok rfc apart dec] show ?thesis using run by blast
qed

text \<open>
  Changing a version keeps a toolset file consistent: on a loaded file, setting a declared module
  to a valid version always succeeds, the packages change at that module only, every tool of the
  module carries the new version (in its text and its parsed form) and every other tool its
  old text, in the same order, and the file is again one that \<open>Load\<close> accepts.
\<close>

lemma SetPackageVersion_consistent:
  assumes "file_ok f" "tf_Packages f = Some pkgs" "map_of pkgs m \<noteq> None" "is_ok (ParseVersion v)"
  shows "\<exists>f'. SetPackageVersion f m v = (Inr (), f') \<and> file_ok f' \<and>
    tf_Packages f' = Some (AList.update m v pkgs) \<and>
    list_all2 (\<lambda>t t'. if fqn_Module (te_parsed t) = m
        then te_parsed t' = (te_parsed t)\<lparr>fqn_Version := v\<rparr> \<and> te_Tool t' = ToolFQN_String (te_parsed t')
        else t' = t) (tf_Tools f) (tf_Tools f')"
proof -
  obtain parsed where F: "gomap_ok pkgs" "list_all (\<lambda>(k, v). is_ok (ParseModulePath k) \<and> is_ok (ParseVersion v)) pkgs"
    "list_all (\<lambda>t. tool_matches (map_of pkgs) t (te_parsed t)) (tf_Tools f)"
    using assms(1,2) by (auto simp: file_ok_def)
  let ?g = "f\<lparr>tf_Packages := Some (AList.update m v pkgs), tf_Tools := map (set_tool_version m v) (tf_Tools f)\<rparr>"
  have m: "is_ok (ParseModulePath m)"
    using assms(3) F(2) by (force simp: list_all_iff dest: map_of_SomeD)
  have pk: "list_all (\<lambda>(k, v). is_ok (ParseModulePath k) \<and> is_ok (ParseVersion v)) (AList.update m v pkgs)"
    using F(1,2) m assms(4) by (auto simp: list_all_iff gomap_in_set_iff split: if_splits)
  have "tool_matches (map_of (AList.update m v pkgs)) (set_tool_version m v t) (te_parsed (set_tool_version m v t))"
    if "t \<in> set (tf_Tools f)" for t
  proof -
    have t: "tool_matches (map_of pkgs) t (te_parsed t)" using that F(3) by (auto simp: list_all_iff)
    show ?thesis
    proof (cases "fqn_Module (te_parsed t) = m")
      case True
      let ?p = "te_parsed t"
      have parts: "is_ok (ParseModulePath (fqn_Module ?p))" "CHR ''@'' \<notin> set (fqn_Module ?p)" "is_ok (ParseToolPath (fqn_Tool ?p))"
        using t ParseToolFQN_Inr_parts by (auto simp: tool_matches_def)
      then have "ParseToolFQN (ToolFQN_String (?p\<lparr>fqn_Version := v\<rparr>)) = Inr (?p\<lparr>fqn_Version := v\<rparr>)"
        using ParseToolFQN_printed[of "fqn_Module ?p" v "fqn_Tool ?p"] assms(4) by (simp add: ToolFQN_String_def)
      then show ?thesis using True by (simp add: set_tool_version_def tool_matches_def Let_def)
    qed (use t in \<open>simp add: set_tool_version_def tool_matches_def\<close>)
  qed
  then have tools: "list_all (\<lambda>t. tool_matches (map_of (AList.update m v pkgs)) t (te_parsed t)) (tf_Tools ?g)"
    by (simp add: list_all_iff)
  obtain parsed' where V: "file_validate ?g = (Inr (), ?g\<lparr>tf_parsedPackages := Some parsed'\<rparr>)"
    using file_validate_ok[of ?g "AList.update m v pkgs"] F(1) pk tools by auto
  have ok: "file_ok (?g\<lparr>tf_parsedPackages := Some parsed'\<rparr>)"
    using file_validate_Inr(1)[OF V] F(1) by simp
  have "list_all2 (\<lambda>t t'. if fqn_Module (te_parsed t) = m
        then te_parsed t' = (te_parsed t)\<lparr>fqn_Version := v\<rparr> \<and> te_Tool t' = ToolFQN_String (te_parsed t')
        else t' = t) (tf_Tools f) (map (set_tool_version m v) (tf_Tools f))"
    by (simp add: list_all2_conv_all_nth set_tool_version_def Let_def)
  then show ?thesis
    using V ok assms(2,3) by (intro exI[of _ "?g\<lparr>tf_parsedPackages := Some parsed'\<rparr>"]) (simp add: SetPackageVersion_def)
qed

text \<open>
  C34. The lock file is written atomically and its bytes do not depend on the iteration order of maps:
  writing succeeds exactly when the entries are valid and no step fails; when it fails, at any step,
  every file of the disk is as before; when it succeeds only the named file changed, and a lock that
  is equal as a map gives the same bytes.
\<close>

theorem lock_write_atomic:
  assumes "lock_Write rfc jstr fault temp \<lparr>lf_Packages = Some m, lf_parsedPackages = p\<rparr> filename d = (r, d')"
    "map_of d temp = None" "filename \<noteq> temp" "gomap_ok m" "gomap_ok m'" "map_of m' = map_of m"
  shows "(case r of
      Inl e \<Rightarrow> map_of d' = map_of d
    | Inr _ \<Rightarrow> map_of d' = (map_of d)(filename \<mapsto> lock_text jstr m')) \<and>
    (is_ok r \<longleftrightarrow> fault = None \<and> lock_ok rfc (map_of m))"
proof (rule lock_validate_cases[of rfc "\<lparr>lf_Packages = Some m, lf_parsedPackages = p\<rparr>"])
  fix f' assume v: "lock_ok rfc (map_of (map_or_nil (lf_Packages \<lparr>lf_Packages = Some m, lf_parsedPackages = p\<rparr>)))"
    "lock_validate rfc \<lparr>lf_Packages = Some m, lf_parsedPackages = p\<rparr> = (Inr (), f')"
    "map_or_nil (lf_Packages f') = map_or_nil (lf_Packages \<lparr>lf_Packages = Some m, lf_parsedPackages = p\<rparr>)"
  then have W: "write_via_temp fault temp filename (lock_text jstr m) d = (r, d')"
    using assms(1) by (simp add: lock_Write_def lock_encodeStable_def)
  have "is_ok r \<longleftrightarrow> fault = None" using W by (auto simp: write_via_temp_def split: option.splits write_step.splits)
  then show ?thesis
    using v(1) write_via_temp_map[OF W assms(2,3)] lock_text_cong[OF assms(5,4,6)] by (cases r) auto
next
  fix e f' assume "\<not> lock_ok rfc (map_of (map_or_nil (lf_Packages \<lparr>lf_Packages = Some m, lf_parsedPackages = p\<rparr>)))"
    "lock_validate rfc \<lparr>lf_Packages = Some m, lf_parsedPackages = p\<rparr> = (Inl e, f')"
  then show ?thesis using assms(1) by (auto simp: lock_Write_def lock_encodeStable_def)
qed

theorem lock_write_atomic_witness:
  "\<exists>d'. lock_Write (\<lambda>s. None) quote (Some (RenameTemp, ''partial'')) ''/w/tmp'' \<lparr>lf_Packages = Some [], lf_parsedPackages = None\<rparr>
      ''/w/l'' [(''/w/l'', ''old'')] = (Inl (WriteFailed RenameTemp), d') \<and> map_of d' = map_of [(''/w/l'', ''old'')]"
proof -
  let ?w = "lock_Write (\<lambda>s. None) quote (Some (RenameTemp, ''partial'')) ''/w/tmp'' \<lparr>lf_Packages = Some [], lf_parsedPackages = None\<rparr>
      ''/w/l'' [(''/w/l'', ''old'')]"
  have e: "?w = (Inl (WriteFailed RenameTemp), snd ?w)" by code_simp
  have "map_of (snd ?w) = map_of [(''/w/l'', ''old'')]"
    using lock_write_atomic[OF e, of "[]"] by simp
  then show ?thesis using e by blast
qed

section \<open>Where the files fall short\<close>

text \<open>The tools of the file play no part in resolving: all tools of its packages are in the toolset.\<close>

lemma Resolve_ignores_tools: "file_Resolve env R (f\<lparr>tf_Tools := ts\<rparr>) d = file_Resolve env R f d"
proof -
  have e: "existing_lock env d (f\<lparr>tf_Tools := ts\<rparr>) = existing_lock env d f"
    "file_LoadLocal (fe_decodeLocal env) d (f\<lparr>tf_Tools := ts\<rparr>) = file_LoadLocal (fe_decodeLocal env) d f"
    "tf_parsedPackages (f\<lparr>tf_Tools := ts\<rparr>) = tf_parsedPackages f"
    "tf_lockFilename (f\<lparr>tf_Tools := ts\<rparr>) = tf_lockFilename f"
    by (simp_all add: existing_lock_def file_LoadLocal_def)
  show ?thesis unfolding file_Resolve_def e ..
qed

text \<open>A module path with an at-sign passes the validation of a toolset file, but its lock key does not
  parse; and a package that is in the cache without a lock entry cannot be resolved, because the
  metadata of a cache hit fails the validation of the lock.\<close>

lemma lock_shortcomings:
  "is_ok (ParseModulePath ''x.org/y@z'') \<and> \<not> is_ok (ParsePackageVer (package_key ''x.org/y@z'' ''v1.0.0'')) \<and>
   (case file_Resolve demo_fe demo_R demo_file [] of
      Some (Inr ts, d) \<Rightarrow>
        (case file_Resolve demo_fe demo_R demo_file (AList.delete (tf_lockFilename demo_file) d) of
           Some (Inl (BadLockEntry k e), d') \<Rightarrow> True | _ \<Rightarrow> False)
    | _ \<Rightarrow> False)"
  by code_simp

end
