(* ===== verification/Secrets.thy ===== *)
theory Secrets
  imports Go_Path Machines
begin

text \<open>
  The secret store of \<open>secrets/secrets.go\<close> and \<open>secrets/local.go\<close>: a file encrypted with age that is
  decrypted at the first access, kept in memory, and written back through a temporary file at every
  change.  Parameters: the age library and the JSON codec of the map (\<open>secrets_env\<close>), and for every
  flush the name of its temporary file, the randomness of the encryption and the step that
  fails, if any (\<open>flush_env\<close>).  Every method holds the mutex of the store while it works, so the
  operations of concurrent callers are a sequence of the operations here.
\<close>

section \<open>The store\<close>

datatype flush_step =
    MakeDir | CreateTmp | InitEncrypt | WriteEncrypted | CloseEncrypted | ChmodTmp | CloseTmp | RenameTmp

datatype secrets_error =
    NotFound
  | InvalidKey
  | OpenIdentity
  | ParseIdentities string
  | NoIdentities
  | NoRecipient
  | ReadStore
  | DecryptStore string
  | ParseStore string
  | FlushFailed flush_step
  | NilMapPanic

record ('id, 'r) secrets_env =
  sn_readable :: "string \<Rightarrow> bool"
  sn_ParseIdentities :: "bytes \<Rightarrow> string + 'id list"
  sn_recipient :: "'id \<Rightarrow> 'r option"
  sn_Decrypt :: "'id list \<Rightarrow> bytes \<Rightarrow> string + bytes"
  sn_Encrypt :: "'r option \<Rightarrow> bytes \<Rightarrow> bytes \<Rightarrow> bytes"
  sn_Marshal :: "(string, bytes) gomap option \<Rightarrow> bytes"
  sn_Unmarshal :: "bytes \<Rightarrow> string + (string, bytes) gomap option"
  sn_UserConfigDir :: "string option"
  sn_HOME :: string

record flush_env =
  fl_temp :: string
  fl_nonce :: bytes
  fl_fault :: "(flush_step \<times> bytes) option"

record ('id, 'r) LocalSecretStore =
  ls_storePath :: string
  ls_identityPath :: string
  ls_once :: bool
  ls_unlockErr :: "secrets_error option"
  ls_data :: "(string, bytes) gomap option"
  ls_identities :: "'id list"
  ls_recipient :: "'r option"

definition config_dir :: "('id, 'r) secrets_env \<Rightarrow> string" where
  "config_dir env = (case sn_UserConfigDir env of Some c \<Rightarrow> c | None \<Rightarrow> path_Join [sn_HOME env, ''.config''])"

definition defaultStorePath :: "('id, 'r) secrets_env \<Rightarrow> string" where
  "defaultStorePath env = path_Join [config_dir env, ''toolbox'', ''secrets'']"

definition defaultIdentityPath :: "('id, 'r) secrets_env \<Rightarrow> string" where
  "defaultIdentityPath env = path_Join [config_dir env, ''age'', ''keys.txt'']"

definition NewLocalSecretStore :: "('id, 'r) secrets_env \<Rightarrow> string \<Rightarrow> string \<Rightarrow> ('id, 'r) LocalSecretStore" where
  "NewLocalSecretStore env storePath identityPath =
     \<lparr>ls_storePath = (if storePath = [] then defaultStorePath env else storePath),
      ls_identityPath = (if identityPath = [] then defaultIdentityPath env else identityPath),
      ls_once = False, ls_unlockErr = None, ls_data = None, ls_identities = [], ls_recipient = None\<rparr>"

definition validateKey :: "string \<Rightarrow> secrets_error + unit" where
  "validateKey key = (if key = [] then Inl InvalidKey else Inr ())"

definition recipientFromIdentity :: "('id, 'r) secrets_env \<Rightarrow> 'id \<Rightarrow> secrets_error + 'r" where
  "recipientFromIdentity env identity =
     (case sn_recipient env identity of None \<Rightarrow> Inl NoRecipient | Some r \<Rightarrow> Inr r)"

text \<open>Reading the store file: a missing file is an empty store.  A plaintext \<open>null\<close> decodes to the nil
  map.\<close>

definition read_store ::
  "('id, 'r) secrets_env \<Rightarrow> disk \<Rightarrow> string \<Rightarrow> 'id list \<Rightarrow> secrets_error + (string, bytes) gomap option" where
  "read_store env d path identities =
     (if \<not> sn_readable env path then Inl ReadStore
      else case map_of d path of
        None \<Rightarrow> Inr (Some [])
      | Some storeData \<Rightarrow>
          (case sn_Decrypt env identities storeData of
             Inl e \<Rightarrow> Inl (DecryptStore e)
           | Inr plaintext \<Rightarrow>
               (case sn_Unmarshal env plaintext of
                  Inl e \<Rightarrow> Inl (ParseStore e)
                | Inr data \<Rightarrow> Inr data)))"

definition unlock ::
  "('id, 'r) secrets_env \<Rightarrow> disk \<Rightarrow> ('id, 'r) LocalSecretStore \<Rightarrow> (secrets_error + unit) \<times> ('id, 'r) LocalSecretStore" where
  "unlock env d s =
     (case (if sn_readable env (ls_identityPath s) then map_of d (ls_identityPath s) else None) of
        None \<Rightarrow> (Inl OpenIdentity, s)
      | Some identityFile \<Rightarrow>
          (case sn_ParseIdentities env identityFile of
             Inl e \<Rightarrow> (Inl (ParseIdentities e), s)
           | Inr [] \<Rightarrow> (Inl NoIdentities, s)
           | Inr (i # is) \<Rightarrow>
               (case recipientFromIdentity env i of
                  Inl e \<Rightarrow> (Inl e, s)
                | Inr recipient \<Rightarrow>
                    let s' = s\<lparr>ls_identities := i # is, ls_recipient := Some recipient\<rparr> in
                    (case read_store env d (ls_storePath s) (i # is) of
                       Inl e \<Rightarrow> (Inl e, s')
                     | Inr data \<Rightarrow> (Inr (), s'\<lparr>ls_data := data\<rparr>)))))"

text \<open>\<open>sync.Once\<close>: the first call unlocks the store, later calls return the stored error.\<close>

definition ensureUnlocked ::
  "('id, 'r) secrets_env \<Rightarrow> disk \<Rightarrow> ('id, 'r) LocalSecretStore \<Rightarrow> (secrets_error + unit) \<times> ('id, 'r) LocalSecretStore" where
  "ensureUnlocked env d s =
     (let s1 = (if ls_once s then s
        else case unlock env d s of
            (Inl e, s') \<Rightarrow> s'\<lparr>ls_once := True, ls_unlockErr := Some e\<rparr>
          | (Inr _, s') \<Rightarrow> s'\<lparr>ls_once := True, ls_unlockErr := None\<rparr>)
      in (case ls_unlockErr s1 of Some e \<Rightarrow> Inl e | None \<Rightarrow> Inr (), s1))"

text \<open>The temporary file is removed on every path; after the renaming there is nothing to remove.  The code ignores an error of
  the removal, which is taken to succeed: otherwise the temporary file stays behind, which no operation reads.\<close>

definition flush ::
  "('id, 'r) secrets_env \<Rightarrow> flush_env \<Rightarrow> ('id, 'r) LocalSecretStore \<Rightarrow> disk \<Rightarrow> (secrets_error + unit) \<times> disk" where
  "flush env fl s d =
     (let ciphertext = sn_Encrypt env (ls_recipient s) (fl_nonce fl) (sn_Marshal env (ls_data s)) in
      case fl_fault fl of
        None \<Rightarrow> (Inr (), AList.delete (fl_temp fl) (AList.update (ls_storePath s) ciphertext (AList.update (fl_temp fl) ciphertext d)))
      | Some (step, partial) \<Rightarrow>
          (Inl (FlushFailed step),
           if step = MakeDir \<or> step = CreateTmp then d else AList.delete (fl_temp fl) (AList.update (fl_temp fl) partial d)))"

section \<open>The operations\<close>

type_synonym ('id, 'r) secrets_state = "('id, 'r) LocalSecretStore \<times> disk"

definition Get ::
  "('id, 'r) secrets_env \<Rightarrow> string \<Rightarrow> ('id, 'r) secrets_state \<Rightarrow> (secrets_error + bytes) \<times> ('id, 'r) secrets_state" where
  "Get env key st =
     (case st of (s, d) \<Rightarrow>
        (case validateKey key of
           Inl e \<Rightarrow> (Inl e, s, d)
         | Inr _ \<Rightarrow>
             (case ensureUnlocked env d s of
                (Inl e, s') \<Rightarrow> (Inl e, s', d)
              | (Inr _, s') \<Rightarrow>
                  (case Option.bind (ls_data s') (\<lambda>m. map_of m key) of
                     None \<Rightarrow> (Inl NotFound, s', d)
                   | Some val \<Rightarrow> (Inr val, s', d)))))"

definition Set ::
  "('id, 'r) secrets_env \<Rightarrow> flush_env \<Rightarrow> string \<Rightarrow> bytes \<Rightarrow> ('id, 'r) secrets_state
     \<Rightarrow> (secrets_error + unit) \<times> ('id, 'r) secrets_state" where
  "Set env fl key val st =
     (case st of (s, d) \<Rightarrow>
        (case validateKey key of
           Inl e \<Rightarrow> (Inl e, s, d)
         | Inr _ \<Rightarrow>
             (case ensureUnlocked env d s of
                (Inl e, s') \<Rightarrow> (Inl e, s', d)
              | (Inr _, s') \<Rightarrow>
                  (case ls_data s' of
                     None \<Rightarrow> (Inl NilMapPanic, s', d)
                   | Some m \<Rightarrow>
                       let s'' = s'\<lparr>ls_data := Some (AList.update key val m)\<rparr> in
                       (case flush env fl s'' d of (r, d') \<Rightarrow> (r, s'', d'))))))"

definition Delete ::
  "('id, 'r) secrets_env \<Rightarrow> flush_env \<Rightarrow> string \<Rightarrow> ('id, 'r) secrets_state
     \<Rightarrow> (secrets_error + unit) \<times> ('id, 'r) secrets_state" where
  "Delete env fl key st =
     (case st of (s, d) \<Rightarrow>
        (case validateKey key of
           Inl e \<Rightarrow> (Inl e, s, d)
         | Inr _ \<Rightarrow>
             (case ensureUnlocked env d s of
                (Inl e, s') \<Rightarrow> (Inl e, s', d)
              | (Inr _, s') \<Rightarrow>
                  (case Option.bind (ls_data s') (\<lambda>m. map_of m key) of
                     None \<Rightarrow> (Inl NotFound, s', d)
                   | Some _ \<Rightarrow>
                       let s'' = s'\<lparr>ls_data := map_option (AList.delete key) (ls_data s')\<rparr> in
                       (case flush env fl s'' d of (r, d') \<Rightarrow> (r, s'', d'))))))"

definition List_keys ::
  "('id, 'r) secrets_env \<Rightarrow> string \<Rightarrow> ('id, 'r) secrets_state \<Rightarrow> (secrets_error + string list) \<times> ('id, 'r) secrets_state" where
  "List_keys env prfx st =
     (case st of (s, d) \<Rightarrow>
        (case ensureUnlocked env d s of
           (Inl e, s') \<Rightarrow> (Inl e, s', d)
         | (Inr _, s') \<Rightarrow>
             (Inr (sort_strings (filter (\<lambda>k. HasPrefix k prfx)
                (case ls_data s' of None \<Rightarrow> [] | Some m \<Rightarrow> map_keys m))), s', d)))"

end
