(* ===== verification/Secrets_Props.thy ===== *)
theory Secrets_Props
  imports Secrets
begin

text \<open>
  What the secret store promises: the answers to any sequence of operations, failing writes and
  restarts included, are those of a map in memory and a map on disk.  The interface is the
  locale \<open>simulation\<close> of \<open>Machines\<close>, interpreted here on the store and its specification.
\<close>

section \<open>Specification\<close>

datatype secrets_op = OpGet string | OpSet flush_env string bytes | OpDelete flush_env string | OpList string | OpReopen

datatype secrets_result = Value bytes | Keys "string list" | Done | Failed secrets_error

definition secrets_step ::
  "('id, 'r) secrets_env \<Rightarrow> string \<Rightarrow> string \<Rightarrow> secrets_op \<Rightarrow> ('id, 'r) secrets_state \<Rightarrow> secrets_result \<times> ('id, 'r) secrets_state" where
  "secrets_step env storePath identityPath op st =
     (case op of
        OpGet k \<Rightarrow> map_prod (case_sum Failed Value) id (Get env k st)
      | OpSet fl k v \<Rightarrow> map_prod (case_sum Failed (\<lambda>_. Done)) id (Set env fl k v st)
      | OpDelete fl k \<Rightarrow> map_prod (case_sum Failed (\<lambda>_. Done)) id (Delete env fl k st)
      | OpList p \<Rightarrow> map_prod (case_sum Failed Keys) id (List_keys env p st)
      | OpReopen \<Rightarrow> (Done, NewLocalSecretStore env storePath identityPath, snd st))"

text \<open>A change takes effect in memory at once, and on disk when no step of the flush fails.\<close>

definition spec_change :: "flush_env \<Rightarrow> (string \<rightharpoonup> bytes) \<Rightarrow> (string \<rightharpoonup> bytes) \<Rightarrow> secrets_result \<times> (string \<rightharpoonup> bytes) \<times> (string \<rightharpoonup> bytes)" where
  "spec_change fl mem stored =
     (case fl_fault fl of None \<Rightarrow> (Done, mem, mem) | Some (st, _) \<Rightarrow> (Failed (FlushFailed st), mem, stored))"

definition spec_step :: "secrets_op \<Rightarrow> (string \<rightharpoonup> bytes) \<times> (string \<rightharpoonup> bytes) \<Rightarrow> secrets_result \<times> (string \<rightharpoonup> bytes) \<times> (string \<rightharpoonup> bytes)" where
  "spec_step op ms =
     (case ms of (mem, stored) \<Rightarrow>
        (case op of
           OpGet k \<Rightarrow>
             (if k = [] then Failed InvalidKey else case mem k of None \<Rightarrow> Failed NotFound | Some v \<Rightarrow> Value v, mem, stored)
         | OpSet fl k v \<Rightarrow>
             if k = [] then (Failed InvalidKey, mem, stored) else spec_change fl (mem(k \<mapsto> v)) stored
         | OpDelete fl k \<Rightarrow>
             if k = [] then (Failed InvalidKey, mem, stored)
             else if mem k = None then (Failed NotFound, mem, stored)
             else spec_change fl (mem(k := None)) stored
         | OpList p \<Rightarrow> (Keys (sorted_list_of_set {k \<in> dom mem. HasPrefix k p}), mem, stored)
         | OpReopen \<Rightarrow> (Done, stored, stored)))"

section \<open>The laws of the libraries\<close>

text \<open>JSON keeps a string exactly when it is valid UTF-8.\<close>

function utf8_bytes :: "nat list \<Rightarrow> bool" where
  "utf8_bytes [] = True"
| "utf8_bytes (b # bs) =
     (decode_rune (b # bs) \<noteq> (rune_error, 1) \<and> utf8_bytes (drop (snd (decode_rune (b # bs)) - 1) bs))"
  by pat_completeness auto
termination by (relation "measure length") auto

definition valid_utf8 :: "string \<Rightarrow> bool" where
  "valid_utf8 s = utf8_bytes (map byte_of s)"

definition json_law :: "('id, 'r) secrets_env \<Rightarrow> bool" where
  "json_law env \<longleftrightarrow> (\<forall>m. gomap_ok m \<and> (\<forall>k\<in>dom (map_of m). valid_utf8 k) \<longrightarrow>
     (\<exists>m'. sn_Unmarshal env (sn_Marshal env (Some m)) = Inr (Some m') \<and> gomap_ok m' \<and> map_of m' = map_of m))"

definition age_law :: "('id, 'r) secrets_env \<Rightarrow> bytes \<Rightarrow> bool" where
  "age_law env idfile \<longleftrightarrow> (\<exists>i is r. sn_ParseIdentities env idfile = Inr (i # is) \<and> sn_recipient env i = Some r \<and>
     (\<forall>nonce p. sn_Decrypt env (i # is) (sn_Encrypt env (Some r) nonce p) = Inr p))"

definition op_ok :: "string \<Rightarrow> string \<Rightarrow> secrets_op \<Rightarrow> bool" where
  "op_ok storePath identityPath op =
     (case op of
        OpSet fl k v \<Rightarrow> fl_temp fl \<noteq> storePath \<and> fl_temp fl \<noteq> identityPath \<and> valid_utf8 k
      | OpDelete fl k \<Rightarrow> fl_temp fl \<noteq> storePath \<and> fl_temp fl \<noteq> identityPath
      | _ \<Rightarrow> True)"

section \<open>The simulation\<close>

definition stored_in :: "('id, 'r) secrets_env \<Rightarrow> string \<Rightarrow> 'id list \<Rightarrow> disk \<Rightarrow> (string \<rightharpoonup> bytes) \<Rightarrow> bool" where
  "stored_in env storePath ids d stored \<longleftrightarrow>
     (\<exists>m. read_store env d storePath ids = Inr (Some m) \<and> gomap_ok m \<and> map_of m = stored) \<and> (\<forall>k\<in>dom stored. valid_utf8 k)"

definition held_by :: "('id, 'r) LocalSecretStore \<Rightarrow> 'id list \<Rightarrow> 'r \<Rightarrow> (string \<rightharpoonup> bytes) \<Rightarrow> bool" where
  "held_by s ids r mem \<longleftrightarrow>
     ls_once s \<and> ls_unlockErr s = None \<and> ls_recipient s = Some r \<and>
     (\<exists>m. ls_data s = Some m \<and> gomap_ok m \<and> map_of m = mem) \<and> (\<forall>k\<in>dom mem. valid_utf8 k)"

definition env_rel :: "('id, 'r) secrets_env \<Rightarrow> string \<Rightarrow> string \<Rightarrow> 'id list \<Rightarrow> 'r \<Rightarrow> bytes \<Rightarrow> bool" where
  "env_rel env sp ip ids r idfile \<longleftrightarrow> json_law env \<and> sp \<noteq> [] \<and> ip \<noteq> [] \<and> sp \<noteq> ip \<and> sn_readable env sp \<and> sn_readable env ip \<and>
     sn_ParseIdentities env idfile = Inr ids \<and> ids \<noteq> [] \<and> sn_recipient env (hd ids) = Some r \<and>
     (\<forall>nonce p. sn_Decrypt env ids (sn_Encrypt env (Some r) nonce p) = Inr p)"

definition store_rel ::
  "('id, 'r) secrets_env \<Rightarrow> string \<Rightarrow> string \<Rightarrow> 'id list \<Rightarrow> 'r \<Rightarrow> bytes \<Rightarrow> ('id, 'r) secrets_state
     \<Rightarrow> (string \<rightharpoonup> bytes) \<times> (string \<rightharpoonup> bytes) \<Rightarrow> bool" where
  "store_rel env sp ip ids r idfile st ms \<longleftrightarrow> env_rel env sp ip ids r idfile \<and>
     ls_storePath (fst st) = sp \<and> ls_identityPath (fst st) = ip \<and> map_of (snd st) ip = Some idfile \<and>
     stored_in env sp ids (snd st) (snd ms) \<and>
     (if ls_once (fst st) then held_by (fst st) ids r (fst ms) else fst ms = snd ms)"

lemma ensureUnlocked_rel:
  assumes "store_rel env sp ip ids r idfile (s, d) (mem, stored)"
  obtains s' where "ensureUnlocked env d s = (Inr (), s')" "held_by s' ids r mem"
    "ls_storePath s' = sp" "ls_identityPath s' = ip"
proof (cases "ls_once s")
  case True
  then show ?thesis using assms that[of s] by (auto simp: store_rel_def ensureUnlocked_def held_by_def)
next
  case False
  obtain i "is" where i: "ids = i # is" using assms by (cases ids) (auto simp: store_rel_def env_rel_def)
  obtain m where m: "read_store env d sp ids = Inr (Some m)" "gomap_ok m" "map_of m = mem" "\<forall>k\<in>dom mem. valid_utf8 k"
    using assms False by (auto simp: store_rel_def stored_in_def)
  let ?s = "s\<lparr>ls_identities := ids, ls_recipient := Some r, ls_data := Some m\<rparr>"
  have "unlock env d s = (Inr (), ?s)"
    using assms m(1) i by (simp add: unlock_def store_rel_def env_rel_def recipientFromIdentity_def Let_def)
  then show ?thesis
    using that[of "?s\<lparr>ls_once := True, ls_unlockErr := None\<rparr>"] assms m False
    by (simp add: ensureUnlocked_def held_by_def store_rel_def)
qed

text \<open>An operation that does not change the memory keeps the relation.\<close>

lemma store_rel_unlocked:
  assumes "store_rel env sp ip ids r idfile (s, d) (mem, stored)" "held_by s' ids r mem" "ls_storePath s' = sp" "ls_identityPath s' = ip"
  shows "store_rel env sp ip ids r idfile (s', d) (mem, stored)"
  using assms by (auto simp: store_rel_def held_by_def)

lemma flush_rel:
  assumes "env_rel env sp ip ids r idfile" "stored_in env sp ids d stored" "map_of d ip = Some idfile"
    "held_by s ids r mem" "ls_storePath s = sp" "ls_identityPath s = ip" "fl_temp fl \<noteq> sp" "fl_temp fl \<noteq> ip"
  shows "(case_sum Failed (\<lambda>_. Done) (fst (flush env fl s d)) = fst (spec_change fl mem stored)) \<and>
    store_rel env sp ip ids r idfile (s, snd (flush env fl s d)) (snd (spec_change fl mem stored))"
proof -
  obtain m where m: "ls_data s = Some m" "gomap_ok m" "map_of m = mem" "\<forall>k\<in>dom mem. valid_utf8 k"
    using assms(4) by (auto simp: held_by_def)
  obtain m' where m': "sn_Unmarshal env (sn_Marshal env (Some m)) = Inr (Some m')" "gomap_ok m'" "map_of m' = mem"
    using assms(1) m(2-4) unfolding env_rel_def json_law_def by blast
  have ct: "sn_Decrypt env ids (sn_Encrypt env (ls_recipient s) (fl_nonce fl) (sn_Marshal env (Some m))) = Inr (sn_Marshal env (Some m))"
    using assms(1,4) by (simp add: env_rel_def held_by_def)
  show ?thesis
  proof (cases "fl_fault fl")
    case None
    have "read_store env (snd (flush env fl s d)) sp ids = Inr (Some m')"
      using None m(1) m'(1) ct assms(1,5,7) by (simp add: flush_def read_store_def env_rel_def Let_def)
    then show ?thesis
      using None m m'(2,3) assms by (auto simp: store_rel_def stored_in_def flush_def spec_change_def env_rel_def held_by_def Let_def)
  next
    case (Some x)
    obtain st partial where x: "x = (st, partial)" by (cases x)
    have d: "map_of (snd (flush env fl s d)) sp = map_of d sp" "map_of (snd (flush env fl s d)) ip = map_of d ip"
      using Some x assms(7,8) by (simp_all add: flush_def Let_def)
    then have "read_store env (snd (flush env fl s d)) sp ids = read_store env d sp ids" by (simp add: read_store_def)
    then show ?thesis
      using Some x d assms by (simp add: store_rel_def stored_in_def spec_change_def held_by_def flush_def Let_def)
  qed
qed

lemma list_keys_spec:
  assumes "gomap_ok m"
  shows "sort_strings (filter (\<lambda>k. HasPrefix k p) (map_keys m)) = sorted_list_of_set {k \<in> dom (map_of m). HasPrefix k p}"
proof -
  have "{k \<in> dom (map_of m). HasPrefix k p} = set (filter (\<lambda>k. HasPrefix k p) (map_keys m))"
    by (auto simp flip: set_map_keys)
  moreover have "distinct (filter (\<lambda>k. HasPrefix k p) (map_keys m))" using assms by (simp add: gomap_ok_keys)
  ultimately show ?thesis
    by (simp only: sort_strings_eq sorted_list_of_set_sort_remdups distinct_remdups_id)
qed

lemma held_by_data: "held_by s ids r mem \<Longrightarrow> \<exists>m. ls_data s = Some m \<and> gomap_ok m \<and> map_of m = mem"
  by (auto simp: held_by_def)

lemma secrets_step_simulates:
  assumes R: "store_rel env sp ip ids r idfile st ms" and ok: "op_ok sp ip op"
  shows "fst (secrets_step env sp ip op st) = fst (spec_step op ms) \<and>
    store_rel env sp ip ids r idfile (snd (secrets_step env sp ip op st)) (snd (spec_step op ms))"
proof -
  obtain s d mem stored where st: "st = (s, d)" "ms = (mem, stored)" by (cases st, cases ms)
  have R': "store_rel env sp ip ids r idfile (s, d) (mem, stored)" using R st by simp
  obtain s' where U: "ensureUnlocked env d s = (Inr (), s')" "held_by s' ids r mem" "ls_storePath s' = sp" "ls_identityPath s' = ip"
    by (rule ensureUnlocked_rel[OF R'])
  obtain m where m: "ls_data s' = Some m" "gomap_ok m" "map_of m = mem" using held_by_data[OF U(2)] by blast
  have keep: "store_rel env sp ip ids r idfile (s', d) (mem, stored)" by (rule store_rel_unlocked[OF R' U(2-4)])
  have base: "env_rel env sp ip ids r idfile" "stored_in env sp ids d stored" "map_of d ip = Some idfile"
    using R' by (simp_all add: store_rel_def)
  show ?thesis
  proof (cases op)
    case (OpGet k)
    then show ?thesis
      using U(1) m keep R' by (simp add: st secrets_step_def spec_step_def Get_def validateKey_def split: option.split)
  next
    case (OpSet fl k v)
    let ?s = "s'\<lparr>ls_data := Some (AList.update k v m)\<rparr>"
    have "held_by ?s ids r (mem(k \<mapsto> v))" using U(2) m ok OpSet by (auto simp: held_by_def op_ok_def)
    then have "(case_sum Failed (\<lambda>_. Done) (fst (flush env fl ?s d)) = fst (spec_change fl (mem(k \<mapsto> v)) stored)) \<and>
      store_rel env sp ip ids r idfile (?s, snd (flush env fl ?s d)) (snd (spec_change fl (mem(k \<mapsto> v)) stored))"
      using flush_rel[OF base, of ?s "mem(k \<mapsto> v)" fl] U(3,4) ok OpSet by (simp add: op_ok_def)
    then show ?thesis
      using OpSet U(1) m R' by (simp add: st secrets_step_def spec_step_def Set_def validateKey_def case_prod_beta Let_def)
  next
    case (OpDelete fl k)
    let ?s = "s'\<lparr>ls_data := Some (AList.delete k m)\<rparr>"
    have "held_by ?s ids r (mem(k := None))" using U(2) m by (auto simp: held_by_def)
    then have "(case_sum Failed (\<lambda>_. Done) (fst (flush env fl ?s d)) = fst (spec_change fl (mem(k := None)) stored)) \<and>
      store_rel env sp ip ids r idfile (?s, snd (flush env fl ?s d)) (snd (spec_change fl (mem(k := None)) stored))"
      using flush_rel[OF base, of ?s "mem(k := None)" fl] U(3,4) ok OpDelete by (simp add: op_ok_def)
    then show ?thesis
      using OpDelete U(1) m R' keep
      by (simp add: st secrets_step_def spec_step_def Delete_def validateKey_def case_prod_beta Let_def split: option.split)
  next
    case (OpList p)
    then show ?thesis
      using U(1) m keep list_keys_spec[OF m(2), of p] by (simp add: st secrets_step_def spec_step_def List_keys_def)
  next
    case OpReopen
    then show ?thesis
      using R' by (simp add: st secrets_step_def spec_step_def store_rel_def NewLocalSecretStore_def env_rel_def)
  qed
qed

interpretation secrets: simulation "secrets_step env sp ip" spec_step "store_rel env sp ip ids r idfile" "op_ok sp ip"
  for env :: "('id, 'r) secrets_env" and sp ip ids r idfile
  by unfold_locales (simp_all add: secrets_step_simulates)

lemma fresh_store_rel:
  assumes "json_law env" "age_law env idfile" "map_of d ip = Some idfile" "map_of d sp = None" "sp \<noteq> []" "ip \<noteq> []" "sp \<noteq> ip"
    "sn_readable env sp" "sn_readable env ip"
  obtains ids r where "store_rel env sp ip ids r idfile (NewLocalSecretStore env sp ip, d) (Map.empty, Map.empty)"
proof -
  obtain i "is" r where "sn_ParseIdentities env idfile = Inr (i # is)" "sn_recipient env i = Some r"
    "\<forall>nonce p. sn_Decrypt env (i # is) (sn_Encrypt env (Some r) nonce p) = Inr p"
    using assms(2) unfolding age_law_def by blast
  then show thesis
    using assms by (intro that[of "i # is" r]) (simp add: store_rel_def env_rel_def stored_in_def NewLocalSecretStore_def read_store_def gomap_ok_def)
qed

section \<open>Properties\<close>

text \<open>
  C10. The secret store refines its specification: starting from a fresh store with a usable identity,
  every sequence of gets, sets, deletes, listings and restarts is answered as by a pair of maps, one
  in memory and one on disk.  A set or a delete changes the memory at once and the disk exactly when
  no step of the flush fails; a restart brings back what is on disk.  So a set that succeeded is read
  back after any restart, and a flush that failed at any step leaves the former secrets on disk.
\<close>

theorem secrets_refine:
  assumes "json_law env" "age_law env idfile" "map_of d identityPath = Some idfile" "map_of d storePath = None"
    "storePath \<noteq> []" "identityPath \<noteq> []" "storePath \<noteq> identityPath" "sn_readable env storePath" "sn_readable env identityPath"
    "list_all (op_ok storePath identityPath) ops"
  shows "fst (run_all (secrets_step env storePath identityPath) ops (NewLocalSecretStore env storePath identityPath, d)) =
    fst (run_all spec_step ops (Map.empty, Map.empty))"
proof -
  obtain ids r where "store_rel env storePath identityPath ids r idfile (NewLocalSecretStore env storePath identityPath, d) (Map.empty, Map.empty)"
    by (rule fresh_store_rel[OF assms(1-9)])
  from secrets.simulates[OF this assms(10)] show ?thesis by simp
qed

text \<open>For the witness: an encoding of maps by that of strings, and a cipher that prefixes the nonce.\<close>

fun dec_pairs :: "nat \<Rightarrow> string \<Rightarrow> (string \<times> string) list" where
  "dec_pairs 0 s = []"
| "dec_pairs (Suc n) s =
     (if s = [] then [] else let (k, r) = dec_str s; (v, r') = dec_str r in (k, v) # dec_pairs n r')"

definition enc_pairs :: "(string \<times> string) list \<Rightarrow> string" where
  "enc_pairs m = concat (map (\<lambda>(k, v). enc_str k @ enc_str v) m)"

definition demo_secrets :: "(string, string) secrets_env" where
  "demo_secrets = \<lparr>sn_readable = (\<lambda>p. True), sn_ParseIdentities = (\<lambda>b. Inr [b]), sn_recipient = Some,
     sn_Decrypt = (\<lambda>ids b. Inr (snd (dec_str b))), sn_Encrypt = (\<lambda>r n p. enc_str n @ p),
     sn_Marshal = (\<lambda>m. case m of None \<Rightarrow> ''null'' | Some m \<Rightarrow> enc_pairs m),
     sn_Unmarshal = (\<lambda>b. if b = ''null'' then Inr None else Inr (Some (dec_pairs (length b) b))),
     sn_UserConfigDir = None, sn_HOME = ''/home/u''\<rparr>"

lemma dec_enc_pairs: "length m \<le> n \<Longrightarrow> dec_pairs n (enc_pairs m) = m"
proof (induction m arbitrary: n)
  case Nil
  then show ?case by (cases n) (simp_all add: enc_pairs_def)
next
  case (Cons kv m)
  obtain k v n' where "kv = (k, v)" "n = Suc n'" using Cons.prems by (cases kv, cases n) auto
  moreover have "enc_str k \<noteq> []" by (simp add: enc_str_def)
  ultimately show ?case using Cons by (simp add: enc_pairs_def)
qed

lemma length_enc_pairs: "length m \<le> length (enc_pairs m)"
  by (induction m) (auto simp: enc_pairs_def enc_str_def)

lemma enc_pairs_not_null: "enc_pairs m \<noteq> ''null''"
proof (cases m)
  case (Cons kv m')
  then show ?thesis by (cases kv, cases "fst kv") (simp_all add: enc_pairs_def enc_str_def)
qed (simp add: enc_pairs_def)

lemma demo_secrets_laws: "json_law demo_secrets" "age_law demo_secrets b"
  using dec_enc_pairs[OF length_enc_pairs] enc_pairs_not_null
  by (auto simp: json_law_def age_law_def demo_secrets_def)

theorem secrets_refine_witness:
  "let f1 = \<lparr>fl_temp = ''/c/t1'', fl_nonce = ''n'', fl_fault = None\<rparr>;
       f2 = \<lparr>fl_temp = ''/c/t2'', fl_nonce = ''m'', fl_fault = Some (RenameTmp, ''xx'')\<rparr> in
   fst (run_all (secrets_step demo_secrets ''/c/s'' ''/c/k'')
       [OpSet f1 ''a'' ''1'', OpSet f2 ''b'' ''2'', OpGet ''b'', OpReopen, OpGet ''a'', OpGet ''b'', OpList []]
       (NewLocalSecretStore demo_secrets ''/c/s'' ''/c/k'', [(''/c/k'', ''key'')])) =
     [Done, Failed (FlushFailed RenameTmp), Value ''2'', Done, Value ''1'', Failed NotFound, Keys [''a'']]"
proof -
  let ?f1 = "\<lparr>fl_temp = ''/c/t1'', fl_nonce = ''n'', fl_fault = None\<rparr>"
  let ?f2 = "\<lparr>fl_temp = ''/c/t2'', fl_nonce = ''m'', fl_fault = Some (RenameTmp, ''xx'')\<rparr>"
  let ?ops = "[OpSet ?f1 ''a'' ''1'', OpSet ?f2 ''b'' ''2'', OpGet ''b'', OpReopen, OpGet ''a'', OpGet ''b'', OpList []]"
  have "valid_utf8 ''a''" "valid_utf8 ''b''" by (simp_all add: valid_utf8_def byte_of_def rune_error_def)
  then have "list_all (op_ok ''/c/s'' ''/c/k'') ?ops" by (simp add: op_ok_def)
  then have "fst (run_all (secrets_step demo_secrets ''/c/s'' ''/c/k'') ?ops
      (NewLocalSecretStore demo_secrets ''/c/s'' ''/c/k'', [(''/c/k'', ''key'')])) =
    fst (run_all spec_step ?ops (Map.empty, Map.empty))"
    by (intro secrets_refine[OF demo_secrets_laws(1) demo_secrets_laws(2)[of "''key''"]]) (simp_all add: demo_secrets_def)
  moreover have "{k :: string. k = ''a'' \<and> HasPrefix k []} = {''a''}" by (auto simp: HasPrefix_iff)
  ultimately show ?thesis by (simp add: spec_step_def spec_change_def)
qed

section \<open>Where the store falls short\<close>

text \<open>A store file whose plaintext is \<open>null\<close> unlocks to the nil map, and the first \<open>Set\<close> panics.\<close>

lemma null_store_panics:
  "fst (Set demo_secrets \<lparr>fl_temp = ''/c/t'', fl_nonce = [], fl_fault = None\<rparr> ''a'' ''1''
     (NewLocalSecretStore demo_secrets ''/c/s'' ''/c/k'', [(''/c/k'', ''key''), (''/c/s'', ''.null'')])) = Inl NilMapPanic"
  by code_simp

text \<open>A failed unlock is final: the error of the first access is returned by every later one, whatever has
  become of the files.\<close>

lemma unlock_error_sticks:
  assumes "ensureUnlocked env d s = (Inl e, s')"
  shows "ensureUnlocked env d' s' = (Inl e, s')"
  using assms by (auto simp: ensureUnlocked_def Let_def split: if_splits prod.splits sum.splits option.splits)

end
