(* ===== verification/Overlay.thy ===== *)
theory Overlay
  imports Go_Base
begin

text \<open>
  The overlay file system of \<open>fsoverlay/fsoverlay.go\<close>: layers from the highest to the lowest precedence,
  each an \<open>fs.FS\<close> given by its operations (\<open>layer\<close>).  An error of a layer is \<open>NotExist\<close> when
  \<open>errors.Is\<close> finds \<open>fs.ErrNotExist\<close> in it; a directory entry is its name and the rest.
\<close>

section \<open>Layers\<close>

datatype 'e layer_error = NotExist 'e | OtherError 'e

record ('e, 'h, 'i, 'd) layer =
  ly_Open :: "string \<Rightarrow> 'e layer_error + 'h"
  ly_Stat :: "string \<Rightarrow> 'e layer_error + 'i"
  ly_ReadDir :: "string \<Rightarrow> 'e layer_error + (string \<times> 'd) list"

datatype 'e overlay_error = ErrNotExist | JoinedErrors "'e list" | ReadError 'e

type_synonym ('e, 'h, 'i, 'd) FS = "('e, 'h, 'i, 'd) layer list"

definition New_overlay :: "('e, 'h, 'i, 'd) layer option list \<Rightarrow> ('e, 'h, 'i, 'd) FS" where
  "New_overlay layers = List.map_filter id layers"

definition overlay_failure :: "'e list \<Rightarrow> 'e overlay_error" where
  "overlay_failure errs = (if errs = [] then ErrNotExist else JoinedErrors errs)"

section \<open>Operations\<close>

text \<open>The common loop of \<open>Open\<close> and \<open>Stat\<close>.\<close>

fun first_layer :: "('l \<Rightarrow> 'e layer_error + 'a) \<Rightarrow> 'l list \<Rightarrow> 'e list \<Rightarrow> 'e overlay_error + 'a" where
  "first_layer op [] errs = Inl (overlay_failure errs)"
| "first_layer op (l # ls) errs =
     (case op l of
        Inr x \<Rightarrow> Inr x
      | Inl (NotExist _) \<Rightarrow> first_layer op ls errs
      | Inl (OtherError e) \<Rightarrow> first_layer op ls (errs @ [e]))"

definition overlay_Open :: "('e, 'h, 'i, 'd) FS \<Rightarrow> string \<Rightarrow> 'e overlay_error + 'h" where
  "overlay_Open fs name = first_layer (\<lambda>l. ly_Open l name) fs []"

definition overlay_ReadFile :: "('h \<Rightarrow> 'e + bytes) \<Rightarrow> ('e, 'h, 'i, 'd) FS \<Rightarrow> string \<Rightarrow> 'e overlay_error + bytes" where
  "overlay_ReadFile readAll fs name =
     (case overlay_Open fs name of
        Inl e \<Rightarrow> Inl e
      | Inr f \<Rightarrow> map_sum ReadError id (readAll f))"

definition overlay_Stat :: "('e, 'h, 'i, 'd) FS \<Rightarrow> string \<Rightarrow> 'e overlay_error + 'i" where
  "overlay_Stat fs name = first_layer (\<lambda>l. ly_Stat l name) fs []"

fun add_entries :: "(string \<times> 'd) list \<Rightarrow> (string, 'd) gomap \<Rightarrow> (string, 'd) gomap" where
  "add_entries [] byName = byName"
| "add_entries (entry # es) byName =
     (if map_of byName (fst entry) \<noteq> None then add_entries es byName
      else add_entries es (AList.update (fst entry) (snd entry) byName))"

fun merge_layers ::
  "string \<Rightarrow> ('e, 'h, 'i, 'd) layer list \<Rightarrow> (string, 'd) gomap \<Rightarrow> bool \<Rightarrow> 'e list \<Rightarrow> (string, 'd) gomap \<times> bool \<times> 'e list" where
  "merge_layers name [] byName found errs = (byName, found, errs)"
| "merge_layers name (l # ls) byName found errs =
     (case ly_ReadDir l name of
        Inr entries \<Rightarrow> merge_layers name ls (add_entries entries byName) True errs
      | Inl (NotExist _) \<Rightarrow> merge_layers name ls byName found errs
      | Inl (OtherError e) \<Rightarrow> merge_layers name ls byName found (errs @ [e]))"

definition overlay_ReadDir :: "('e, 'h, 'i, 'd) FS \<Rightarrow> string \<Rightarrow> 'e overlay_error + (string \<times> 'd) list" where
  "overlay_ReadDir fs name =
     (case merge_layers name fs [] False [] of
        (byName, found, errs) \<Rightarrow>
          if \<not> found then Inl (overlay_failure errs)
          else Inr (go_sort (\<lambda>x y. fst x < fst y) byName))"

section \<open>The loops\<close>

text \<open>What the layers say, for the specification: the results that are there, and the errors that count.\<close>

definition oks :: "('a \<Rightarrow> 'e + 'b) \<Rightarrow> 'a list \<Rightarrow> 'b list" where
  "oks op ls = List.map_filter (\<lambda>l. case op l of Inr x \<Rightarrow> Some x | Inl _ \<Rightarrow> None) ls"

definition hard_errors :: "('a \<Rightarrow> 'e layer_error + 'b) \<Rightarrow> 'a list \<Rightarrow> 'e list" where
  "hard_errors op ls = List.map_filter (\<lambda>l. case op l of Inl (OtherError e) \<Rightarrow> Some e | _ \<Rightarrow> None) ls"

lemma oks_simps [simp]:
  "oks op [] = []" "oks op (l # ls) = (case op l of Inr x \<Rightarrow> x # oks op ls | Inl _ \<Rightarrow> oks op ls)"
  by (simp_all add: oks_def map_filter_simps split: sum.split)

lemma hard_errors_simps [simp]:
  "hard_errors op [] = []"
  "hard_errors op (l # ls) = (case op l of Inl (OtherError e) \<Rightarrow> e # hard_errors op ls | _ \<Rightarrow> hard_errors op ls)"
  by (simp_all add: hard_errors_def map_filter_simps split: sum.split layer_error.split)

lemma first_layer_eq:
  "first_layer op ls errs =
     (case oks op ls of x # _ \<Rightarrow> Inr x | [] \<Rightarrow> Inl (overlay_failure (errs @ hard_errors op ls)))"
  by (induction op ls errs rule: first_layer.induct) (simp_all split: sum.split layer_error.split list.split)

lemma map_of_add_entries: "map_of (add_entries es m) = map_of es ++ map_of m"
  by (induction es m rule: add_entries.induct) (auto simp: fun_eq_iff map_add_def split: option.splits)

lemma gomap_ok_add_entries: "gomap_ok m \<Longrightarrow> gomap_ok (add_entries es m)"
  by (induction es m rule: add_entries.induct) simp_all

lemma merge_layers_eq:
  assumes "merge_layers name ls m found errs = (m', found', errs')" "gomap_ok m"
  shows "gomap_ok m' \<and> map_of m' = map_of (m @ concat (oks (\<lambda>l. ly_ReadDir l name) ls)) \<and>
    (found' \<longleftrightarrow> found \<or> oks (\<lambda>l. ly_ReadDir l name) ls \<noteq> []) \<and> errs' = errs @ hard_errors (\<lambda>l. ly_ReadDir l name) ls"
  using assms
proof (induction name ls m found errs rule: merge_layers.induct)
  case (2 name l ls m found errs)
  then show ?case
    by (cases "ly_ReadDir l name")
      (auto simp: gomap_ok_add_entries map_of_add_entries map_add_assoc split: layer_error.splits)
qed simp

section \<open>Property\<close>

text \<open>
  C27. Earlier layers win: opening and stat give the result of the first layer that has one, and a directory
  listing is strictly sorted by name and has, for every name that some layer lists, the entry of
  the first layer that lists it.  Only when no layer succeeds is there an error: \<open>ErrNotExist\<close> when
  every layer says so, otherwise the errors of the layers in their order.
\<close>

theorem overlay_exact:
  "overlay_Open fs name = (case oks (\<lambda>l. ly_Open l name) fs of
      h # _ \<Rightarrow> Inr h | [] \<Rightarrow> Inl (overlay_failure (hard_errors (\<lambda>l. ly_Open l name) fs))) \<and>
   overlay_Stat fs name = (case oks (\<lambda>l. ly_Stat l name) fs of
      i # _ \<Rightarrow> Inr i | [] \<Rightarrow> Inl (overlay_failure (hard_errors (\<lambda>l. ly_Stat l name) fs))) \<and>
   (case overlay_ReadDir fs name of
      Inr out \<Rightarrow> oks (\<lambda>l. ly_ReadDir l name) fs \<noteq> [] \<and> sorted_wrt (<) (map fst out) \<and>
        map_of out = map_of (concat (oks (\<lambda>l. ly_ReadDir l name) fs))
    | Inl e \<Rightarrow> oks (\<lambda>l. ly_ReadDir l name) fs = [] \<and> e = overlay_failure (hard_errors (\<lambda>l. ly_ReadDir l name) fs))"
proof -
  obtain m found errs where M: "merge_layers name fs [] False [] = (m, found, errs)" by (metis prod_cases3)
  note L = merge_layers_eq[OF M gomap_ok_Nil]
  let ?out = "go_sort (\<lambda>x y. fst x < fst y) m"
  have ok: "gomap_ok ?out" using L by (simp add: gomap_ok_def distinct_map inj_on_def)
  then have "map_of ?out = map_of m" using L by (intro map_of_inject_set[THEN iffD2]) (simp_all add: gomap_ok_def)
  moreover have "sorted_wrt (<) (map fst ?out)"
    using ok sorted_map_go_sort_key[of fst m] by (simp add: gomap_ok_def strict_sorted_iff)
  ultimately show ?thesis
    using L M by (auto simp: overlay_Open_def overlay_Stat_def overlay_ReadDir_def first_layer_eq[of _ _ "[]", simplified append_Nil])
qed

end
