(* ===== verification/Fetch.thy ===== *)
theory Fetch
  imports Go_Strings
begin

text \<open>
  The fetch package (\<open>fetch/headers.go\<close>, \<open>fetch/request.go\<close>, \<open>fetch/fetch.go\<close>, \<open>fetch/response.go\<close>) and its use by
  \<open>goFetch\<close> of \<open>invoke/invoke.go\<close>.  Parameters: the HTTP client of the standard library
  (\<open>http_client\<close>) and the JSON decoder of the header pairs.  Bytes are characters; the loops
  over runes decode UTF-8 as in \<open>Go_Strings\<close>.
\<close>

section \<open>Headers\<close>

type_synonym Headers = "(string \<times> string) list"

datatype header_error = ErrInvalidHeaderName string | ErrInvalidHeaderValue string

definition isTokenChar :: "nat \<Rightarrow> bool" where
  "isTokenChar c =
     ((65 \<le> c \<and> c \<le> 90) \<or> (97 \<le> c \<and> c \<le> 122) \<or> (48 \<le> c \<and> c \<le> 57) \<or>
      c \<in> {33, 35, 36, 37, 38, 39, 42, 43, 45, 46, 94, 95, 96, 124, 126})"

definition validateHeaderName :: "string \<Rightarrow> header_error + unit" where
  "validateHeaderName name =
     (if name = [] then Inl (ErrInvalidHeaderName name)
      else if list_ex (\<lambda>c. \<not> isTokenChar (c mod 256) \<or> c > 127) (runes name) then Inl (ErrInvalidHeaderName name)
      else Inr ())"

definition validateHeaderValue :: "string \<Rightarrow> header_error + unit" where
  "validateHeaderValue val =
     (if list_ex (\<lambda>c. c = 0 \<or> c = 10 \<or> c = 13 \<or> c > 255) (runes val) then Inl (ErrInvalidHeaderValue val) else Inr ())"

text \<open>The trimmed characters are ASCII, so trimming bytes is trimming runes.\<close>

definition normalizeHeaderValue :: "string \<Rightarrow> string" where
  "normalizeHeaderValue val = TrimFunc (\<lambda>c. byte_of c \<in> {9, 10, 13, 32}) val"

definition NewHeaders :: Headers where "NewHeaders = []"

text \<open>\<open>sort.SliceStable\<close> by name.\<close>

definition headers_sort :: "Headers \<Rightarrow> Headers" where
  "headers_sort h = sort_key fst h"

definition Append :: "string \<Rightarrow> string \<Rightarrow> Headers \<Rightarrow> header_error + Headers" where
  "Append name val h =
     (case validateHeaderName name of
        Inl e \<Rightarrow> Inl e
      | Inr _ \<Rightarrow>
          let val' = normalizeHeaderValue val in
          (case validateHeaderValue val' of
             Inl e \<Rightarrow> Inl e
           | Inr _ \<Rightarrow> Inr (headers_sort (h @ [(ToLower name, val')]))))"

text \<open>\<open>http.Header\<close> is a map from names to lists of values, iterated in any order.\<close>

type_synonym http_Header = "(string, string list) gomap"

text \<open>The client accepts only names of ASCII token characters, for which \<open>ToLower\<close> is exact.\<close>

definition NewHeadersFromHTTP :: "http_Header \<Rightarrow> Headers" where
  "NewHeadersFromHTTP hh = headers_sort (concat (map (\<lambda>(name, vals). map (\<lambda>v. (ToLower name, v)) vals) hh))"

fun combined_loop :: "Headers \<Rightarrow> string \<Rightarrow> Headers \<Rightarrow> Headers" where
  "combined_loop [] prevName result = result"
| "combined_loop (entry # es) prevName result =
     combined_loop es (fst entry)
       (if fst entry = ''set-cookie'' then result @ [entry]
        else if fst entry = prevName \<and> length result > 0
          then result[length result - 1 := (fst (last result), snd (last result) @ '', '' @ snd entry)]
        else result @ [entry])"

definition combined :: "Headers \<Rightarrow> Headers" where
  "combined h = (if length h = 0 then [] else combined_loop h [] [])"

definition Entries :: "Headers \<Rightarrow> Headers" where
  "Entries h = combined h"

section \<open>Requests\<close>

record Request =
  rq_url :: string
  rq_method :: string
  rq_headers :: Headers
  rq_body :: "bytes option"

record RequestInit =
  ri_Method :: string
  ri_Headers :: "Headers option"
  ri_Body :: "bytes option"

text \<open>\<open>strings.ToUpper\<close> as far as it decides whether the result is an ASCII word: besides the ASCII letters,
  exactly the dotless i (C4 B1) and the long s (C5 BF) have an ASCII letter as upper case.\<close>

fun upper_word :: "string \<Rightarrow> string" where
  "upper_word [] = []"
| "upper_word [a] = [upper_char a]"
| "upper_word (a # b # cs) =
     (if byte_of a = 196 \<and> byte_of b = 177 then CHR ''I'' # upper_word cs
      else if byte_of a = 197 \<and> byte_of b = 191 then CHR ''S'' # upper_word cs
      else upper_char a # upper_word (b # cs))"

definition normalizeMethod :: "string \<Rightarrow> string" where
  "normalizeMethod method =
     (let upper = upper_word method in
      if upper \<in> {''DELETE'', ''GET'', ''HEAD'', ''OPTIONS'', ''POST'', ''PUT''} then upper else method)"

definition NewRequest :: "string \<Rightarrow> RequestInit option \<Rightarrow> Request" where
  "NewRequest url ini =
     (case ini of
        None \<Rightarrow> \<lparr>rq_url = url, rq_method = ''GET'', rq_headers = NewHeaders, rq_body = None\<rparr>
      | Some i \<Rightarrow>
          \<lparr>rq_url = url, rq_method = (if ri_Method i \<noteq> [] then normalizeMethod (ri_Method i) else ''GET''),
           rq_headers = (case ri_Headers i of Some h \<Rightarrow> h | None \<Rightarrow> NewHeaders), rq_body = ri_Body i\<rparr>)"

section \<open>Fetch\<close>

text \<open>\<open>http.Header\<close> canonicalises names of token characters: the first letter and every letter after a
  hyphen in upper case, the others in lower case.\<close>

fun canonical_key :: "bool \<Rightarrow> string \<Rightarrow> string" where
  "canonical_key up [] = []"
| "canonical_key up (c # cs) = (if up then upper_char c else lower_char c) # canonical_key (c = CHR ''-'') cs"

definition header_values :: "http_Header \<Rightarrow> string \<Rightarrow> string list" where
  "header_values hh key = (case map_of hh key of Some vs \<Rightarrow> vs | None \<Rightarrow> [])"

definition header_Add :: "string \<Rightarrow> string \<Rightarrow> http_Header \<Rightarrow> http_Header" where
  "header_Add name val hh = (let k = canonical_key True name in AList.update k (header_values hh k @ [val]) hh)"

definition header_Set :: "string \<Rightarrow> string \<Rightarrow> http_Header \<Rightarrow> http_Header" where
  "header_Set name val hh = AList.update (canonical_key True name) [val] hh"

record http_response =
  hs_StatusCode :: int
  hs_Status :: string
  hs_Header :: http_Header
  hs_Body :: "string + bytes"
  hs_URL :: string

text \<open>The client: whether a request can be made of a method and a URL, and the exchange, which asks
  the given function before every redirect with the number of requests already made.\<close>

record http_client =
  hc_NewRequest :: "string \<Rightarrow> string \<Rightarrow> string + unit"
  hc_Do :: "(nat \<Rightarrow> string + unit) \<Rightarrow> string \<Rightarrow> string \<Rightarrow> http_Header \<Rightarrow> bytes option \<Rightarrow> string + http_response"

record Response =
  rs_status :: int
  rs_statusText :: string
  rs_headers :: Headers
  rs_body :: "string + bytes"
  rs_url :: string
  rs_ok :: bool
  rs_redirected :: bool

definition CheckRedirect :: "nat \<Rightarrow> string + unit" where
  "CheckRedirect via = (if via \<ge> 20 then Inl ''fetch: too many redirects'' else Inr ())"

fun add_headers :: "Headers \<Rightarrow> http_Header \<Rightarrow> bool \<Rightarrow> bool \<Rightarrow> http_Header \<times> bool \<times> bool" where
  "add_headers [] hh hasAccept hasAcceptLang = (hh, hasAccept, hasAcceptLang)"
| "add_headers (entry # es) hh hasAccept hasAcceptLang =
     add_headers es (header_Add (fst entry) (snd entry) hh)
       (hasAccept \<or> fst entry = ''accept'') (hasAcceptLang \<or> fst entry = ''accept-language'')"

definition request_headers :: "Headers \<Rightarrow> http_Header" where
  "request_headers h =
     (case add_headers h [] False False of
        (hh, hasAccept, hasAcceptLang) \<Rightarrow>
          let hh1 = (if hasAccept then hh else header_Set ''Accept'' ''*/*'' hh) in
          if hasAcceptLang then hh1 else header_Set ''Accept-Language'' ''*'' hh1)"

definition Fetch :: "http_client \<Rightarrow> string \<Rightarrow> RequestInit option \<Rightarrow> string + Response" where
  "Fetch hc url ini =
     (let req = NewRequest url ini in
      case hc_NewRequest hc (rq_method req) (rq_url req) of
        Inl e \<Rightarrow> Inl e
      | Inr _ \<Rightarrow>
          (case hc_Do hc CheckRedirect (rq_method req) (rq_url req) (request_headers (rq_headers req)) (rq_body req) of
             Inl e \<Rightarrow> Inl e
           | Inr resp \<Rightarrow>
               Inr \<lparr>rs_status = hs_StatusCode resp,
                    rs_statusText = TrimPrefix (hs_Status resp) (itoa (hs_StatusCode resp) @ '' ''),
                    rs_headers = NewHeadersFromHTTP (hs_Header resp),
                    rs_body = hs_Body resp,
                    rs_url = hs_URL resp,
                    rs_ok = (hs_StatusCode resp \<ge> 200 \<and> hs_StatusCode resp < 300),
                    rs_redirected = (hs_URL resp \<noteq> url)\<rparr>))"

section \<open>The bridge of the TypeScript runtime\<close>

record FetchResult =
  fr_Status :: int
  fr_StatusText :: string
  fr_Headers :: Headers
  fr_Body :: string
  fr_URL :: string

text \<open>Pairs that \<open>Append\<close> refuses are dropped: the error is ignored.\<close>

fun append_pairs :: "(string \<times> string) list \<Rightarrow> Headers \<Rightarrow> Headers" where
  "append_pairs [] h = h"
| "append_pairs (p # ps) h = append_pairs ps (case Append (fst p) (snd p) h of Inr h' \<Rightarrow> h' | Inl _ \<Rightarrow> h)"

definition bridge_headers :: "(string \<Rightarrow> string + (string \<times> string) list) \<Rightarrow> string \<Rightarrow> Headers" where
  "bridge_headers decode headersJSON =
     (case decode headersJSON of Inr pairs \<Rightarrow> append_pairs pairs NewHeaders | Inl _ \<Rightarrow> NewHeaders)"

definition goFetch ::
  "http_client \<Rightarrow> (string \<Rightarrow> string + (string \<times> string) list) \<Rightarrow> string \<Rightarrow> string \<Rightarrow> string \<Rightarrow> string \<Rightarrow> string + FetchResult" where
  "goFetch hc decode url method headersJSON body =
     (let reqHeaders = bridge_headers decode headersJSON in
      case Fetch hc url (Some \<lparr>ri_Method = method, ri_Headers = Some reqHeaders,
             ri_Body = (if body \<noteq> [] then Some body else None)\<rparr>) of
        Inl e \<Rightarrow> Inl e
      | Inr resp \<Rightarrow>
          (case rs_body resp of
             Inl e \<Rightarrow> Inl (''read response body: '' @ e)
           | Inr respBody \<Rightarrow>
               Inr \<lparr>fr_Status = rs_status resp, fr_StatusText = rs_statusText resp,
                    fr_Headers = Entries (rs_headers resp), fr_Body = respBody, fr_URL = rs_url resp\<rparr>))"

end
