(* ===== verification/Fetch_Props.thy ===== *)
theory Fetch_Props
  imports Fetch
begin

text \<open>
  What the headers of a fetch are: the combined entries as a function of the pairs that were appended,
  and the headers a request is sent with.
\<close>

section \<open>Sorting\<close>

lemma headers_sort_snoc: "headers_sort (headers_sort xs @ [x]) = headers_sort (xs @ [x])"
proof -
  have "filter (\<lambda>e. n = fst e) (sort_key fst ys) = filter (\<lambda>e. n = fst e) ys" for n and ys :: Headers
    using sort_key_stable[of fst n ys] by (simp add: eq_commute[of n])
  then show ?thesis unfolding headers_sort_def by (intro properties_for_sort_key) simp_all
qed

lemma sorted_headers_sort [simp]: "sorted (map fst (headers_sort h))"
  by (simp add: headers_sort_def)

lemma filter_headers_sort: "filter (\<lambda>e. fst e = n) (headers_sort h) = filter (\<lambda>e. fst e = n) h"
  by (simp add: headers_sort_def sort_key_stable)

lemma set_headers_sort [simp]: "set (headers_sort h) = set h"
  by (simp add: headers_sort_def)

section \<open>Combining\<close>

definition vals_of :: "Headers \<Rightarrow> string \<Rightarrow> string list" where
  "vals_of h n = map snd (filter (\<lambda>e. fst e = n) h)"

definition header_group :: "Headers \<Rightarrow> string \<Rightarrow> Headers" where
  "header_group h n = (if n = ''set-cookie'' then map (Pair n) (vals_of h n) else [(n, Join '', '' (vals_of h n))])"

definition names_of :: "Headers \<Rightarrow> string list" where
  "names_of h = sorted_list_of_set (fst ` set h)"

lemma combined_loop_append: "combined_loop (xs @ [x]) p r =
   (let r' = combined_loop xs p r; q = (if xs = [] then p else fst (last xs)) in combined_loop [x] q r')"
  by (induction xs arbitrary: p r) (simp_all add: Let_def)

lemma combined_loop_nonempty: "xs \<noteq> [] \<or> r \<noteq> [] \<Longrightarrow> combined_loop xs p r \<noteq> []"
  by (induction xs arbitrary: p r) (auto simp: Let_def)

lemma update_last: "xs \<noteq> [] \<Longrightarrow> xs[length xs - Suc 0 := y] = butlast xs @ [y]"
  by (cases xs rule: rev_cases) simp_all

lemma combined_snoc:
  "combined (xs @ [(n, v)]) =
     (if xs \<noteq> [] \<and> n \<noteq> ''set-cookie'' \<and> fst (last xs) = n
      then butlast (combined xs) @ [(fst (last (combined xs)), snd (last (combined xs)) @ '', '' @ v)]
      else combined xs @ [(n, v)])"
proof (cases "xs = []")
  case False
  then have "combined_loop xs [] [] \<noteq> []" by (simp add: combined_loop_nonempty)
  then show ?thesis
    using False by (simp add: combined_def combined_loop_append Let_def update_last)
qed (simp add: combined_def)

text \<open>On a sorted list the loop collects the values of each name.\<close>

lemma sorted_list_of_set_max:
  fixes n :: "'a::linorder"
  assumes "finite A" "\<forall>a\<in>A. a < n"
  shows "sorted_list_of_set (insert n A) = sorted_list_of_set A @ [n]"
proof -
  have "n \<notin> A" using assms(2) by blast
  moreover have "insort n (sorted_list_of_set A) = sorted_list_of_set A @ [n]"
    using assms by (intro sorted_insort_is_snoc) (auto intro: less_imp_le)
  ultimately show ?thesis using assms(1) by (simp add: sorted_list_of_set_insert_remove)
qed

lemma header_group_other: "m \<noteq> n \<Longrightarrow> header_group (h @ [(n, v)]) m = header_group h m"
  by (auto simp: header_group_def vals_of_def)

lemma Join_snoc_sep: "ws \<noteq> [] \<Longrightarrow> Join sep (ws @ [w]) = Join sep ws @ sep @ w"
  by (induction ws rule: induct_list012) simp_all

lemma combined_sorted:
  assumes "sorted (map fst h)"
  shows "combined h = concat (map (header_group h) (names_of h))"
  using assms
proof (induction h rule: rev_induct)
  case (snoc e h)
  obtain n v where e: "e = (n, v)" by (cases e)
  let ?A = "fst ` set h - {n}"
  have le: "\<forall>m\<in>fst ` set h. m \<le> n" and IH: "combined h = concat (map (header_group h) (names_of h))"
    using snoc e by (auto simp: sorted_append)
  then have lt: "\<forall>m\<in>?A. m < n" by (auto simp: order_less_le)
  have names: "names_of (h @ [e]) = sorted_list_of_set ?A @ [n]"
    using sorted_list_of_set_max[OF _ lt] by (simp add: names_of_def e)
  have others: "map (header_group (h @ [e])) (sorted_list_of_set ?A) = map (header_group h) (sorted_list_of_set ?A)"
    by (simp add: e header_group_other)
  have spec: "concat (map (header_group (h @ [e])) (names_of (h @ [e]))) =
      concat (map (header_group h) (sorted_list_of_set ?A)) @ header_group (h @ [e]) n"
    by (simp only: names map_append others) simp
  show ?case
  proof (cases "n \<in> fst ` set h")
    case False
    then have new: "vals_of (h @ [e]) n = [v]" "?A = fst ` set h" "h = [] \<or> fst (last h) \<noteq> n"
      by (auto simp: vals_of_def e filter_empty_conv)
    then have "header_group (h @ [e]) n = [(n, v)]" by (auto simp: header_group_def)
    moreover have "combined (h @ [e]) = combined h @ [(n, v)]" using new(3) by (auto simp: combined_snoc e)
    moreover have "names_of h = sorted_list_of_set ?A" by (simp add: names_of_def new(2))
    ultimately show ?thesis using spec IH by simp
  next
    case True
    then have old: "names_of h = sorted_list_of_set ?A @ [n]"
      using sorted_list_of_set_max[OF _ lt] by (simp add: names_of_def insert_absorb)
    have vals: "vals_of (h @ [e]) n = vals_of h n @ [v]" "vals_of h n \<noteq> []"
      using True by (auto simp: vals_of_def e filter_empty_conv)
    have last: "h \<noteq> []" "fst (last h) = n"
    proof -
      show "h \<noteq> []" using True by auto
      then obtain h' x where h: "h = h' @ [x]" by (cases h rule: rev_cases) auto
      then have "n \<le> fst x" using True snoc.prems by (auto simp: sorted_append)
      then show "fst (last h) = n" using le h by force
    qed
    have comb: "combined h = concat (map (header_group h) (sorted_list_of_set ?A)) @ header_group h n"
      using IH old by simp
    show ?thesis
      unfolding spec using comb vals last by (auto simp: combined_snoc e header_group_def[of _ n] Join_snoc_sep)
  qed
qed (simp add: combined_def names_of_def)

section \<open>Accepted pairs\<close>

definition acceptable :: "string \<times> string \<Rightarrow> bool" where
  "acceptable p = (is_ok (validateHeaderName (fst p)) \<and> is_ok (validateHeaderValue (normalizeHeaderValue (snd p))))"

definition accepted :: "(string \<times> string) list \<Rightarrow> Headers" where
  "accepted ps = map (\<lambda>p. (ToLower (fst p), normalizeHeaderValue (snd p))) (filter acceptable ps)"

lemma Append_eq:
  "(case Append (fst p) (snd p) (headers_sort h) of Inr h' \<Rightarrow> h' | Inl _ \<Rightarrow> headers_sort h) = headers_sort (h @ accepted [p])"
  by (auto simp: Append_def acceptable_def accepted_def headers_sort_snoc Let_def split: sum.splits)

lemma append_pairs_eq: "append_pairs ps (headers_sort h) = headers_sort (h @ accepted ps)"
proof (induction ps arbitrary: h)
  case (Cons p ps)
  have "accepted (p # ps) = accepted [p] @ accepted ps" by (simp add: accepted_def)
  then show ?case using Cons[of "h @ accepted [p]"] by (simp add: Append_eq)
qed (simp add: accepted_def)

lemma append_pairs_new: "append_pairs ps NewHeaders = headers_sort (accepted ps)"
  using append_pairs_eq[of ps "[]"] by (simp add: NewHeaders_def headers_sort_def)

text \<open>An ASCII byte is never part of a longer rune.\<close>

lemma decode_rune_tail: "x \<in> set (take (snd (decode_rune (b # bs)) - 1) bs) \<Longrightarrow> 128 \<le> x"
  by (auto simp: decode_rune_def cont_byte_def split: list.splits if_splits)

lemma ascii_in_runes: "x < 128 \<Longrightarrow> x \<in> set bs \<Longrightarrow> x \<in> set (runes_of_bytes bs)"
proof (induction bs rule: runes_of_bytes.induct)
  case (2 b bs)
  let ?w = "snd (decode_rune (b # bs)) - 1"
  show ?case
  proof (cases "x = b")
    case True
    then show ?thesis using 2(2) by simp
  next
    case False
    then have "x \<in> set (take ?w bs) \<or> x \<in> set (drop ?w bs)" using 2(3) by (metis Un_iff append_take_drop_id set_ConsD set_append)
    then have "x \<in> set (drop ?w bs)" using decode_rune_tail[of x b bs] 2(2) by auto
    moreover obtain r w where "decode_rune (b # bs) = (r, w)" by (cases "decode_rune (b # bs)")
    ultimately show ?thesis using 2 by simp
  qed
qed simp

definition plain_value :: "string \<Rightarrow> bool" where
  "plain_value v = list_all (\<lambda>c. byte_of c \<notin> {0, 10, 13}) v"

definition token_name :: "string \<Rightarrow> bool" where
  "token_name n = (n \<noteq> [] \<and> list_all (\<lambda>c. isTokenChar (byte_of c) \<and> byte_of c < 128 \<and> \<not> is_upper c) n)"

lemma valid_value_plain: "is_ok (validateHeaderValue v) \<Longrightarrow> plain_value v"
proof -
  assume "is_ok (validateHeaderValue v)"
  then have "x \<notin> set (runes_of_bytes (map byte_of v))" if "x \<in> {0, 10, 13}" for x
    using that by (auto simp: validateHeaderValue_def runes_def list_ex_iff split: if_splits)
  then have "x \<notin> set (map byte_of v)" if "x \<in> {0, 10, 13}" for x
    using that ascii_in_runes[of x "map byte_of v"] by fastforce
  then show ?thesis unfolding plain_value_def list_all_iff by (metis image_eqI list.set_map)
qed

lemma lower_char_token:
  "isTokenChar (byte_of c) \<Longrightarrow> isTokenChar (byte_of (lower_char c)) \<and> \<not> is_upper (lower_char c) \<and>
     (byte_of c < 128 \<longrightarrow> byte_of (lower_char c) < 128)"
  by (auto simp: isTokenChar_def lower_char_def is_upper_def byte_of_def)

lemma valid_name_token:
  assumes "is_ok (validateHeaderName n)"
  shows "token_name (ToLower n)"
proof -
  have n: "n \<noteq> []" "\<forall>r\<in>set (runes_of_bytes (map byte_of n)). isTokenChar (r mod 256) \<and> r \<le> 127"
    using assms by (auto simp: validateHeaderName_def runes_def list_ex_iff split: if_splits)
  then have "\<forall>b\<in>set (map byte_of n). isTokenChar (b mod 256) \<and> b \<le> 127"
    using runes_all_ascii[of "\<lambda>r. isTokenChar (r mod 256) \<and> r \<le> 127" "map byte_of n"] by simp
  then have "\<forall>c\<in>set n. isTokenChar (byte_of c) \<and> byte_of c < 128" by (auto simp: byte_of_lt)
  then show ?thesis
    using n(1) lower_char_token by (fastforce simp: token_name_def ToLower_def list_all_iff)
qed

lemma accepted_safe: "list_all (\<lambda>(n, v). token_name n \<and> plain_value v) (accepted ps)"
  by (auto simp: list_all_iff accepted_def acceptable_def valid_name_token valid_value_plain)

section \<open>Request headers\<close>

lemma upper_lower_char [simp]: "upper_char (lower_char c) = upper_char c"
  by (auto simp: upper_char_def lower_char_def is_upper_def is_lower_def byte_of_def)

lemma lower_upper_char [simp]: "lower_char (upper_char c) = lower_char c"
  by (auto simp: upper_char_def lower_char_def is_upper_def is_lower_def byte_of_def)

lemma lower_hyphen [simp]: "lower_char c = CHR ''-'' \<longleftrightarrow> c = CHR ''-''"
proof
  assume "lower_char c = CHR ''-''"
  moreover from this have "byte_of (lower_char c) = 45" by (simp add: byte_of_def)
  moreover have "is_upper c \<Longrightarrow> byte_of (lower_char c) = byte_of c + 32"
    by (simp add: lower_char_def is_upper_def byte_of_def)
  ultimately show "c = CHR ''-''"
    by (cases "is_upper c") (auto simp: is_upper_def lower_char_def split: if_splits)
qed (simp add: lower_char_def is_upper_def byte_of_def)

lemma ToLower_canonical [simp]: "ToLower (canonical_key up s) = ToLower s"
  by (induction up s rule: canonical_key.induct) (simp_all add: ToLower_def)

lemma canonical_ToLower [simp]: "canonical_key up (ToLower s) = canonical_key up s"
  by (induction up s rule: canonical_key.induct) (simp_all add: ToLower_def)

lemma canonical_key_eq: "canonical_key True m = canonical_key True n \<longleftrightarrow> ToLower m = ToLower n"
  by (metis ToLower_canonical canonical_ToLower)

lemma header_values_Add [simp]:
  "header_values (header_Add m v hh) (canonical_key True n) =
     header_values hh (canonical_key True n) @ (if ToLower m = ToLower n then [v] else [])"
  using canonical_key_eq[of m n] by (auto simp: header_Add_def header_values_def Let_def)

lemma header_values_Set [simp]:
  "header_values (header_Set m v hh) (canonical_key True n) =
     (if ToLower m = ToLower n then [v] else header_values hh (canonical_key True n))"
  by (simp add: header_Set_def header_values_def canonical_key_eq)

lemma add_headers_eq:
  assumes "add_headers h hh a l = (hh', a', l')" "list_all (\<lambda>e. ToLower (fst e) = fst e) h"
  shows "header_values hh' (canonical_key True n) = header_values hh (canonical_key True n) @ vals_of h (ToLower n) \<and>
    (a' \<longleftrightarrow> a \<or> vals_of h ''accept'' \<noteq> []) \<and> (l' \<longleftrightarrow> l \<or> vals_of h ''accept-language'' \<noteq> [])"
  using assms
  by (induction h hh a l rule: add_headers.induct) (auto simp: vals_of_def)

definition default_values :: "string \<Rightarrow> string list" where
  "default_values n = (if n = ''accept'' then [''*/*''] else if n = ''accept-language'' then [''*''] else [])"

lemma request_headers_values:
  assumes "list_all (\<lambda>e. ToLower (fst e) = fst e) h"
  shows "header_values (request_headers h) (canonical_key True n) =
    (if vals_of h (ToLower n) = [] then default_values (ToLower n) else vals_of h (ToLower n))"
proof -
  obtain hh a l where A: "add_headers h [] False False = (hh, a, l)" by (metis prod_cases3)
  have "ToLower ''Accept'' = ''accept''" "ToLower ''Accept-Language'' = ''accept-language''" by code_simp+
  then show ?thesis
    using add_headers_eq[OF A assms, of n]
    by (auto simp: request_headers_def A default_values_def header_values_def[of "[]"])
qed

lemma vals_of_sort [simp]: "vals_of (headers_sort h) n = vals_of h n"
  by (simp add: vals_of_def filter_headers_sort)

section \<open>Response headers\<close>

lemma names_of_vals: "names_of h = sorted_list_of_set {n. vals_of h n \<noteq> []}"
proof -
  have "fst ` set h = {n. vals_of h n \<noteq> []}" by (force simp: vals_of_def filter_empty_conv)
  then show ?thesis by (simp add: names_of_def)
qed

lemma Entries_sort: "Entries (headers_sort h) = concat (map (header_group h) (names_of h))"
proof -
  have "header_group (headers_sort h) = header_group h" "names_of (headers_sort h) = names_of h"
    by (simp_all add: header_group_def fun_eq_iff names_of_def)
  then show ?thesis by (simp add: Entries_def combined_sorted)
qed

lemma Entries_cong: "(\<And>n. vals_of h n = vals_of h' n) \<Longrightarrow> Entries (headers_sort h) = Entries (headers_sort h')"
proof -
  assume "\<And>n. vals_of h n = vals_of h' n"
  then have "vals_of h = vals_of h'" by blast
  then show ?thesis unfolding Entries_sort names_of_vals header_group_def by (simp only:)
qed

definition flat :: "http_Header \<Rightarrow> Headers" where
  "flat hh = concat (map (\<lambda>(name, vals). map (\<lambda>v. (ToLower name, v)) vals) hh)"

lemma vals_of_flat:
  "vals_of (flat hh) n = concat (map snd (filter (\<lambda>kv. ToLower (fst kv) = n) hh))"
proof -
  have "vals_of (map (\<lambda>v. (m, v)) vs) n = (if m = n then vs else [])" for m vs
    by (simp add: vals_of_def filter_map comp_def)
  moreover have "vals_of (xs @ ys) n = vals_of xs n @ vals_of ys n" for xs ys by (simp add: vals_of_def)
  moreover have "vals_of [] n = []" by (simp add: vals_of_def)
  ultimately show ?thesis by (induction hh) (auto simp: flat_def)
qed

lemma filter_lower_unique:
  assumes "distinct (map (ToLower \<circ> fst) hh)" "kv \<in> set hh"
  shows "filter (\<lambda>x. ToLower (fst x) = ToLower (fst kv)) hh = [kv]"
  using assms by (induction hh) (auto simp: filter_empty_conv image_iff)

lemma vals_of_flat_cong:
  assumes "map_of hh = map_of hh'" "distinct (map (ToLower \<circ> fst) hh)" "distinct (map (ToLower \<circ> fst) hh')"
  shows "vals_of (flat hh) n = vals_of (flat hh') n"
proof -
  have "distinct (map fst hh)" "distinct (map fst hh')"
    using assms(2,3) by (simp_all add: distinct_map inj_on_def)
  then have same: "set hh = set hh'" using assms(1) by (simp add: map_of_inject_set)
  show ?thesis
  proof (cases "\<exists>kv\<in>set hh. ToLower (fst kv) = n")
    case True
    then obtain kv where "kv \<in> set hh" "ToLower (fst kv) = n" by blast
    then show ?thesis using filter_lower_unique[of hh kv] filter_lower_unique[of hh' kv] assms same by (simp add: vals_of_flat)
  next
    case False
    then have "filter (\<lambda>kv. ToLower (fst kv) = n) hh = []" "filter (\<lambda>kv. ToLower (fst kv) = n) hh' = []"
      using same by (simp_all add: filter_empty_conv)
    then show ?thesis by (simp add: vals_of_flat)
  qed
qed

section \<open>Properties\<close>

text \<open>
  C26. The entries of headers built from pairs, in whatever order, are sorted by name, with one entry for
  every name, whose value joins the accepted values of that name by comma and space in
  the order of their appending; only \<open>set-cookie\<close> has an entry for each of its values.
  The entries of a response depend only on its headers as a map when their names differ up to case.
\<close>

theorem header_entries_exact:
  assumes "map_of hh = map_of hh'" "distinct (map (ToLower \<circ> fst) hh)" "distinct (map (ToLower \<circ> fst) hh')"
  shows "Entries (append_pairs ps NewHeaders) = concat (map (header_group (accepted ps)) (names_of (accepted ps))) \<and>
    Entries (NewHeadersFromHTTP hh) = Entries (NewHeadersFromHTTP hh')"
  using Entries_cong[OF vals_of_flat_cong[OF assms]]
  by (simp add: append_pairs_new Entries_sort NewHeadersFromHTTP_def flat_def)

theorem header_entries_exact_witness:
  "Entries (append_pairs [(''X-B'', '' 2 ''), (''Set-Cookie'', ''c''), (''x-b'', ''3''), (''a'', ''1''), (''Set-Cookie'', ''d''), (''bad name'', ''x'')] NewHeaders) =
     [(''a'', ''1''), (''set-cookie'', ''c''), (''set-cookie'', ''d''), (''x-b'', ''2, 3'')] \<and>
   Entries (NewHeadersFromHTTP [(''B'', [''2'']), (''A'', [''1'', ''0''])]) = Entries (NewHeadersFromHTTP [(''A'', [''1'', ''0'']), (''B'', [''2''])])"
proof -
  have "map_of [(''B'', [''2'']), (''A'', [''1'', ''0''])] = map_of [(''A'', [''1'', ''0'']), (''B'', [''2''])]"
    "distinct (map (ToLower \<circ> fst) [(''B'', [''2'']), (''A'', [''1'', ''0''])])"
    "distinct (map (ToLower \<circ> fst) [(''A'', [''1'', ''0'']), (''B'', [''2''])])"
    by (simp add: fun_eq_iff, code_simp, code_simp)
  from header_entries_exact[OF this] show ?thesis by (auto) code_simp
qed

text \<open>
  C25. What a tool's fetch sends: the request has, for every header name, exactly the accepted values in
  the order in which the tool gave them, and the default for \<open>Accept\<close> and \<open>Accept-Language\<close> when it
  gave none.  No name or value that reaches the client has a NUL, a carriage return or
  a line feed, so no tool can inject a header, whatever pairs it passes.
\<close>

theorem request_headers_safe:
  "header_values (request_headers (append_pairs ps NewHeaders)) (canonical_key True n) =
     (let vs = vals_of (accepted ps) (ToLower n) in if vs = [] then default_values (ToLower n) else vs) \<and>
   list_all (\<lambda>(n, v). token_name n \<and> plain_value v) (append_pairs ps NewHeaders)"
proof -
  have "list_all (\<lambda>e. ToLower (fst e) = fst e) (append_pairs ps NewHeaders)"
    by (auto simp: append_pairs_new list_all_iff accepted_def)
  then show ?thesis
    using accepted_safe[of ps] by (simp add: request_headers_values append_pairs_new list_all_iff Let_def)
qed

end
