(* ===== verification/Codemode.thy ===== *)
theory Codemode
  imports Invoke
begin

text \<open>
  Code mode (\<open>codemode/codemode.go\<close> and the collection of type declarations in
  \<open>codemode/declaration.go\<close>): an agent's TypeScript is type-checked against an SDK generated from
  the agent's view of the tools, and run with a prelude that binds every tool to the invoker.
  Parameters: the type library of the TypeScript checker (\<open>ts_text\<close>), \<open>%q\<close> (\<open>q\<close>), and the
  checker, the transpiler and the JavaScript engine (\<open>code_env\<close>).
\<close>

section \<open>Types as text\<close>

record 'ty PropertyInfo =
  pi_Name :: string
  pi_Type :: 'ty
  pi_Description :: string
  pi_Optional :: bool

record 'ty FuncParam =
  fp_Name :: string
  fp_Type :: 'ty
  fp_Optional :: bool
  fp_Description :: string

text \<open>\<open>IsNil\<close> is the comparison of a type with nil.\<close>

record ('sig, 'ty) ts_text =
  ToTS :: "'ty \<Rightarrow> string"
  Declarations :: "'ty \<Rightarrow> string"
  DefinitionTypes :: "'ty \<Rightarrow> (string, 'ty) gomap"
  ObjectProperties :: "'ty \<Rightarrow> 'ty PropertyInfo list"
  ty_Description :: "'ty \<Rightarrow> string"
  IsNil :: "'ty \<Rightarrow> bool"
  IsObject :: "'ty \<Rightarrow> bool"
  UnwrapPromise :: "'ty \<Rightarrow> 'ty"
  sig_Return :: "'sig \<Rightarrow> 'ty option"
  sig_Params :: "'sig \<Rightarrow> 'ty FuncParam list"
  sig_Description :: "'sig \<Rightarrow> string"

abbreviation line_feed :: string where "line_feed \<equiv> [CHR 0x0A]"

definition sortedTools :: "'sig AgentTool list \<Rightarrow> 'sig AgentTool list" where
  "sortedTools view = go_sort (\<lambda>s t. at_Name s < at_Name t) view"

text \<open>The types a tool mentions: its parameters as the agent sees them, and its result.\<close>

definition tool_sources :: "('sig, 'ty) ts_api \<Rightarrow> ('sig, 'ty) ts_text \<Rightarrow> 'sig AgentTool \<Rightarrow> 'ty list" where
  "tool_sources api tt tool =
     (case ParamsType api tool of None \<Rightarrow> [] | Some pt \<Rightarrow> [pt]) @
     (case at_Sig tool of None \<Rightarrow> [] | Some sig \<Rightarrow> (case sig_Return tt sig of None \<Rightarrow> [] | Some rt \<Rightarrow> [rt]))"

fun add_definitions :: "(string \<times> 'ty) list \<Rightarrow> (string, 'ty) gomap \<Rightarrow> (string, 'ty) gomap" where
  "add_definitions [] defTypes = defTypes"
| "add_definitions ((name, dt) # ds) defTypes =
     add_definitions ds (if map_of defTypes name = None then AList.update name dt defTypes else defTypes)"

definition collect_def_types :: "('sig, 'ty) ts_api \<Rightarrow> ('sig, 'ty) ts_text \<Rightarrow> 'sig AgentTool list \<Rightarrow> (string, 'ty) gomap" where
  "collect_def_types api tt tools =
     fold (\<lambda>src. add_definitions (DefinitionTypes tt src)) (concat (map (tool_sources api tt) tools)) []"

definition with_opt :: "'ty PropertyInfo \<Rightarrow> string" where
  "with_opt p = pi_Name p @ (if pi_Optional p then ''?'' else [])"

definition comment_lines :: "string \<Rightarrow> string \<Rightarrow> string" where
  "comment_lines indent desc =
     (if desc = [] then [] else concat (map (\<lambda>dl. indent @ ''// '' @ dl @ line_feed) (Split (CHR 0x0A) desc)))"

definition interface_text :: "('sig, 'ty) ts_text \<Rightarrow> string \<Rightarrow> string \<Rightarrow> 'ty PropertyInfo list \<Rightarrow> string" where
  "interface_text tt typeDesc typeName props =
     (if typeDesc \<noteq> [] then ''// '' @ typeDesc @ line_feed else []) @ ''interface '' @ typeName @ '' {'' @ line_feed @
     concat (map (\<lambda>p. comment_lines ''  '' (pi_Description p) @
        ''  '' @ with_opt p @ '': '' @ ToTS tt (pi_Type p) @ '';'' @ line_feed) props) @ ''}''"

definition property_text :: "('sig, 'ty) ts_text \<Rightarrow> 'ty PropertyInfo \<Rightarrow> string" where
  "property_text tt p =
     (if pi_Description p \<noteq> [] then ''/** '' @ pi_Description p @ '' */ '' else []) @
     with_opt p @ '': '' @ ToTS tt (pi_Type p)"

text \<open>The position of a substring, as \<open>strings.Index\<close>.\<close>

fun str_index :: "string \<Rightarrow> string \<Rightarrow> nat option" where
  "str_index [] sub = (if sub = [] then Some 0 else None)"
| "str_index (c # cs) sub = (if HasPrefix (c # cs) sub then Some 0 else map_option Suc (str_index cs sub))"

definition enhanceDeclWithDescriptions :: "('sig, 'ty) ts_text \<Rightarrow> string \<Rightarrow> (string, 'ty) gomap \<Rightarrow> string" where
  "enhanceDeclWithDescriptions tt line defTypes =
     (if \<not> HasPrefix line ''type '' then line
      else let rest = drop (length ''type '') line in
        (case str_index rest '' = '' of
           None \<Rightarrow> line
         | Some eqIdx \<Rightarrow>
             let typeName = take eqIdx rest in
             (case map_of defTypes typeName of
                None \<Rightarrow> line
              | Some defType \<Rightarrow>
                  let props = ObjectProperties tt defType;
                      typeDesc = ty_Description tt defType in
                  if \<not> list_ex (\<lambda>p. pi_Description p \<noteq> []) props then line
                  else if list_ex (\<lambda>p. Contains (pi_Description p) line_feed) props
                  then interface_text tt typeDesc typeName props
                  else (if typeDesc \<noteq> [] then ''// '' @ typeDesc @ line_feed else []) @
                    ''type '' @ typeName @ '' = { '' @ Join ''; '' (map (property_text tt) props) @ '' };'')))"

definition trim_right_lf :: "string \<Rightarrow> string" where
  "trim_right_lf s = rev (dropWhile (\<lambda>c. c = CHR 0x0A) (rev s))"

fun add_decl_lines ::
  "('sig, 'ty) ts_text \<Rightarrow> (string, 'ty) gomap \<Rightarrow> string list \<Rightarrow> string list \<times> string list \<Rightarrow> string list \<times> string list" where
  "add_decl_lines tt defTypes [] acc = acc"
| "add_decl_lines tt defTypes (line # ls) (seen, lines) =
     (if line = [] \<or> line \<in> set seen then add_decl_lines tt defTypes ls (seen, lines)
      else let enhanced = enhanceDeclWithDescriptions tt line defTypes in
        if enhanced \<in> set seen then add_decl_lines tt defTypes ls (seen, lines)
        else add_decl_lines tt defTypes ls (line # enhanced # seen, lines @ [enhanced]))"

definition collectUniqueDeclarations ::
  "('sig, 'ty) ts_api \<Rightarrow> ('sig, 'ty) ts_text \<Rightarrow> 'sig AgentTool list \<Rightarrow> string list" where
  "collectUniqueDeclarations api tt tools =
     (let defTypes = collect_def_types api tt tools;
          decl_lines = (\<lambda>src. let decls = Declarations tt src in
             if decls = [] then [] else Split (CHR 0x0A) (trim_right_lf decls)) in
      sort_strings (snd (add_decl_lines tt defTypes (concat (map decl_lines (concat (map (tool_sources api tt) tools)))) ([], []))))"

section \<open>The prelude\<close>

text \<open>The statements of the prelude, and their text.  A path is the list of keys below
  \<open>globalThis.tools\<close>; the prefixes already initialised are remembered by their text.\<close>

datatype prelude_stmt = InitObject "string list" | BindTool "string list" string

definition path_text :: "(string \<Rightarrow> string) \<Rightarrow> string list \<Rightarrow> string" where
  "path_text q ps = ''globalThis.tools'' @ concat (map (\<lambda>p. ''['' @ q p @ '']'') ps)"

definition stmt_text :: "(string \<Rightarrow> string) \<Rightarrow> prelude_stmt \<Rightarrow> string" where
  "stmt_text q st =
     (case st of
        InitObject ps \<Rightarrow> path_text q ps @ '' = '' @ path_text q ps @ '' || {};'' @ line_feed
      | BindTool ps name \<Rightarrow> path_text q ps @ '' = (args) => __toolboxInvoke('' @ q name @ '', args);'' @ line_feed)"

fun init_prefixes :: "(string \<Rightarrow> string) \<Rightarrow> string list \<Rightarrow> string list \<Rightarrow> string list \<Rightarrow> prelude_stmt list \<times> string list" where
  "init_prefixes q pre [] seen = ([], seen)"
| "init_prefixes q pre (part # parts) seen =
     (let pre' = pre @ [part] in
      if path_text q pre' \<in> set seen then init_prefixes q pre' parts seen
      else case init_prefixes q pre' parts (path_text q pre' # seen) of (sts, seen') \<Rightarrow> (InitObject pre' # sts, seen'))"

fun prelude_stmts :: "(string \<Rightarrow> string) \<Rightarrow> string list \<Rightarrow> string list \<Rightarrow> prelude_stmt list" where
  "prelude_stmts q [] seen = []"
| "prelude_stmts q (name # names) seen =
     (let parts = Split (CHR ''.'') name in
      case init_prefixes q [] (butlast parts) seen of
        (sts, seen') \<Rightarrow> sts @ [BindTool parts name] @ prelude_stmts q names seen')"

definition preludeForTools :: "(string \<Rightarrow> string) \<Rightarrow> 'sig AgentTool list \<Rightarrow> string" where
  "preludeForTools q view =
     ''const __toolboxInvoke = globalThis.__invokeTool;'' @ line_feed @
     ''delete globalThis.__invokeTool;'' @ line_feed @
     ''globalThis.tools = {};'' @ line_feed @
     concat (map (stmt_text q) (prelude_stmts q (map at_Name (sortedTools view)) []))"

section \<open>The SDK of the type check\<close>

definition sdk_line ::
  "('sig, 'ty) ts_api \<Rightarrow> ('sig, 'ty) ts_text \<Rightarrow> (string \<Rightarrow> string) \<Rightarrow> 'sig AgentTool \<Rightarrow> string \<Rightarrow> string" where
  "sdk_line api tt q tool method =
     ''    '' @ method @ ''(args: '' @ (case ParamsType api tool of None \<Rightarrow> ''Record<string, unknown>'' | Some pt \<Rightarrow> ToTS tt pt) @
     ''): string { return __invokeTool<string>('' @ q (at_Name tool) @ '', args); },''"

fun sdk_namespaces ::
  "('sig, 'ty) ts_api \<Rightarrow> ('sig, 'ty) ts_text \<Rightarrow> (string \<Rightarrow> string) \<Rightarrow> 'sig AgentTool list \<Rightarrow> (string, string list) gomap
     \<Rightarrow> (string, string list) gomap" where
  "sdk_namespaces api tt q [] namespaces = namespaces"
| "sdk_namespaces api tt q (tool # tools) namespaces =
     (case Split (CHR ''.'') (at_Name tool) of
        [ns, method] \<Rightarrow>
          sdk_namespaces api tt q tools
            (AList.update ns ((case map_of namespaces ns of None \<Rightarrow> [] | Some ls \<Rightarrow> ls) @ [sdk_line api tt q tool method]) namespaces)
      | _ \<Rightarrow> sdk_namespaces api tt q tools namespaces)"

definition typecheckSDKSource ::
  "('sig, 'ty) ts_api \<Rightarrow> ('sig, 'ty) ts_text \<Rightarrow> (string \<Rightarrow> string) \<Rightarrow> 'sig AgentTool list \<Rightarrow> string" where
  "typecheckSDKSource api tt q view =
     (let tools = sortedTools view;
          declLines = collectUniqueDeclarations api tt tools;
          namespaces = sdk_namespaces api tt q tools [];
          nsNames = sort_strings (map_keys namespaces) in
      ''declare function __invokeTool<T>(toolName: string, args: unknown): T;'' @ line_feed @
      (if declLines \<noteq> [] then concat (map (\<lambda>l. l @ line_feed) declLines) @ line_feed else []) @
      ''export const tools = {'' @ line_feed @
      concat (map (\<lambda>ns. ''  '' @ ns @ '': {'' @ line_feed @
        concat (map (\<lambda>l. l @ line_feed) (case map_of namespaces ns of None \<Rightarrow> [] | Some ls \<Rightarrow> ls)) @
        ''  },'' @ line_feed) nsNames) @
      ''};'' @ line_feed)"

definition typecheckFiles ::
  "('sig, 'ty) ts_api \<Rightarrow> ('sig, 'ty) ts_text \<Rightarrow> (string \<Rightarrow> string) \<Rightarrow> 'sig AgentTool list \<Rightarrow> string \<Rightarrow> (string, bytes) gomap" where
  "typecheckFiles api tt q view code =
     [(''__codemode_sdk.ts'', typecheckSDKSource api tt q view),
      (''__codemode_run.ts'', ''import { tools } from '' @ [CHR 0x22] @ ''./__codemode_sdk.ts'' @ [CHR 0x22] @ '';'' @ line_feed @ code)]"

section \<open>Running code\<close>

record Diagnostic =
  dg_File :: string
  dg_Message :: string

definition formatDiagnostics :: "Diagnostic list \<Rightarrow> string" where
  "formatDiagnostics ds =
     Join ''; '' (map (\<lambda>d. if dg_File d \<noteq> [] then dg_File d @ '': '' @ dg_Message d else dg_Message d) ds)"

text \<open>A running program of the agent, as the invoker sees it: it ends, or calls a tool and goes on with
  the answer.\<close>

datatype guest = Finish "string + string" | CallTool string params "toolset_error + string \<Rightarrow> guest"

record code_env =
  ce_Check :: "(string, bytes) gomap \<Rightarrow> string \<Rightarrow> string + Diagnostic list"
  ce_NewRuntime :: "string + unit"
  ce_FuncToJS :: "string + unit"
  ce_EvalPrelude :: "string \<Rightarrow> string + unit"
  ce_Transform :: "string \<Rightarrow> string + string"
  ce_EvalModule :: "string \<Rightarrow> string \<Rightarrow> guest"

datatype code_error =
    CheckError string
  | Diagnostics string
  | CreateRuntime string
  | BindInvoke string
  | LoadTools string
  | TransformCode string
  | RunCode string

text \<open>The result of the program, and the calls it made with their answers.\<close>

type_synonym call_trace = "(string \<times> params \<times> (toolset_error + string)) list"

primrec run_guest :: "(string \<Rightarrow> params \<Rightarrow> toolset_error + string) \<Rightarrow> guest \<Rightarrow> (string + string) \<times> call_trace" where
  "run_guest invoke (Finish r) = (r, [])"
| "run_guest invoke (CallTool name args k) =
     (let answer = invoke name args; (r, trace) = run_guest invoke (k answer) in (r, (name, args, answer) # trace))"

definition run_code ::
  "'p cel_api \<Rightarrow> ('sig, 'ty) ts_api \<Rightarrow> ('sig, 'ty) ts_text \<Rightarrow> (string \<Rightarrow> string) \<Rightarrow> code_env \<Rightarrow> 'sig engine \<Rightarrow> 'sig engine
     \<Rightarrow> ('sig, 'p) ResolvedToolset \<Rightarrow> string \<Rightarrow> (code_error + string) \<times> call_trace" where
  "run_code cel api tt q ce run_wasm run_ts resolved code =
     (let view = AgentView cel api resolved in
      case ce_Check ce (typecheckFiles api tt q view code) ''__codemode_run.ts'' of
        Inl e \<Rightarrow> (Inl (CheckError e), [])
      | Inr diagnostics \<Rightarrow>
          if diagnostics \<noteq> [] then (Inl (Diagnostics (formatDiagnostics diagnostics)), [])
          else case ce_NewRuntime ce of
              Inl e \<Rightarrow> (Inl (CreateRuntime e), [])
            | Inr _ \<Rightarrow>
                (case ce_FuncToJS ce of
                   Inl e \<Rightarrow> (Inl (BindInvoke e), [])
                 | Inr _ \<Rightarrow>
                     let prelude = preludeForTools q view in
                     (case ce_EvalPrelude ce prelude of
                        Inl e \<Rightarrow> (Inl (LoadTools e), [])
                      | Inr _ \<Rightarrow>
                          (case ce_Transform ce (''const tools = globalThis.tools;'' @ line_feed @ code) of
                             Inl e \<Rightarrow> (Inl (TransformCode e), [])
                           | Inr js \<Rightarrow>
                               map_prod (map_sum RunCode id) id
                                 (run_guest (Run cel run_wasm run_ts resolved) (ce_EvalModule ce prelude js))))))"

end
