(* ===== verification/Declaration.thy ===== *)
theory Declaration
  imports Codemode
begin

text \<open>
  The declaration file of code mode (\<open>codemode/declaration.go\<close>): \<open>DeclarationSource\<close> renders the
  tools that an agent sees as a TypeScript declaration, names the types that several tools share, and
  declares them after the tools.  Parameters beside those of \<open>Codemode\<close> (\<open>decl_env\<close>): the JSON
  encoding of a list of properties, \<open>unicode.ToUpper\<close>, conversion of doubles, and the formats \<open>%q\<close>, \<open>%g\<close> and
  \<open>%v\<close>.  The loops over maps run in the order of the list that stands for the map.
\<close>

record decl_env =
  de_Marshal :: "(string \<times> string \<times> string \<times> bool) list \<Rightarrow> string"
  de_ToUpper :: "nat \<Rightarrow> nat"
  de_quote :: "string \<Rightarrow> string"
  de_int64 :: "64 word \<Rightarrow> int option"
  de_float :: "64 word \<Rightarrow> string"
  de_any :: "go_any \<Rightarrow> string"

section \<open>Helpers\<close>

definition hasDescriptions :: "'ty PropertyInfo list \<Rightarrow> bool" where
  "hasDescriptions props = list_ex (\<lambda>p. pi_Description p \<noteq> []) props"

definition effectLabel :: "Effect \<Rightarrow> bool option \<Rightarrow> string" where
  "effectLabel effect idempotent =
     (let isIdempotent = (idempotent = Some True) in
      if effect = EffectReadOnly then ''(readonly)''
      else if effect = EffectReversible then (if isIdempotent then ''(reversible, idempotent)'' else ''(reversible)'')
      else if effect = EffectIrreversible then (if isIdempotent then ''(irreversible, idempotent)'' else ''(irreversible)'')
      else [])"

text \<open>\<open>de_int64\<close> is the integer a double equals, if any.\<close>

definition literalToTS :: "decl_env \<Rightarrow> go_any \<Rightarrow> string" where
  "literalToTS de v =
     (case v of
        AStr s \<Rightarrow> de_quote de s
      | AFloat f \<Rightarrow> (case de_int64 de f of Some i \<Rightarrow> itoa i | None \<Rightarrow> de_float de f)
      | AInt i \<Rightarrow> itoa i
      | ABool b \<Rightarrow> (if b then ''true'' else ''false'')
      | _ \<Rightarrow> de_any de v)"

text \<open>UTF-8 as \<open>string\<close> of a rune writes it.\<close>

definition encode_rune :: "nat \<Rightarrow> nat list" where
  "encode_rune r0 =
     (if r0 < 128 then [r0]
      else let r = (if 55296 \<le> r0 \<and> r0 \<le> 57343 \<or> 1114111 < r0 then rune_error else r0) in
      if r < 2048 then [192 + r div 64, 128 + r mod 64]
      else if r < 65536 then [224 + r div 4096, 128 + r div 64 mod 64, 128 + r mod 64]
      else [240 + r div 262144, 128 + r div 4096 mod 64, 128 + r div 64 mod 64, 128 + r mod 64])"

definition upperFirst :: "decl_env \<Rightarrow> string \<Rightarrow> string" where
  "upperFirst de s =
     (case runes s of
        [] \<Rightarrow> s
      | r # rs \<Rightarrow> map char_of (concat (map encode_rune (de_ToUpper de r # rs))))"

definition renderReturnTypeInlineComments :: "('sig, 'ty) ts_text \<Rightarrow> 'ty \<Rightarrow> string" where
  "renderReturnTypeInlineComments tt pt =
     (let props = ObjectProperties tt pt in
      if props = [] then ToTS tt pt
      else ''{ '' @ Join ''; '' (map (property_text tt) props) @ '' }'')"

definition canonicalReturnTypeKey :: "decl_env \<Rightarrow> ('sig, 'ty) ts_text \<Rightarrow> 'ty PropertyInfo list \<Rightarrow> string" where
  "canonicalReturnTypeKey de tt props =
     de_Marshal de (map (\<lambda>p. (pi_Name p, ToTS tt (pi_Type p), pi_Description p, \<not> pi_Optional p)) props)"

fun collectDefinitionStructures ::
  "decl_env \<Rightarrow> ('sig, 'ty) ts_text \<Rightarrow> (string \<times> 'ty) list \<Rightarrow> (string, string) gomap \<Rightarrow> (string, string) gomap" where
  "collectDefinitionStructures de tt [] out = out"
| "collectDefinitionStructures de tt ((name, defType) # defs) out =
     (let props = ObjectProperties tt defType; key = canonicalReturnTypeKey de tt props in
      collectDefinitionStructures de tt defs
        (if props \<noteq> [] \<and> map_of out key = None then AList.update key name out else out))"

definition def_names ::
  "decl_env \<Rightarrow> ('sig, 'ty) ts_api \<Rightarrow> ('sig, 'ty) ts_text \<Rightarrow> 'sig AgentTool list \<Rightarrow> (string, string) gomap" where
  "def_names de api tt tools =
     fold (\<lambda>tool out. case ParamsType api tool of
         None \<Rightarrow> out | Some pt \<Rightarrow> collectDefinitionStructures de tt (DefinitionTypes tt pt) out) tools []"

definition findTool :: "'sig AgentTool list \<Rightarrow> string \<Rightarrow> 'sig AgentTool option" where
  "findTool tools name = find (\<lambda>t. at_Name t = name) tools"

definition append_at :: "'k \<Rightarrow> 'v \<Rightarrow> ('k, 'v list) gomap \<Rightarrow> ('k, 'v list) gomap" where
  "append_at k v m = AList.update k ((case map_of m k of None \<Rightarrow> [] | Some vs \<Rightarrow> vs) @ [v]) m"

definition groupToolsByNamespace :: "'sig AgentTool list \<Rightarrow> (string, 'sig AgentTool list) gomap \<times> string list" where
  "groupToolsByNamespace tools =
     (let namespaces = fold (\<lambda>tool m. case Split (CHR ''.'') (at_Name tool) of
            ns # _ # _ \<Rightarrow> append_at ns tool m | _ \<Rightarrow> m) tools [] in
      (namespaces, sort_strings (map_keys namespaces)))"

section \<open>Shared parameter types\<close>

record param_occurrence =
  po_tool :: string
  po_param :: string
  po_ts :: string

definition param_occurrences ::
  "decl_env \<Rightarrow> ('sig, 'ty) ts_text \<Rightarrow> 'sig AgentTool \<Rightarrow> (string \<times> param_occurrence) list" where
  "param_occurrences de tt tool =
     (case at_Sig tool of
        None \<Rightarrow> []
      | Some sig \<Rightarrow>
          map (\<lambda>p. (canonicalReturnTypeKey de tt (ObjectProperties tt (fp_Type p)),
              \<lparr>po_tool = at_Name tool, po_param = fp_Name p, po_ts = ToTS tt (fp_Type p)\<rparr>))
            (filter (\<lambda>p. \<not> IsNil tt (fp_Type p) \<and> IsObject tt (fp_Type p) \<and> ObjectProperties tt (fp_Type p) \<noteq> []) (sig_Params tt sig)))"

definition paramCanonical ::
  "decl_env \<Rightarrow> ('sig, 'ty) ts_text \<Rightarrow> 'sig AgentTool list \<Rightarrow> (string, param_occurrence list) gomap" where
  "paramCanonical de tt tools = fold (\<lambda>(key, occ). append_at key occ) (concat (map (param_occurrences de tt) tools)) []"

text \<open>The name of a shared structure, and the names given to the parameters that have it.\<close>

definition shared_name :: "decl_env \<Rightarrow> (string, string) gomap \<Rightarrow> string \<Rightarrow> param_occurrence list \<Rightarrow> string" where
  "shared_name de defNames key occs =
     (let n = (case map_of defNames key of Some n \<Rightarrow> n | None \<Rightarrow> []) in
      if n = [] then upperFirst de (po_param (hd occs)) else n)"

definition shared_params ::
  "decl_env \<Rightarrow> (string, string) gomap \<Rightarrow> (string, param_occurrence list) gomap \<Rightarrow> (string \<times> string \<times> param_occurrence list) list" where
  "shared_params de defNames canon =
     map (\<lambda>(key, occs). (shared_name de defNames key occs, po_ts (hd occs), occs)) (filter (\<lambda>(key, occs). length occs \<ge> 2) canon)"

definition paramTypeOverrides :: "(string \<times> string \<times> param_occurrence list) list \<Rightarrow> (string, string) gomap" where
  "paramTypeOverrides shared =
     fold (\<lambda>(typeName, ts, occs). fold (\<lambda>occ. AList.update (po_tool occ @ ''.'' @ po_param occ) typeName) occs) shared []"

definition keep_first :: "'a list \<Rightarrow> 'a list" where
  "keep_first xs = rev (remdups (rev xs))"

definition inputDeclLines :: "(string \<times> string \<times> param_occurrence list) list \<Rightarrow> string list" where
  "inputDeclLines shared =
     keep_first (map (\<lambda>(typeName, ts, occs). ''type '' @ typeName @ '' = '' @ ts @ '';'') shared)"

definition refLines :: "string list \<Rightarrow> string list \<Rightarrow> string list" where
  "refLines inputLines refDeclLines = keep_first (filter (\<lambda>l. l \<notin> set inputLines) refDeclLines)"

section \<open>Return types\<close>

datatype return_mode = Named string | InlineComments

text \<open>The properties of the result of a tool, when it is an object that has any.\<close>

definition return_props :: "('sig, 'ty) ts_text \<Rightarrow> 'sig AgentTool \<Rightarrow> 'ty PropertyInfo list" where
  "return_props tt tool =
     (case at_Sig tool of
        None \<Rightarrow> []
      | Some sig \<Rightarrow>
          (case sig_Return tt sig of
             None \<Rightarrow> []
           | Some rt \<Rightarrow> let unwrapped = UnwrapPromise tt rt in
               if IsObject tt unwrapped then ObjectProperties tt unwrapped else []))"

definition last_part :: "string \<Rightarrow> string" where
  "last_part name = last (Split (CHR ''.'') name)"

definition result_name :: "decl_env \<Rightarrow> (string, string) gomap \<Rightarrow> string \<Rightarrow> string \<Rightarrow> string" where
  "result_name de defNames key name =
     (case map_of defNames key of Some defName \<Rightarrow> defName | None \<Rightarrow> upperFirst de (last_part name) @ ''Result'')"

text \<open>The loop over the tools keeps the name of each structure and the mode of each tool.\<close>

definition analyze_return ::
  "decl_env \<Rightarrow> ('sig, 'ty) ts_text \<Rightarrow> (string, string) gomap \<Rightarrow> 'sig AgentTool
     \<Rightarrow> (string, string) gomap \<times> (string, return_mode) gomap \<Rightarrow> (string, string) gomap \<times> (string, return_mode) gomap" where
  "analyze_return de tt defNames tool st =
     (case st of (sharedTypes, modes) \<Rightarrow>
        let props = return_props tt tool; key = canonicalReturnTypeKey de tt props; name = at_Name tool in
        if \<not> hasDescriptions props then st
        else case map_of sharedTypes key of
            Some typeName \<Rightarrow> (sharedTypes, AList.update name (Named typeName) modes)
          | None \<Rightarrow>
              let typeName = result_name de defNames key name in
              (AList.update key typeName sharedTypes,
               AList.update name (if list_ex (\<lambda>p. Contains (pi_Description p) line_feed) props then Named typeName else InlineComments) modes))"

definition canonicalUsage :: "decl_env \<Rightarrow> ('sig, 'ty) ts_text \<Rightarrow> 'sig AgentTool list \<Rightarrow> string \<Rightarrow> nat" where
  "canonicalUsage de tt tools key =
     length (filter (\<lambda>t. return_props tt t \<noteq> [] \<and> canonicalReturnTypeKey de tt (return_props tt t) = key) tools)"

definition promote ::
  "decl_env \<Rightarrow> ('sig, 'ty) ts_text \<Rightarrow> 'sig AgentTool list \<Rightarrow> (string, string) gomap \<Rightarrow> string \<times> return_mode \<Rightarrow> string \<times> return_mode" where
  "promote de tt tools sharedTypes entry =
     (case entry of (name, mode) \<Rightarrow>
        if mode \<noteq> InlineComments then entry
        else case findTool tools name of
            None \<Rightarrow> entry
          | Some tool \<Rightarrow>
              let key = canonicalReturnTypeKey de tt (return_props tt tool) in
              if canonicalUsage de tt tools key > 1
              then (case map_of sharedTypes key of Some typeName \<Rightarrow> (name, Named typeName) | None \<Rightarrow> entry)
              else entry)"

definition returnTypes ::
  "decl_env \<Rightarrow> ('sig, 'ty) ts_text \<Rightarrow> (string, string) gomap \<Rightarrow> 'sig AgentTool list \<Rightarrow> (string, return_mode) gomap" where
  "returnTypes de tt defNames tools =
     (case fold (analyze_return de tt defNames) tools ([], []) of
        (sharedTypes, modes) \<Rightarrow> map (promote de tt tools sharedTypes) modes)"

definition alias_declared :: "string list \<Rightarrow> string \<Rightarrow> bool" where
  "alias_declared declLines typeName = list_ex (\<lambda>l. Contains l (''type '' @ typeName @ '' = '')) declLines"

definition return_description :: "('sig, 'ty) ts_text \<Rightarrow> 'sig AgentTool \<Rightarrow> string" where
  "return_description tt tool =
     (case at_Sig tool of
        None \<Rightarrow> []
      | Some sig \<Rightarrow> (case sig_Return tt sig of None \<Rightarrow> [] | Some rt \<Rightarrow> ty_Description tt (UnwrapPromise tt rt)))"

text \<open>The interfaces of the named results that no alias declares, each once; \<open>emitted\<close> holds the names
  dealt with.\<close>

fun interface_blocks ::
  "('sig, 'ty) ts_text \<Rightarrow> string list \<Rightarrow> (string, return_mode) gomap \<Rightarrow> 'sig AgentTool list \<Rightarrow> string list \<Rightarrow> (string \<times> string) list" where
  "interface_blocks tt declLines modes [] emitted = []"
| "interface_blocks tt declLines modes (tool # tools) emitted =
     (case map_of modes (at_Name tool) of
        Some (Named typeName) \<Rightarrow>
          if typeName \<in> set emitted then interface_blocks tt declLines modes tools emitted
          else if alias_declared declLines typeName then interface_blocks tt declLines modes tools (typeName # emitted)
          else (typeName, interface_text tt (return_description tt tool) typeName (return_props tt tool)) #
            interface_blocks tt declLines modes tools (typeName # emitted)
      | _ \<Rightarrow> interface_blocks tt declLines modes tools emitted)"

section \<open>Methods\<close>

definition visible_params :: "('sig, 'ty) ts_text \<Rightarrow> 'sig AgentTool \<Rightarrow> 'ty FuncParam list" where
  "visible_params tt tool =
     (case at_Sig tool of
        None \<Rightarrow> []
      | Some sig \<Rightarrow> filter (\<lambda>p. \<not> is_hidden (at_hiddenParams tool) (fp_Name p)) (sig_Params tt sig))"

definition param_type ::
  "decl_env \<Rightarrow> ('sig, 'ty) ts_text \<Rightarrow> (string, string) gomap \<Rightarrow> 'sig AgentTool \<Rightarrow> 'ty FuncParam \<Rightarrow> string" where
  "param_type de tt overrides tool p =
     (case map_of (at_boundLiterals tool) (fp_Name p) of
        Some litVal \<Rightarrow> literalToTS de litVal
      | None \<Rightarrow>
          (case map_of overrides (at_Name tool @ ''.'' @ fp_Name p) of
             Some sharedName \<Rightarrow> sharedName
           | None \<Rightarrow>
               let props = ObjectProperties tt (fp_Type p) in
               if props \<noteq> [] \<and> hasDescriptions props then renderReturnTypeInlineComments tt (fp_Type p)
               else ToTS tt (fp_Type p)))"

definition multi_line :: "('sig, 'ty) ts_text \<Rightarrow> 'sig AgentTool \<Rightarrow> bool" where
  "multi_line tt tool = list_ex (\<lambda>p. Contains (fp_Description p) line_feed) (visible_params tt tool)"

definition param_part ::
  "decl_env \<Rightarrow> ('sig, 'ty) ts_text \<Rightarrow> (string, string) gomap \<Rightarrow> 'sig AgentTool \<Rightarrow> 'ty FuncParam \<Rightarrow> string" where
  "param_part de tt overrides tool p =
     (let tsType = param_type de tt overrides tool p;
          name = fp_Name p @ (if fp_Optional p then ''?'' else []);
          desc = fp_Description p in
      if multi_line tt tool then name @ '': '' @ tsType
      else if desc \<noteq> [] \<and> \<not> Contains desc line_feed then ''/** '' @ desc @ '' */ '' @ name @ '': '' @ tsType
      else name @ '': '' @ tsType)"

definition return_type ::
  "('sig, 'ty) ts_text \<Rightarrow> (string, return_mode) gomap \<Rightarrow> 'sig AgentTool \<Rightarrow> string" where
  "return_type tt modes tool =
     (case at_Sig tool of
        None \<Rightarrow> ''string''
      | Some sig \<Rightarrow>
          (case sig_Return tt sig of
             None \<Rightarrow> ''string''
           | Some rt \<Rightarrow>
               (case map_of modes (at_Name tool) of
                  Some (Named typeName) \<Rightarrow> typeName
                | Some InlineComments \<Rightarrow> renderReturnTypeInlineComments tt (UnwrapPromise tt rt)
                | None \<Rightarrow> ToTS tt (UnwrapPromise tt rt))))"

definition mode_trail :: "'sig AgentTool \<Rightarrow> string" where
  "mode_trail tool =
     (let modeLabel = effectLabel (at_Effect tool) (at_Idempotent tool) in
      if modeLabel = [] then [] else '' // '' @ TrimFunc (\<lambda>c. c = CHR ''('' \<or> c = CHR '')'') modeLabel)"

fun param_lines :: "(string \<times> string) list \<Rightarrow> string" where
  "param_lines [] = []"
| "param_lines ((desc, part) # ps) =
     comment_lines ''      '' desc @ ''      '' @ part @ (if ps = [] then [] else '','') @ line_feed @ param_lines ps"

definition method_text ::
  "decl_env \<Rightarrow> ('sig, 'ty) ts_text \<Rightarrow> (string, string) gomap \<Rightarrow> (string, return_mode) gomap \<Rightarrow> 'sig AgentTool \<Rightarrow> string" where
  "method_text de tt overrides modes tool =
     (let method = last_part (at_Name tool);
          desc = (case at_Sig tool of None \<Rightarrow> [] | Some sig \<Rightarrow> sig_Description tt sig);
          params = visible_params tt tool;
          parts = map (param_part de tt overrides tool) params;
          tail = ''): '' @ return_type tt modes tool @ '';'' @ mode_trail tool @ line_feed in
      (if desc \<noteq> [] then ''    // '' @ desc @ line_feed else []) @
      (if multi_line tt tool \<and> parts \<noteq> []
       then ''    '' @ method @ ''('' @ line_feed @ param_lines (zip (map fp_Description params) parts) @ ''    '' @ tail
       else ''    '' @ method @ ''('' @ Join '', '' parts @ tail))"

section \<open>The declaration\<close>

text \<open>What is rendered: the tools by namespace, then the declarations of types.\<close>

record decl_types =
  dt_overrides :: "(string, string) gomap"
  dt_modes :: "(string, return_mode) gomap"
  dt_input :: "string list"
  dt_refs :: "string list"
  dt_interfaces :: "(string \<times> string) list"

definition declared_types ::
  "decl_env \<Rightarrow> ('sig, 'ty) ts_api \<Rightarrow> ('sig, 'ty) ts_text \<Rightarrow> 'sig AgentTool list \<Rightarrow> decl_types" where
  "declared_types de api tt tools =
     (let defNames = def_names de api tt tools;
          shared = shared_params de defNames (paramCanonical de tt tools);
          input = inputDeclLines shared;
          refs = refLines input (collectUniqueDeclarations api tt tools);
          modes = returnTypes de tt defNames tools in
      \<lparr>dt_overrides = paramTypeOverrides shared, dt_modes = modes, dt_input = input, dt_refs = refs,
       dt_interfaces = interface_blocks tt (input @ refs) modes tools []\<rparr>)"

definition type_definitions :: "decl_types \<Rightarrow> string" where
  "type_definitions dt =
     (let decls = dt_input dt @ dt_refs dt @ map snd (dt_interfaces dt) in
      if decls = [] then [] else line_feed @ concat (map (\<lambda>l. l @ line_feed) decls))"

definition DeclarationSource ::
  "decl_env \<Rightarrow> ('sig, 'ty) ts_api \<Rightarrow> ('sig, 'ty) ts_text \<Rightarrow> 'sig AgentTool list \<Rightarrow> string" where
  "DeclarationSource de api tt view =
     (let tools = sortedTools view; dt = declared_types de api tt tools in
      case groupToolsByNamespace tools of
        (namespaces, nsNames) \<Rightarrow>
          ''export declare const tools: {'' @ line_feed @
          concat (map (\<lambda>ns. ''  '' @ ns @ '': {'' @ line_feed @
            concat (map (method_text de tt (dt_overrides dt) (dt_modes dt)) (case map_of namespaces ns of None \<Rightarrow> [] | Some ts \<Rightarrow> ts)) @
            ''  };'' @ line_feed) nsNames) @
          ''};'' @ line_feed @
          type_definitions dt)"

section \<open>Declarations split by use\<close>

text \<open>\<open>collectSplitDeclarations\<close>: the declarations of the parameter types and those of the result types; \<open>seen\<close> is shared.\<close>

definition add_split_line :: "('sig, 'ty) ts_text \<Rightarrow> (string, 'ty) gomap \<Rightarrow> string \<Rightarrow> string list \<times> string list \<Rightarrow> string list \<times> string list" where
  "add_split_line tt defTypes line acc =
     (case acc of (seen, target) \<Rightarrow>
        let enhanced = enhanceDeclWithDescriptions tt line defTypes in
        if enhanced \<noteq> [] \<and> enhanced \<notin> set seen then (enhanced # seen, target @ [enhanced])
        else if line \<notin> set seen then (line # seen, target @ [line])
        else (seen, target))"

definition type_lines :: "('sig, 'ty) ts_text \<Rightarrow> 'ty option \<Rightarrow> string list" where
  "type_lines tt src =
     (case src of
        None \<Rightarrow> []
      | Some t \<Rightarrow>
          let decls = Declarations tt t in
          if decls = [] then [] else filter (\<lambda>line. line \<noteq> []) (Split (CHR 0x0A) (trim_right_lf decls)))"

definition split_tool ::
  "('sig, 'ty) ts_api \<Rightarrow> ('sig, 'ty) ts_text \<Rightarrow> (string, 'ty) gomap \<Rightarrow> 'sig AgentTool \<Rightarrow> string list \<times> string list \<times> string list
     \<Rightarrow> string list \<times> string list \<times> string list" where
  "split_tool api tt defTypes tool acc =
     (case acc of (seen, paramLines, returnLines) \<Rightarrow>
        (case fold (add_split_line tt defTypes) (type_lines tt (ParamsType api tool)) (seen, paramLines) of
           (seen', paramLines') \<Rightarrow>
             (case fold (add_split_line tt defTypes) (type_lines tt (Option.bind (at_Sig tool) (sig_Return tt))) (seen', returnLines) of
                (seen'', returnLines') \<Rightarrow> (seen'', paramLines', returnLines'))))"

definition collectSplitDeclarations ::
  "('sig, 'ty) ts_api \<Rightarrow> ('sig, 'ty) ts_text \<Rightarrow> 'sig AgentTool list \<Rightarrow> string list \<times> string list" where
  "collectSplitDeclarations api tt tools =
     (case fold (split_tool api tt (collect_def_types api tt tools)) tools ([], [], []) of
        (_, paramLines, returnLines) \<Rightarrow> (sort_strings paramLines, sort_strings returnLines))"

end
