(* ===== verification/Codemode_Props.thy ===== *)
theory Codemode_Props
  imports Codemode "HOL-Library.Sublist"
begin

text \<open>
  What code mode promises: the prelude makes exactly the agent's tools callable, each under the path
  of its name, and the agent's code reaches tools through the guarded invoker only, after it passed the
  type check.
\<close>

section \<open>Meaning of the prelude\<close>

text \<open>
  The objects below \<open>globalThis.tools\<close>: at a path there is nothing, an object, or the function of a
  tool.  Writing to a missing parent is a \<open>TypeError\<close>, a function accepts properties,
  and assigning to a path drops what was below it.  Keys that every object or function
  inherits are left out: on them the statements have no meaning here.
\<close>

datatype js_value = JsObject | JsTool string

type_synonym js_tree = "string list \<Rightarrow> js_value option"

definition inherited_keys :: "string list" where
  "inherited_keys = [''__proto__'', ''constructor'', ''hasOwnProperty'', ''isPrototypeOf'', ''propertyIsEnumerable'',
     ''toLocaleString'', ''toString'', ''valueOf'', ''__defineGetter__'', ''__defineSetter__'', ''__lookupGetter__'',
     ''__lookupSetter__'', ''name'', ''length'', ''prototype'', ''arguments'', ''caller'', ''call'', ''apply'', ''bind'']"

definition own_key :: "string \<Rightarrow> bool" where
  "own_key k = (k \<notin> set inherited_keys)"

fun exec_stmt :: "prelude_stmt \<Rightarrow> js_tree \<Rightarrow> js_tree option" where
  "exec_stmt (InitObject ps) t =
     (if ps = [] \<or> \<not> own_key (last ps) \<or> t (butlast ps) = None then None
      else if t ps = None then Some (t(ps \<mapsto> JsObject)) else Some t)"
| "exec_stmt (BindTool ps name) t =
     (if ps = [] \<or> \<not> own_key (last ps) \<or> t (butlast ps) = None then None
      else Some (\<lambda>qs. if qs = ps then Some (JsTool name) else if strict_prefix ps qs then None else t qs))"

fun exec_all :: "prelude_stmt list \<Rightarrow> js_tree \<Rightarrow> js_tree option" where
  "exec_all [] t = Some t"
| "exec_all (s # ss) t = Option.bind (exec_stmt s t) (exec_all ss)"

definition fresh_tools :: js_tree where
  "fresh_tools = (\<lambda>_. None)([] \<mapsto> JsObject)"

lemma exec_all_append [simp]: "exec_all (xs @ ys) t = Option.bind (exec_all xs t) (exec_all ys)"
  by (induction xs arbitrary: t) (simp_all split: bind_splits)

section \<open>Paths and their text\<close>

definition plain_key :: "string \<Rightarrow> bool" where
  "plain_key s = (own_key s \<and> list_all (\<lambda>c. c \<noteq> CHR 0x22 \<and> c \<noteq> CHR 0x5C \<and> 32 \<le> byte_of c \<and> byte_of c < 127) s)"

definition quote_law :: "(string \<Rightarrow> string) \<Rightarrow> bool" where
  "quote_law q \<longleftrightarrow> (\<forall>s. plain_key s \<longrightarrow> q s = [CHR 0x22] @ s @ [CHR 0x22])"

abbreviation parts_of :: "string \<Rightarrow> string list" where "parts_of \<equiv> Split (CHR ''.'')"

definition plain_name :: "string \<Rightarrow> bool" where
  "plain_name n = list_all plain_key (parts_of n)"

lemma quoted_inj:
  assumes "CHR 0x22 \<notin> set a" "CHR 0x22 \<notin> set b" "a @ CHR 0x22 # x = b @ CHR 0x22 # y"
  shows "a = b \<and> x = y"
  using assms(3,1,2)
proof (induction a arbitrary: b)
  case Nil
  then show ?case by (cases b) auto
next
  case (Cons c a)
  then show ?case by (cases b) auto
qed

lemma path_text_inj:
  assumes "quote_law q" "list_all plain_key ps" "list_all plain_key qs" "path_text q ps = path_text q qs"
  shows "ps = qs"
proof -
  have "concat (map (\<lambda>p. ''['' @ q p @ '']'') ps) = concat (map (\<lambda>p. ''['' @ q p @ '']'') qs)"
    using assms(4) by (simp add: path_text_def)
  then show ?thesis using assms(2,3)
  proof (induction ps arbitrary: qs)
    case Nil
    then show ?case by (cases qs) auto
  next
    case (Cons p ps)
    then obtain r rs where qs: "qs = r # rs" by (cases qs) auto
    have pr: "q p = [CHR 0x22] @ p @ [CHR 0x22]" "q r = [CHR 0x22] @ r @ [CHR 0x22]"
      "CHR 0x22 \<notin> set p" "CHR 0x22 \<notin> set r"
      using assms(1) Cons.prems qs by (auto simp: quote_law_def plain_key_def list_all_iff)
    have "p = r \<and> CHR '']'' # concat (map (\<lambda>p. ''['' @ q p @ '']'') ps) = CHR '']'' # concat (map (\<lambda>p. ''['' @ q p @ '']'') rs)"
      using Cons.prems(1) pr(1,2) qs by (intro quoted_inj[OF pr(3,4)]) simp
    then show ?case using Cons qs by auto
  qed
qed

section \<open>The prelude binds the tools\<close>

text \<open>After the tools \<open>ns\<close> and while the path \<open>pre\<close> is being initialised: the functions are at the paths
  of their names, and every other prefix of such a path or of \<open>pre\<close> is an object.\<close>

definition within :: "string list \<Rightarrow> string list \<Rightarrow> string list set" where
  "within ns pre = {ps. ps = [] \<or> (\<exists>n\<in>set ns. prefix ps (parts_of n)) \<or> prefix ps pre}"

definition shape :: "string list \<Rightarrow> string list \<Rightarrow> js_tree" where
  "shape ns pre ps =
     (if ps \<in> parts_of ` set ns then Some (JsTool (Join ''.'' ps)) else if ps \<in> within ns pre then Some JsObject else None)"

definition seen_ok :: "(string \<Rightarrow> string) \<Rightarrow> string list \<Rightarrow> string list \<Rightarrow> string list \<Rightarrow> bool" where
  "seen_ok q ns pre seen \<longleftrightarrow> set seen \<subseteq> path_text q ` {ps \<in> within ns pre. list_all plain_key ps}"

lemma within_snoc: "within ns (pre @ [p]) = insert (pre @ [p]) (within ns pre)"
  by (auto simp: within_def)

lemma within_self [simp]: "pre \<in> within ns pre" "[] \<in> within ns pre"
  by (simp_all add: within_def)

lemma tools_within: "parts_of ` set ns \<subseteq> within ns pre"
  by (auto simp: within_def)

lemma shape_None: "shape ns pre ps = None \<longleftrightarrow> ps \<notin> within ns pre"
  using tools_within[of ns pre] by (auto simp: shape_def)

lemma shape_snoc:
  "shape ns (pre @ [p]) = (if shape ns pre (pre @ [p]) = None then (shape ns pre)(pre @ [p] \<mapsto> JsObject) else shape ns pre)"
  using tools_within[of ns pre] by (auto simp: shape_None fun_eq_iff within_snoc shape_def)

lemma init_prefixes_exec:
  assumes "init_prefixes q pre parts seen = (sts, seen')" "quote_law q" "list_all plain_key (pre @ parts)" "seen_ok q ns pre seen"
  shows "exec_all sts (shape ns pre) = Some (shape ns (pre @ parts)) \<and> seen_ok q ns (pre @ parts) seen'"
  using assms
proof (induction q pre parts seen arbitrary: sts seen' rule: init_prefixes.induct)
  case (2 q pre part parts seen)
  let ?pre = "pre @ [part]"
  have keys: "list_all plain_key ?pre" "list_all plain_key (?pre @ parts)" using 2(5) by simp_all
  have mono: "seen_ok q ns ?pre seen" using 2(6) by (auto simp: seen_ok_def within_snoc)
  show ?case
  proof (cases "path_text q ?pre \<in> set seen")
    case True
    then obtain ps where ps: "list_all plain_key ps" "ps \<in> within ns pre" "path_text q ?pre = path_text q ps"
      using 2(6) by (auto simp: seen_ok_def)
    then have "?pre \<in> within ns pre" using path_text_inj[OF 2(4) keys(1) ps(1)] by simp
    then have "shape ns ?pre = shape ns pre" by (simp add: shape_snoc shape_None)
    then show ?thesis using 2(1)[OF refl True _ 2(4) keys(2) mono] 2(3) True by simp
  next
    case False
    obtain sts1 where s: "init_prefixes q ?pre parts (path_text q ?pre # seen) = (sts1, seen')" "sts = InitObject ?pre # sts1"
      using 2(3) False by (auto simp: Let_def split: prod.splits)
    have "own_key part" using keys(1) by (simp add: plain_key_def)
    then have step: "exec_stmt (InitObject ?pre) (shape ns pre) = Some (shape ns ?pre)"
      using shape_None[of ns pre pre] by (simp add: shape_snoc)
    have "seen_ok q ns ?pre (path_text q ?pre # seen)" using mono keys(1) by (auto simp: seen_ok_def)
    from 2(2)[OF refl False s(1) 2(4) keys(2) this] show ?thesis using step s(2) by simp
  qed
qed simp

text \<open>A name whose path extends another's is greater, so on a sorted list no binding drops a tool.\<close>

lemma extends_greater:
  assumes "strict_prefix (parts_of n) (parts_of m)"
  shows "n < m"
proof -
  obtain r rs where e: "parts_of m = parts_of n @ r # rs" using assms by (auto simp: strict_prefix_def prefix_def neq_Nil_conv)
  have "m = Join ''.'' (parts_of n @ r # rs)" by (metis Join_Split e)
  also have "\<dots> = n @ CHR ''.'' # Join ''.'' (r # rs)" by (simp add: Join_append Join_Split)
  finally show ?thesis by (simp add: list_less_def lexord_append_rightI)
qed

lemma bind_tool:
  assumes "\<forall>m\<in>set ns. m \<le> n" "list_all plain_key (parts_of n)"
  shows "exec_stmt (BindTool (parts_of n) n) (shape ns (butlast (parts_of n))) = Some (shape (ns @ [n]) [])"
proof -
  let ?P = "parts_of n"
  have P: "?P \<noteq> []" "own_key (last ?P)" using assms(2) by (auto simp: list_all_iff plain_key_def)
  have none: "\<not> strict_prefix ?P (parts_of m)" if "m \<in> set ns" for m
    using extends_greater[of n m] assms(1) that by auto
  have w: "within (ns @ [n]) [] = insert ?P (within ns (butlast ?P))"
  proof -
    have "prefix ps ?P \<longleftrightarrow> ps = ?P \<or> prefix ps (butlast ?P)" for ps
      using prefix_snoc[of ps "butlast ?P" "last ?P"] P(1) by simp
    then show ?thesis by (auto simp: within_def)
  qed
  have out: "qs \<notin> within ns (butlast ?P)" "qs \<noteq> ?P" if "strict_prefix ?P qs" for qs
  proof -
    have "\<not> prefix qs (butlast ?P)" using that P(1) prefix_length_less[OF that] by (cases ?P) (auto dest: prefix_length_le)
    moreover have "\<not> prefix qs (parts_of m)" if "m \<in> set ns" for m
      using none[OF that] \<open>strict_prefix ?P qs\<close> prefix_order.less_le_trans by blast
    ultimately show "qs \<notin> within ns (butlast ?P)" using that by (auto simp: within_def)
  qed (use that in auto)
  have "(\<lambda>qs. if qs = ?P then Some (JsTool n) else if strict_prefix ?P qs then None else shape ns (butlast ?P) qs) = shape (ns @ [n]) []"
    using out tools_within[of ns "butlast ?P"] Join_Split[of "CHR ''.''" n] by (auto simp: fun_eq_iff shape_def w)
  moreover have "shape ns (butlast ?P) (butlast ?P) \<noteq> None" by (simp add: shape_None)
  ultimately show ?thesis using P by simp
qed

lemma seen_ok_bind: "seen_ok q ns (butlast (parts_of n)) seen \<Longrightarrow> seen_ok q (ns @ [n]) [] seen"
proof -
  assume s: "seen_ok q ns (butlast (parts_of n)) seen"
  have "prefix ps (butlast (parts_of n)) \<Longrightarrow> prefix ps (parts_of n)" for ps
    using prefix_order.trans by (metis append_butlast_last_id prefixI Split_nonempty(1))
  then have "within ns (butlast (parts_of n)) \<subseteq> within (ns @ [n]) []" by (auto simp: within_def)
  then show ?thesis using s unfolding seen_ok_def by blast
qed

lemma prelude_exec:
  assumes "quote_law q" "list_all plain_name names" "sorted (ns @ names)" "seen_ok q ns [] seen"
  shows "exec_all (prelude_stmts q names seen) (shape ns []) = Some (shape (ns @ names) [])"
  using assms
proof (induction q names seen arbitrary: ns rule: prelude_stmts.induct)
  case (2 q name names seen)
  let ?parts = "parts_of name"
  obtain sts seen' where I: "init_prefixes q [] (butlast ?parts) seen = (sts, seen')" by fastforce
  have keys: "list_all plain_key ?parts" "list_all plain_key ([] @ butlast ?parts)"
    using 2(3) by (auto simp: plain_name_def list_all_iff dest: in_set_butlastD)
  note E = init_prefixes_exec[OF I 2(2) keys(2) 2(5)]
  have "\<forall>m\<in>set ns. m \<le> name" using 2(4) by (simp add: sorted_append)
  note B = bind_tool[OF this keys(1)]
  have "exec_all (prelude_stmts q names seen') (shape (ns @ [name]) []) = Some (shape ((ns @ [name]) @ names) [])"
    using 2(1)[OF refl I[symmetric] 2(2), of "ns @ [name]"] 2(3,4) seen_ok_bind[of q ns name seen'] E by simp
  then show ?case using E B I by (simp add: Let_def)
qed simp

section \<open>Properties\<close>

text \<open>
  C12. The prelude makes exactly the agent's tools callable: for plain tool names, in whatever order and even when one
  name extends another, its statements run without an error, and afterwards a path below
  \<open>tools\<close> is a function exactly when it is the path of a tool's name, and the function
  invokes that tool.
\<close>

theorem prelude_exact:
  assumes "quote_law q" "list_all (\<lambda>t. plain_name (at_Name t)) view"
  shows "\<exists>tree. exec_all (prelude_stmts q (map at_Name (sortedTools view)) []) fresh_tools = Some tree \<and>
    (\<forall>ps n. tree ps = Some (JsTool n) \<longleftrightarrow> n \<in> at_Name ` set view \<and> ps = parts_of n)"
proof -
  let ?names = "map at_Name (sortedTools view)"
  have "fresh_tools = shape [] []" by (auto simp: fresh_tools_def shape_def within_def fun_eq_iff)
  moreover have "list_all plain_name ?names" "sorted ([] @ ?names)" "set ?names = at_Name ` set view"
    using assms(2) by (auto simp: sortedTools_def list_all_iff sorted_map_go_sort_key)
  moreover have "seen_ok q [] [] []" by (simp add: seen_ok_def)
  ultimately have "exec_all (prelude_stmts q ?names []) fresh_tools = Some (shape ?names [])"
    "set ?names = at_Name ` set view"
    using prelude_exec[OF assms(1), of ?names "[]" "[]"] by simp_all
  moreover have "shape ?names [] ps = Some (JsTool n) \<longleftrightarrow> n \<in> set ?names \<and> ps = parts_of n" for ps n
    by (auto simp: shape_def Join_Split simp del: set_map split: if_splits)
  ultimately show ?thesis by auto
qed

definition demo_agent_tool :: "string \<Rightarrow> unit AgentTool" where
  "demo_agent_tool n = \<lparr>at_Name = n, at_Description = [], at_ParamsSchema = None, at_Sig = None, at_hiddenParams = [],
     at_boundLiterals = [], at_Effect = [], at_Idempotent = None\<rparr>"

definition ascii_quote :: "string \<Rightarrow> string" where
  "ascii_quote s = [CHR 0x22] @ s @ [CHR 0x22]"

theorem prelude_exact_witness:
  "\<exists>tree. exec_all (prelude_stmts ascii_quote (map at_Name (sortedTools (map demo_agent_tool [''a.b.c'', ''a.b'', ''d''])))
        []) fresh_tools = Some tree \<and>
     tree [''a'', ''b''] = Some (JsTool ''a.b'') \<and> tree [''a'', ''b'', ''c''] = Some (JsTool ''a.b.c'') \<and>
     tree [''d''] = Some (JsTool ''d'')"
proof -
  let ?view = "map demo_agent_tool [''a.b.c'', ''a.b'', ''d'']"
  have "quote_law ascii_quote" by (simp add: quote_law_def ascii_quote_def)
  moreover have "list_all (\<lambda>t. plain_name (at_Name t)) ?view" by code_simp
  ultimately obtain tree where t: "exec_all (prelude_stmts ascii_quote (map at_Name (sortedTools ?view)) []) fresh_tools = Some tree"
    "\<forall>ps n. tree ps = Some (JsTool n) \<longleftrightarrow> n \<in> at_Name ` set ?view \<and> ps = parts_of n"
    using prelude_exact by blast
  moreover have "parts_of ''a.b'' = [''a'', ''b'']" "parts_of ''a.b.c'' = [''a'', ''b'', ''c'']" "parts_of ''d'' = [''d'']" by code_simp+
  moreover have "{''a.b.c'', ''a.b'', ''d''} \<subseteq> at_Name ` set ?view" by (simp add: demo_agent_tool_def)
  ultimately show ?thesis by (intro exI[of _ tree]) auto
qed

text \<open>
  C11. Code mode reaches tools through the guard only: when the checker fails or reports a diagnostic, the code
  does not run and no tool is called; otherwise every answer that the code got from a tool was the
  output of the first tool of that name, run with the bound values over the arguments, on a call
  that the policy permits.
\<close>

lemma run_guest_trace: "(n, args, answer) \<in> set (snd (run_guest invoke g)) \<Longrightarrow> answer = invoke n args"
  by (induction g) (auto simp: Let_def case_prod_beta)

lemma run_code_trace:
  "snd (run_code cel api tt q ce run_wasm run_ts r code) = [] \<or>
   (\<exists>g. snd (run_code cel api tt q ce run_wasm run_ts r code) = snd (run_guest (Run cel run_wasm run_ts r) g))"
  by (auto simp: run_code_def Let_def split: sum.split)

lemma bindings_at_ok: "list_all (\<lambda>b. gomap_ok (snd b)) (rs_bindings r) \<Longrightarrow> gomap_ok (bindings_at r n)"
  by (force simp: bindings_at_def map_get_def list_all_iff dest: map_of_SomeD split: option.split)

theorem codemode_guarded:
  assumes "run_code cel api tt q ce run_wasm run_ts r code = (res, trace)" "list_all (\<lambda>b. gomap_ok (snd b)) (rs_bindings r)"
  shows "(ce_Check ce (typecheckFiles api tt q (AgentView cel api r) code) ''__codemode_run.ts'' \<noteq> Inr [] \<longrightarrow>
      \<not> is_ok res \<and> trace = []) \<and>
    (\<forall>n args out. (n, args, Inr out) \<in> set trace \<and> gomap_ok args \<longrightarrow> call_permitted cel r n args \<and>
      (\<exists>full. run_selected run_wasm run_ts r n full = Inr out \<and>
        (\<forall>p. map_of full p = (case injected_value cel r n args p of Some v \<Rightarrow> Some v | None \<Rightarrow> map_of args p))))"
proof (intro conjI allI impI)
  assume "ce_Check ce (typecheckFiles api tt q (AgentView cel api r) code) ''__codemode_run.ts'' \<noteq> Inr []"
  then show "\<not> is_ok res" "trace = []" using assms(1) by (auto simp: run_code_def Let_def split: sum.splits if_splits)
next
  fix n args out
  assume a: "(n, args, Inr out) \<in> set trace \<and> gomap_ok args"
  have "trace = [] \<or> (\<exists>g. trace = snd (run_guest (Run cel run_wasm run_ts r) g))"
    using run_code_trace[of cel api tt q ce run_wasm run_ts r code] assms(1) by simp
  then have "Run cel run_wasm run_ts r n args = Inr out" using a by (auto dest: run_guest_trace)
  from vc.guarded_run[OF this[unfolded Run_def] bindings_at_ok[OF assms(2)]]
  show "call_permitted cel r n args" "\<exists>full. run_selected run_wasm run_ts r n full = Inr out \<and>
      (\<forall>p. map_of full p = (case injected_value cel r n args p of Some v \<Rightarrow> Some v | None \<Rightarrow> map_of args p))"
    using a by blast+
qed

definition demo_text :: "(unit, unit) ts_text" where
  "demo_text = \<lparr>ToTS = (\<lambda>t. ''unknown''), Declarations = (\<lambda>t. []), DefinitionTypes = (\<lambda>t. []), ObjectProperties = (\<lambda>t. []),
     ty_Description = (\<lambda>t. []), IsNil = (\<lambda>t. False), IsObject = (\<lambda>t. False), UnwrapPromise = id,
     sig_Return = (\<lambda>s. None), sig_Params = (\<lambda>s. []), sig_Description = (\<lambda>s. [])\<rparr>"

definition demo_code_env :: code_env where
  "demo_code_env = \<lparr>ce_Check = (\<lambda>fs entry. Inr []), ce_NewRuntime = Inr (), ce_FuncToJS = Inr (), ce_EvalPrelude = (\<lambda>p. Inr ()),
     ce_Transform = Inr, ce_EvalModule = (\<lambda>p js. CallTool ''t'' [(''ok'', ABool True), (''account_id'', AInt 7)]
       (\<lambda>answer. CallTool ''none'' [] (\<lambda>_. Finish (case answer of Inr out \<Rightarrow> Inr out | Inl _ \<Rightarrow> Inl ''failed''))))\<rparr>"

theorem codemode_guarded_witness:
  "\<exists>trace. run_code demo_cel demo_api demo_text ascii_quote demo_code_env demo_engine demo_engine demo_ts_set ''code'' = (Inr ''42'', trace) \<and>
     length trace = 2 \<and> call_permitted demo_cel demo_ts_set ''t'' [(''ok'', ABool True), (''account_id'', AInt 7)]"
proof -
  let ?r = "run_code demo_cel demo_api demo_text ascii_quote demo_code_env demo_engine demo_engine demo_ts_set ''code''"
  have v: "fst ?r = Inr ''42''" "map fst (snd ?r) = [''t'', ''none'']"
    "(''t'', [(''ok'', ABool True), (''account_id'', AInt 7)], Inr ''42'') \<in> set (snd ?r)"
    "list_all (\<lambda>b. gomap_ok (snd b)) (rs_bindings demo_ts_set)" by code_simp+
  have "length (snd ?r) = 2" using arg_cong[OF v(2), of length] by simp
  moreover have "call_permitted demo_cel demo_ts_set ''t'' [(''ok'', ABool True), (''account_id'', AInt 7)]"
    using codemode_guarded[OF surjective_pairing[of ?r] v(4)] v(3) by (simp add: gomap_ok_def)
  ultimately show ?thesis using v(1) by (intro exI[of _ "snd ?r"]) (simp add: prod_eq_iff)
qed

section \<open>Where code mode falls short\<close>

text \<open>The SDK of the type check knows only names of exactly two segments, while the prelude binds every tool:
  a tool with one or three segments is callable at run time but its call does not type-check.\<close>

lemma sdk_misses_tools:
  "map_keys (sdk_namespaces demo_api demo_text ascii_quote (map demo_agent_tool [''a.b.c'', ''d'', ''e.f'']) []) = [''e'']"
  by code_simp

end
