(* ===== verification/Declaration_Props.thy ===== *)
theory Declaration_Props
  imports Declaration Codemode_Props
begin

text \<open>
  What a declaration says of results: which result names get an interface, that each gets exactly one, whose it is, and when it is the
  one of every tool that uses the name.
\<close>

section \<open>Interfaces\<close>








section \<open>Names of results\<close>











section \<open>Property\<close>




text \<open>For the witness and the shortcomings: types are numbers, with described properties.\<close>

definition demo_prop :: "string \<Rightarrow> string \<Rightarrow> nat PropertyInfo" where
  "demo_prop n desc = \<lparr>pi_Name = n, pi_Type = 0, pi_Description = desc, pi_Optional = False\<rparr>"

definition num_text :: "(nat, nat) ts_text" where
  "num_text = \<lparr>ToTS = (\<lambda>t. ''T'' @ nat_digits t), Declarations = (\<lambda>t. []), DefinitionTypes = (\<lambda>t. []),
     ObjectProperties = (\<lambda>t. if t = 1 then [demo_prop ''id'' (''a'' @ line_feed @ ''b'')]
        else if t = 2 then [demo_prop ''url'' (''c'' @ line_feed @ ''d'')] else []),
     ty_Description = (\<lambda>t. []), IsNil = (\<lambda>t. False), IsObject = (\<lambda>t. t \<noteq> 0), UnwrapPromise = id,
     sig_Return = Some, sig_Params = (\<lambda>s. []), sig_Description = (\<lambda>s. [])\<rparr>"

definition num_api :: "(nat, nat) ts_api" where
  "num_api = \<lparr>ParamsAsObject = (\<lambda>_. None), ToJSONSchema = (\<lambda>_. None), RemoveProperties = (\<lambda>_ t. t), SetPropertyLiteral = (\<lambda>_ _ t. t)\<rparr>"

definition num_tool :: "string \<Rightarrow> nat \<Rightarrow> nat AgentTool" where
  "num_tool n sig = \<lparr>at_Name = n, at_Description = [], at_ParamsSchema = None, at_Sig = Some sig, at_hiddenParams = [],
     at_boundLiterals = [], at_Effect = [], at_Idempotent = None\<rparr>"

definition demo_marshal :: "(string \<times> string \<times> string \<times> bool) list \<Rightarrow> string" where
  "demo_marshal ks = concat (map (\<lambda>(n, t, d, r). enc_str n @ enc_str t @ enc_str d @ [if r then CHR ''1'' else CHR ''0'']) ks)"

definition demo_de :: decl_env where
  "demo_de = \<lparr>de_Marshal = demo_marshal, de_ToUpper = (\<lambda>r. if 97 \<le> r \<and> r \<le> 122 then r - 32 else r), de_quote = ascii_quote,
     de_int64 = (\<lambda>w. None), de_float = (\<lambda>w. []), de_any = (\<lambda>v. [])\<rparr>"



section \<open>Where declarations fall short\<close>

text \<open>Two tools with different results and the same method name get the same result name, and only the first
  one's interface is declared; and a tool \<open>a.b.c\<close> is declared as the method \<open>c\<close> of \<open>a\<close>, while the
  prelude binds it below \<open>b\<close>.\<close>

lemma result_name_collision:
  "let tools = [num_tool ''a.get'' 1, num_tool ''b.get'' 2]; dt = declared_types demo_de num_api num_text tools in
   map_of (dt_modes dt) ''a.get'' = Some (Named ''GetResult'') \<and> map_of (dt_modes dt) ''b.get'' = Some (Named ''GetResult'') \<and>
   map fst (dt_interfaces dt) = [''GetResult''] \<and> return_props num_text (num_tool ''a.get'' 1) \<noteq> return_props num_text (num_tool ''b.get'' 2)"
  by code_simp

lemma nested_tool_flattened:
  "map fst (fst (groupToolsByNamespace [num_tool ''a.b.c'' 0])) = [''a''] \<and> last_part ''a.b.c'' = ''c'' \<and>
   method_text demo_de num_text [] [] (num_tool ''a.b.c'' 0) = ''    c(): T0;'' @ line_feed"
  by code_simp

section \<open>Declarations split by use\<close>

text \<open>No line is emitted twice, in either list.\<close>

lemma add_split_line_distinct:
  "distinct target \<Longrightarrow> set target \<subseteq> set seen \<Longrightarrow> add_split_line tt dt line (seen, target) = (seen', target') \<Longrightarrow>
     distinct target' \<and> set target' \<subseteq> set seen' \<and> set seen \<subseteq> set seen' \<and> set target' \<inter> set seen \<subseteq> set target"
  by (auto simp: add_split_line_def Let_def split: if_splits)

lemma fold_split_distinct:
  "distinct target \<Longrightarrow> set target \<subseteq> set seen \<Longrightarrow> fold (add_split_line tt dt) lines (seen, target) = (seen', target') \<Longrightarrow>
     distinct target' \<and> set target' \<subseteq> set seen' \<and> set seen \<subseteq> set seen' \<and> set target' \<inter> set seen \<subseteq> set target"
proof (induction lines arbitrary: seen target)
  case (Cons line lines)
  obtain s1 t1 where 1: "add_split_line tt dt line (seen, target) = (s1, t1)" by force
  note a = add_split_line_distinct[OF Cons.prems(1,2) 1]
  have "fold (add_split_line tt dt) lines (s1, t1) = (seen', target')" using Cons.prems(3) 1 by simp
  from Cons.IH[OF _ _ this] a show ?case by blast
qed simp

definition split_inv :: "string list \<times> string list \<times> string list \<Rightarrow> bool" where
  "split_inv = (\<lambda>(seen, ps, rs). distinct (ps @ rs) \<and> set (ps @ rs) \<subseteq> set seen)"

lemma split_tool_inv: "split_inv acc \<Longrightarrow> split_inv (split_tool api tt dt tool acc)"
proof -
  assume I: "split_inv acc"
  obtain seen ps rs where acc: "acc = (seen, ps, rs)" by (cases acc)
  obtain s1 ps' where 1: "fold (add_split_line tt dt) (type_lines tt (ParamsType api tool)) (seen, ps) = (s1, ps')" by force
  obtain s2 rs' where 2: "fold (add_split_line tt dt) (type_lines tt (Option.bind (at_Sig tool) (sig_Return tt))) (s1, rs) = (s2, rs')" by force
  have a: "distinct ps' \<and> set ps' \<subseteq> set s1 \<and> set seen \<subseteq> set s1 \<and> set ps' \<inter> set seen \<subseteq> set ps"
    using fold_split_distinct[OF _ _ 1] I by (auto simp: split_inv_def acc)
  have rs: "distinct rs" "set rs \<subseteq> set s1" using I a by (auto simp: split_inv_def acc)
  have "distinct rs' \<and> set rs' \<subseteq> set s2 \<and> set s1 \<subseteq> set s2 \<and> set rs' \<inter> set s1 \<subseteq> set rs"
    by (rule fold_split_distinct[OF rs 2])
  moreover from this have "set ps' \<inter> set rs' = {}" "set ps' \<subseteq> set s2"
    using a I unfolding split_inv_def acc prod.case distinct_append set_append by blast+
  moreover have "split_tool api tt dt tool acc = (s2, ps', rs')" by (simp add: split_tool_def acc 1 2)
  ultimately show ?thesis using a by (simp add: split_inv_def)
qed

lemma split_lines_distinct:
  assumes "collectSplitDeclarations api tt tools = (ps, rs)"
  shows "distinct (ps @ rs) \<and> sorted ps \<and> sorted rs"
proof -
  let ?dt = "collect_def_types api tt tools"
  have "split_inv (fold (split_tool api tt ?dt) ts acc)" if "split_inv acc" for ts acc
    using that by (induction ts arbitrary: acc) (auto simp: split_tool_inv)
  from this[of "([], [], [])" tools] assms show ?thesis
    by (auto simp: collectSplitDeclarations_def split_inv_def sort_strings_eq split: prod.splits)
qed

text \<open>But a type is declared twice when its declaration has comments added to it and two tools mention it: the second time
  the line is appended as it is.\<close>

lemma split_declares_twice:
  assumes "enhanceDeclWithDescriptions tt line dt = enhanced" "enhanced \<noteq> []" "enhanced \<noteq> line" "enhanced \<notin> set seen" "line \<notin> set seen"
  shows "snd (fold (add_split_line tt dt) [line, line] (seen, target)) = target @ [enhanced, line]"
  using assms by (simp add: add_split_line_def Let_def)

end
