(* ===== verification/Quickts.thy ===== *)
theory Quickts
  imports Invoke Overlay Fetch Codemode
begin

text \<open>
  The TypeScript runtime (\<open>runtime/quickts/quickts.go\<close>, \<open>runtime/quickts/fetch.go\<close>) and the engines that
  \<open>invoke/invoke.go\<close> builds on it.  A tool is checked and bundled together with a generated runner, and runs
  with exactly the host functions it is given.  Parameters (\<open>quick_env\<close>): the TypeScript checker
  with its sessions, esbuild, the JavaScript engine (a program is the host calls it makes, as a
  function of the answers), the JSON encoder and the sandbox processes.
\<close>

section \<open>The runner\<close>

definition runnerTSFile :: string where "runnerTSFile = ''__toolbox_run.ts''"

definition dquote :: string where "dquote = [CHR 0x22]"

definition import_line :: "string \<Rightarrow> string" where
  "import_line entry = ''import tool from '' @ dquote @ ''./'' @ entry @ dquote @ '';'' @ line_feed"

definition serialize_result :: string where
  "serialize_result = ''export default typeof __r === '' @ dquote @ ''string'' @ dquote @ '' ? __r : JSON.stringify(__r);''"

text \<open>One argument of the call: the value given for the parameter, checked against its type.\<close>

definition runner_arg :: "(go_any \<Rightarrow> string) \<Rightarrow> params \<Rightarrow> nat \<Rightarrow> 'ty FuncParam \<Rightarrow> string" where
  "runner_arg marshal args i p =
     (case map_of args (fp_Name p) of
        None \<Rightarrow> ''undefined''
      | Some val \<Rightarrow> ''('' @ marshal val @ '' satisfies Parameters<typeof tool>['' @ itoa (int i) @ ''])'')"

fun runner_args :: "(go_any \<Rightarrow> string) \<Rightarrow> params \<Rightarrow> nat \<Rightarrow> 'ty FuncParam list \<Rightarrow> string" where
  "runner_args marshal args i [] = []"
| "runner_args marshal args i (p # ps) =
     (if i > 0 then '', '' else []) @ runner_arg marshal args i p @ runner_args marshal args (Suc i) ps"

text \<open>The arguments are those of a validated call, a map that is never nil.\<close>

definition runnerSource ::
  "(go_any \<Rightarrow> string) \<Rightarrow> ('sig, 'ty) ts_text \<Rightarrow> string \<Rightarrow> params \<Rightarrow> 'sig option \<Rightarrow> string" where
  "runnerSource marshal tt entry args sig =
     (let call = (\<lambda>c. import_line entry @ ''const __r = '' @ c @ ''; '' @ serialize_result @ line_feed) in
      case sig of
        None \<Rightarrow> call (''await tool('' @ marshal (AMap args) @ '', {})'')
      | Some s \<Rightarrow>
          let parms = sig_Params tt s in
          if parms = [] then call ''await tool()''
          else import_line entry @ ''const __r = await tool('' @ runner_args marshal args 0 parms @ '');'' @ line_feed @
            serialize_result @ line_feed)"

section \<open>Files of a run\<close>

text \<open>A handle of an \<open>fs.FS\<close>; reading a directory fails.\<close>

datatype file_handle = FileHandle bytes | DirHandle

type_synonym tool_layer = "(string, file_handle, unit, unit) layer"

definition read_handle :: "file_handle \<Rightarrow> string + bytes" where
  "read_handle h = (case h of FileHandle b \<Rightarrow> Inr b | DirHandle \<Rightarrow> Inl ''is a directory'')"

text \<open>\<open>fs.ValidPath\<close> (on valid UTF-8), and the semantics of \<open>fstest.MapFS\<close>: a directory is there when a file is below it.\<close>

definition ValidPath :: "string \<Rightarrow> bool" where
  "ValidPath name = (name = ''.'' \<or> list_all (\<lambda>s. s \<notin> {[], ''.'', ''..''}) (Split slash name))"

definition map_children :: "(string, bytes) gomap \<Rightarrow> string \<Rightarrow> string list" where
  "map_children m name =
     (let prefix = (if name = ''.'' then [] else name @ ''/'') in
      remdups (map (\<lambda>k. hd (Split slash (TrimPrefix k prefix))) (filter (\<lambda>k. HasPrefix k prefix) (map fst m))))"

definition map_open :: "(string, bytes) gomap \<Rightarrow> string \<Rightarrow> string layer_error + file_handle" where
  "map_open m name =
     (if \<not> ValidPath name then Inl (OtherError ''invalid argument'')
      else case map_of m name of
          Some data \<Rightarrow> Inr (FileHandle data)
        | None \<Rightarrow> if name = ''.'' \<or> map_children m name \<noteq> [] then Inr DirHandle else Inl (NotExist ''file does not exist''))"

definition map_fs :: "(string, bytes) gomap \<Rightarrow> tool_layer" where
  "map_fs m =
     \<lparr>ly_Open = map_open m,
      ly_Stat = (\<lambda>name. map_sum id (\<lambda>_. ()) (map_open m name)),
      ly_ReadDir = (\<lambda>name. case map_open m name of
          Inl e \<Rightarrow> Inl e
        | Inr (FileHandle _) \<Rightarrow> Inl (OtherError ''not implemented'')
        | Inr DirHandle \<Rightarrow> Inr (map (\<lambda>n. (n, ())) (go_sort (<) (map_children m name))))\<rparr>"

definition withRunner :: "tool_layer \<Rightarrow> string \<Rightarrow> (string, file_handle, unit, unit) FS" where
  "withRunner base source = New_overlay [Some (map_fs [(runnerTSFile, source)]), Some base]"

definition read_tool_file :: "(string, file_handle, unit, unit) FS \<Rightarrow> string \<Rightarrow> string overlay_error + bytes" where
  "read_tool_file files name = overlay_ReadFile read_handle files name"

section \<open>Bundling\<close>

datatype Loader = LoaderTS | LoaderTSX | LoaderJSX | LoaderJS

definition loaderForPath :: "string \<Rightarrow> Loader" where
  "loaderForPath p =
     (let e = path_Ext p in
      if e \<in> {''.ts'', ''.mts'', ''.cts''} then LoaderTS
      else if e = ''.tsx'' then LoaderTSX
      else if e = ''.jsx'' then LoaderJSX
      else LoaderJS)"

record OnResolveArgs =
  or_Path :: string
  or_Namespace :: string
  or_ResolveDir :: string

definition isMemFSResolve :: "OnResolveArgs \<Rightarrow> bool" where
  "isMemFSResolve args = (or_Namespace args = ''memfs'' \<or> (or_Namespace args = ''file'' \<and> or_ResolveDir args = ''/''))"

text \<open>The resolution of an import by the plugin: a path and its namespace, an error (the import and what esbuild said),
  or \<open>None\<close> when it leaves the import to esbuild.  \<open>native\<close> is the resolution of esbuild from a directory.\<close>

definition memfs_resolve ::
  "(string \<Rightarrow> string \<Rightarrow> string + string) \<Rightarrow> string \<Rightarrow> OnResolveArgs \<Rightarrow> (string \<times> string + string \<times> string) option" where
  "memfs_resolve native packageRoot args =
     (if HasPrefix (or_Path args) ''.'' \<and> isMemFSResolve args
      then Some (Inr (path_Clean (path_Join [or_ResolveDir args, or_Path args]), ''memfs''))
      else if HasPrefix (or_Path args) ''/'' \<and> isMemFSResolve args then Some (Inr (path_Clean (or_Path args), ''memfs''))
      else if packageRoot \<noteq> [] \<and> or_Namespace args = ''memfs'' then
        (case native packageRoot (or_Path args) of
           Inl e \<Rightarrow> Some (Inl (or_Path args, e))
         | Inr p \<Rightarrow> Some (Inr (p, ''file'')))
      else None)"

record OnLoadResult =
  ol_Contents :: string
  ol_Loader :: Loader
  ol_ResolveDir :: string

definition memfs_load :: "(string, file_handle, unit, unit) FS \<Rightarrow> string \<Rightarrow> string overlay_error + OnLoadResult" where
  "memfs_load files p =
     (case read_tool_file files (TrimPrefix p ''/'') of
        Inl e \<Rightarrow> Inl e
      | Inr content \<Rightarrow> Inr \<lparr>ol_Contents = content, ol_Loader = loaderForPath p, ol_ResolveDir = path_Dir p\<rparr>)"

text \<open>What esbuild is given: the runner, the plugin, the directories for bare imports and what it must not bundle.\<close>

definition nodeBuiltins :: "string list" where "nodeBuiltins = [''node:*'']"

record build_options =
  bo_Contents :: string
  bo_Resolve :: "(string \<Rightarrow> string \<Rightarrow> string + string) \<Rightarrow> OnResolveArgs \<Rightarrow> (string \<times> string + string \<times> string) option"
  bo_Load :: "string \<Rightarrow> string overlay_error + OnLoadResult"
  bo_NodePaths :: "string list"
  bo_External :: "string list"

datatype quick_error =
    CheckFailed string
  | QuickDiagnostics string
  | ReadRunner "string overlay_error"
  | EmitFailed string
  | NoOutput
  | NewQjs string
  | InstallHost string
  | RunFailed string string
  | StartVFS string

definition emit ::
  "(build_options \<Rightarrow> string + string list) \<Rightarrow> (string, file_handle, unit, unit) FS \<Rightarrow> string \<Rightarrow> quick_error + string" where
  "emit build files packageRoot =
     (case read_tool_file files runnerTSFile of
        Inl e \<Rightarrow> Inl (ReadRunner e)
      | Inr runner \<Rightarrow>
          (case build \<lparr>bo_Contents = runner, bo_Resolve = (\<lambda>native. memfs_resolve native packageRoot), bo_Load = memfs_load files,
                 bo_NodePaths = (if packageRoot \<noteq> [] then [path_Join [packageRoot, ''node_modules'']] else []),
                 bo_External = nodeBuiltins\<rparr> of
             Inl e \<Rightarrow> Inl (EmitFailed e)
           | Inr [] \<Rightarrow> Inl NoOutput
           | Inr (out # _) \<Rightarrow> Inr out))"

section \<open>Host functions\<close>

datatype host_error = HostVfs vfs_error | HostExec exec_error | HostFetch string

text \<open>The host functions work on a state of the host; a missing one is \<open>None\<close>.\<close>

record 's Host =
  ho_Exec :: "(string \<Rightarrow> string list \<Rightarrow> 's \<Rightarrow> (host_error + cli_Result) \<times> 's) option"
  ho_ReadFile :: "(string \<Rightarrow> 's \<Rightarrow> (host_error + string) \<times> 's) option"
  ho_WriteFile :: "(string \<Rightarrow> string \<Rightarrow> 's \<Rightarrow> (host_error + unit) \<times> 's) option"
  ho_Fetch :: "(string \<Rightarrow> string \<Rightarrow> string \<Rightarrow> string \<Rightarrow> 's \<Rightarrow> (host_error + FetchResult) \<times> 's) option"
  ho_Console :: "(string \<Rightarrow> string list \<Rightarrow> 's \<Rightarrow> 's) option"

text \<open>Each step of the installation leaves a global: it binds a function or evaluates a script, which may fail (the
  error then starts with the label of the step), or registers an asynchronous function, which cannot fail.\<close>

type_synonym install_step = "string \<times> string option"

fun install_steps :: "(string \<Rightarrow> string + unit) \<Rightarrow> install_step list \<Rightarrow> string + string list" where
  "install_steps bind [] = Inr []"
| "install_steps bind ((n, None) # ns) = map_sum id ((#) n) (install_steps bind ns)"
| "install_steps bind ((n, Some label) # ns) =
     (case bind n of Inl e \<Rightarrow> Inl (label @ '': '' @ e) | Inr _ \<Rightarrow> map_sum id ((#) n) (install_steps bind ns))"

definition installFS :: "'s Host \<Rightarrow> install_step list" where
  "installFS host =
     (if ho_ReadFile host \<noteq> None then [(''__toolboxReadFile'', Some ''bind readFile'')] else []) @
     (if ho_WriteFile host \<noteq> None then [(''__toolboxWriteFile'', Some ''bind writeFile'')] else []) @
     [(''fs'', Some ''load fs shim'')]"

definition installFetch :: "install_step list" where
  "installFetch = [(''__go_fetch'', None), (''fetch'', Some ''install fetch API'')]"

definition installConsole :: "install_step list" where
  "installConsole = [(''__toolboxConsole'', Some ''bind console''), (''console'', Some ''install console'')]"

definition installHost :: "(string \<Rightarrow> string + unit) \<Rightarrow> 's Host \<Rightarrow> string + string list" where
  "installHost bind host =
     install_steps bind
       ((if ho_Exec host \<noteq> None then [(''__toolboxExec'', Some ''bind exec''), (''exec'', Some ''load host imports'')] else []) @
        (if ho_ReadFile host \<noteq> None \<or> ho_WriteFile host \<noteq> None then installFS host else []) @
        (if ho_Fetch host \<noteq> None then installFetch else []) @
        installConsole)"

text \<open>A running program: it ends, or calls a host function and goes on with the answer.  What the JavaScript engine itself offers to
  a program (its built-in objects) is not part of the source and not of the model.\<close>

datatype host_call =
    CallExec string "string list"
  | CallReadFile string
  | CallWriteFile string string
  | CallFetch string string string string
  | CallConsole string "string list"

text \<open>An answer: there is no such function in the engine (\<open>Unavailable\<close>), the Go function behind it is nil, so that calling it
  panics (\<open>NilCall\<close>), or what the function gave.\<close>

datatype host_answer =
    Unavailable
  | NilCall
  | ExecAnswer "host_error + cli_Result"
  | TextAnswer "host_error + string"
  | DoneAnswer "host_error + unit"
  | FetchAnswer "host_error + FetchResult"

datatype program = Ended "string + string" | HostCall host_call "host_answer \<Rightarrow> program"

definition call_global :: "host_call \<Rightarrow> string" where
  "call_global c =
     (case c of
        CallExec _ _ \<Rightarrow> ''__toolboxExec''
      | CallReadFile _ \<Rightarrow> ''__toolboxReadFile''
      | CallWriteFile _ _ \<Rightarrow> ''__toolboxWriteFile''
      | CallFetch _ _ _ _ \<Rightarrow> ''__go_fetch''
      | CallConsole _ _ \<Rightarrow> ''__toolboxConsole'')"

definition host_dispatch :: "'s Host \<Rightarrow> host_call \<Rightarrow> 's \<Rightarrow> host_answer \<times> 's" where
  "host_dispatch host c s =
     (case c of
        CallExec binary args \<Rightarrow>
          (case ho_Exec host of None \<Rightarrow> (NilCall, s) | Some f \<Rightarrow> map_prod ExecAnswer id (f binary args s))
      | CallReadFile p \<Rightarrow>
          (case ho_ReadFile host of None \<Rightarrow> (NilCall, s) | Some f \<Rightarrow> map_prod TextAnswer id (f p s))
      | CallWriteFile p data \<Rightarrow>
          (case ho_WriteFile host of None \<Rightarrow> (NilCall, s) | Some f \<Rightarrow> map_prod DoneAnswer id (f p data s))
      | CallFetch url method headersJSON body \<Rightarrow>
          (case ho_Fetch host of None \<Rightarrow> (NilCall, s) | Some f \<Rightarrow> map_prod FetchAnswer id (f url method headersJSON body s))
      | CallConsole level args \<Rightarrow>
          (DoneAnswer (Inr ()), case ho_Console host of None \<Rightarrow> s | Some f \<Rightarrow> f level args s))"

definition answer_call :: "string list \<Rightarrow> 's Host \<Rightarrow> host_call \<Rightarrow> 's \<Rightarrow> host_answer \<times> 's" where
  "answer_call globals host c s =
     (if call_global c \<in> set globals then host_dispatch host c s else (Unavailable, s))"

text \<open>The state after the program, and the calls it made with their answers.\<close>

type_synonym host_trace = "(host_call \<times> host_answer) list"

primrec run_program :: "string list \<Rightarrow> 's Host \<Rightarrow> program \<Rightarrow> 's \<Rightarrow> (string + string) \<times> 's \<times> host_trace" where
  "run_program globals host (Ended r) s = (r, s, [])"
| "run_program globals host (HostCall c k) s =
     (case answer_call globals host c s of (a, s') \<Rightarrow>
        (case run_program globals host (k a) s' of (r, s'', t) \<Rightarrow> (r, s'', (c, a) # t)))"

section \<open>Running a tool\<close>

record 'sess quick_env =
  qe_Check :: "(string, file_handle, unit, unit) FS \<Rightarrow> string \<Rightarrow> 'sess option \<Rightarrow> (string + Diagnostic list) \<times> 'sess option"
  qe_Build :: "build_options \<Rightarrow> string + string list"
  qe_New :: "string + unit"
  qe_Bind :: "string \<Rightarrow> string + unit"
  qe_Eval :: "string \<Rightarrow> program"
  qe_Marshal :: "go_any \<Rightarrow> string"

definition ts_formatDiagnostics :: "Diagnostic list \<Rightarrow> string" where
  "ts_formatDiagnostics diagnostics =
     Join ''; '' (map (\<lambda>d. if dg_File d \<noteq> [] then dg_File d @ '': '' @ dg_Message d else dg_Message d) diagnostics)"

definition RunWithHost ::
  "'sess quick_env \<Rightarrow> ('sig, 'ty) ts_text \<Rightarrow> 'x TSToolDef_scheme \<Rightarrow> params \<Rightarrow> 's Host \<Rightarrow> 'sess option \<Rightarrow> 'sig option \<Rightarrow> 's
     \<Rightarrow> (quick_error + string) \<times> 'sess option \<times> 's \<times> host_trace" where
  "RunWithHost env tt tdef args host session sig s =
     (let files = withRunner (map_fs (ts_Files tdef)) (runnerSource (qe_Marshal env) tt (ts_Entry tdef) args sig) in
      case qe_Check env files runnerTSFile session of
        (Inl e, session') \<Rightarrow> (Inl (CheckFailed e), session', s, [])
      | (Inr diagnostics, session') \<Rightarrow>
          if diagnostics \<noteq> [] then (Inl (QuickDiagnostics (ts_formatDiagnostics diagnostics)), session', s, [])
          else case emit (qe_Build env) files (ts_PackageRoot tdef) of
              Inl e \<Rightarrow> (Inl e, session', s, [])
            | Inr code \<Rightarrow>
                (case qe_New env of
                   Inl e \<Rightarrow> (Inl (NewQjs e), session', s, [])
                 | Inr _ \<Rightarrow>
                     (case installHost (qe_Bind env) host of
                        Inl e \<Rightarrow> (Inl (InstallHost e), session', s, [])
                      | Inr globals \<Rightarrow>
                          (case run_program globals host (qe_Eval env code) s of
                             (r, s', t) \<Rightarrow> (map_sum (RunFailed (ts_Entry tdef)) id r, session', s', t)))))"

section \<open>The engines of invoke\<close>

definition no_host :: "'s Host" where
  "no_host = \<lparr>ho_Exec = None, ho_ReadFile = None, ho_WriteFile = None, ho_Fetch = None, ho_Console = None\<rparr>"

text \<open>A run without host functions, with the session of the checker kept or not.\<close>

definition RunWithSession ::
  "'sess quick_env \<Rightarrow> ('sig, 'ty) ts_text \<Rightarrow> 'x TSToolDef_scheme \<Rightarrow> params \<Rightarrow> 'sess option \<Rightarrow> 'sig option
     \<Rightarrow> (quick_error + string) \<times> 'sess option" where
  "RunWithSession env tt tdef args session sig =
     (case RunWithHost env tt tdef args no_host session sig () of (r, session', _, _) \<Rightarrow> (r, session'))"

definition quick_Run :: "'sess quick_env \<Rightarrow> ('sig, 'ty) ts_text \<Rightarrow> 'x TSToolDef_scheme \<Rightarrow> params \<Rightarrow> 'sig option \<Rightarrow> quick_error + string" where
  "quick_Run env tt tdef args sig = fst (RunWithHost env tt tdef args no_host None sig ())"

text \<open>The check sessions, by the address of the package.\<close>

type_synonym 'sess checkSessions = "(nat, 'sess option) gomap"

definition getCheckSession :: "'sess checkSessions \<Rightarrow> nat \<Rightarrow> 'sess option" where
  "getCheckSession cs pkg = (case map_of cs pkg of None \<Rightarrow> None | Some s \<Rightarrow> s)"

definition setCheckSession :: "nat \<Rightarrow> 'sess option \<Rightarrow> 'sess checkSessions \<Rightarrow> 'sess checkSessions" where
  "setCheckSession pkg session cs = AList.update pkg session cs"

type_synonym fetcher = "string \<Rightarrow> string \<Rightarrow> string \<Rightarrow> string \<Rightarrow> string + FetchResult"

definition fetch_host :: "fetcher \<Rightarrow> 's Host" where
  "fetch_host fetch = no_host\<lparr>ho_Fetch := Some (\<lambda>url method headersJSON body s. (map_sum HostFetch id (fetch url method headersJSON body), s))\<rparr>"

definition runTSTool ::
  "'sess quick_env \<Rightarrow> ('sig, 'ty) ts_text \<Rightarrow> fetcher \<Rightarrow> nat \<Rightarrow> 'sig ResolvedTool \<Rightarrow> TSToolDef \<Rightarrow> params \<Rightarrow> 'sess checkSessions
     \<Rightarrow> (quick_error + string) \<times> 'sess checkSessions \<times> host_trace" where
  "runTSTool env tt fetch pkg tool tdef args cs =
     (case RunWithHost env tt tdef args (fetch_host fetch) (getCheckSession cs pkg) (rt_Sig tool) () of
        (r, session, _, t) \<Rightarrow> (r, setCheckSession pkg session cs, t))"

text \<open>The engine of \<open>Run\<close> for the tools without a sandbox, at the check sessions of the moment; \<open>msg\<close> is the text
  of an error.\<close>

definition ts_engine ::
  "'sess quick_env \<Rightarrow> ('sig, 'ty) ts_text \<Rightarrow> fetcher \<Rightarrow> (quick_error \<Rightarrow> string) \<Rightarrow> nat \<Rightarrow> 'sess checkSessions \<Rightarrow> 'sig engine" where
  "ts_engine env tt fetch msg pkg cs tool args =
     (case rt_TS tool of
        None \<Rightarrow> Inl ''nil pointer dereference''
      | Some tdef \<Rightarrow> map_sum msg id (fst (runTSTool env tt fetch pkg tool tdef args cs)))"

text \<open>The host of a WASM tool: its state is the shared file system and the processes started so far; a process
  may change the file system through the socket.\<close>

type_synonym wasm_state = "MemFS \<times> cli_Command list"

type_synonym starter = "cli_Command \<Rightarrow> MemFS \<Rightarrow> process_end \<times> MemFS"

definition wasm_Exec ::
  "starter \<Rightarrow> 'sig ResolvedTool \<Rightarrow> TSWasmToolDef \<Rightarrow> ToolRuntime \<Rightarrow> string \<Rightarrow> string \<Rightarrow> string list \<Rightarrow> wasm_state
     \<Rightarrow> (host_error + cli_Result) \<times> wasm_state" where
  "wasm_Exec start tool wasm rt sockPath binary execArgs st =
     (case st of (fs, started) \<Rightarrow>
        (map_sum HostExec id (host_Exec (\<lambda>cmd. fst (start cmd fs)) tool wasm rt sockPath binary execArgs),
         (case result_bind (exec_request tool wasm rt sockPath binary execArgs) cli_command of
            Inl _ \<Rightarrow> (fs, started)
          | Inr cmd \<Rightarrow> (snd (start cmd fs), started @ [cmd]))))"

definition wasm_host ::
  "starter \<Rightarrow> (wasm_state \<Rightarrow> 64 word) \<Rightarrow> fetcher \<Rightarrow> 'sig ResolvedTool \<Rightarrow> TSWasmToolDef \<Rightarrow> ToolRuntime \<Rightarrow> string \<Rightarrow> wasm_state Host" where
  "wasm_host start clock fetch tool wasm rt sockPath =
     (fetch_host fetch)\<lparr>
       ho_ReadFile := Some (\<lambda>p st. (map_sum HostVfs id (host_ReadFile (fst st) p), st)),
       ho_WriteFile := Some (\<lambda>p data st.
         (case host_WriteFile (clock st) (fst st) p data of
            Inl e \<Rightarrow> (Inl (HostVfs e), st)
          | Inr fs' \<Rightarrow> (Inr (), fs', snd st))),
       ho_Exec := Some (wasm_Exec start tool wasm rt sockPath)\<rparr>"

definition vfs_sock_path :: "string \<Rightarrow> int \<Rightarrow> string" where
  "vfs_sock_path tempDir pid = path_Join [tempDir, ''toolbox-vfs-'' @ itoa pid @ ''.sock'']"

definition startVFSServer :: "(string \<Rightarrow> string + unit) \<Rightarrow> string \<Rightarrow> int \<Rightarrow> string + string" where
  "startVFSServer listen tempDir pid =
     (let sockPath = vfs_sock_path tempDir pid in
      case listen sockPath of Inl e \<Rightarrow> Inl e | Inr _ \<Rightarrow> Inr sockPath)"

definition runTSWasmToolWithVFS ::
  "'sess quick_env \<Rightarrow> ('sig, 'ty) ts_text \<Rightarrow> starter \<Rightarrow> (wasm_state \<Rightarrow> 64 word) \<Rightarrow> fetcher \<Rightarrow> (string \<Rightarrow> string + unit) \<Rightarrow> string \<Rightarrow> int
     \<Rightarrow> nat \<Rightarrow> 'sig ResolvedTool \<Rightarrow> TSWasmToolDef \<Rightarrow> ToolRuntime \<Rightarrow> params \<Rightarrow> MemFS \<Rightarrow> 'sess checkSessions
     \<Rightarrow> (quick_error + string) \<times> 'sess checkSessions \<times> wasm_state \<times> host_trace" where
  "runTSWasmToolWithVFS env tt start clock fetch listen tempDir pid pkg tool wasm rt args memFS cs =
     (case startVFSServer listen tempDir pid of
        Inl e \<Rightarrow> (Inl (StartVFS e), cs, (memFS, []), [])
      | Inr sockPath \<Rightarrow>
          (case RunWithHost env tt wasm args (wasm_host start clock fetch tool wasm rt sockPath)
                  (getCheckSession cs pkg) (rt_Sig tool) (memFS, []) of
             (r, session, st, t) \<Rightarrow> (r, setCheckSession pkg session cs, st, t)))"

section \<open>The console\<close>

text \<open>The values that a program logs: a string, or another value with what \<open>JSON.stringify\<close> and \<open>String\<close> make of it
  (an exception is \<open>None\<close>; \<open>JSON.stringify\<close> may also give \<open>undefined\<close>).\<close>

datatype js_text = Text string | Undefined

datatype js_value = JsString string | JsOther "js_text option" "string option"

definition console_text :: "js_value \<Rightarrow> js_text option" where
  "console_text a =
     (case a of
        JsString s \<Rightarrow> Some (Text s)
      | JsOther stringified str \<Rightarrow>
          (case stringified of Some t \<Rightarrow> Some t | None \<Rightarrow> map_option Text str))"

fun console_texts :: "js_value list \<Rightarrow> js_text list option" where
  "console_texts [] = Some []"
| "console_texts (a # as) =
     (case console_text a of
        None \<Rightarrow> None
      | Some t \<Rightarrow> map_option ((#) t) (console_texts as))"

definition console_levels :: "string list" where
  "console_levels = [''log'', ''warn'', ''error'', ''info'', ''debug'', ''trace'']"

text \<open>A call of a method of \<open>console\<close>: the host call it makes, or \<open>None\<close> for an exception.  \<open>conv\<close> is how the engine
  passes a text that is \<open>undefined\<close> to a Go string.\<close>

definition console_call :: "(js_text \<Rightarrow> string) \<Rightarrow> string \<Rightarrow> js_value list \<Rightarrow> host_call option" where
  "console_call conv meth args =
     (if meth \<in> set console_levels then map_option (\<lambda>ts. CallConsole meth (map conv ts)) (console_texts args) else None)"

section \<open>Exports for tests\<close>

definition RunnerSourceForTest ::
  "(go_any \<Rightarrow> string) \<Rightarrow> ('sig, 'ty) ts_text \<Rightarrow> string \<Rightarrow> params \<Rightarrow> 'sig option \<Rightarrow> string" where
  "RunnerSourceForTest marshal tt entry args sig = runnerSource marshal tt entry args sig"

definition EmitBundle ::
  "'sess quick_env \<Rightarrow> ('sig, 'ty) ts_text \<Rightarrow> TSToolDef \<Rightarrow> quick_error + string" where
  "EmitBundle env tt tdef =
     emit (qe_Build env) (withRunner (map_fs (ts_Files tdef)) (runnerSource (qe_Marshal env) tt (ts_Entry tdef) [] None)) (ts_PackageRoot tdef)"

end
