(* ===== verification/Quickts_Props.thy ===== *)
theory Quickts_Props
  imports Quickts
begin

text \<open>
  What the runtime promises of a tool, whatever its program does: it has the host functions it was given and no
  others, it starts only the executables its package declares, and its bundle is made of the files
  of the package.
\<close>

section \<open>Programs and invariants\<close>

lemma map_sum_eq_Inr: "map_sum f g x = Inr y \<longleftrightarrow> (\<exists>z. x = Inr z \<and> g z = y)"
  by (cases x) auto

text \<open>A property of the host's state that every host call keeps is kept by every program; and a property of
  the answers holds of every answer the program got.\<close>

locale host_invariant =
  fixes globals :: "string list" and host :: "'s Host" and inv :: "'s \<Rightarrow> bool" and ok :: "host_call \<Rightarrow> host_answer \<Rightarrow> bool"
  assumes keeps: "inv s \<Longrightarrow> inv (snd (answer_call globals host c s))"
    and answers: "inv s \<Longrightarrow> ok c (fst (answer_call globals host c s))"
begin

lemma program_keeps:
  "inv s \<Longrightarrow> inv (fst (snd (run_program globals host p s))) \<and> list_all (\<lambda>(c, a). ok c a) (snd (snd (run_program globals host p s)))"
proof (induction p arbitrary: s)
  case (HostCall c k)
  obtain a s' where a: "answer_call globals host c s = (a, s')" by force
  then have "inv s'" "ok c a" using keeps[OF HostCall.prems, of c] answers[OF HostCall.prems, of c] by simp_all
  then show ?case using HostCall.IH[of "k a" s'] a by (simp add: case_prod_beta)
qed simp

end

lemma RunWithHost_state:
  assumes "RunWithHost env tt tdef args host session sig s = (r, session', s', t)"
  shows "(s' = s \<and> t = []) \<or> (\<exists>globals p. installHost (qe_Bind env) host = Inr globals \<and> run_program globals host p s = (fst (run_program globals host p s), s', t))"
  using assms
  by (auto simp: RunWithHost_def Let_def split: sum.splits prod.splits if_splits) (metis fst_conv)+


section \<open>The functions a program finds\<close>










section \<open>WASM tools\<close>

lemma wasm_call_declared:
  assumes "list_all (declared_command wasm rt) (snd st)"
  shows "list_all (declared_command wasm rt) (snd (snd (answer_call globals (wasm_host start clock fetch tool wasm rt sock) c st)))"
  using assms exec_command_declared[of tool wasm rt sock]
  by (cases st; cases c)
    (auto simp: answer_call_def host_dispatch_def wasm_host_def fetch_host_def no_host_def wasm_Exec_def split: sum.split)

interpretation wasm_host: host_invariant globals "wasm_host start clock fetch tool wasm rt sock"
  "\<lambda>st. list_all (declared_command wasm rt) (snd st)" "\<lambda>_ _. True"
  for globals start clock fetch tool wasm rt sock
  by unfold_locales (simp_all add: wasm_call_declared)

section \<open>Imports\<close>

text \<open>The modules that the plugin resolves, with their namespaces: the imports of the runner, and the imports of modules it has resolved.\<close>

inductive plugin_module :: "(string \<Rightarrow> string \<Rightarrow> string + string) \<Rightarrow> string \<Rightarrow> string \<times> string \<Rightarrow> bool" for native packageRoot where
  from_runner: "memfs_resolve native packageRoot \<lparr>or_Path = spec, or_Namespace = ''file'', or_ResolveDir = ''/''\<rparr> =
      Some (Inr m) \<Longrightarrow> plugin_module native packageRoot m"
| from_module: "plugin_module native packageRoot (p, ns) \<Longrightarrow>
    memfs_resolve native packageRoot \<lparr>or_Path = spec, or_Namespace = ns, or_ResolveDir = path_Dir p\<rparr> =
      Some (Inr m) \<Longrightarrow> plugin_module native packageRoot m"

inductive_cases plugin_moduleE: "plugin_module native packageRoot m"

text \<open>What the plugin can resolve an import to: a clean absolute path in the virtual tree, or what esbuild finds for a bare import from the
  root of the package.\<close>

definition confined :: "(string \<Rightarrow> string \<Rightarrow> string + string) \<Rightarrow> string \<Rightarrow> string \<times> string \<Rightarrow> bool" where
  "confined native packageRoot m \<longleftrightarrow>
     (snd m = ''memfs'' \<and> clean_abs (fst m)) \<or>
     (snd m = ''file'' \<and> packageRoot \<noteq> [] \<and>
        (\<exists>spec. \<not> HasPrefix spec ''.'' \<and> \<not> HasPrefix spec ''/'' \<and> native packageRoot spec = Inr (fst m)))"

lemma path_Join_abs: "HasPrefix dir ''/'' \<Longrightarrow> clean_abs (path_Join [dir, p])"
  by (auto simp: path_Join_def HasPrefix_iff)

lemma memfs_resolve_confined:
  assumes "memfs_resolve native packageRoot \<lparr>or_Path = spec, or_Namespace = ns, or_ResolveDir = dir\<rparr> = Some (Inr m)"
    "ns = ''memfs'' \<Longrightarrow> HasPrefix dir ''/''"
  shows "confined native packageRoot m"
proof -
  have clean: "clean_abs (path_Clean q)" if "HasPrefix q ''/''" for q using that by (auto simp: HasPrefix_iff)
  have join: "HasPrefix (path_Join [dir, spec]) ''/''" if "isMemFSResolve \<lparr>or_Path = spec, or_Namespace = ns, or_ResolveDir = dir\<rparr>"
  proof -
    have "HasPrefix dir ''/''" using that assms(2) by (auto simp: isMemFSResolve_def HasPrefix_iff)
    then show ?thesis using path_Join_abs by (simp add: clean_abs_def)
  qed
  show ?thesis
    using assms clean join
    by (auto simp: memfs_resolve_def confined_def isMemFSResolve_def split: if_splits sum.splits)
qed

lemma plugin_module_confined: "plugin_module native packageRoot m \<Longrightarrow> confined native packageRoot m"
proof (induction rule: plugin_module.induct)
  case (from_runner spec m)
  then show ?case by (rule memfs_resolve_confined) simp
next
  case (from_module p ns spec m)
  have "HasPrefix (path_Dir p) ''/''" if "ns = ''memfs''"
    using that from_module(3) clean_abs_Dir[of p] by (auto simp: confined_def clean_abs_def HasPrefix_iff)
  then show ?case by (rule memfs_resolve_confined[OF from_module(2)])
qed

text \<open>What the plugin loads: the runner, or a file of the package.\<close>

lemma read_tool_file_source:
  assumes "read_tool_file (withRunner base src) name = Inr b"
  shows "(name = runnerTSFile \<and> b = src) \<or> (\<exists>h. ly_Open base name = Inr h \<and> read_handle h = Inr b)"
  using assms
  by (auto simp: read_tool_file_def overlay_ReadFile_def overlay_Open_def withRunner_def New_overlay_def map_filter_simps
      map_fs_def map_open_def read_handle_def split: if_splits option.splits sum.splits layer_error.splits file_handle.splits)

section \<open>The runner of a call\<close>

text \<open>The runner passes one argument per parameter of the signature, in its order.\<close>

lemma runner_args_Join:
  "runner_args marshal args i ps =
     (if i > 0 \<and> ps \<noteq> [] then '', '' else []) @ Join '', '' (map (\<lambda>(j, p). runner_arg marshal args j p) (enumerate i ps))"
proof (induction ps arbitrary: i)
  case (Cons p ps)
  show ?case using Cons.IH[of "Suc i"] by (cases ps) (auto simp: Join_Cons)
qed simp

lemma RunWithHost_ok:
  assumes "RunWithHost env tt tdef args host session sig s = (Inr out, session', s', t)"
  shows "\<exists>code globals. qe_Check env (withRunner (map_fs (ts_Files tdef)) (runnerSource (qe_Marshal env) tt (ts_Entry tdef) args sig))
        runnerTSFile session = (Inr [], session') \<and>
      emit (qe_Build env) (withRunner (map_fs (ts_Files tdef)) (runnerSource (qe_Marshal env) tt (ts_Entry tdef) args sig))
        (ts_PackageRoot tdef) = Inr code \<and>
      installHost (qe_Bind env) host = Inr globals \<and> run_program globals host (qe_Eval env code) s = (Inr out, s', t)"
  using assms by (auto simp: RunWithHost_def Let_def map_sum_eq_Inr split: sum.splits prod.splits if_splits)

section \<open>What tools can do\<close>


text \<open>
  C17. A WASM tool starts declared executables only: whatever its program does, each process started
  on its behalf during the run is the sandbox with the runtime of the package on a file the package
  declares as an executable (the bytes of that file from an archive, given on standard input), followed
  by the arguments of the call, which come after the runtime and the file and so cannot replace them.
\<close>

theorem wasm_tool_confined:
  "list_all (declared_command wasm rt)
     (snd (fst (snd (snd (runTSWasmToolWithVFS env tt start clock fetch listen tempDir pid pkg tool wasm rt args memFS cs)))))"
proof (cases "startVFSServer listen tempDir pid")
  case (Inr sock)
  obtain r session st t where R: "RunWithHost env tt wasm args (wasm_host start clock fetch tool wasm rt sock)
      (getCheckSession cs pkg) (rt_Sig tool) (memFS, []) = (r, session, st, t)"
    by (metis prod_cases4)
  have "list_all (declared_command wasm rt) (snd st)"
    using RunWithHost_state[OF R] wasm_host.program_keeps[where s = "(memFS, [])"] by (metis fst_conv list.pred_inject(1) snd_conv)
  then show ?thesis using R Inr by (simp add: runTSWasmToolWithVFS_def)
qed (simp add: runTSWasmToolWithVFS_def)

text \<open>
  C19. The imports of a bundle are confined: every module that the plugin resolves, from the runner or from a module that it resolved,
  is either a clean absolute path in the virtual tree, however many \<open>..\<close> the import has, or, in a package with a root on disk and
  for a bare import only, what esbuild's own resolution from that root gives.  Loading a module of the virtual tree, on any file
  system of the package, gives the runner or what the package has under exactly that path, with the directory of the module for its own
  imports.
\<close>

theorem imports_confined:
  assumes "plugin_module native packageRoot (p, ns)"
  shows "(ns = ''memfs'' \<and> clean_abs p \<and>
       (\<forall>base src res. memfs_load (withRunner base src) p = Inr res \<longrightarrow>
          ol_ResolveDir res = path_Dir p \<and>
          ((p = slash # runnerTSFile \<and> ol_Contents res = src) \<or>
           (\<exists>h. ly_Open base (TrimPrefix p ''/'') = Inr h \<and> read_handle h = Inr (ol_Contents res))))) \<or>
     (ns = ''file'' \<and> packageRoot \<noteq> [] \<and>
       (\<exists>spec. \<not> HasPrefix spec ''.'' \<and> \<not> HasPrefix spec ''/'' \<and> native packageRoot spec = Inr p))"
proof -
  have load: "ol_ResolveDir res = path_Dir p \<and> ((p = slash # runnerTSFile \<and> ol_Contents res = src) \<or>
           (\<exists>h. ly_Open base (TrimPrefix p ''/'') = Inr h \<and> read_handle h = Inr (ol_Contents res)))"
    if c: "clean_abs p" and L: "memfs_load (withRunner base src) p = Inr res" for base src res
  proof -
    obtain q where q: "p = ''/'' @ q" using c by (auto simp: clean_abs_def HasPrefix_iff)
    obtain b where b: "read_tool_file (withRunner base src) (TrimPrefix p ''/'') = Inr b"
      "res = \<lparr>ol_Contents = b, ol_Loader = loaderForPath p, ol_ResolveDir = path_Dir p\<rparr>"
      using L by (auto simp: memfs_load_def split: sum.splits)
    have "TrimPrefix p ''/'' = q" using q TrimPrefix_append by blast
    then show ?thesis using read_tool_file_source[OF b(1)] b(2) q by auto
  qed
  show ?thesis using plugin_module_confined[OF assms] load by (auto simp: confined_def)
qed

definition demo_native :: "string \<Rightarrow> string \<Rightarrow> string + string" where
  "demo_native root spec = (if spec = ''zod'' then Inr (root @ ''/node_modules/zod/index.js'') else Inl ''not found'')"

theorem imports_confined_witness:
  "clean_abs ''/lib/a.ts'' \<and>
   memfs_load (withRunner (map_fs [(''lib/a.ts'', ''x'')]) ''r'') ''/lib/a.ts'' =
     Inr \<lparr>ol_Contents = ''x'', ol_Loader = LoaderTS, ol_ResolveDir = ''/lib''\<rparr> \<and>
   plugin_module demo_native ''/pkg'' (''/pkg/node_modules/zod/index.js'', ''file'') \<and>
   (\<exists>spec. \<not> HasPrefix spec ''.'' \<and> \<not> HasPrefix spec ''/'' \<and> demo_native ''/pkg'' spec = Inr ''/pkg/node_modules/zod/index.js'')"
proof -
  have "memfs_resolve demo_native ''/pkg'' \<lparr>or_Path = ''./../lib/a.ts'', or_Namespace = ''file'', or_ResolveDir = ''/''\<rparr> =
      Some (Inr (''/lib/a.ts'', ''memfs''))" by code_simp
  then have m: "plugin_module demo_native ''/pkg'' (''/lib/a.ts'', ''memfs'')" by (rule plugin_module.from_runner)
  have "memfs_resolve demo_native ''/pkg'' \<lparr>or_Path = ''zod'', or_Namespace = ''memfs'', or_ResolveDir = path_Dir ''/lib/a.ts''\<rparr> =
      Some (Inr (''/pkg/node_modules/zod/index.js'', ''file''))" by code_simp
  then have z: "plugin_module demo_native ''/pkg'' (''/pkg/node_modules/zod/index.js'', ''file'')" by (rule plugin_module.from_module[OF m])
  have L: "memfs_load (withRunner (map_fs [(''lib/a.ts'', ''x'')]) ''r'') ''/lib/a.ts'' =
     Inr \<lparr>ol_Contents = ''x'', ol_Loader = LoaderTS, ol_ResolveDir = ''/lib''\<rparr>" by code_simp
  show ?thesis using imports_confined[OF m] imports_confined[OF z] L z by auto
qed

end
