(* ===== verification/Js_Fetch.thy ===== *)
theory Js_Fetch
  imports Fetch
begin

text \<open>
  The Fetch API of the TypeScript runtime: the JavaScript classes that \<open>runtime/quickts/fetch.go\<close> evaluates
  (\<open>Headers\<close>, \<open>Response\<close>, \<open>fetch\<close>) and the Go callback \<open>__go_fetch\<close> behind them.  A JavaScript string
  is its UTF-16 code units; what the code reads only through \<open>String\<close> is given by that string.  Array
  sorting is stable, as ECMAScript demands.  A thrown \<open>TypeError\<close> is its message.
\<close>

section \<open>Strings of the two languages\<close>

type_synonym js_string = "nat list"

definition js_text :: "string \<Rightarrow> js_string" where
  "js_text s = map byte_of s"

text \<open>JSON carries a Go string to JavaScript as its runes: invalid UTF-8 is replaced.\<close>

definition utf16_units :: "nat \<Rightarrow> js_string" where
  "utf16_units r = (if r < 65536 then [r] else [55296 + (r - 65536) div 1024, 56320 + (r - 65536) mod 1024])"

definition js_of_go :: "string \<Rightarrow> js_string" where
  "js_of_go s = concat (map utf16_units (runes s))"

text \<open>A string of code units below the surrogates, as the Go string that JSON gives for it.\<close>

definition utf8_bytes_of :: "nat \<Rightarrow> nat list" where
  "utf8_bytes_of r =
     (if r < 128 then [r]
      else if r < 2048 then [192 + r div 64, 128 + r mod 64]
      else [224 + r div 4096, 128 + (r div 64) mod 64, 128 + r mod 64])"

definition go_of_js :: "js_string \<Rightarrow> string" where
  "go_of_js s = map char_of (concat (map utf8_bytes_of s))"

section \<open>Header names and values\<close>

definition js_validateName :: "js_string \<Rightarrow> js_string + js_string" where
  "js_validateName name =
     (if name = [] \<or> \<not> list_all isTokenChar name then Inl (js_text ''Invalid header name: '' @ name) else Inr name)"

definition js_space :: "nat \<Rightarrow> bool" where
  "js_space c = (c \<in> {9, 10, 13, 32})"

definition js_normalizeValue :: "js_string \<Rightarrow> js_string" where
  "js_normalizeValue val = TrimFunc js_space val"

definition js_validateValue :: "js_string \<Rightarrow> js_string + js_string" where
  "js_validateValue val =
     (if list_ex (\<lambda>c. c = 0 \<or> c = 10 \<or> c = 13 \<or> c > 255) val then Inl (js_text ''Invalid header value'') else Inr val)"

text \<open>\<open>toLowerCase\<close> is applied to valid names only, which are ASCII.\<close>

definition js_toLowerCase :: "js_string \<Rightarrow> js_string" where
  "js_toLowerCase = map (\<lambda>c. if 65 \<le> c \<and> c \<le> 90 then c + 32 else c)"

definition js_pair :: "js_string \<Rightarrow> js_string \<Rightarrow> js_string + js_string \<times> js_string" where
  "js_pair name val =
     result_bind (js_validateName name) (\<lambda>n.
       result_bind (js_validateValue (js_normalizeValue val)) (\<lambda>v. Inr (js_toLowerCase n, v)))"

section \<open>The class Headers\<close>

type_synonym js_Headers = "(js_string \<times> js_string) list"

definition js_sort :: "js_Headers \<Rightarrow> js_Headers" where
  "js_sort h = sort_key fst h"

text \<open>What a constructor is given: the elements of a sequence as \<open>Array.from\<close> makes them, the keys of an
  object with their values, a number or boolean as its text.\<close>

datatype headers_init =
    InitUndefined
  | InitNull
  | InitPrimitive js_string
  | InitSequence "js_string list list"
  | InitObject "(js_string \<times> js_string) list"
  | InitOther

fun js_push_sequence :: "js_string list list \<Rightarrow> js_Headers \<Rightarrow> js_string + js_Headers" where
  "js_push_sequence [] h = Inr h"
| "js_push_sequence (pair # ps) h =
     (case pair of
        [n, v] \<Rightarrow> result_bind (js_pair n v) (\<lambda>e. js_push_sequence ps (h @ [e]))
      | _ \<Rightarrow> Inl (js_text ''Header pair must be 2-element sequence''))"

fun js_push_object :: "(js_string \<times> js_string) list \<Rightarrow> js_Headers \<Rightarrow> js_string + js_Headers" where
  "js_push_object [] h = Inr h"
| "js_push_object ((n, v) # ps) h = result_bind (js_pair n v) (\<lambda>e. js_push_object ps (h @ [e]))"

definition js_new_Headers :: "headers_init \<Rightarrow> js_string + js_Headers" where
  "js_new_Headers init =
     (case init of
        InitNull \<Rightarrow> Inl (js_text ''Cannot construct Headers from null'')
      | InitPrimitive t \<Rightarrow> Inl (js_text ''Cannot construct Headers from '' @ t)
      | InitUndefined \<Rightarrow> Inr []
      | InitSequence ps \<Rightarrow> map_sum id js_sort (js_push_sequence ps [])
      | InitObject ps \<Rightarrow> map_sum id js_sort (js_push_object ps [])
      | InitOther \<Rightarrow> Inl (js_text ''Cannot construct Headers''))"

definition js_append :: "js_string \<Rightarrow> js_string \<Rightarrow> js_Headers \<Rightarrow> js_string + js_Headers" where
  "js_append n v h = result_bind (js_pair n v) (\<lambda>e. Inr (js_sort (h @ [e])))"

definition js_delete :: "js_string \<Rightarrow> js_Headers \<Rightarrow> js_string + js_Headers" where
  "js_delete n h = result_bind (js_validateName n) (\<lambda>_. Inr (filter (\<lambda>e. fst e \<noteq> js_toLowerCase n) h))"

text \<open>\<open>join\<close>, and null when there is no value.\<close>

fun js_join :: "js_string \<Rightarrow> js_string list \<Rightarrow> js_string" where
  "js_join sep [] = []"
| "js_join sep [w] = w"
| "js_join sep (w # v # ws) = w @ sep @ js_join sep (v # ws)"

definition js_get :: "js_string \<Rightarrow> js_Headers \<Rightarrow> js_string + js_string option" where
  "js_get n h = result_bind (js_validateName n) (\<lambda>_.
     let vs = map snd (filter (\<lambda>e. fst e = js_toLowerCase n) h) in
     Inr (if vs \<noteq> [] then Some (js_join (js_text '', '') vs) else None))"

definition js_has :: "js_string \<Rightarrow> js_Headers \<Rightarrow> js_string + bool" where
  "js_has n h = result_bind (js_validateName n) (\<lambda>_. Inr (list_ex (\<lambda>e. fst e = js_toLowerCase n) h))"

definition js_set :: "js_string \<Rightarrow> js_string \<Rightarrow> js_Headers \<Rightarrow> js_string + js_Headers" where
  "js_set n v h = result_bind (js_pair n v) (\<lambda>(l, v').
     Inr (js_sort (filter (\<lambda>e. fst e \<noteq> l) h @ [(l, v')])))"

fun js_combined_loop :: "js_Headers \<Rightarrow> js_string \<Rightarrow> js_Headers \<Rightarrow> js_Headers" where
  "js_combined_loop [] p r = r"
| "js_combined_loop ((n, v) # es) p r =
     js_combined_loop es n
       (if n = js_text ''set-cookie'' then r @ [(n, v)]
        else if n = p \<and> r \<noteq> [] then r[length r - 1 := (fst (r ! (length r - 1)), snd (r ! (length r - 1)) @ js_text '', '' @ v)]
        else r @ [(n, v)])"

definition js_combined :: "js_Headers \<Rightarrow> js_Headers" where
  "js_combined h = js_combined_loop h [] []"

text \<open>\<open>forEach\<close> and the iterators go over the combined entries.\<close>

definition js_entries :: "js_Headers \<Rightarrow> js_Headers" where
  "js_entries h = js_combined h"

section \<open>Responses and the Go callback\<close>

record js_Response =
  jr_status :: int
  jr_statusText :: js_string
  jr_ok :: bool
  jr_headers :: js_Headers
  jr_url :: js_string
  jr_body :: js_string
  jr_bodyUsed :: bool

definition js_new_Response :: "js_string \<Rightarrow> int \<Rightarrow> js_string \<Rightarrow> js_Response" where
  "js_new_Response body status statusText =
     (let st = (if status \<noteq> 0 then status else 200) in
      \<lparr>jr_status = st, jr_statusText = statusText, jr_ok = (st \<ge> 200 \<and> st < 300), jr_headers = [], jr_url = [], jr_body = body, jr_bodyUsed = False\<rparr>)"

text \<open>Reading the body marks it used, and nothing refuses a second reading.\<close>

definition js_Response_text :: "js_Response \<Rightarrow> js_string \<times> js_Response" where
  "js_Response_text r = (jr_body r, r\<lparr>jr_bodyUsed := True\<rparr>)"

definition js_Response_json :: "(js_string \<Rightarrow> js_string + 'v) \<Rightarrow> js_Response \<Rightarrow> (js_string + 'v) \<times> js_Response" where
  "js_Response_json parse r = (parse (jr_body r), r\<lparr>jr_bodyUsed := True\<rparr>)"

text \<open>The script \<open>__fetch_response.js\<close> on the JSON of a result.\<close>

definition js_build_response :: "FetchResult \<Rightarrow> js_string + js_Response" where
  "js_build_response d =
     (let r = js_new_Response (js_of_go (fr_Body d)) (fr_Status d) (js_of_go (fr_StatusText d)) in
      result_bind (js_new_Headers (InitSequence (map (\<lambda>(n, v). [js_of_go n, js_of_go v]) (fr_Headers d)))) (\<lambda>h.
        Inr (r\<lparr>jr_url := js_of_go (fr_URL d), jr_ok := (fr_Status d \<ge> 200 \<and> fr_Status d < 300), jr_headers := h\<rparr>)))"

datatype 'v js_promise = Rejected js_string | Resolved 'v

definition go_fetch_callback ::
  "(string \<Rightarrow> string \<Rightarrow> string \<Rightarrow> string \<Rightarrow> string + FetchResult) \<Rightarrow> string list \<Rightarrow> js_Response js_promise" where
  "go_fetch_callback fetch args =
     (case args of
        url # method # headersJSON # body # _ \<Rightarrow>
          (case fetch url method headersJSON body of
             Inl e \<Rightarrow> Rejected (js_text ''TypeError: '' @ js_of_go e)
           | Inr result \<Rightarrow>
               (case js_build_response result of
                  Inl e \<Rightarrow> Rejected (js_text ''TypeError: build response: '' @ e)
                | Inr val \<Rightarrow> Resolved val))
      | _ \<Rightarrow> Rejected (js_text ''TypeError: __go_fetch requires 4 arguments''))"

section \<open>The function fetch\<close>

datatype headers_arg = HeadersObject js_Headers | HeadersInit headers_init

record fetch_init =
  fi_method :: js_string
  fi_headers :: "headers_arg option"
  fi_body :: "js_string option"

text \<open>ASCII upper case decides whether the result is HEAD or GET: no other letter has an upper case made of
  their letters.\<close>

definition js_toUpperCase :: "js_string \<Rightarrow> js_string" where
  "js_toUpperCase = map (\<lambda>c. if 97 \<le> c \<and> c \<le> 122 then c - 32 else c)"

text \<open>The arguments of the call of \<open>__go_fetch\<close>, the header list before \<open>JSON.stringify\<close>.\<close>

definition js_fetch :: "js_string \<Rightarrow> fetch_init option \<Rightarrow> js_string + js_string \<times> js_string \<times> js_Headers \<times> js_string" where
  "js_fetch url init =
     (let method = (case init of Some i \<Rightarrow> if fi_method i \<noteq> [] then fi_method i else js_text ''GET'' | None \<Rightarrow> js_text ''GET'');
          body = (case init of Some i \<Rightarrow> (case fi_body i of Some b \<Rightarrow> b | None \<Rightarrow> []) | None \<Rightarrow> []);
          upper = js_toUpperCase method in
      if body \<noteq> [] \<and> (upper = js_text ''HEAD'' \<or> upper = js_text ''GET'')
      then Inl (js_text ''Request with GET/HEAD cannot have body'')
      else case (case init of Some i \<Rightarrow> fi_headers i | None \<Rightarrow> None) of
          None \<Rightarrow> Inr (url, method, [], body)
        | Some (HeadersObject h) \<Rightarrow> Inr (url, method, h, body)
        | Some (HeadersInit hi) \<Rightarrow> result_bind (js_new_Headers hi) (\<lambda>h. Inr (url, method, h, body)))"

end
