(* ===== verification/Js_Fetch_Props.thy ===== *)
theory Js_Fetch_Props
  imports Js_Fetch Fetch_Props Machines
begin

text \<open>
  The class \<open>Headers\<close> of the runtime is a map from names to lists of values, and agrees with the
  \<open>Headers\<close> of the Go side: what a program puts into it is what the request is sent with.
\<close>

section \<open>Well-formed headers\<close>

definition js_name :: "js_string \<Rightarrow> bool" where
  "js_name n = (n \<noteq> [] \<and> list_all (\<lambda>c. isTokenChar c \<and> \<not> (65 \<le> c \<and> c \<le> 90)) n)"

definition js_val :: "js_string \<Rightarrow> bool" where
  "js_val v = (list_all (\<lambda>c. c \<notin> {0, 10, 13} \<and> c \<le> 255) v \<and> js_normalizeValue v = v)"

definition js_wf :: "js_Headers \<Rightarrow> bool" where
  "js_wf h = (sorted (map fst h) \<and> list_all (\<lambda>(n, v). js_name n \<and> js_val v) h)"

lemma TrimFunc_id: "t = [] \<or> \<not> p (hd t) \<and> \<not> p (last t) \<Longrightarrow> TrimFunc p t = t"
  using dropWhile_eq_self_iff[of p t] dropWhile_eq_self_iff[of p "rev t"] by (auto simp: TrimFunc_def hd_rev)

lemma TrimFunc_idem [simp]: "TrimFunc p (TrimFunc p s) = TrimFunc p s"
  using TrimFunc_ends[of p s] by (intro TrimFunc_id) blast

lemma token_lower: "isTokenChar c \<Longrightarrow> 65 \<le> c \<Longrightarrow> c \<le> 90 \<Longrightarrow> isTokenChar (c + 32)"
  by (simp add: isTokenChar_def)

lemma js_lower_name: "list_all isTokenChar n \<Longrightarrow> n \<noteq> [] \<Longrightarrow> js_name (js_toLowerCase n)"
  using token_lower by (auto simp: js_name_def js_toLowerCase_def list_all_iff)

lemma js_name_lower [simp]: "js_name n \<Longrightarrow> js_toLowerCase n = n"
  by (auto simp: js_name_def js_toLowerCase_def list_all_iff map_idI)

lemma js_pair_ok:
  "js_pair n v = Inr e \<Longrightarrow> e = (js_toLowerCase n, js_normalizeValue v) \<and> js_name (fst e) \<and> js_val (snd e)"
  by (auto simp: js_pair_def js_validateName_def js_validateValue_def js_val_def js_normalizeValue_def js_lower_name list_ex_iff
      list_all_iff not_less split: if_splits)

lemma js_pair_fixed: "js_name n \<Longrightarrow> js_val v \<Longrightarrow> js_pair n v = Inr (n, v)"
  by (auto simp: js_pair_def js_validateName_def js_validateValue_def js_val_def js_name_def list_ex_iff list_all_iff
      js_toLowerCase_def map_idI)

lemma js_wf_sort: "list_all (\<lambda>(n, v). js_name n \<and> js_val v) h \<Longrightarrow> js_wf (js_sort h)"
  by (auto simp: js_wf_def js_sort_def list_all_iff)

lemma js_push_sequence_ok:
  "js_push_sequence ps h = Inr h' \<Longrightarrow> list_all (\<lambda>(n, v). js_name n \<and> js_val v) h \<Longrightarrow> list_all (\<lambda>(n, v). js_name n \<and> js_val v) h'"
  by (induction ps h rule: js_push_sequence.induct) (auto split: list.splits dest!: js_pair_ok)

lemma js_push_object_ok:
  "js_push_object ps h = Inr h' \<Longrightarrow> list_all (\<lambda>(n, v). js_name n \<and> js_val v) h \<Longrightarrow> list_all (\<lambda>(n, v). js_name n \<and> js_val v) h'"
  by (induction ps h rule: js_push_object.induct) (auto dest!: js_pair_ok)

text \<open>The objects a program can make; a method that throws leaves the object as it was.\<close>

inductive js_headers :: "js_Headers \<Rightarrow> bool" where
  new: "js_new_Headers init = Inr h \<Longrightarrow> js_headers h"
| append: "js_headers h \<Longrightarrow> js_append n v h = Inr h' \<Longrightarrow> js_headers h'"
| delete: "js_headers h \<Longrightarrow> js_delete n h = Inr h' \<Longrightarrow> js_headers h'"
| set_to: "js_headers h \<Longrightarrow> js_set n v h = Inr h' \<Longrightarrow> js_headers h'"

lemma js_new_wf:
  assumes "js_new_Headers init = Inr h"
  shows "js_wf h"
proof (cases init)
  case (InitSequence ps)
  then obtain l where "js_push_sequence ps [] = Inr l" "h = js_sort l"
    using assms by (cases "js_push_sequence ps []") (auto simp: js_new_Headers_def)
  then show ?thesis using js_push_sequence_ok[of ps "[]" l] by (simp add: js_wf_sort)
next
  case (InitObject ps)
  then obtain l where "js_push_object ps [] = Inr l" "h = js_sort l"
    using assms by (cases "js_push_object ps []") (auto simp: js_new_Headers_def)
  then show ?thesis using js_push_object_ok[of ps "[]" l] by (simp add: js_wf_sort)
qed (use assms in \<open>auto simp: js_new_Headers_def js_wf_def\<close>)

lemma js_headers_wf: "js_headers h \<Longrightarrow> js_wf h"
proof (induction rule: js_headers.induct)
  case (append h n v h')
  then show ?case by (auto simp: js_append_def dest!: js_pair_ok intro!: js_wf_sort) (simp_all add: js_wf_def)
next
  case (delete h n h')
  then show ?case by (auto simp: js_delete_def js_wf_def list_all_iff sorted_filter)
next
  case (set_to h n v h')
  then show ?case by (auto simp: js_set_def dest!: js_pair_ok intro!: js_wf_sort) (auto simp: js_wf_def list_all_iff)
qed (rule js_new_wf)

section \<open>A map of lists of values\<close>

datatype js_op = HAppend js_string js_string | HDelete js_string | HSet js_string js_string | HGet js_string | HHas js_string

datatype js_answer = Threw js_string | Done | Got "js_string option" | Held bool

definition js_result :: "('x \<Rightarrow> js_answer) \<Rightarrow> ('x \<Rightarrow> 's) \<Rightarrow> 's \<Rightarrow> js_string + 'x \<Rightarrow> js_answer \<times> 's" where
  "js_result ans next s r = (case r of Inl e \<Rightarrow> (Threw e, s) | Inr x \<Rightarrow> (ans x, next x))"

definition js_step :: "js_op \<Rightarrow> js_Headers \<Rightarrow> js_answer \<times> js_Headers" where
  "js_step c h =
     (case c of
        HAppend n v \<Rightarrow> js_result (\<lambda>_. Done) id h (js_append n v h)
      | HDelete n \<Rightarrow> js_result (\<lambda>_. Done) id h (js_delete n h)
      | HSet n v \<Rightarrow> js_result (\<lambda>_. Done) id h (js_set n v h)
      | HGet n \<Rightarrow> js_result Got (\<lambda>_. h) h (js_get n h)
      | HHas n \<Rightarrow> js_result Held (\<lambda>_. h) h (js_has n h))"

text \<open>The same operations on a function from names to lists of values.\<close>

definition map_step :: "js_op \<Rightarrow> (js_string \<Rightarrow> js_string list) \<Rightarrow> js_answer \<times> (js_string \<Rightarrow> js_string list)" where
  "map_step c m =
     (case c of
        HAppend n v \<Rightarrow> js_result (\<lambda>_. Done) (\<lambda>(l, w). m(l := m l @ [w])) m (js_pair n v)
      | HDelete n \<Rightarrow> js_result (\<lambda>_. Done) (\<lambda>n. m(js_toLowerCase n := [])) m (js_validateName n)
      | HSet n v \<Rightarrow> js_result (\<lambda>_. Done) (\<lambda>(l, w). m(l := [w])) m (js_pair n v)
      | HGet n \<Rightarrow> js_result (\<lambda>n. Got (case m (js_toLowerCase n) of [] \<Rightarrow> None | vs \<Rightarrow> Some (js_join (js_text '', '') vs))) (\<lambda>_. m) m
          (js_validateName n)
      | HHas n \<Rightarrow> js_result (\<lambda>n. Held (m (js_toLowerCase n) \<noteq> [])) (\<lambda>_. m) m (js_validateName n))"

definition js_vals :: "js_Headers \<Rightarrow> js_string \<Rightarrow> js_string list" where
  "js_vals h n = map snd (filter (\<lambda>e. fst e = n) h)"

lemma js_vals_sort [simp]: "js_vals (js_sort h) = js_vals h"
  by (simp add: js_vals_def js_sort_def sort_key_stable fun_eq_iff)

lemma js_vals_snoc [simp]: "js_vals (h @ [(n, v)]) = (js_vals h)(n := js_vals h n @ [v])"
  by (auto simp: js_vals_def)

lemma js_vals_delete [simp]: "js_vals (filter (\<lambda>e. fst e \<noteq> l) h) = (js_vals h)(l := [])"
  by (auto simp: js_vals_def filter_filter fun_eq_iff filter_empty_conv conj_commute intro!: arg_cong[of _ _ "map snd"] filter_cong)

lemma js_validateName_cases: "js_validateName n = Inr n \<or> (\<exists>e. js_validateName n = Inl e)"
  by (simp add: js_validateName_def)

interpretation js_map: simulation js_step map_step "\<lambda>h m. m = js_vals h" "\<lambda>_. True"
proof
  fix h m c
  assume m: "m = js_vals h"
  have vals: "list_ex (\<lambda>e. fst e = n) h \<longleftrightarrow> js_vals h n \<noteq> []" for n
    by (auto simp: js_vals_def list_ex_iff filter_empty_conv)
  have get: "(let vs = map snd (filter (\<lambda>e. fst e = n) h) in Inr (if vs \<noteq> [] then Some (js_join (js_text '', '') vs) else None)) =
     Inr (case js_vals h n of [] \<Rightarrow> None | vs \<Rightarrow> Some (js_join (js_text '', '') vs))" for n
    by (cases "js_vals h n") (simp_all add: js_vals_def Let_def)
  have *: "fst (js_step c h) = fst (map_step c m) \<and> snd (map_step c m) = js_vals (snd (js_step c h))"
  proof (cases c)
    case (HAppend n v)
    then show ?thesis using m by (cases "js_pair n v") (auto simp: js_step_def map_step_def js_append_def js_result_def)
  next
    case (HDelete n)
    then show ?thesis using m js_validateName_cases[of n]
      by (auto simp: js_step_def map_step_def js_delete_def js_result_def)
  next
    case (HSet n v)
    then show ?thesis using m by (cases "js_pair n v") (auto simp: js_step_def map_step_def js_set_def js_result_def)
  next
    case (HGet n)
    then show ?thesis using m js_validateName_cases[of n]
      by (auto simp: js_step_def map_step_def js_get_def js_result_def get)
  next
    case (HHas n)
    then show ?thesis using m js_validateName_cases[of n]
      by (auto simp: js_step_def map_step_def js_has_def js_result_def vals)
  qed
  then show "fst (js_step c h) = fst (map_step c m)" "snd (map_step c m) = js_vals (snd (js_step c h))" by blast+
qed

text \<open>
  C24. The class \<open>Headers\<close> that programs get is a map from case-insensitive names to lists of values: every sequence of
  append, delete, set, get and has on a new object is answered, errors included, as by a function from names
  to lists, where append adds at the end, set replaces, and get joins the values by comma and space.
\<close>

theorem js_headers_refine:
  "fst (run_all js_step ops []) = fst (run_all map_step ops (\<lambda>_. []))"
proof -
  have "(\<lambda>_. []) = js_vals []" by (simp add: js_vals_def fun_eq_iff)
  then show ?thesis using js_map.simulates[of "\<lambda>_. []" "[]" ops] by (simp add: list_all_iff)
qed

section \<open>The two sides\<close>

definition go_headers :: "js_Headers \<Rightarrow> Headers" where
  "go_headers h = map (\<lambda>(n, v). (go_of_js n, go_of_js v)) h"

lemma go_of_js_Nil [simp]: "go_of_js [] = []"
  by (simp add: go_of_js_def)

lemma go_of_js_append [simp]: "go_of_js (a @ b) = go_of_js a @ go_of_js b"
  by (simp add: go_of_js_def)

lemma byte_char_of [simp]: "n < 256 \<Longrightarrow> byte_of (char_of n) = n"
  by (simp add: byte_of_def)

lemma utf8_bytes_lt: "c \<le> 255 \<Longrightarrow> \<forall>b\<in>set (utf8_bytes_of c). b < 256"
  by (auto simp: utf8_bytes_of_def)

lemma bytes_go_of_js: "\<forall>c\<in>set s. c \<le> 255 \<Longrightarrow> map byte_of (go_of_js s) = concat (map utf8_bytes_of s)"
  using utf8_bytes_lt by (fastforce simp: go_of_js_def intro!: map_idI)

lemma decode_utf8: "c \<le> 255 \<Longrightarrow> 128 \<le> c \<Longrightarrow> decode_rune ((192 + c div 64) # (128 + c mod 64) # r) = (c, 2)"
proof -
  assume c: "c \<le> 255" "128 \<le> c"
  have "c div 64 \<le> 3" "2 \<le> c div 64" "c mod 64 \<le> 63" "c div 64 * 64 + c mod 64 = c" using c by simp_all
  then show ?thesis by (simp add: decode_rune_def cont_byte_def)
qed

lemma runes_go_of_js: "\<forall>c\<in>set s. c \<le> 255 \<Longrightarrow> runes (go_of_js s) = s"
proof -
  have "\<forall>c\<in>set s. c \<le> 255 \<Longrightarrow> runes_of_bytes (concat (map utf8_bytes_of s)) = s"
    by (induction s) (auto simp: utf8_bytes_of_def decode_utf8 simp del: runes_of_bytes.simps(2) intro!: trans[OF runes_of_bytes.simps(2)])
  then show "\<forall>c\<in>set s. c \<le> 255 \<Longrightarrow> runes (go_of_js s) = s" by (simp add: runes_def bytes_go_of_js)
qed

lemma js_of_go_of_js: "\<forall>c\<in>set s. c \<le> 255 \<Longrightarrow> js_of_go (go_of_js s) = s"
proof -
  assume s: "\<forall>c\<in>set s. c \<le> 255"
  have "concat (map utf16_units s) = s" using s by (induction s) (auto simp: utf16_units_def)
  then show ?thesis using s by (simp add: js_of_go_def runes_go_of_js)
qed

lemma token_ascii: "isTokenChar c \<Longrightarrow> c < 128"
  by (auto simp: isTokenChar_def)

lemma js_name_ascii: "js_name n \<Longrightarrow> c \<in> set n \<Longrightarrow> c < 128"
  using token_ascii by (auto simp: js_name_def list_all_iff)

lemma go_of_js_ascii: "\<forall>c\<in>set s. c < 128 \<Longrightarrow> go_of_js s = map char_of s"
  by (induction s) (simp_all add: go_of_js_def utf8_bytes_of_def)

lemma char_of_less: "(a :: nat) < 256 \<Longrightarrow> b < 256 \<Longrightarrow> (char_of a :: char) < char_of b \<longleftrightarrow> a < b"
  by (simp add: less_char_def)

lemma char_of_eq: "(a :: nat) < 256 \<Longrightarrow> b < 256 \<Longrightarrow> (char_of a :: char) = char_of b \<longleftrightarrow> a = b"
  by (metis byte_char_of)

lemma chars_mono: "xs \<le> ys \<Longrightarrow> \<forall>c\<in>set xs \<union> set ys. c < 256 \<Longrightarrow> map (char_of :: nat \<Rightarrow> char) xs \<le> map char_of ys"
proof (induction xs arbitrary: ys)
  case (Cons x xs)
  then show ?case by (cases ys) (auto simp: char_of_less char_of_eq)
qed simp

lemma go_names_sorted: "js_wf h \<Longrightarrow> sorted (map fst (go_headers h))"
proof -
  assume h: "js_wf h"
  have "go_of_js m \<le> go_of_js n" if "m \<le> n" "js_name m" "js_name n" for m n
    using that chars_mono[of m n] js_name_ascii[of m] js_name_ascii[of n] go_of_js_ascii[of m] go_of_js_ascii[of n] by fastforce
  then show ?thesis using h unfolding js_wf_def go_headers_def by (induction h) (fastforce simp: list_all_iff)+
qed

lemma utf8_ends:
  assumes "c \<le> 255" "\<not> js_space c"
  shows "utf8_bytes_of c \<noteq> [] \<and> byte_of (char_of (hd (utf8_bytes_of c))) \<notin> {9, 10, 13, 32} \<and>
    byte_of (char_of (last (utf8_bytes_of c))) \<notin> {9, 10, 13, 32}"
proof -
  have "192 + c div 64 < 256" using assms(1) by simp
  moreover have "128 + c mod 64 < 256" "128 \<le> 128 + c mod 64" by simp_all
  ultimately show ?thesis using assms by (simp add: utf8_bytes_of_def js_space_def)
qed

text \<open>The Go side accepts every pair as it is.\<close>

lemma js_pair_accepted:
  assumes "js_name n" "js_val v"
  shows "acceptable (go_of_js n, go_of_js v) \<and> ToLower (go_of_js n) = go_of_js n \<and> normalizeHeaderValue (go_of_js v) = go_of_js v"
proof -
  have n: "\<forall>c\<in>set n. c < 128" "n \<noteq> []" "\<forall>c\<in>set n. isTokenChar c \<and> \<not> (65 \<le> c \<and> c \<le> 90)"
    using assms(1) js_name_ascii[OF assms(1)] by (auto simp: js_name_def list_all_iff)
  have v: "\<forall>c\<in>set v. c \<notin> {0, 10, 13} \<and> c \<le> 255" "TrimFunc js_space v = v"
    using assms(2) by (simp_all add: js_val_def list_all_iff js_normalizeValue_def)
  have lower: "ToLower (go_of_js n) = go_of_js n"
    using n by (auto simp: go_of_js_ascii ToLower_def lower_char_def is_upper_def)
  have norm: "normalizeHeaderValue (go_of_js v) = go_of_js v"
  proof (cases v rule: rev_cases)
    case (snoc w y)
    then obtain x u where x: "v = x # u" by (cases "w @ [y]") auto
    have "\<not> js_space (hd v) \<and> \<not> js_space (last v)" using TrimFunc_ends[of js_space v] v(2) x by simp
    moreover have "hd v = x" using x by simp
    moreover have "last v = y" using snoc by simp
    ultimately have ends: "\<not> js_space x" "\<not> js_space y" by simp_all
    have go: "go_of_js v = map char_of (utf8_bytes_of x) @ go_of_js u" "go_of_js v = go_of_js w @ map char_of (utf8_bytes_of y)"
      using x by (simp add: go_of_js_def, use snoc in \<open>simp add: go_of_js_def\<close>)
    have b: "x \<le> 255" "y \<le> 255" using v(1) x by (simp, use v(1) snoc in simp)
    have "byte_of (hd (go_of_js v)) \<notin> {9, 10, 13, 32}" "byte_of (last (go_of_js v)) \<notin> {9, 10, 13, 32}"
      using utf8_ends[OF b(1) ends(1)] utf8_ends[OF b(2) ends(2)] go by (metis hd_append2 hd_map last_appendR last_map map_is_Nil_conv)+
    then show ?thesis unfolding normalizeHeaderValue_def by (intro TrimFunc_id) blast
  qed (simp add: normalizeHeaderValue_def TrimFunc_def)
  have "is_ok (validateHeaderName (go_of_js n))"
    using n runes_go_of_js[of n] by (fastforce simp: validateHeaderName_def list_ex_iff go_of_js_ascii)
  moreover have "is_ok (validateHeaderValue (go_of_js v))"
    using v(1) runes_go_of_js[of v] by (auto simp: validateHeaderValue_def list_ex_iff)
  ultimately show ?thesis using lower norm by (simp add: acceptable_def)
qed

lemma append_go_headers: "js_wf h \<Longrightarrow> append_pairs (go_headers h) NewHeaders = go_headers h"
proof -
  assume h: "js_wf h"
  then have "list_all (\<lambda>(n, v). js_name n \<and> js_val v) h" by (simp add: js_wf_def)
  then have "accepted (go_headers h) = go_headers h"
    by (induction h) (auto simp: accepted_def go_headers_def js_pair_accepted)
  then show ?thesis using go_names_sorted[OF h] by (simp add: append_pairs_new headers_sort_def sort_key_id_if_sorted)
qed

lemma go_of_js_inj:
  assumes "\<forall>c\<in>set a. c < 128" "\<forall>c\<in>set b. c < 128"
  shows "go_of_js a = go_of_js b \<longleftrightarrow> a = b"
proof -
  have "\<forall>c\<in>set a. c \<le> 255" "\<forall>c\<in>set b. c \<le> 255" using assms by fastforce+
  then show ?thesis using js_of_go_of_js by metis
qed

lemma combined_go_headers:
  assumes "list_all (\<lambda>(n, v). js_name n) h" "\<forall>c\<in>set p. c < 128"
  shows "go_headers (js_combined_loop h p r) = combined_loop (go_headers h) (go_of_js p) (go_headers r)"
  using assms
proof (induction h p r rule: js_combined_loop.induct)
  case (2 n v es p r)
  have n: "\<forall>c\<in>set n. c < 128" using 2(2) js_name_ascii by auto
  have lit: "go_of_js (js_text ''set-cookie'') = ''set-cookie''" "go_of_js (js_text '', '') = '', ''"
    "\<forall>c\<in>set (js_text ''set-cookie''). c < 128" by code_simp+
  have cookie: "go_of_js n = ''set-cookie'' \<longleftrightarrow> n = js_text ''set-cookie''"
    using go_of_js_inj[OF n lit(3)] lit(1) by simp
  have prev: "go_of_js n = go_of_js p \<longleftrightarrow> n = p" using go_of_js_inj[OF n 2(3)] .
  have "go_headers (r[length r - 1 := (fst (r ! (length r - 1)), snd (r ! (length r - 1)) @ js_text '', '' @ v)]) =
      (go_headers r)[length r - 1 := (fst (last (go_headers r)), snd (last (go_headers r)) @ '', '' @ go_of_js v)]" if "r \<noteq> []"
    using that lit(2) by (simp add: go_headers_def map_update last_map last_conv_nth case_prod_beta)
  then show ?case
    using 2 n by (auto simp: cookie prev go_headers_def)
qed (simp add: go_headers_def)

text \<open>\<open>JSON.stringify\<close> on one side and \<open>json.Unmarshal\<close> on the other carry the pairs over.\<close>

definition pairs_law :: "(js_Headers \<Rightarrow> string) \<Rightarrow> (string \<Rightarrow> string + (string \<times> string) list) \<Rightarrow> bool" where
  "pairs_law stringify decode \<longleftrightarrow> (\<forall>h. js_wf h \<longrightarrow> decode (stringify h) = Inr (go_headers h))"

lemma js_push_sequence_wf:
  "list_all (\<lambda>(n, v). js_name n \<and> js_val v) h \<Longrightarrow>
     js_push_sequence (map (\<lambda>(n, v). [js_of_go n, js_of_go v]) (go_headers h)) acc = Inr (acc @ h)"
proof (induction h arbitrary: acc)
  case (Cons e h)
  obtain n v where e: "e = (n, v)" by (cases e)
  then have nv: "js_name n" "js_val v" using Cons.prems by simp_all
  then have "\<forall>c\<in>set n. c \<le> 255" "\<forall>c\<in>set v. c \<le> 255"
    using js_name_ascii[OF nv(1)] by (fastforce, simp add: js_val_def list_all_iff)
  then show ?case using Cons e by (simp add: go_headers_def js_of_go_of_js js_pair_fixed[OF nv])
qed (simp add: go_headers_def)

text \<open>
  C23. The \<open>Headers\<close> of a program and the \<open>Headers\<close> of the Go side agree: whatever a program built by the
  constructor, append, delete and set, the Go side accepts every one of its pairs and sends exactly those, so the pairs that it
  would drop without an error never occur; both sides combine them to the same entries; and a response
  with those headers gives the program the same object back.
\<close>

theorem js_go_headers_agree:
  assumes "js_headers h" "pairs_law stringify decode"
  shows "bridge_headers decode (stringify h) = go_headers h \<and>
    Entries (bridge_headers decode (stringify h)) = go_headers (js_entries h) \<and>
    (fr_Headers d = go_headers h \<longrightarrow> (\<exists>r. js_build_response d = Inr r \<and> jr_headers r = h))"
proof -
  have h: "js_wf h" using js_headers_wf[OF assms(1)] .
  then have names: "list_all (\<lambda>(n, v). js_name n) h" by (auto simp: js_wf_def list_all_iff)
  have sent: "bridge_headers decode (stringify h) = go_headers h"
    using assms(2) h append_go_headers[OF h] by (simp add: bridge_headers_def pairs_law_def)
  have "Entries (go_headers h) = go_headers (js_entries h)"
    using combined_go_headers[OF names, of "[]" "[]"]
    by (cases h) (simp_all add: Entries_def combined_def js_entries_def js_combined_def go_headers_def)
  moreover have "\<exists>r. js_build_response d = Inr r \<and> jr_headers r = h" if "fr_Headers d = go_headers h"
    using that js_push_sequence_wf[of h "[]"] h
    by (simp add: js_build_response_def js_new_Headers_def js_wf_def js_sort_def sort_key_id_if_sorted)
  ultimately show ?thesis using sent by simp
qed

fun dec_pairs :: "nat \<Rightarrow> string \<Rightarrow> (string \<times> string) list" where
  "dec_pairs 0 s = []"
| "dec_pairs (Suc k) s =
     (if s = [] then [] else case dec_str s of (n, s') \<Rightarrow> (case dec_str s' of (v, s'') \<Rightarrow> (n, v) # dec_pairs k s''))"

definition enc_pairs :: "js_Headers \<Rightarrow> string" where
  "enc_pairs h = concat (map (\<lambda>(n, v). enc_str n @ enc_str v) (go_headers h))"

lemma demo_pairs_law: "pairs_law enc_pairs (\<lambda>s. Inr (dec_pairs (length s) s))"
proof -
  have "dec_pairs k (concat (map (\<lambda>(n, v). enc_str n @ enc_str v) ps)) = ps" if "length ps \<le> k" for ps k
    using that
  proof (induction ps arbitrary: k)
    case Nil
    then show ?case by (cases k) simp_all
  next
    case (Cons p ps)
    then obtain k' where "k = Suc k'" by (cases k) simp_all
    moreover have "enc_str s \<noteq> []" for s by (simp add: enc_str_def)
    ultimately show ?case using Cons by (cases p) simp
  qed
  moreover have "length ps \<le> length (concat (map (\<lambda>(n, v). enc_str n @ enc_str v) ps))" for ps
    by (induction ps) (auto simp: enc_str_def)
  ultimately show ?thesis by (simp add: pairs_law_def enc_pairs_def)
qed

theorem js_go_headers_agree_witness:
  "\<exists>h. js_new_Headers (InitSequence [[js_text ''X-A'', [32, 233]], [js_text ''b'', js_text ''1''], [js_text ''B'', js_text ''2'']]) = Inr h \<and>
     Entries (bridge_headers (\<lambda>s. Inr (dec_pairs (length s) s)) (enc_pairs h)) =
       [(''b'', ''1, 2''), (''x-a'', [CHR 0xC3, CHR 0xA9])]"
proof -
  let ?h = "[(js_text ''b'', js_text ''1''), (js_text ''b'', js_text ''2''), (js_text ''x-a'', [233])]"
  have new: "js_new_Headers (InitSequence [[js_text ''X-A'', [32, 233]], [js_text ''b'', js_text ''1''], [js_text ''B'', js_text ''2'']]) = Inr ?h"
    by code_simp
  have "Entries (bridge_headers (\<lambda>s. Inr (dec_pairs (length s) s)) (enc_pairs ?h)) = go_headers (js_entries ?h)"
    using js_go_headers_agree[OF js_headers.new[OF new] demo_pairs_law] by blast
  also have "\<dots> = [(''b'', ''1, 2''), (''x-a'', [CHR 0xC3, CHR 0xA9])]" by code_simp
  finally show ?thesis using new by (intro exI[of _ ?h]) blast
qed

text \<open>A call of \<open>fetch\<close> reaches the Go side only with such headers, and never with a body for GET or HEAD.\<close>

lemma js_fetch_ok:
  assumes "js_fetch url init = Inr (u, m, h, b)"
    "case init of Some i \<Rightarrow> (case fi_headers i of Some (HeadersObject h0) \<Rightarrow> js_headers h0 | _ \<Rightarrow> True) | None \<Rightarrow> True"
  shows "u = url \<and> js_headers h \<and> (b \<noteq> [] \<longrightarrow> js_toUpperCase m \<notin> {js_text ''HEAD'', js_text ''GET''})"
proof -
  have "js_headers []" using js_headers.new[of InitUndefined] by (simp add: js_new_Headers_def)
  then show ?thesis using assms
    by (auto simp: js_fetch_def Let_def split: option.splits headers_arg.splits if_splits intro: js_headers.new)
qed

text \<open>
  Where the response stops being readable: a header value that is not UTF-8, such as the byte E9 (Latin-1), reaches JavaScript as
  the replacement character, which the constructor refuses, so the whole fetch is rejected.
\<close>

lemma latin1_response_rejected:
  "js_build_response \<lparr>fr_Status = 200, fr_StatusText = [], fr_Headers = [(''x'', [CHR 0xE9])], fr_Body = [], fr_URL = []\<rparr> =
     Inl (js_text ''Invalid header value'')"
proof -
  have v: "js_of_go [CHR 0xE9] = [65533]"
    by (simp add: js_of_go_def runes_def byte_of_def decode_rune_def rune_error_def utf16_units_def)
  have n: "js_of_go ''x'' = [120]"
    by (simp add: js_of_go_def runes_def byte_of_def utf16_units_def)
  have "js_pair [120] [65533] = Inl (js_text ''Invalid header value'')"
    by (simp add: js_pair_def js_validateName_def isTokenChar_def js_validateValue_def js_normalizeValue_def TrimFunc_def js_space_def)
  then show ?thesis by (simp add: js_build_response_def js_new_Headers_def v n Let_def)
qed

text \<open>A body that was read is marked used and can be read again.\<close>

lemma body_read_twice:
  "js_Response_text r = (t, r') \<Longrightarrow> jr_bodyUsed r' \<and> js_Response_text r' = (t, r')"
  by (auto simp: js_Response_text_def)

end
