(* ===== verification/Cmd.thy ===== *)
theory Cmd
  imports Toolset_File Invoke
begin

text \<open>
  The command line (\<open>cmd/toolbox/main.go\<close>) and the version listing over the network that it uses
  (\<open>registry/version_list.go\<close>).  Parameters (\<open>cli_env\<close>): the environment variables, the HTTP transport, git, the decoders
  of the files and replies, and the stdio server of the MCP library.  A run is its error or
  success, the lines it prints and the disk it leaves; \<open>None\<close> when loading a local package does not return.
\<close>

section \<open>Listing versions\<close>

definition GitHub_list :: "(bytes \<Rightarrow> githubRelease list option) \<Rightarrow> github_api \<Rightarrow> ModulePath \<Rightarrow> fetch_error + Version list" where
  "GitHub_list decode api module =
     result_bind (githubRepoForModule module) (\<lambda>(owner, repo).
     result_bind (http_get api [] (repo_path owner repo ''/releases'')) (\<lambda>resp.
       if hr_Status resp = 404 then Inl ErrReleaseNotFound
       else if \<not> status_ok resp then Inl (FetchError ''unexpected status'')
       else case decode (hr_Body resp) of
           None \<Rightarrow> Inl (FetchError ''decode response'')
         | Some releases \<Rightarrow> Inr (GitHub_ListVersions (map gr_TagName releases))))"

definition Git_list :: "(string list \<Rightarrow> string + string) \<Rightarrow> string \<Rightarrow> ModulePath \<Rightarrow> fetch_error + Version list" where
  "Git_list git URLPrefix module =
     map_sum FetchError Git_ListVersions (git [''ls-remote'', ''--tags'', cloneURL URLPrefix module])"

section \<open>The HTTP client\<close>

type_synonym req_header_map = "(string, string list) gomap"
type_synonym transport = "req_header_map \<Rightarrow> string \<Rightarrow> string + http_response"

definition header_first :: "req_header_map \<Rightarrow> string \<Rightarrow> string" where
  "header_first h key = (case map_of h key of Some (v # _) \<Rightarrow> v | _ \<Rightarrow> [])"

definition auth_RoundTrip :: "transport \<Rightarrow> string \<Rightarrow> transport" where
  "auth_RoundTrip base token h url =
     base (if header_first h ''Authorization'' = [] then AList.update ''Authorization'' [''token '' @ token] h else h) url"

definition newGitHubHTTPClient :: "transport \<Rightarrow> string \<Rightarrow> transport" where
  "newGitHubHTTPClient base token = (if TrimSpace token = [] then base else auth_RoundTrip base token)"

text \<open>The requests of the GitHub source carry an \<open>Accept\<close> header or none.\<close>

definition accept_header :: "string \<Rightarrow> req_header_map" where
  "accept_header accept = (if accept = [] then [] else [(''Accept'', [accept])])"

section \<open>Flags\<close>

text \<open>The \<open>flag\<close> package on flags with a string value.\<close>

datatype flag_error = BadFlagSyntax string | FlagNotDefined string | FlagNeedsArgument string | ErrHelp

definition split_flag :: "string \<Rightarrow> string \<times> string option" where
  "split_flag s =
     (let n = takeWhile (\<lambda>x. x \<noteq> CHR ''='') (tl s); rest = drop (length n) (tl s) in
      (hd s # n, if rest = [] then None else Some (tl rest)))"

fun parse_flags ::
  "string list \<Rightarrow> (string, string) gomap \<Rightarrow> string list \<Rightarrow> flag_error + (string, string) gomap \<times> string list" where
  "parse_flags formal vals [] = Inr (vals, [])"
| "parse_flags formal vals (s # args) =
     (if length s < 2 \<or> hd s \<noteq> CHR ''-'' then Inr (vals, s # args)
      else if s = ''--'' then Inr (vals, args)
      else
        let name = (if s ! 1 = CHR ''-'' then drop 2 s else drop 1 s) in
        if name = [] \<or> hd name = CHR ''-'' \<or> hd name = CHR ''='' then Inl (BadFlagSyntax s)
        else case split_flag name of (name, given) \<Rightarrow>
          if name \<notin> set formal then Inl (if name = ''help'' \<or> name = ''h'' then ErrHelp else FlagNotDefined name)
          else case given of
              Some v \<Rightarrow> parse_flags formal (AList.update name v vals) args
            | None \<Rightarrow>
                (case args of
                   [] \<Rightarrow> Inl (FlagNeedsArgument name)
                 | v # args' \<Rightarrow> parse_flags formal (AList.update name v vals) args'))"

definition flag_value :: "(string, string) gomap \<Rightarrow> string \<Rightarrow> string" where
  "flag_value vals name = (case map_of vals name of Some v \<Rightarrow> v | None \<Rightarrow> [])"

definition defaultToolsetFilename :: string where
  "defaultToolsetFilename = ''toolbox.toolset.json''"

definition file_flag :: "(string, string) gomap \<Rightarrow> string" where
  "file_flag vals = (if flag_value vals ''f'' \<noteq> [] then flag_value vals ''f'' else flag_value vals ''file'')"

section \<open>The environment of a run\<close>

datatype cli_error =
    MissingSubcommand
  | UnknownSubcommand string
  | FlagError flag_error
  | UnexpectedArgs string
  | NoCacheDir
  | FileError toolsetfile_error
  | UpgradeModulePath string
  | UpgradeNotDeclared string string
  | CurrentVersion string
  | ListError list_error
  | VersionsUsage
  | BadModule string
  | IndexOutOfRange
  | ListenError string

text \<open>The lines printed; a flag set prints the error and its usage.\<close>

datatype cli_line = Stdout string | Stderr string | FlagUsage flag_error

record ('sig, 'p) cli_env =
  cl_file :: "('sig, 'p) file_env"
  cl_decode :: "bytes \<Rightarrow> string + (string, string) gomap \<times> string list"
  cl_temp :: string
  cl_fault :: "(write_step \<times> bytes) option"
  cl_cacheDir :: string
  cl_userCacheDir :: "string option"
  cl_githubBaseURL :: string
  cl_gitURLPrefix :: string
  cl_githubToken :: string
  cl_http :: transport
  cl_decodeRelease :: "bytes \<Rightarrow> githubRelease option"
  cl_decodeReleases :: "bytes \<Rightarrow> githubRelease list option"
  cl_decodeRef :: "bytes \<Rightarrow> githubRef option"
  cl_git :: git
  cl_lsRemote :: "string list \<Rightarrow> string + string"
  cl_pack :: "git_cmd list \<Rightarrow> string + bytes \<times> bytes"
  cl_now :: string
  cl_sha :: "bytes \<Rightarrow> string"
  cl_load :: "bytes \<Rightarrow> bytes \<Rightarrow> string + 'sig loaded"
  cl_canWrite :: "string \<Rightarrow> bool"
  cl_listen :: "('sig, 'p) ResolvedToolset \<Rightarrow> string + unit"

definition newResolver :: "('sig, 'p) cli_env \<Rightarrow> cli_error + 'sig loaded resolver_env \<times> lister list" where
  "newResolver env =
     (case NewCache [] (cl_cacheDir env) (cl_userCacheDir env) of
        None \<Rightarrow> Inl NoCacheDir
      | Some root \<Rightarrow>
          let client = newGitHubHTTPClient (cl_http env) (cl_githubToken env);
              rfc = fe_rfc3339 (cl_file env);
              api = \<lparr>api_baseURL = NewGitHubReleaseSource_url (cl_githubBaseURL env),
                     api_Get = (\<lambda>accept. client (accept_header accept)),
                     api_decodeRelease = cl_decodeRelease env, api_decodeRef = cl_decodeRef env\<rparr> in
          Inr (\<lparr>re_sha = cl_sha env, re_rfc3339 = rfc, re_load = cl_load env, re_root = root, re_can_write = cl_canWrite env,
                re_sources = [GitHub_Fetch (cl_sha env) rfc (cl_now env) api,
                              Git_Fetch (cl_sha env) rfc (cl_now env) (cl_git env) (cl_pack env) (cl_gitURLPrefix env)]\<rparr>,
               [Some (GitHub_list (cl_decodeReleases env) api), Some (Git_list (cl_lsRemote env) (cl_gitURLPrefix env))]))"

section \<open>resolve\<close>

definition upgrade_step ::
  "('sig, 'p) cli_env \<Rightarrow> lister list \<Rightarrow> string \<Rightarrow> ToolsetFile \<Rightarrow> disk \<Rightarrow> (cli_error + ToolsetFile) \<times> cli_line list \<times> disk" where
  "upgrade_step env listers upgrade ts d =
     (if TrimSpace upgrade = [] then (Inr ts, [], d)
      else case ParseModulePath upgrade of
          Inl _ \<Rightarrow> (Inl (UpgradeModulePath upgrade), [], d)
        | Inr module \<Rightarrow>
            (case map_of (map_or_nil (tf_Packages ts)) module of
               None \<Rightarrow> (Inl (UpgradeNotDeclared module (tf_filename ts)), [], d)
             | Some currentRaw \<Rightarrow>
                 (case ParseVersion currentRaw of
                    Inl _ \<Rightarrow> (Inl (CurrentVersion module), [], d)
                  | Inr current \<Rightarrow>
                      (case ListVersions listers module of
                         Inl e \<Rightarrow> (Inl (ListError e), [], d)
                       | Inr [] \<Rightarrow> (Inl IndexOutOfRange, [], d)
                       | Inr (latest # _) \<Rightarrow>
                           if latest \<noteq> current then
                             (case SetPackageVersion ts module latest of
                                (Inl e, _) \<Rightarrow> (Inl (FileError e), [], d)
                              | (Inr _, ts1) \<Rightarrow>
                                  (case toolset_Write (fe_jstr (cl_file env)) (cl_fault env) (cl_temp env) ts1 (tf_filename ts1) d of
                                     (Inl e, _, d') \<Rightarrow> (Inl (FileError e), [], d')
                                   | (Inr _, ts2, d') \<Rightarrow>
                                       (Inr ts2, [Stdout (''upgraded '' @ module @ '': '' @ current @ '' -> '' @ latest)], d')))
                           else (Inr ts, [Stdout (''upgrade '' @ module @ '': already at '' @ current)], d)))))"

definition runResolve ::
  "('sig, 'p) cli_env \<Rightarrow> string list \<Rightarrow> disk \<Rightarrow> ((cli_error + unit) \<times> cli_line list \<times> disk) option" where
  "runResolve env args d =
     (case parse_flags [''file'', ''f'', ''upgrade''] [(''file'', defaultToolsetFilename)] args of
        Inl e \<Rightarrow> Some (Inl (FlagError e), [FlagUsage e], d)
      | Inr (vals, rest) \<Rightarrow>
          if rest \<noteq> [] then Some (Inl (UnexpectedArgs (''resolve: unexpected args: '' @ Join '' '' rest)), [], d)
          else case newResolver env of
              Inl e \<Rightarrow> Some (Inl e, [], d)
            | Inr (resolver, listers) \<Rightarrow>
                (case Load (cl_decode env) d (file_flag vals) of
                   Inl e \<Rightarrow> Some (Inl (FileError e), [], d)
                 | Inr ts \<Rightarrow>
                     (case upgrade_step env listers (flag_value vals ''upgrade'') ts d of
                        (Inl e, out, d1) \<Rightarrow> Some (Inl e, out, d1)
                      | (Inr ts1, out, d1) \<Rightarrow>
                          (case file_Resolve (cl_file env) resolver ts1 d1 of
                             None \<Rightarrow> None
                           | Some (Inl e, d2) \<Rightarrow> Some (Inl (FileError e), out, d2)
                           | Some (Inr resolved, d2) \<Rightarrow>
                               Some (Inr (), out @ [Stdout (''resolved '' @ itoa (int (length (rs_tools resolved))) @ '' tools'')] @
                                 (if tf_lockFilename ts1 \<noteq> [] then [Stdout (''lockfile: '' @ tf_lockFilename ts1)] else []), d2)))))"

section \<open>versions and mcp\<close>

definition runVersions :: "('sig, 'p) cli_env \<Rightarrow> string list \<Rightarrow> (cli_error + unit) \<times> cli_line list" where
  "runVersions env args =
     (case parse_flags [''file'', ''f''] [(''file'', defaultToolsetFilename)] args of
        Inl e \<Rightarrow> (Inl (FlagError e), [FlagUsage e])
      | Inr (vals, [arg]) \<Rightarrow>
          (case ParseModulePath arg of
             Inl _ \<Rightarrow> (Inl (BadModule arg), [])
           | Inr module \<Rightarrow>
               (case newResolver env of
                  Inl e \<Rightarrow> (Inl e, [])
                | Inr (_, listers) \<Rightarrow>
                    (case ListVersions listers module of
                       Inl e \<Rightarrow> (Inl (ListError e), [])
                     | Inr versions \<Rightarrow> (Inr (), map Stdout versions))))
      | Inr _ \<Rightarrow> (Inl VersionsUsage, []))"

definition runMCPServe ::
  "('sig, 'p) cli_env \<Rightarrow> string list \<Rightarrow> disk \<Rightarrow> ((cli_error + unit) \<times> cli_line list \<times> disk) option" where
  "runMCPServe env args d =
     (case parse_flags [''file'', ''f''] [(''file'', defaultToolsetFilename)] args of
        Inl e \<Rightarrow> Some (Inl (FlagError e), [FlagUsage e], d)
      | Inr (vals, rest) \<Rightarrow>
          if rest \<noteq> [] then Some (Inl (UnexpectedArgs (''mcp serve: unexpected args: '' @ Join '' '' rest)), [], d)
          else case newResolver env of
              Inl e \<Rightarrow> Some (Inl e, [], d)
            | Inr (resolver, _) \<Rightarrow>
                (case Load (cl_decode env) d (file_flag vals) of
                   Inl e \<Rightarrow> Some (Inl (FileError e), [], d)
                 | Inr ts \<Rightarrow>
                     (case file_Resolve (cl_file env) resolver ts d of
                        None \<Rightarrow> None
                      | Some (Inl e, d') \<Rightarrow> Some (Inl (FileError e), [], d')
                      | Some (Inr resolved, d') \<Rightarrow> Some (map_sum ListenError id (cl_listen env resolved), [], d'))))"

definition usage_lines :: "string list" where
  "usage_lines =
     [''usage:'', ''  toolbox resolve [--file FILE] [--upgrade MODULE]'', ''  toolbox versions [--file FILE] <module>'',
      ''  toolbox mcp serve [--file FILE]'']"

definition runMCP ::
  "('sig, 'p) cli_env \<Rightarrow> string list \<Rightarrow> disk \<Rightarrow> ((cli_error + unit) \<times> cli_line list \<times> disk) option" where
  "runMCP env args d =
     (case args of
        [] \<Rightarrow> Some (Inl MissingSubcommand, map Stderr usage_lines, d)
      | sub # rest \<Rightarrow>
          if sub = ''serve'' then runMCPServe env rest d
          else Some (Inl (UnknownSubcommand sub), map Stderr usage_lines, d))"

definition runWithIO ::
  "('sig, 'p) cli_env \<Rightarrow> string list \<Rightarrow> disk \<Rightarrow> ((cli_error + unit) \<times> cli_line list \<times> disk) option" where
  "runWithIO env args d =
     (case args of
        [] \<Rightarrow> Some (Inl MissingSubcommand, map Stderr usage_lines, d)
      | sub # rest \<Rightarrow>
          if sub = ''resolve'' then runResolve env rest d
          else if sub = ''versions'' then (case runVersions env rest of (r, out) \<Rightarrow> Some (r, out, d))
          else if sub = ''mcp'' then runMCP env rest d
          else if sub \<in> {''help'', ''-h'', ''--help''} then Some (Inr (), map Stdout usage_lines, d)
          else Some (Inl (UnknownSubcommand sub), map Stderr usage_lines, d))"

text \<open>The exit status with what was printed; the text of the error after the word is left out.\<close>

definition toolbox_main :: "('sig, 'p) cli_env \<Rightarrow> string list \<Rightarrow> disk \<Rightarrow> (nat \<times> cli_line list \<times> disk) option" where
  "toolbox_main env args d =
     map_option (\<lambda>(r, out, d'). case r of Inl e \<Rightarrow> (1, out @ [Stderr ''error''], d') | Inr _ \<Rightarrow> (0, out, d')) (runWithIO env args d)"

end
