(* ===== verification/Cmd_Props.thy ===== *)
theory Cmd_Props
  imports Cmd Toolset_File_Props
begin

text \<open>
  What the commands do to the files: an upgrade pins the first listed version and leaves everything
  else, listings of versions are never empty, and where the upgrade falls short.
\<close>

section \<open>Flags\<close>

text \<open>The two spellings of a value, and of the dashes, mean the same.\<close>

lemma parse_flags_spellings:
  assumes "name \<in> set formal" "name \<noteq> []" "CHR ''='' \<notin> set name" "hd name \<noteq> CHR ''-''"
  shows "parse_flags formal vals ((''--'' @ name @ ''='' @ v) # args) = parse_flags formal (AList.update name v vals) args"
    "parse_flags formal vals ((''-'' @ name) # v # args) = parse_flags formal (AList.update name v vals) args"
    "parse_flags formal vals ((''--'' @ name) # v # args) = parse_flags formal (AList.update name v vals) args"
proof -
  obtain c r where n: "name = c # r" using assms(2) by (cases name) auto
  have r: "CHR ''='' \<notin> set r" using assms(3) n by simp
  have t1: "takeWhile (\<lambda>x. x \<noteq> CHR ''='') (r @ CHR ''='' # v) = r" by (subst takeWhile_append2) (use r in auto)
  have t2: "takeWhile (\<lambda>x. x \<noteq> CHR ''='') r = r" unfolding takeWhile_eq_all_conv using r by auto
  have s1: "split_flag (name @ ''='' @ v) = (name, Some v)" "split_flag name = (name, None)"
    unfolding n split_flag_def Let_def append_Cons append_Nil list.sel t1 t2 by simp_all
  show "parse_flags formal vals ((''--'' @ name @ ''='' @ v) # args) = parse_flags formal (AList.update name v vals) args"
    "parse_flags formal vals ((''-'' @ name) # v # args) = parse_flags formal (AList.update name v vals) args"
    "parse_flags formal vals ((''--'' @ name) # v # args) = parse_flags formal (AList.update name v vals) args"
    using assms s1 n by (auto simp: Let_def)
qed

section \<open>Listings\<close>

text \<open>A listing that succeeds has a first element, so \<open>versions[0]\<close> cannot fail.\<close>

lemma ListVersions_nonempty: "ListVersions listers m = Inr vs \<Longrightarrow> vs \<noteq> []"
proof -
  assume "ListVersions listers m = Inr vs"
  then obtain ws where "ws \<noteq> []" "vs = sortVersionsDesc ws"
    by (auto simp: ListVersions_def Let_def split: if_splits option.splits)
  then show ?thesis using set_sortVersionsDesc[of ws] by (metis set_empty)
qed

section \<open>Writing the file\<close>

lemma toolset_Write_ok:
  assumes "toolset_Write jstr fault temp f (tf_filename f) d = (r, f', d')" "file_ok f" "tf_Packages f = Some pkgs"
    "map_of d temp = None" "tf_filename f \<noteq> temp"
  shows "case r of Inl _ \<Rightarrow> map_of d' = map_of d
    | Inr _ \<Rightarrow> file_ok f' \<and> tf_Packages f' = Some pkgs \<and> tf_Tools f' = tf_Tools f \<and> tf_filename f' = tf_filename f \<and>
        map_of d' = (map_of d)(tf_filename f \<mapsto> file_text jstr pkgs (tf_Tools f))"
proof -
  have F: "gomap_ok pkgs" "list_all (\<lambda>(k, v). is_ok (ParseModulePath k) \<and> is_ok (ParseVersion v)) pkgs"
    "list_all (\<lambda>t. tool_matches (map_of pkgs) t (te_parsed t)) (tf_Tools f)"
    using assms(2,3) by (auto simp: file_ok_def)
  obtain parsed where V: "file_validate f = (Inr (), f\<lparr>tf_parsedPackages := Some parsed\<rparr>)"
    using file_validate_ok[OF assms(3) F] by blast
  have ok: "file_ok (f\<lparr>tf_parsedPackages := Some parsed\<rparr>)" using file_validate_Inr(1)[OF V assms(3) F(1)] .
  have E: "file_encodeStable jstr f = (Inr (file_text jstr pkgs (tf_Tools f)), f\<lparr>tf_parsedPackages := Some parsed\<rparr>)"
    using V assms(3) by (simp add: file_encodeStable_def)
  obtain w d1 where W: "write_via_temp fault temp (tf_filename f) (file_text jstr pkgs (tf_Tools f)) d = (w, d1)" by force
  have "w = Inr () \<longleftrightarrow> fault = None" using W by (auto simp: write_via_temp_def split: option.splits write_step.splits)
  then show ?thesis
    using assms(1,3) E W write_via_temp_map[OF W assms(4,5)] ok
    by (cases w) (auto simp: toolset_Write_def rename_file_def file_ok_def)
qed

lemma SetPackageVersion_ok:
  assumes "SetPackageVersion f m v = (Inr (), f')" "file_ok f"
  shows "\<exists>pkgs. tf_Packages f = Some pkgs \<and> map_of pkgs m \<noteq> None \<and> is_ok (ParseVersion v) \<and> tf_filename f' = tf_filename f"
proof -
  obtain pkgs where p: "tf_Packages f = Some pkgs" "gomap_ok pkgs" using assms(2) by (auto simp: file_ok_def)
  then have m: "map_of pkgs m \<noteq> None" and V: "file_validate
      (f\<lparr>tf_Packages := Some (AList.update m v pkgs), tf_Tools := map (set_tool_version m v) (tf_Tools f)\<rparr>) = (Inr (), f')"
    using assms(1) by (auto simp: SetPackageVersion_def split: if_splits)
  have "file_ok f'" "tf_Packages f' = Some (AList.update m v pkgs)"
    using file_validate_Inr(1,2)[OF V] p(2) by simp_all
  then have "list_all (\<lambda>(k, v). is_ok (ParseModulePath k) \<and> is_ok (ParseVersion v)) (AList.update m v pkgs)"
    by (auto simp: file_ok_def)
  moreover have "(m, v) \<in> set (AList.update m v pkgs)"
    using map_of_SomeD[of "AList.update m v pkgs" m v] by (simp add: update_conv')
  ultimately have "is_ok (ParseVersion v)" by (auto simp: list_all_iff)
  moreover have "tf_filename f' = tf_filename f"
    using V by (auto simp: file_validate_def Let_def split: sum.splits prod.splits)
  ultimately show ?thesis using p m by blast
qed

section \<open>Well-formed files\<close>

text \<open>The toolset files that the program works with: loaded, then changed and written any number of times.\<close>

inductive toolset_value ::
  "(bytes \<Rightarrow> string + (string, string) gomap \<times> string list) \<Rightarrow> (string \<Rightarrow> bytes) \<Rightarrow> ToolsetFile \<Rightarrow> bool"
  for decode jstr where
  loaded: "Load decode d filename = Inr f \<Longrightarrow> toolset_value decode jstr f"
| changed: "toolset_value decode jstr f \<Longrightarrow> SetPackageVersion f m v = (Inr (), f') \<Longrightarrow> toolset_value decode jstr f'"
| written: "toolset_value decode jstr f \<Longrightarrow> toolset_Write jstr fault temp f filename d = (Inr (), f', d') \<Longrightarrow>
    toolset_value decode jstr f'"

lemma file_ok_names [simp]:
  "file_ok (f\<lparr>tf_filename := a\<rparr>) = file_ok f" "file_ok (f\<lparr>tf_lockFilename := a\<rparr>) = file_ok f"
  "file_ok (f\<lparr>tf_localFilename := a\<rparr>) = file_ok f"
  by (simp_all add: file_ok_def)

lemma Load_file_ok:
  assumes "Load decode d filename = Inr f" "\<forall>b p t. decode b = Inr (p, t) \<longrightarrow> gomap_ok p"
  shows "file_ok f"
proof -
  obtain lk lo b where L: "deriveToolsetLockFilename filename = Inr lk" "deriveToolsetLocalFilename filename = Inr lo"
    "map_of d filename = Some b"
    using assms(1) by (auto simp: Load_def result_bind_Inr split: option.splits)
  obtain pkgs tools where D0: "decode b = Inr (pkgs, tools)" using assms(1) L by (cases "decode b") (auto simp: Load_def)
  obtain f0 where D: "decode b = Inr (pkgs, tools)"
    "file_validate \<lparr>tf_Packages = Some pkgs, tf_Tools = map (\<lambda>t. \<lparr>te_Tool = t, te_parsed = zero_fqn\<rparr>) tools,
       tf_parsedPackages = None, tf_filename = [], tf_lockFilename = [], tf_localFilename = []\<rparr> = (Inr (), f0)"
    "f = f0\<lparr>tf_filename := filename, tf_lockFilename := lk, tf_localFilename := lo\<rparr>"
    using assms(1) L D0 by (auto simp: Load_def Let_def split: sum.splits prod.splits)
  have "gomap_ok pkgs" using assms(2) D(1) by blast
  then have "file_ok f0" using file_validate_Inr(1)[OF D(2)] by simp
  then show ?thesis using D(3) by simp
qed

lemma file_ok_parts:
  assumes "file_ok f"
  obtains pkgs where "tf_Packages f = Some pkgs" "gomap_ok pkgs"
    "list_all (\<lambda>(k, v). is_ok (ParseModulePath k) \<and> is_ok (ParseVersion v)) pkgs"
    "list_all (\<lambda>t. tool_matches (map_of pkgs) t (te_parsed t)) (tf_Tools f)"
  using assms by (auto simp: file_ok_def)

text \<open>
  C33. Toolset files keep their type: whatever was loaded, changed by a version and written, in any order,
  every package key of the file is a module path and its value a version, every tool is the text of its parsed name and
  declared at exactly that version, and the parsed packages are those of the text.
\<close>

theorem toolset_files_typed:
  assumes "toolset_value decode jstr f" "\<forall>b p t. decode b = Inr (p, t) \<longrightarrow> gomap_ok p"
  shows "\<exists>pkgs parsed. tf_Packages f = Some pkgs \<and> tf_parsedPackages f = Some parsed \<and> map_of parsed = map_of pkgs \<and>
    list_all (\<lambda>(k, v). is_ok (ParseModulePath k) \<and> is_ok (ParseVersion v)) pkgs \<and>
    list_all (\<lambda>t. ParseToolFQN (te_Tool t) = Inr (te_parsed t) \<and>
       map_of pkgs (fqn_Module (te_parsed t)) = Some (fqn_Version (te_parsed t))) (tf_Tools f)"
proof -
  have "file_ok f" using assms(1)
  proof (induction rule: toolset_value.induct)
    case (loaded d filename f)
    then show ?case using Load_file_ok assms(2) by blast
  next
    case (changed f m v f')
    then show ?case using SetPackageVersion_ok[OF changed(2,3)] SetPackageVersion_consistent[of f _ m v] by fastforce
  next
    case (written f fault temp filename d f' d')
    obtain pkgs where P: "tf_Packages f = Some pkgs" "gomap_ok pkgs"
      "list_all (\<lambda>(k, v). is_ok (ParseModulePath k) \<and> is_ok (ParseVersion v)) pkgs"
      "list_all (\<lambda>t. tool_matches (map_of pkgs) t (te_parsed t)) (tf_Tools f)" by (rule file_ok_parts[OF written(3)])
    obtain parsed where V: "file_validate f = (Inr (), f\<lparr>tf_parsedPackages := Some parsed\<rparr>)" using file_validate_ok[OF P] by blast
    have "file_ok (f\<lparr>tf_parsedPackages := Some parsed\<rparr>)" using file_validate_Inr(1)[OF V P(1,2)] .
    then show ?case using written(2) V
      by (auto simp: toolset_Write_def file_encodeStable_def rename_file_def split: prod.splits sum.splits)
  qed
  then show ?thesis unfolding file_ok_def tool_matches_def by blast
qed

theorem toolset_files_typed_witness:
  "\<exists>f f'. Load (\<lambda>b. Inr ([(''x.org/y'', ''v1.0.0'')], [''x.org/y@v1.0.0/a.b''])) [(''a.toolset.json'', [])] ''a.toolset.json'' = Inr f \<and>
     SetPackageVersion f ''x.org/y'' ''v2.0.0'' = (Inr (), f') \<and>
     map te_Tool (tf_Tools f') = [''x.org/y@v2.0.0/a.b''] \<and> (\<exists>parsed. tf_parsedPackages f' = Some parsed \<and> map_of parsed ''x.org/y'' = Some ''v2.0.0'')"
proof -
  let ?dec = "\<lambda>b. Inr ([(''x.org/y'', ''v1.0.0'')], [''x.org/y@v1.0.0/a.b''])"
  have C: "(case Load ?dec [(''a.toolset.json'', [])] ''a.toolset.json'' of
      Inr f \<Rightarrow> (case SetPackageVersion f ''x.org/y'' ''v2.0.0'' of
          (Inr _, f') \<Rightarrow> map te_Tool (tf_Tools f') = [''x.org/y@v2.0.0/a.b''] \<and> tf_Packages f' = Some [(''x.org/y'', ''v2.0.0'')] | _ \<Rightarrow> False)
    | _ \<Rightarrow> False)" by code_simp
  obtain f where F1: "Load ?dec [(''a.toolset.json'', [])] ''a.toolset.json'' = Inr f"
    using C by (cases "Load ?dec [(''a.toolset.json'', [])] ''a.toolset.json''") (simp, blast)
  obtain r f' where F2: "SetPackageVersion f ''x.org/y'' ''v2.0.0'' = (r, f')" by force
  have "r = Inr ()" using C unfolding F1 by (cases r) (simp_all add: F2)
  then have F: "Load ?dec [(''a.toolset.json'', [])] ''a.toolset.json'' = Inr f"
    "SetPackageVersion f ''x.org/y'' ''v2.0.0'' = (Inr (), f')"
    "map te_Tool (tf_Tools f') = [''x.org/y@v2.0.0/a.b'']" "tf_Packages f' = Some [(''x.org/y'', ''v2.0.0'')]"
    using C F1 F2 by simp_all
  have v: "toolset_value ?dec quote f'" by (rule toolset_value.changed[OF toolset_value.loaded[OF F(1)] F(2)])
  have "\<forall>b p t. ?dec b = Inr (p, t) \<longrightarrow> gomap_ok p" by (simp add: gomap_ok_def)
  from toolset_files_typed[OF v this] F(4)
  have E: "\<exists>parsed. tf_parsedPackages f' = Some parsed \<and> map_of parsed ''x.org/y'' = Some ''v2.0.0''" by auto
  show ?thesis by (rule exI[of _ f], rule exI[of _ f'], rule conjI[OF F(1) conjI[OF F(2) conjI[OF F(3) E]]])
qed

section \<open>The upgrade\<close>

definition tools_at :: "ModulePath \<Rightarrow> Version \<Rightarrow> ToolEntry list \<Rightarrow> ToolEntry list \<Rightarrow> bool" where
  "tools_at m v ts ts' = list_all2 (\<lambda>t t'. if fqn_Module (te_parsed t) = m
     then te_parsed t' = (te_parsed t)\<lparr>fqn_Version := v\<rparr> \<and> te_Tool t' = ToolFQN_String (te_parsed t') else t' = t) ts ts'"

text \<open>The current version of a declared module and the first of the listed ones.\<close>

definition upgrade_target :: "lister list \<Rightarrow> (string, string) gomap \<Rightarrow> string \<Rightarrow> (string \<times> Version) option" where
  "upgrade_target listers pkgs up =
     (case (map_of pkgs up, ListVersions listers up) of
        (Some current, Inr (latest # _)) \<Rightarrow> Some (current, latest)
      | _ \<Rightarrow> None)"

definition upgrade_line :: "string \<Rightarrow> string \<Rightarrow> Version \<Rightarrow> string" where
  "upgrade_line up current latest =
     (if latest = current then ''upgrade '' @ up @ '': already at '' @ current
      else ''upgraded '' @ up @ '': '' @ current @ '' -> '' @ latest)"

text \<open>The file after an upgrade: one package has another version, its tools carry it, everything else is as before.\<close>

definition upgraded :: "ToolsetFile \<Rightarrow> (string, string) gomap \<Rightarrow> string \<Rightarrow> Version \<Rightarrow> ToolsetFile \<Rightarrow> (string, string) gomap \<Rightarrow> bool" where
  "upgraded ts pkgs up latest ts' pkgs' \<longleftrightarrow>
     file_ok ts' \<and> tf_filename ts' = tf_filename ts \<and> tf_Packages ts' = Some pkgs' \<and>
     map_of pkgs' = (map_of pkgs)(up \<mapsto> latest) \<and> tools_at up latest (tf_Tools ts) (tf_Tools ts')"

lemma toolset_Write_fault_free:
  assumes "file_ok f" "tf_Packages f = Some pkgs"
  shows "is_ok (fst (toolset_Write jstr None temp f filename d))"
proof -
  have F: "gomap_ok pkgs" "list_all (\<lambda>(k, v). is_ok (ParseModulePath k) \<and> is_ok (ParseVersion v)) pkgs"
    "list_all (\<lambda>t. tool_matches (map_of pkgs) t (te_parsed t)) (tf_Tools f)"
    using assms by (auto simp: file_ok_def)
  obtain parsed where "file_validate f = (Inr (), f\<lparr>tf_parsedPackages := Some parsed\<rparr>)"
    using file_validate_ok[OF assms(2) F] by blast
  then show ?thesis by (simp add: toolset_Write_def file_encodeStable_def write_via_temp_def)
qed

lemma upgrade_step_same:
  assumes "TrimSpace up \<noteq> []" "file_ok ts" "tf_Packages ts = Some pkgs" "upgrade_target listers pkgs up = Some (current, current)"
  shows "upgrade_step env listers up ts d = (Inr ts, [Stdout (upgrade_line up current current)], d)"
proof -
  obtain rest where U: "map_of pkgs up = Some current" "ListVersions listers up = Inr (current # rest)"
    using assms(4) by (auto simp: upgrade_target_def split: option.splits sum.splits list.splits)
  have "list_all (\<lambda>(k, v). is_ok (ParseModulePath k) \<and> is_ok (ParseVersion v)) pkgs"
    using assms(2,3) by (auto simp: file_ok_def)
  then have "ParseModulePath up = Inr up" "ParseVersion current = Inr current"
    using map_of_SomeD[OF U(1)] parse_Inr by (auto simp: list_all_iff)
  then show ?thesis using assms(1,3) U by (simp add: upgrade_step_def upgrade_line_def)
qed

lemma upgrade_step_changes:
  assumes "TrimSpace up \<noteq> []" "file_ok ts" "tf_Packages ts = Some pkgs" "map_of d (cl_temp env) = None" "tf_filename ts \<noteq> cl_temp env"
    "upgrade_target listers pkgs up = Some (current, latest)" "latest \<noteq> current" "is_ok (ParseVersion latest)" "cl_fault env = None"
  shows "\<exists>ts' pkgs' d'. upgrade_step env listers up ts d = (Inr ts', [Stdout (upgrade_line up current latest)], d') \<and>
    upgraded ts pkgs up latest ts' pkgs' \<and>
    map_of d' = (map_of d)(tf_filename ts \<mapsto> file_text (fe_jstr (cl_file env)) pkgs' (tf_Tools ts'))"
proof -
  obtain rest where U: "map_of pkgs up = Some current" "ListVersions listers up = Inr (latest # rest)"
    using assms(6) by (auto simp: upgrade_target_def split: option.splits sum.splits list.splits)
  have "list_all (\<lambda>(k, v). is_ok (ParseModulePath k) \<and> is_ok (ParseVersion v)) pkgs"
    using assms(2,3) by (auto simp: file_ok_def)
  then have P: "ParseModulePath up = Inr up" "ParseVersion current = Inr current"
    using map_of_SomeD[OF U(1)] parse_Inr by (auto simp: list_all_iff)
  obtain ts1 where S: "SetPackageVersion ts up latest = (Inr (), ts1)" "file_ok ts1"
    "tf_Packages ts1 = Some (AList.update up latest pkgs)" "tools_at up latest (tf_Tools ts) (tf_Tools ts1)"
    using SetPackageVersion_consistent[OF assms(2,3) _ assms(8), of up] U(1) by (auto simp: tools_at_def)
  have fn: "tf_filename ts1 = tf_filename ts" using SetPackageVersion_ok[OF S(1) assms(2)] by blast
  obtain w ts2 d2 where W: "toolset_Write (fe_jstr (cl_file env)) (cl_fault env) (cl_temp env) ts1 (tf_filename ts1) d = (w, ts2, d2)"
    by (metis prod_cases3)
  have "is_ok (fst (toolset_Write (fe_jstr (cl_file env)) (cl_fault env) (cl_temp env) ts1 (tf_filename ts1) d))"
    unfolding assms(9) by (rule toolset_Write_fault_free[OF S(2,3)])
  then have w: "w = Inr ()" unfolding W by (cases w) simp_all
  have tmp: "tf_filename ts1 \<noteq> cl_temp env" using fn assms(5) by simp
  from toolset_Write_ok[OF W S(2,3) assms(4) tmp] have ok: "file_ok ts2" "tf_Packages ts2 = Some (AList.update up latest pkgs)"
    "tf_Tools ts2 = tf_Tools ts1" "tf_filename ts2 = tf_filename ts1"
    "map_of d2 = (map_of d)(tf_filename ts1 \<mapsto> file_text (fe_jstr (cl_file env)) (AList.update up latest pkgs) (tf_Tools ts1))"
    by (simp_all add: w)
  have "upgrade_step env listers up ts d = (Inr ts2, [Stdout (upgrade_line up current latest)], d2)"
    using assms(1,3,7) P U S(1) W w by (simp add: upgrade_step_def upgrade_line_def)
  then show ?thesis
    using ok S(4) fn by (intro exI[of _ ts2] exI[of _ "AList.update up latest pkgs"] exI[of _ d2]) (simp add: upgraded_def update_conv')
qed

lemma upgrade_step_refused:
  assumes "TrimSpace up \<noteq> []" "file_ok ts" "tf_Packages ts = Some pkgs" "map_of d (cl_temp env) = None" "tf_filename ts \<noteq> cl_temp env"
    "case upgrade_target listers pkgs up of None \<Rightarrow> True
     | Some (current, latest) \<Rightarrow> latest \<noteq> current \<and> (\<not> is_ok (ParseVersion latest) \<or> cl_fault env \<noteq> None)"
  shows "\<exists>e d'. upgrade_step env listers up ts d = (Inl e, [], d') \<and> map_of d' = map_of d"
proof (cases "\<exists>current latest rest ts1. ParseModulePath up = Inr up \<and> map_of pkgs up = Some current \<and>
    ListVersions listers up = Inr (latest # rest) \<and> latest \<noteq> current \<and> ParseVersion current = Inr current \<and>
    SetPackageVersion ts up latest = (Inr (), ts1)")
  case True
  then obtain current latest rest ts1 where U: "ParseModulePath up = Inr up" "map_of pkgs up = Some current"
    "ListVersions listers up = Inr (latest # rest)" "latest \<noteq> current" "ParseVersion current = Inr current"
    "SetPackageVersion ts up latest = (Inr (), ts1)" by blast
  from SetPackageVersion_ok[OF U(6) assms(2)]
  have v: "is_ok (ParseVersion latest)" and fn: "tf_filename ts1 = tf_filename ts" by blast+
  then have fault: "cl_fault env \<noteq> None" using assms(6) U by (simp add: upgrade_target_def)
  from SetPackageVersion_consistent[OF assms(2,3) _ v, of up] U(2,6)
  have S: "file_ok ts1" "tf_Packages ts1 = Some (AList.update up latest pkgs)" by auto
  obtain w ts2 d2 where W: "toolset_Write (fe_jstr (cl_file env)) (cl_fault env) (cl_temp env) ts1 (tf_filename ts1) d = (w, ts2, d2)"
    by (metis prod_cases3)
  have "\<exists>e. w = Inl e" using W fault
    by (auto simp: toolset_Write_def write_via_temp_def split: prod.splits sum.splits option.splits write_step.splits)
  then show ?thesis
    using toolset_Write_ok[OF W S assms(4)] fn assms(1,3,5) U W by (auto simp: upgrade_step_def)
next
  case False
  have "(\<exists>e. upgrade_step env listers up ts d = (Inl e, [], d)) \<or>
      (\<exists>current rest. map_of pkgs up = Some current \<and> ListVersions listers up = Inr (current # rest))"
    using False assms(1,3)
    by (auto simp: upgrade_step_def parse_Inr split: sum.splits option.splits list.splits prod.splits if_splits)
  then show ?thesis using assms(6) by (auto simp: upgrade_target_def)
qed

text \<open>The rest of the command, after the upgrade step.\<close>

definition finish_resolve ::
  "('sig, 'p) cli_env \<Rightarrow> 'sig loaded resolver_env \<Rightarrow> ToolsetFile \<Rightarrow> cli_line list \<Rightarrow> disk \<Rightarrow> ((cli_error + unit) \<times> cli_line list \<times> disk) option" where
  "finish_resolve env resolver ts out d =
     (case file_Resolve (cl_file env) resolver ts d of
        None \<Rightarrow> None
      | Some (Inl e, d') \<Rightarrow> Some (Inl (FileError e), out, d')
      | Some (Inr resolved, d') \<Rightarrow>
          Some (Inr (), out @ [Stdout (''resolved '' @ itoa (int (length (rs_tools resolved))) @ '' tools'')] @
            (if tf_lockFilename ts \<noteq> [] then [Stdout (''lockfile: '' @ tf_lockFilename ts)] else []), d'))"

text \<open>
  C32. \<open>toolbox resolve --upgrade\<close> on a loaded toolset file.  The upgrade happens exactly when the module is declared, a version is
  listed for it and, unless the first listed one is the current one, that version is valid and writing the file does not fail;
  otherwise the command fails, prints nothing and leaves every file as it was.  When it happens, the module has the first
  listed version, its tools carry it, every other package and tool is as before, the toolset file on disk has the text of
  exactly that file and no other file changed (no file at all when the version was already the first); and the command goes on to resolve the
  new file.  When that fails the command fails too, and the upgraded file stays (\<open>upgrade_kept_on_failure\<close>).
\<close>

theorem upgrade_pins_first:
  assumes "parse_flags [''file'', ''f'', ''upgrade''] [(''file'', defaultToolsetFilename)] args = Inr (vals, [])"
    "flag_value vals ''upgrade'' = up" "TrimSpace up \<noteq> []"
    "newResolver env = Inr (resolver, listers)" "Load (cl_decode env) d (file_flag vals) = Inr ts" "tf_Packages ts = Some pkgs"
    "\<forall>b p t. cl_decode env b = Inr (p, t) \<longrightarrow> gomap_ok p"
    "map_of d (cl_temp env) = None" "tf_filename ts \<noteq> cl_temp env"
  shows "(case upgrade_target listers pkgs up of None \<Rightarrow> True
      | Some (current, latest) \<Rightarrow> latest \<noteq> current \<and> (\<not> is_ok (ParseVersion latest) \<or> cl_fault env \<noteq> None)) \<and>
     (\<exists>e d'. runResolve env args d = Some (Inl e, [], d') \<and> map_of d' = map_of d) \<or>
   (\<exists>current latest. upgrade_target listers pkgs up = Some (current, latest) \<and>
      (latest = current \<and> runResolve env args d = finish_resolve env resolver ts [Stdout (upgrade_line up current latest)] d \<or>
       latest \<noteq> current \<and> is_ok (ParseVersion latest) \<and> cl_fault env = None \<and>
       (\<exists>ts' pkgs' d'. upgraded ts pkgs up latest ts' pkgs' \<and>
          map_of d' = (map_of d)(tf_filename ts \<mapsto> file_text (fe_jstr (cl_file env)) pkgs' (tf_Tools ts')) \<and>
          runResolve env args d = finish_resolve env resolver ts' [Stdout (upgrade_line up current latest)] d')))"
proof -
  have ok: "file_ok ts" using Load_file_ok[OF assms(5,7)] .
  have run: "runResolve env args d = (case upgrade_step env listers up ts d of
      (Inl e, out, d1) \<Rightarrow> Some (Inl e, out, d1) | (Inr ts1, out, d1) \<Rightarrow> finish_resolve env resolver ts1 out d1)"
    unfolding runResolve_def finish_resolve_def using assms(1,2,4,5) by simp
  let ?no = "case upgrade_target listers pkgs up of None \<Rightarrow> True
      | Some (current, latest) \<Rightarrow> latest \<noteq> current \<and> (\<not> is_ok (ParseVersion latest) \<or> cl_fault env \<noteq> None)"
  consider ?no
    | current where "upgrade_target listers pkgs up = Some (current, current)"
    | current latest where "upgrade_target listers pkgs up = Some (current, latest)" "latest \<noteq> current"
        "is_ok (ParseVersion latest)" "cl_fault env = None"
  proof (cases "upgrade_target listers pkgs up")
    case (Some x)
    obtain c l where x: "upgrade_target listers pkgs up = Some (c, l)" using Some by (cases x) simp
    show ?thesis
    proof (cases "l \<noteq> c \<and> (\<not> is_ok (ParseVersion l) \<or> cl_fault env \<noteq> None)")
      case True
      then show ?thesis using that(1) x by simp
    next
      case False
      then show ?thesis using that(2)[of c] that(3)[of c l] x by blast
    qed
  qed (use that in simp)
  then show ?thesis
  proof cases
    case 1
    from upgrade_step_refused[OF assms(3) ok assms(6,8,9) this] obtain e d' where
      "upgrade_step env listers up ts d = (Inl e, [], d')" "map_of d' = map_of d" by blast
    then show ?thesis using run 1 by auto
  next
    case (2 current)
    have "upgrade_step env listers up ts d = (Inr ts, [Stdout (upgrade_line up current current)], d)"
      using upgrade_step_same[OF assms(3) ok assms(6) 2] .
    then show ?thesis using run 2 by auto
  next
    case (3 current latest)
    from upgrade_step_changes[OF assms(3) ok assms(6,8,9) 3] obtain ts' pkgs' d' where
      "upgrade_step env listers up ts d = (Inr ts', [Stdout (upgrade_line up current latest)], d')" "upgraded ts pkgs up latest ts' pkgs'"
      "map_of d' = (map_of d)(tf_filename ts \<mapsto> file_text (fe_jstr (cl_file env)) pkgs' (tf_Tools ts'))" by blast
    then show ?thesis using run 3 by auto
  qed
qed

definition demo_list :: lister where
  "demo_list = Some (\<lambda>m. Inr [''v1.1.0'', ''v1.0.0''])"

definition demo_cli :: "(unit, string) cli_env" where
  "demo_cli = \<lparr>cl_file = demo_fe, cl_decode = (\<lambda>b. Inr ([(''x.org/y'', ''v1.0.0'')], [''x.org/y@v1.0.0/a.b''])), cl_temp = ''/w/t'', cl_fault = None,
     cl_cacheDir = ''/c'', cl_userCacheDir = None, cl_githubBaseURL = [], cl_gitURLPrefix = [], cl_githubToken = ''s'',
     cl_http = (\<lambda>h u. Inl ''down''), cl_decodeRelease = (\<lambda>b. None), cl_decodeReleases = (\<lambda>b. None), cl_decodeRef = (\<lambda>b. None),
     cl_git = (\<lambda>h c. Inl ''down''), cl_lsRemote = (\<lambda>c. Inr ''abc refs/tags/v1.1.0''), cl_pack = (\<lambda>h. Inl []), cl_now = ''t'',
     cl_sha = demo_sha, cl_load = (\<lambda>a m. Inr demo_lp), cl_canWrite = (\<lambda>p. True), cl_listen = (\<lambda>r. Inr ())\<rparr>"

lemma demo_file_ok: "file_ok demo_file"
proof -
  have "list_all (\<lambda>(k, v). is_ok (ParseModulePath k) \<and> is_ok (ParseVersion v)) (map_or_nil (tf_Packages demo_file))"
    "list_all (\<lambda>t. ParseToolFQN (te_Tool t) = Inr (te_parsed t)) (tf_Tools demo_file)"
    by code_simp+
  then show ?thesis by (auto simp: file_ok_def demo_file_def gomap_ok_def tool_matches_def)
qed

theorem upgrade_pins_first_witness:
  "\<exists>resolver ts' pkgs' d'. map_of pkgs' ''x.org/y'' = Some ''v1.1.0'' \<and>
     map_of d' ''/w/a.toolset.json'' = Some (file_text quote pkgs' (tf_Tools ts')) \<and>
     runResolve demo_cli [''--file=/w/a.toolset.json'', ''--upgrade'', ''x.org/y''] [(''/w/a.toolset.json'', ''old'')] =
       finish_resolve demo_cli resolver ts' [Stdout ''upgraded x.org/y: v1.0.0 -> v1.1.0''] d'"
proof -
  let ?args = "[''--file=/w/a.toolset.json'', ''--upgrade'', ''x.org/y'']" and ?d = "[(''/w/a.toolset.json'', ''old'')]"
  let ?pkgs = "[(''x.org/y'', ''v1.0.0'')]"
  obtain vals where F: "parse_flags [''file'', ''f'', ''upgrade''] [(''file'', defaultToolsetFilename)] ?args = Inr (vals, [])"
    "flag_value vals ''upgrade'' = ''x.org/y''" "file_flag vals = ''/w/a.toolset.json''"
  proof -
    have "case parse_flags [''file'', ''f'', ''upgrade''] [(''file'', defaultToolsetFilename)] ?args of
        Inr (vals, []) \<Rightarrow> flag_value vals ''upgrade'' = ''x.org/y'' \<and> file_flag vals = ''/w/a.toolset.json'' | _ \<Rightarrow> False" by code_simp
    then show ?thesis using that by (auto split: sum.splits prod.splits list.splits)
  qed
  have C: "case newResolver demo_cli of Inr (_, ls) \<Rightarrow> upgrade_target ls ?pkgs ''x.org/y'' = Some (''v1.0.0'', ''v1.1.0'') | _ \<Rightarrow> False"
    "case Load (cl_decode demo_cli) ?d ''/w/a.toolset.json'' of
       Inr ts \<Rightarrow> tf_Packages ts = Some ?pkgs \<and> tf_filename ts = ''/w/a.toolset.json'' | _ \<Rightarrow> False"
    "TrimSpace ''x.org/y'' \<noteq> []" "is_ok (ParseVersion ''v1.1.0'')"
    by code_simp+
  then obtain resolver ls where R: "newResolver demo_cli = Inr (resolver, ls)" "upgrade_target ls ?pkgs ''x.org/y'' = Some (''v1.0.0'', ''v1.1.0'')"
    by (auto split: sum.splits prod.splits)
  obtain ts where T: "Load (cl_decode demo_cli) ?d (file_flag vals) = Inr ts" "tf_Packages ts = Some ?pkgs" "tf_filename ts = ''/w/a.toolset.json''"
    using C(2) F(3) by (auto split: sum.splits)
  have p: "cl_temp demo_cli = ''/w/t''" "fe_jstr (cl_file demo_cli) = quote" "\<forall>b p t. cl_decode demo_cli b = Inr (p, t) \<longrightarrow> gomap_ok p"
    by (simp_all add: demo_cli_def demo_fe_def gomap_ok_def)
  have q: "map_of ?d (cl_temp demo_cli) = None" "tf_filename ts \<noteq> cl_temp demo_cli" using p T(3) by simp_all
  have f: "cl_fault demo_cli = None" by (simp add: demo_cli_def)
  from upgrade_pins_first[OF F(1,2) C(3) R(1) T(1,2) p(3) q] R(2) C(4) f obtain ts' pkgs' d' where
    U: "upgraded ts ?pkgs ''x.org/y'' ''v1.1.0'' ts' pkgs'"
    "map_of d' = (map_of ?d)(tf_filename ts \<mapsto> file_text (fe_jstr (cl_file demo_cli)) pkgs' (tf_Tools ts'))"
    "runResolve demo_cli ?args ?d = finish_resolve demo_cli resolver ts' [Stdout (upgrade_line ''x.org/y'' ''v1.0.0'' ''v1.1.0'')] d'"
    by auto
  then show ?thesis
    using p T(3)
    by (intro exI[of _ resolver] exI[of _ ts'] exI[of _ pkgs'] exI[of _ d']) (simp add: upgraded_def upgrade_line_def)
qed

section \<open>Where the commands fall short\<close>

text \<open>An upgrade can go back: the current version need not be listed, and the first listed one is taken even
  when it is older.\<close>

lemma upgrade_downgrades:
  "\<exists>ts' d'. upgrade_step demo_cli [Some (\<lambda>m. Inr [''v0.9.0''])] ''x.org/y'' demo_file [] =
     (Inr ts', [Stdout ''upgraded x.org/y: v1.0.0 -> v0.9.0''], d') \<and> compareVersions ''v0.9.0'' ''v1.0.0'' < 0"
proof -
  have "(case upgrade_step demo_cli [Some (\<lambda>m. Inr [''v0.9.0''])] ''x.org/y'' demo_file [] of
      (Inr ts', out, d') \<Rightarrow> out = [Stdout ''upgraded x.org/y: v1.0.0 -> v0.9.0''] | _ \<Rightarrow> False)"
    "compareVersions ''v0.9.0'' ''v1.0.0'' < 0" by code_simp+
  then show ?thesis by (auto split: prod.splits sum.splits)
qed

text \<open>The toolset file is written before the new version is known to resolve: when it does not, the command fails
  and the file keeps the new version.\<close>

lemma upgrade_kept_on_failure:
  "case runResolve demo_cli [''--file=/w/a.toolset.json'', ''--upgrade'', ''x.org/y''] [(''/w/a.toolset.json'', ''old'')] of
     Some (Inl (FileError _), out, d') \<Rightarrow>
       out = [Stdout ''upgraded x.org/y: v1.0.0 -> v1.1.0''] \<and> map_of d' ''/w/a.toolset.json'' \<noteq> Some ''old''
   | _ \<Rightarrow> False"
  by code_simp

text \<open>The token goes to every host: the transport adds it to each request without looking at the URL, so also to the
  target of a redirect, where the client had removed the header on purpose.\<close>

lemma token_to_every_host:
  assumes "TrimSpace token \<noteq> []" "header_first h ''Authorization'' = []"
  shows "newGitHubHTTPClient (\<lambda>h u. Inr \<lparr>hr_Status = 200, hr_Body = header_first h ''Authorization''\<rparr>) token h url =
    Inr \<lparr>hr_Status = 200, hr_Body = ''token '' @ token\<rparr>"
  using assms by (simp add: newGitHubHTTPClient_def auth_RoundTrip_def header_first_def update_conv')

end
