(* ===== verification/Mitmproxy.thy ===== *)
theory Mitmproxy
  imports Go_Strings Machines "HOL-Library.Sublist"
begin

text \<open>
  The intercepting proxy (\<open>transport/mitmproxy/mitmproxy.go\<close>): a certificate per host, made on demand and cached,
  and the loop that forwards requests and shows every exchange to the observer.  Parameters: the
  random source, the clock, the signing of a certificate and \<open>net.ParseIP\<close> (\<open>crypto\<close>), and
  what the two connections answer at each step (\<open>conn\<close>, \<open>exchange\<close>).
\<close>

section \<open>Certificates\<close>

record x509_template =
  xt_Serial :: nat
  xt_CommonName :: string
  xt_NotBefore :: int
  xt_NotAfter :: int
  xt_IPAddresses :: "string list"
  xt_DNSNames :: "string list"

text \<open>A certificate is what was signed, its encoding and its key.\<close>

record 'key tls_cert =
  tc_template :: x509_template
  tc_DER :: bytes
  tc_key :: 'key

record 'key Proxy =
  px_certCache :: "(string, 'key tls_cert) gomap"
  px_Observer :: bool

definition New_proxy :: "bool \<Rightarrow> 'key Proxy" where
  "New_proxy observer = \<lparr>px_certCache = [], px_Observer = observer\<rparr>"

text \<open>\<open>New\<close> decodes the embedded certificate and key of the authority.  Parameters: \<open>pem.Decode\<close>, the two parsers of
  \<open>crypto/x509\<close>, and the embedded files.\<close>

record ('ca, 'cakey) ca_env =
  ca_certPEM :: bytes
  ca_keyPEM :: bytes
  ca_pemDecode :: "bytes \<Rightarrow> bytes option"
  ca_ParseCertificate :: "bytes \<Rightarrow> string + 'ca"
  ca_ParseECPrivateKey :: "bytes \<Rightarrow> string + 'cakey"

definition CACertPEM :: "('ca, 'cakey) ca_env \<Rightarrow> bytes" where
  "CACertPEM ca = ca_certPEM ca"

definition mitm_New :: "('ca, 'cakey) ca_env \<Rightarrow> bool \<Rightarrow> string + ('ca \<times> 'cakey) \<times> 'key Proxy" where
  "mitm_New ca observer =
     (case ca_pemDecode ca (ca_certPEM ca) of
        None \<Rightarrow> Inl ''mitmproxy: failed to decode embedded CA cert PEM''
      | Some certBlock \<Rightarrow>
          result_bind (ca_ParseCertificate ca certBlock) (\<lambda>caCert.
            case ca_pemDecode ca (ca_keyPEM ca) of
              None \<Rightarrow> Inl ''mitmproxy: failed to decode embedded CA key PEM''
            | Some keyBlock \<Rightarrow>
                result_bind (ca_ParseECPrivateKey ca keyBlock) (\<lambda>caKey. Inr ((caCert, caKey), New_proxy observer))))"

text \<open>\<open>ListenAndServe\<close> listens on a free port of the loopback address and serves there; the listener is returned.\<close>

definition ListenAndServe :: "(string \<Rightarrow> string \<Rightarrow> string + 'listener) \<Rightarrow> string + 'listener" where
  "ListenAndServe listen = listen ''tcp'' ''127.0.0.1:0''"

text \<open>\<open>ObserverFunc\<close>: a function as an observer.\<close>

definition ObserverFunc_Observe :: "(string \<Rightarrow> 'q \<Rightarrow> 'h \<Rightarrow> 's \<Rightarrow> 's) \<Rightarrow> string \<Rightarrow> 'q \<Rightarrow> 'h \<Rightarrow> 's \<Rightarrow> 's" where
  "ObserverFunc_Observe f host req resp = f host req resp"

text \<open>The outcomes of the calls of one creation, times in seconds.\<close>

record 'key crypto =
  cy_key :: "string + 'key"
  cy_serial :: "string + nat"
  cy_notBefore :: int
  cy_now :: int
  cy_parseIP :: "string \<Rightarrow> string option"
  cy_create :: "x509_template \<Rightarrow> 'key \<Rightarrow> string + bytes"

definition cert_template :: "'key crypto \<Rightarrow> nat \<Rightarrow> string \<Rightarrow> x509_template" where
  "cert_template cy serial host =
     (let t = \<lparr>xt_Serial = serial, xt_CommonName = host, xt_NotBefore = cy_notBefore cy, xt_NotAfter = cy_now cy + 24 * 3600,
               xt_IPAddresses = [], xt_DNSNames = []\<rparr> in
      case cy_parseIP cy host of
        Some ip \<Rightarrow> t\<lparr>xt_IPAddresses := [ip]\<rparr>
      | None \<Rightarrow> t\<lparr>xt_DNSNames := [host]\<rparr>)"

definition getOrCreateCert :: "'key crypto \<Rightarrow> string \<Rightarrow> 'key Proxy \<Rightarrow> (string + 'key tls_cert) \<times> 'key Proxy" where
  "getOrCreateCert cy host p =
     (case map_of (px_certCache p) host of
        Some cert \<Rightarrow> (Inr cert, p)
      | None \<Rightarrow>
          (case cy_key cy of
             Inl e \<Rightarrow> (Inl e, p)
           | Inr key \<Rightarrow>
               (case cy_serial cy of
                  Inl e \<Rightarrow> (Inl e, p)
                | Inr serial \<Rightarrow>
                    let template = cert_template cy serial host in
                    (case cy_create cy template key of
                       Inl e \<Rightarrow> (Inl e, p)
                     | Inr der \<Rightarrow>
                         let cert = \<lparr>tc_template = template, tc_DER = der, tc_key = key\<rparr> in
                         (Inr cert, p\<lparr>px_certCache := AList.update host cert (px_certCache p)\<rparr>)))))"

section \<open>Hosts\<close>

text \<open>\<open>net.SplitHostPort\<close>, as far as the host.\<close>

definition LastIndexByte :: "char \<Rightarrow> string \<Rightarrow> nat option" where
  "LastIndexByte c s = (if c \<in> set s then Some (length s - 1 - length (takeWhile (\<lambda>x. x \<noteq> c) (rev s))) else None)"

definition SplitHost :: "string \<Rightarrow> string option" where
  "SplitHost hostport =
     (case LastIndexByte (CHR '':'') hostport of
        None \<Rightarrow> None
      | Some i \<Rightarrow>
          if hd hostport = CHR ''['' then
            (let end' = length (takeWhile (\<lambda>x. x \<noteq> CHR '']'') hostport) in
             if end' = length hostport \<or> end' + 1 \<noteq> i then None
             else if CHR ''['' \<in> set (drop 1 hostport) \<or> CHR '']'' \<in> set (drop (end' + 1) hostport) then None
             else Some (drop 1 (take end' hostport)))
          else if CHR '':'' \<in> set (take i hostport) then None
          else if CHR ''['' \<in> set hostport \<or> CHR '']'' \<in> set hostport then None
          else Some (take i hostport))"

definition proxy_host :: "string \<Rightarrow> string" where
  "proxy_host targetHost = (case SplitHost targetHost of Some host \<Rightarrow> host | None \<Rightarrow> targetHost)"

section \<open>Forwarding\<close>

text \<open>One round of the loop: what reading the request, writing it upstream, reading the head of the response, reading its body (the
  bytes that arrive and the error after them, if any) and writing to the client give.\<close>

record ('q, 'h) exchange =
  ex_request :: "string + 'q"
  ex_forward :: "string + unit"
  ex_response :: "string + 'h"
  ex_body :: "bytes \<times> string option"
  ex_answer :: "string + unit"

text \<open>What happens on a connection, in its order: a request is written upstream, the observer is called, a response is written to the
  client; the flags say whether the write succeeded as a whole.\<close>

datatype ('q, 'h) proxy_event =
    Forward 'q bool
  | Observe string 'q 'h bytes
  | Answer 'h bytes bool

type_synonym ('q, 'h) proxy_trace = "('q, 'h) proxy_event list"

text \<open>The loop ends with the first failure; the end of the list is a client that sends no more.  With an observer the body is read
  first; without one it is copied to the client as it arrives, so that its error is one of the answer.\<close>

fun proxy_loop :: "bool \<Rightarrow> string \<Rightarrow> ('q, 'h) exchange list \<Rightarrow> ('q, 'h) proxy_trace" where
  "proxy_loop observer host [] = []"
| "proxy_loop observer host (x # xs) =
     (case ex_request x of
        Inl _ \<Rightarrow> []
      | Inr req \<Rightarrow>
          (case ex_forward x of
             Inl _ \<Rightarrow> [Forward req False]
           | Inr _ \<Rightarrow> Forward req True #
               (case ex_response x of
                  Inl _ \<Rightarrow> []
                | Inr resp \<Rightarrow>
                    (case ex_body x of (bodyBytes, err) \<Rightarrow>
                       if observer \<and> err \<noteq> None then []
                       else (if observer then [Observe host req resp bodyBytes] else []) @
                         (if err \<noteq> None then [Answer resp bodyBytes False]
                          else case ex_answer x of
                            Inl _ \<Rightarrow> [Answer resp bodyBytes False]
                          | Inr _ \<Rightarrow> Answer resp bodyBytes True # proxy_loop observer host xs)))))"

text \<open>A connection: whether it can be taken over and greeted, the handshake with the client, the connection
  to the upstream host, and the rounds.\<close>

record ('q, 'h) conn =
  cn_hijack :: "string + unit"
  cn_greet :: "string + unit"
  cn_handshake :: "string + unit"
  cn_dial :: "string \<Rightarrow> string + unit"
  cn_rounds :: "('q, 'h) exchange list"

definition handleConnect ::
  "'key crypto \<Rightarrow> ('q, 'h) conn \<Rightarrow> string \<Rightarrow> 'key Proxy \<Rightarrow> ('q, 'h) proxy_trace \<times> 'key tls_cert option \<times> 'key Proxy" where
  "handleConnect cy cn targetHost p =
     (let host = proxy_host targetHost in
      case cn_hijack cn of
        Inl _ \<Rightarrow> ([], None, p)
      | Inr _ \<Rightarrow>
          (case cn_greet cn of
             Inl _ \<Rightarrow> ([], None, p)
           | Inr _ \<Rightarrow>
               (case getOrCreateCert cy host p of
                  (Inl _, p') \<Rightarrow> ([], None, p')
                | (Inr cert, p') \<Rightarrow>
                    (case cn_handshake cn of
                       Inl _ \<Rightarrow> ([], Some cert, p')
                     | Inr _ \<Rightarrow>
                         (case cn_dial cn targetHost of
                            Inl _ \<Rightarrow> ([], Some cert, p')
                          | Inr _ \<Rightarrow> (proxy_loop (px_Observer p') host (cn_rounds cn), Some cert, p'))))))"

text \<open>\<open>ServeHTTP\<close>: other methods are refused with a status.\<close>

definition ServeHTTP ::
  "'key crypto \<Rightarrow> ('q, 'h) conn \<Rightarrow> string \<Rightarrow> string \<Rightarrow> 'key Proxy \<Rightarrow> nat option \<times> ('q, 'h) proxy_trace \<times> 'key tls_cert option \<times> 'key Proxy" where
  "ServeHTTP cy cn method targetHost p =
     (if method = ''CONNECT'' then (None, handleConnect cy cn targetHost p)
      else (Some 405, [], None, p))"

section \<open>Certificates name their host\<close>

definition cert_names :: "(string \<Rightarrow> string option) \<Rightarrow> string \<Rightarrow> 'key tls_cert \<Rightarrow> bool" where
  "cert_names parseIP host cert =
     (xt_CommonName (tc_template cert) = host \<and>
      (case parseIP host of
         Some ip \<Rightarrow> xt_IPAddresses (tc_template cert) = [ip] \<and> xt_DNSNames (tc_template cert) = []
       | None \<Rightarrow> xt_IPAddresses (tc_template cert) = [] \<and> xt_DNSNames (tc_template cert) = [host]))"

text \<open>Connections one after the other, each with its own random numbers, clock and peers.\<close>

inductive proxy_step :: "(string \<Rightarrow> string option) \<Rightarrow> 'key Proxy \<Rightarrow> 'key crypto \<times> ('q, 'h) conn \<times> string \<times> string \<Rightarrow> 'key Proxy \<Rightarrow> bool"
  for parseIP where
  "cy_parseIP cy = parseIP \<Longrightarrow> ServeHTTP cy cn method target p = (status, t, cert, p') \<Longrightarrow>
     proxy_step parseIP p (cy, cn, method, target) p'"

inductive_cases proxy_stepE: "proxy_step parseIP p i p'"

definition proxy_inv :: "(string \<Rightarrow> string option) \<Rightarrow> 'key Proxy \<Rightarrow> bool" where
  "proxy_inv parseIP p \<longleftrightarrow> (\<forall>h c. map_of (px_certCache p) h = Some c \<longrightarrow> cert_names parseIP h c)"

lemma template_names [simp]:
  "cert_names (cy_parseIP cy) host \<lparr>tc_template = cert_template cy serial host, tc_DER = der, tc_key = key\<rparr>"
  by (auto simp: cert_names_def cert_template_def Let_def split: option.splits)

lemma getOrCreateCert_inv:
  assumes "getOrCreateCert cy host p = (r, p')" "proxy_inv parseIP p" "cy_parseIP cy = parseIP"
  shows "proxy_inv parseIP p' \<and> (\<forall>c. r = Inr c \<longrightarrow> cert_names parseIP host c \<and> map_of (px_certCache p') host = Some c) \<and>
    map_of (px_certCache p) \<subseteq>\<^sub>m map_of (px_certCache p') \<and> px_Observer p' = px_Observer p"
  using assms
  by (auto simp: getOrCreateCert_def proxy_inv_def Let_def map_le_def split: option.splits sum.splits if_splits)

lemma handleConnect_cert:
  assumes "handleConnect cy cn target p = (t, cert, p')"
  shows "(cert = None \<and> t = [] \<and> (p' = p \<or> (\<exists>e. getOrCreateCert cy (proxy_host target) p = (Inl e, p')))) \<or>
    (\<exists>c. cert = Some c \<and> getOrCreateCert cy (proxy_host target) p = (Inr c, p') \<and>
      t = (if is_ok (cn_handshake cn) \<and> is_ok (cn_dial cn target) then proxy_loop (px_Observer p') (proxy_host target) (cn_rounds cn) else []))"
  using assms by (auto simp: handleConnect_def Let_def split: sum.splits prod.splits)

lemma ServeHTTP_inv:
  assumes "ServeHTTP cy cn method target p = (status, t, cert, p')" "proxy_inv parseIP p" "cy_parseIP cy = parseIP"
  shows "proxy_inv parseIP p' \<and> (\<forall>c. cert = Some c \<longrightarrow> cert_names parseIP (proxy_host target) c \<and>
      map_of (px_certCache p') (proxy_host target) = Some c) \<and>
    map_of (px_certCache p) \<subseteq>\<^sub>m map_of (px_certCache p') \<and> px_Observer p' = px_Observer p"
proof (cases "method = ''CONNECT''")
  case True
  then have "handleConnect cy cn target p = (t, cert, p')" using assms(1) by (simp add: ServeHTTP_def)
  from handleConnect_cert[OF this] show ?thesis
    using getOrCreateCert_inv[OF _ assms(2,3)] assms(2) by auto
qed (use assms in \<open>simp add: ServeHTTP_def map_le_def\<close>)

lemma mitm_New_fresh: "mitm_New ca observer = Inr (keys, p) \<Longrightarrow> p = New_proxy observer"
  by (auto simp: mitm_New_def split: option.splits)

interpretation proxy: invariant "proxy_step parseIP" "\<lambda>p. p = New_proxy observer"
  "\<lambda>p. proxy_inv parseIP p \<and> px_Observer p = observer" for parseIP observer
  by unfold_locales (auto simp: New_proxy_def proxy_inv_def elim!: proxy_stepE dest!: ServeHTTP_inv[unfolded proxy_inv_def])

section \<open>The observer\<close>

text \<open>What may precede an event: a response is answered right after it was observed with the same head and body, which is right after its
  request was forwarded; a request is forwarded first, or after a complete answer.\<close>

definition preceded :: "bool \<Rightarrow> string \<Rightarrow> ('q, 'h) proxy_trace \<Rightarrow> ('q, 'h) proxy_event \<Rightarrow> bool" where
  "preceded observer host before ev \<longleftrightarrow>
     (case ev of
        Forward q ok \<Rightarrow> before = [] \<or> (\<exists>h b. suffix [Answer h b True] before)
      | Observe host' q h b \<Rightarrow> observer \<and> host' = host \<and> suffix [Forward q True] before
      | Answer h b ok \<Rightarrow> (\<exists>q. suffix (if observer then [Forward q True, Observe host q h b] else [Forward q True]) before))"

definition faithful_trace :: "bool \<Rightarrow> string \<Rightarrow> ('q, 'h) proxy_trace \<Rightarrow> bool" where
  "faithful_trace observer host t \<longleftrightarrow> (\<forall>before ev after. t = before @ ev # after \<longrightarrow> preceded observer host before ev)"

lemma faithful_append:
  assumes "faithful_trace observer host t" "\<And>before ev after. u = before @ ev # after \<Longrightarrow> preceded observer host (t @ before) ev"
  shows "faithful_trace observer host (t @ u)"
  unfolding faithful_trace_def
proof (intro allI impI)
  fix before ev after
  assume "t @ u = before @ ev # after"
  then consider us where "t = before @ us" "us @ u = ev # after" | us where "before = t @ us" "u = us @ ev # after"
    by (auto simp: append_eq_append_conv2)
  then show "preceded observer host before ev"
  proof cases
    case 1
    then show ?thesis using assms(1) assms(2)[of "[]" ev after]
      by (cases us) (auto simp: faithful_trace_def)
  qed (use assms(2) in simp)
qed

lemma preceded_extend:
  assumes "preceded observer host bs ev"
  shows "preceded observer host (t @ Answer h b True # bs) ev"
proof -
  have ext: "suffix xs bs \<Longrightarrow> suffix xs (t @ Answer h b True # bs)" for xs by (simp add: suffix_appendI suffix_ConsI)
  show ?thesis
  proof (cases ev)
    case (Forward q ok)
    then consider "bs = []" | h' b' where "suffix [Answer h' b' True] bs" using assms by (auto simp: preceded_def)
    then show ?thesis by cases (auto simp: Forward preceded_def suffix_def dest: ext)
  next
    case (Observe host' q h' b')
    then show ?thesis using assms ext by (simp add: preceded_def)
  next
    case (Answer h' b' ok)
    then obtain q where "suffix (if observer then [Forward q True, Observe host q h' b'] else [Forward q True]) bs"
      using assms by (auto simp: preceded_def)
    from ext[OF this] show ?thesis unfolding Answer preceded_def proxy_event.case by (rule exI)
  qed
qed

lemma faithful_short:
  "faithful_trace observer host []" "faithful_trace observer host [Forward q ok]"
  "faithful_trace True host [Forward q True, Observe host q h b, Answer h b ok]"
  "faithful_trace False host [Forward q True, Answer h b ok]"
  by (auto simp: faithful_trace_def preceded_def suffix_def Cons_eq_append_conv append_eq_Cons_conv)

lemma faithful_round:
  assumes "faithful_trace observer host t"
  shows "observer \<Longrightarrow> faithful_trace observer host (Forward q True # Observe host q h b # Answer h b True # t)"
    "\<not> observer \<Longrightarrow> faithful_trace observer host (Forward q True # Answer h b True # t)"
proof -
  note ext = assms[unfolded faithful_trace_def, rule_format, THEN preceded_extend]
  have "faithful_trace observer host ([Forward q True, Observe host q h b, Answer h b True] @ t)" if observer
    using that faithful_short(3)[of host q h b True] ext[of _ _ _ "[Forward q True, Observe host q h b]" h b]
    by (intro faithful_append) simp_all
  then show "observer \<Longrightarrow> faithful_trace observer host (Forward q True # Observe host q h b # Answer h b True # t)" by simp
  have "faithful_trace observer host ([Forward q True, Answer h b True] @ t)" if "\<not> observer"
    using that faithful_short(4)[of host q h b True] ext[of _ _ _ "[Forward q True]" h b]
    by (intro faithful_append) simp_all
  then show "\<not> observer \<Longrightarrow> faithful_trace observer host (Forward q True # Answer h b True # t)" by simp
qed

lemma proxy_loop_faithful: "faithful_trace observer host (proxy_loop observer host xs)"
proof (induction xs)
  case (Cons x xs)
  note round = faithful_round[OF Cons]
  have two: "faithful_trace True host [Forward q True, Observe host q h b]" for q :: 'a and h :: 'b and b
    by (auto simp: faithful_trace_def preceded_def suffix_def Cons_eq_append_conv append_eq_Cons_conv)
  show ?case
    by (cases observer; cases "ex_request x"; cases "ex_forward x"; cases "ex_response x"; cases "ex_body x"; cases "ex_answer x")
      (use round in \<open>simp_all add: faithful_short two\<close>)
qed (simp add: faithful_short)

text \<open>A round in which nothing fails.\<close>

definition good_round :: "'q \<times> 'h \<times> bytes \<Rightarrow> ('q, 'h) exchange" where
  "good_round = (\<lambda>(q, h, b). \<lparr>ex_request = Inr q, ex_forward = Inr (), ex_response = Inr h, ex_body = (b, None), ex_answer = Inr ()\<rparr>)"

lemma proxy_loop_good:
  "proxy_loop observer host (map good_round rs) =
     concat (map (\<lambda>(q, h, b). Forward q True # (if observer then [Observe host q h b] else []) @ [Answer h b True]) rs)"
  by (induction rs) (auto simp: good_round_def)

text \<open>
  C13. The proxy impersonates only the host that was asked for, and consistently: after any sequence of connections,
  the certificate shown on a connection names exactly the host of its CONNECT request (as its only address or its only DNS name) and
  is kept for that host by every later connection.  With an observer, what is written to the client as a response, even
  incompletely, was shown to the observer immediately before, with the same head and body and for that host, and its request had been
  forwarded immediately before that; a further request is forwarded only after a complete answer.  Without an observer nothing is
  observed.  Rounds in which nothing fails are all forwarded, observed and answered, in their order.
\<close>

theorem proxy_faithful:
  assumes "reach (proxy_step parseIP) (\<lambda>p. p = New_proxy observer) n p" "cy_parseIP cy = parseIP"
    "ServeHTTP cy cn method target p = (status, t, cert, p')"
  shows "(case cert of None \<Rightarrow> t = []
     | Some c \<Rightarrow> cert_names parseIP (proxy_host target) c \<and>
         (\<forall>c0. map_of (px_certCache p) (proxy_host target) = Some c0 \<longrightarrow> c = c0) \<and>
         map_of (px_certCache p') (proxy_host target) = Some c) \<and>
    map_of (px_certCache p) \<subseteq>\<^sub>m map_of (px_certCache p') \<and>
    faithful_trace observer (proxy_host target) t \<and>
    (\<forall>rs. cert \<noteq> None \<and> cn_handshake cn = Inr () \<and> cn_dial cn target = Inr () \<and> cn_rounds cn = map good_round rs \<longrightarrow>
       t = concat (map (\<lambda>(q, h, b). Forward q True # (if observer then [Observe (proxy_host target) q h b] else []) @ [Answer h b True]) rs))"
proof -
  have inv: "proxy_inv parseIP p" "px_Observer p = observer" using proxy.inv_reach[OF assms(1)] by simp_all
  note S = ServeHTTP_inv[OF assms(3) inv(1) assms(2)]
  have t: "t = (if cert \<noteq> None \<and> is_ok (cn_handshake cn) \<and> is_ok (cn_dial cn target)
      then proxy_loop observer (proxy_host target) (cn_rounds cn) else [])"
    using assms(3) handleConnect_cert[of cy cn target p t cert p'] S inv(2) by (auto simp: ServeHTTP_def split: if_splits)
  have cert: "c = c0" if "cert = Some c" "map_of (px_certCache p) (proxy_host target) = Some c0" for c c0
  proof -
    have "map_of (px_certCache p') (proxy_host target) = Some c0" using S that(2) by (metis domI map_le_def)
    then show ?thesis using S that(1) by simp
  qed
  have "faithful_trace observer (proxy_host target) t" using t by (simp add: proxy_loop_faithful faithful_short(1))
  then show ?thesis using S t cert by (auto simp: proxy_loop_good split: option.split)
qed

definition demo_crypto :: "int \<Rightarrow> nat crypto" where
  "demo_crypto now = \<lparr>cy_key = Inr 7, cy_serial = Inr 1, cy_notBefore = now, cy_now = now, cy_parseIP = (\<lambda>h. None),
     cy_create = (\<lambda>t k. Inr (xt_CommonName t))\<rparr>"

definition demo_conn :: "(string, string) conn" where
  "demo_conn = \<lparr>cn_hijack = Inr (), cn_greet = Inr (), cn_handshake = Inr (), cn_dial = (\<lambda>h. Inr ()),
     cn_rounds = map good_round [(''GET /'', ''200'', ''b''), (''GET /2'', ''200'', ''c'')]\<rparr>"

theorem proxy_faithful_witness:
  "\<exists>c p'. ServeHTTP (demo_crypto 0) demo_conn ''CONNECT'' ''x.org:443'' (New_proxy True) =
      (None, [Forward ''GET /'' True, Observe ''x.org'' ''GET /'' ''200'' ''b'', Answer ''200'' ''b'' True,
         Forward ''GET /2'' True, Observe ''x.org'' ''GET /2'' ''200'' ''c'', Answer ''200'' ''c'' True], Some c, p') \<and>
    cert_names (\<lambda>_. None) ''x.org'' c"
proof -
  have "(case ServeHTTP (demo_crypto 0) demo_conn ''CONNECT'' ''x.org:443'' (New_proxy True) of
      (None, t, Some c, p') \<Rightarrow> True | _ \<Rightarrow> False)" and h: "proxy_host ''x.org:443'' = ''x.org''" by code_simp+
  then obtain t c p' where R: "ServeHTTP (demo_crypto 0) demo_conn ''CONNECT'' ''x.org:443'' (New_proxy True) = (None, t, Some c, p')"
    by (auto split: prod.splits option.splits)
  have "cy_parseIP (demo_crypto 0) = (\<lambda>_. None)" by (simp add: demo_crypto_def)
  note F = proxy_faithful[OF reach.reach_start this R, of True]
  have "t = [Forward ''GET /'' True, Observe ''x.org'' ''GET /'' ''200'' ''b'', Answer ''200'' ''b'' True,
         Forward ''GET /2'' True, Observe ''x.org'' ''GET /2'' ''200'' ''c'', Answer ''200'' ''c'' True]"
    using F h conjunct2[OF conjunct2[OF conjunct2[OF F]], rule_format, of "[(''GET /'', ''200'', ''b''), (''GET /2'', ''200'', ''c'')]"]
    by (simp add: demo_conn_def)
  then show ?thesis using F R h by simp
qed

text \<open>A cached certificate is never renewed: a day after it was made, clients get the expired one.\<close>

lemma cached_cert_expires:
  "case getOrCreateCert (demo_crypto 0) ''x.org'' (New_proxy True) of (_, p) \<Rightarrow>
     (case getOrCreateCert (demo_crypto 100000) ''x.org'' p of
        (Inr c, _) \<Rightarrow> xt_NotAfter (tc_template c) < 100000
      | _ \<Rightarrow> False)"
  by (simp add: getOrCreateCert_def demo_crypto_def New_proxy_def cert_template_def Let_def)

end
