(* ===== verification/Vfs_Lifecycle.thy ===== *)
theory Vfs_Lifecycle
  imports Machines
begin

text \<open>
  The life of the VFS server (\<open>Serve\<close> and \<open>Close\<close> of \<open>vfs/server.go\<close>): the accept loop, the goroutine of each
  connection, one call of \<open>Close\<close> and the clients, interleaved at every operation on shared state (the \<open>done\<close>
  flag, the listener and the wait group).  A connection ends only when its client ends it; nothing on the side of the server does.  What a connection does with the file system is the
  subject of \<open>Vfs_Server\<close>.
\<close>

section \<open>State\<close>

text \<open>The accept loop waits in \<open>Accept\<close>, holds a connection it has not yet added to the wait group, or
  has returned nil or an error.\<close>

datatype 'c serve_state = Accepting | Holding 'c | ServeNil | ServeError

datatype close_state = NotCalled | DoneSet | ListenerClosed | CloseReturned

text \<open>The phases of \<open>Close\<close> in their order.\<close>

primrec close_rank :: "close_state \<Rightarrow> nat" where
  "close_rank NotCalled = 0"
| "close_rank DoneSet = 1"
| "close_rank ListenerClosed = 2"
| "close_rank CloseReturned = 3"

lemma close_rank_inject: "close_rank a = close_rank b \<longleftrightarrow> a = b"
  by (cases a; cases b) simp_all

instantiation close_state :: linorder
begin

definition less_eq_close_state :: "close_state \<Rightarrow> close_state \<Rightarrow> bool" where
  "a \<le> b \<longleftrightarrow> close_rank a \<le> close_rank b"

definition less_close_state :: "close_state \<Rightarrow> close_state \<Rightarrow> bool" where
  "a < b \<longleftrightarrow> close_rank a < close_rank b"

instance
  by standard (auto simp: less_eq_close_state_def less_close_state_def close_rank_inject)

end

text \<open>\<open>lc_running\<close> are the connections counted in the wait group, \<open>lc_ended\<close> those that their client has ended.  Every connection has
  a name of its own.\<close>

record 'c lifecycle =
  lc_done :: bool
  lc_listening :: bool
  lc_serve :: "'c serve_state"
  lc_running :: "'c list"
  lc_ended :: "'c list"
  lc_close :: close_state

definition lc_start :: "'c lifecycle" where
  "lc_start = \<lparr>lc_done = False, lc_listening = True, lc_serve = Accepting, lc_running = [], lc_ended = [], lc_close = NotCalled\<rparr>"

datatype 'c lc_event =
    Accept 'c
  | AcceptFails
  | Spawn
  | ConnEnds 'c
  | ClientEnds 'c
  | StoreDone
  | CloseListener
  | WaitReturns

section \<open>Steps\<close>

text \<open>\<open>Serve\<close>: a connection from an open listener; a failing \<open>Accept\<close> (always on a closed listener), after which
  the flag decides what is returned; \<open>wg.Add(1)\<close> and the start of the goroutine.\<close>

definition serve_step :: "'c lc_event \<Rightarrow> 'c lifecycle \<Rightarrow> 'c lifecycle option" where
  "serve_step e s =
     (case (e, lc_serve s) of
        (Accept c, Accepting) \<Rightarrow> if lc_listening s then Some (s\<lparr>lc_serve := Holding c\<rparr>) else None
      | (AcceptFails, Accepting) \<Rightarrow> Some (s\<lparr>lc_serve := (if lc_done s then ServeNil else ServeError)\<rparr>)
      | (Spawn, Holding c) \<Rightarrow> Some (s\<lparr>lc_serve := Accepting, lc_running := lc_running s @ [c]\<rparr>)
      | _ \<Rightarrow> None)"

text \<open>The end of \<open>handleConn\<close> and \<open>wg.Done\<close>.  The loop waits for the next frame and returns only on a failing read or a failing
  answer: after the client has hung up, has sent what is not a frame, or has stopped taking answers.\<close>

definition conn_step :: "'c lc_event \<Rightarrow> 'c lifecycle \<Rightarrow> 'c lifecycle option" where
  "conn_step e s =
     (case e of
        ConnEnds c \<Rightarrow>
          if c \<in> set (lc_running s) \<and> c \<in> set (lc_ended s) then Some (s\<lparr>lc_running := remove1 c (lc_running s)\<rparr>) else None
      | _ \<Rightarrow> None)"

text \<open>A client ends its connection (the step of the environment), at any time.\<close>

definition client_step :: "'c lc_event \<Rightarrow> 'c lifecycle \<Rightarrow> 'c lifecycle option" where
  "client_step e s = (case e of ClientEnds c \<Rightarrow> Some (s\<lparr>lc_ended := c # lc_ended s\<rparr>) | _ \<Rightarrow> None)"

text \<open>\<open>Close\<close>: the flag, the listener, and \<open>wg.Wait\<close>, which returns when no goroutine is counted.\<close>

definition close_step :: "'c lc_event \<Rightarrow> 'c lifecycle \<Rightarrow> 'c lifecycle option" where
  "close_step e s =
     (case (e, lc_close s) of
        (StoreDone, NotCalled) \<Rightarrow> Some (s\<lparr>lc_done := True, lc_close := DoneSet\<rparr>)
      | (CloseListener, DoneSet) \<Rightarrow> Some (s\<lparr>lc_listening := False, lc_close := ListenerClosed\<rparr>)
      | (WaitReturns, ListenerClosed) \<Rightarrow> if lc_running s = [] then Some (s\<lparr>lc_close := CloseReturned\<rparr>) else None
      | _ \<Rightarrow> None)"

inductive lc_step :: "'c lifecycle \<Rightarrow> 'c lc_event \<Rightarrow> 'c lifecycle \<Rightarrow> bool" where
  serve: "serve_step e s = Some s' \<Longrightarrow> lc_step s e s'"
| conn: "conn_step e s = Some s' \<Longrightarrow> lc_step s e s'"
| close: "close_step e s = Some s' \<Longrightarrow> lc_step s e s'"
| client: "client_step e s = Some s' \<Longrightarrow> lc_step s e s'"

inductive_cases lc_stepE: "lc_step s e s'"

lemmas step_defs = serve_step_def conn_step_def close_step_def client_step_def

text \<open>The steps of the server, and the steps of a client.\<close>

definition server_event :: "'c lc_event \<Rightarrow> bool" where
  "server_event e = (case e of ClientEnds _ \<Rightarrow> False | _ \<Rightarrow> True)"

lemma client_step_iff: "client_step e s = Some s' \<longleftrightarrow> (\<exists>c. e = ClientEnds c \<and> s' = s\<lparr>lc_ended := c # lc_ended s\<rparr>)"
  by (auto simp: client_step_def split: lc_event.splits)

section \<open>Invariant\<close>

definition holds :: "'c lifecycle \<Rightarrow> bool" where
  "holds s = (case lc_serve s of Holding _ \<Rightarrow> True | _ \<Rightarrow> False)"

definition lc_inv :: "'c lifecycle \<Rightarrow> bool" where
  "lc_inv s \<longleftrightarrow>
     (lc_done s \<longleftrightarrow> DoneSet \<le> lc_close s) \<and>
     (lc_listening s \<longleftrightarrow> lc_close s < ListenerClosed) \<and>
     (lc_serve s = ServeNil \<longrightarrow> lc_done s) \<and>
     (lc_close s = CloseReturned \<longrightarrow> length (lc_running s) + (if holds s then 1 else 0) \<le> 1)"

lemma close_order [simp]:
  "DoneSet \<le> c \<longleftrightarrow> c \<noteq> NotCalled" "c < ListenerClosed \<longleftrightarrow> c = NotCalled \<or> c = DoneSet"
  by (cases c; simp add: less_eq_close_state_def less_close_state_def)+

interpretation life: invariant lc_step "\<lambda>s. s = lc_start" lc_inv
proof
  show "lc_inv s" if "s = lc_start" for s using that by (simp add: lc_inv_def lc_start_def)
  show "lc_inv s'" if "lc_inv s" "lc_step s e s'" for s e s'
    using that(2,1)
  proof cases
    case serve
    then show ?thesis using that(1)
      by (cases "lc_serve s"; cases e) (auto simp: serve_step_def lc_inv_def holds_def split: if_splits)
  next
    case conn
    then show ?thesis using that(1)
      by (auto simp: conn_step_def lc_inv_def holds_def length_remove1 split: lc_event.splits if_splits)
  next
    case close
    then show ?thesis using that(1)
      by (auto simp: close_step_def lc_inv_def holds_def split: lc_event.splits close_state.splits if_splits serve_state.splits)
  next
    case client
    then show ?thesis using that(1) by (auto simp: client_step_iff lc_inv_def holds_def)
  qed
qed

text \<open>\<open>Close\<close> only moves forward.\<close>

lemma close_forward: "lc_step s e s' \<Longrightarrow> lc_close s \<le> lc_close s'"
proof (erule lc_stepE)
  show "serve_step e s = Some s' \<Longrightarrow> ?thesis"
    by (cases "lc_serve s"; cases e) (auto simp: serve_step_def split: if_splits)
  show "conn_step e s = Some s' \<Longrightarrow> ?thesis" by (cases e) (auto simp: conn_step_def split: if_splits)
  show "close_step e s = Some s' \<Longrightarrow> ?thesis"
    by (cases "lc_close s"; cases e) (auto simp: close_step_def less_eq_close_state_def split: if_splits)
  show "client_step e s = Some s' \<Longrightarrow> ?thesis" by (auto simp: client_step_iff)
qed

section \<open>After the listener is closed\<close>

text \<open>Every step of the server brings the end nearer: a bound on the number of its steps left.\<close>

definition lc_left :: "'c lifecycle \<Rightarrow> nat" where
  "lc_left s = length (lc_running s) + (case lc_serve s of Accepting \<Rightarrow> 1 | Holding _ \<Rightarrow> 3 | _ \<Rightarrow> 0) +
     (if lc_close s = ListenerClosed then 1 else 0)"

definition closing :: "'c lifecycle \<Rightarrow> bool" where
  "closing s \<longleftrightarrow> lc_inv s \<and> \<not> lc_listening s"

lemma closing_step: "closing s \<Longrightarrow> lc_step s e s' \<Longrightarrow> closing s' \<and> lc_left s' + (if server_event e then 1 else 0) \<le> lc_left s"
proof -
  assume c: "closing s" and st: "lc_step s e s'"
  have "lc_inv s'" using life.inv_step c st by (auto simp: closing_def)
  moreover have "\<not> lc_listening s' \<and> lc_left s' + (if server_event e then 1 else 0) \<le> lc_left s"
    using st
  proof cases
    case serve
    then show ?thesis using c
      by (auto simp: serve_step_def closing_def lc_left_def split: lc_event.splits serve_state.splits if_splits)
  next
    case conn
    then show ?thesis using c length_pos_if_in_set
      by (fastforce simp: conn_step_def closing_def lc_left_def length_remove1 split: lc_event.splits if_splits)
  next
    case close
    then show ?thesis using c
      by (auto simp: close_step_def closing_def lc_left_def lc_inv_def split: lc_event.splits close_state.splits if_splits)
  next
    case client
    then show ?thesis using c by (auto simp: client_step_iff closing_def lc_left_def server_event_def)
  qed
  ultimately show ?thesis by (simp add: closing_def)
qed

text \<open>A run from a state, with the number of steps the server takes in it.\<close>

inductive lc_run :: "'c lifecycle \<Rightarrow> nat \<Rightarrow> 'c lifecycle \<Rightarrow> bool" where
  run_start: "lc_run s 0 s"
| run_step: "lc_run s n s' \<Longrightarrow> lc_step s' e s'' \<Longrightarrow> lc_run s (if server_event e then Suc n else n) s''"

lemma closing_run: "lc_run s n s' \<Longrightarrow> closing s \<Longrightarrow> closing s' \<and> n + lc_left s' \<le> lc_left s"
proof (induction rule: lc_run.induct)
  case (run_step s n s' e s'')
  then show ?case using closing_step[of s' e s''] by (fastforce split: if_splits)
qed simp

text \<open>The server can do nothing more.\<close>

definition lc_rest :: "'c lifecycle \<Rightarrow> bool" where
  "lc_rest s \<longleftrightarrow> (\<nexists>e s'. server_event e \<and> lc_step s e s')"

lemma rest_final:
  assumes "closing s" "lc_rest s"
  shows "set (lc_running s) \<inter> set (lc_ended s) = {} \<and> (lc_running s = [] \<longrightarrow> lc_close s = CloseReturned) \<and>
    (lc_serve s = ServeNil \<or> lc_serve s = ServeError)"
proof -
  have no: "server_event e \<Longrightarrow> serve_step e s = None" "server_event e \<Longrightarrow> conn_step e s = None"
    "server_event e \<Longrightarrow> close_step e s = None" for e
    using assms(2) lc_step.intros unfolding lc_rest_def by (metis option.exhaust)+
  have "c \<notin> set (lc_ended s)" if "c \<in> set (lc_running s)" for c
    using that no(2)[of "ConnEnds c"] by (auto simp: conn_step_def server_event_def split: if_splits)
  moreover have "lc_close s = CloseReturned" if "lc_running s = []"
    using that no(3)[of WaitReturns] assms(1)
    by (cases "lc_close s") (auto simp: close_step_def closing_def lc_inv_def server_event_def)
  moreover have "lc_serve s = ServeNil \<or> lc_serve s = ServeError"
    using no(1)[of AcceptFails] no(1)[of Spawn] by (cases "lc_serve s") (simp_all add: serve_step_def server_event_def)
  ultimately show ?thesis by blast
qed

lemma lc_step_error: "lc_step s e s' \<Longrightarrow> lc_done s \<Longrightarrow> lc_serve s' = ServeError \<longleftrightarrow> lc_serve s = ServeError"
proof (erule lc_stepE)
  show "serve_step e s = Some s' \<Longrightarrow> lc_done s \<Longrightarrow> ?thesis"
    by (auto simp: serve_step_def split: lc_event.splits serve_state.splits if_splits)
  show "conn_step e s = Some s' \<Longrightarrow> ?thesis" by (auto simp: conn_step_def split: lc_event.splits if_splits)
  show "close_step e s = Some s' \<Longrightarrow> ?thesis" by (auto simp: close_step_def split: lc_event.splits close_state.splits if_splits)
  show "client_step e s = Some s' \<Longrightarrow> ?thesis" by (auto simp: client_step_iff)
qed

text \<open>
  C9. Shutting down: in every reachable state in which the listener has been closed, whatever the accept loop, the connections,
  \<open>Close\<close> and the clients do from there on, the server takes at most one step for each running connection and four more,
  accepts no new connection, and has at most one connection running when \<open>Close\<close> has returned.  When it can do nothing more, \<open>Serve\<close>
  has returned (nil unless it had failed before), every connection still running is one that its client has not ended, and \<open>Close\<close>
  has returned unless there is such a connection; in particular, when the clients have ended all running connections, none is left and
  both have returned.
\<close>

theorem shutdown_completes:
  assumes "reach lc_step (\<lambda>s. s = lc_start) k s" "\<not> lc_listening s" "lc_run s n s'"
  shows "n \<le> length (lc_running s) + 4 \<and> \<not> lc_listening s' \<and>
    (lc_close s' = CloseReturned \<longrightarrow> length (lc_running s') \<le> 1) \<and>
    (lc_rest s' \<longrightarrow>
       lc_serve s' = (if lc_serve s = ServeError then ServeError else ServeNil) \<and>
       (\<forall>c\<in>set (lc_running s'). c \<notin> set (lc_ended s')) \<and>
       (lc_close s' = CloseReturned \<or> lc_running s' \<noteq> []) \<and>
       (set (lc_running s') \<subseteq> set (lc_ended s') \<longrightarrow> lc_running s' = [] \<and> lc_close s' = CloseReturned))"
proof -
  have c: "closing s" using life.inv_reach[OF assms(1)] assms(2) by (simp add: closing_def)
  note run = closing_run[OF assms(3) c]
  have "lc_left s \<le> length (lc_running s) + 4" by (auto simp: lc_left_def split: serve_state.split)
  moreover have err: "lc_serve s' = ServeError \<longleftrightarrow> lc_serve s = ServeError"
    using assms(3) c
  proof (induction rule: lc_run.induct)
    case (run_step s n s' e s'')
    have "lc_done s'" using closing_run[OF run_step(1,4)] by (auto simp: closing_def lc_inv_def)
    with lc_step_error[OF run_step(2)] show ?case using run_step by simp
  qed simp
  moreover have "lc_close s' = CloseReturned \<longrightarrow> length (lc_running s') \<le> 1"
    using run unfolding closing_def lc_inv_def by (metis add_leD1)
  moreover have "set (lc_running s') \<subseteq> set (lc_ended s') \<Longrightarrow> lc_rest s' \<Longrightarrow> lc_running s' = []"
    using run rest_final[of s'] by (metis inf.absorb1 set_empty2)
  ultimately show ?thesis using run rest_final[of s'] by (auto simp: closing_def)
qed

text \<open>Executing a sequence of events.\<close>

definition lc_exec :: "'c lc_event \<Rightarrow> 'c lifecycle \<Rightarrow> 'c lifecycle option" where
  "lc_exec e s =
     (case serve_step e s of
        Some s' \<Rightarrow> Some s'
      | None \<Rightarrow> (case conn_step e s of Some s' \<Rightarrow> Some s' | None \<Rightarrow>
          (case close_step e s of Some s' \<Rightarrow> Some s' | None \<Rightarrow> client_step e s)))"

fun lc_trace :: "'c lc_event list \<Rightarrow> 'c lifecycle \<Rightarrow> 'c lifecycle option" where
  "lc_trace [] s = Some s"
| "lc_trace (e # es) s = (case lc_exec e s of None \<Rightarrow> None | Some s' \<Rightarrow> lc_trace es s')"

lemma lc_exec_step: "lc_exec e s = Some s' \<Longrightarrow> lc_step s e s'"
  by (auto simp: lc_exec_def split: option.splits intro: lc_step.intros)

lemma lc_trace_run: "lc_trace es s = Some s' \<Longrightarrow> lc_run s0 n s \<Longrightarrow> lc_run s0 (n + length (filter server_event es)) s'"
proof (induction es s arbitrary: n rule: lc_trace.induct)
  case (2 e es s)
  then obtain s1 where "lc_exec e s = Some s1" "lc_trace es s1 = Some s'" by (auto split: option.splits)
  then show ?case using 2(1)[of s1 "if server_event e then Suc n else n"] run_step[OF 2(3) lc_exec_step[of e s s1]] by (simp split: if_splits)
qed simp

lemma lc_trace_reach:
  "lc_trace es s = Some s' \<Longrightarrow> reach lc_step start n s \<Longrightarrow> reach lc_step start (n + length es) s'"
proof (induction es s arbitrary: n rule: lc_trace.induct)
  case (2 e es s)
  then obtain s1 where "lc_exec e s = Some s1" "lc_trace es s1 = Some s'" by (auto split: option.splits)
  then show ?case using 2(1)[of s1 "Suc n"] reach_step[OF 2(3) lc_exec_step] by simp
qed simp

theorem shutdown_completes_witness:
  "\<exists>s s'. reach lc_step (\<lambda>s. s = lc_start) 4 s \<and> lc_running s = [1 :: nat] \<and> lc_run s 3 s' \<and>
     lc_close s' = CloseReturned \<and> lc_serve s' = ServeNil \<and> lc_running s' = []"
proof -
  let ?s = "\<lparr>lc_done = True, lc_listening = False, lc_serve = Accepting, lc_running = [1 :: nat], lc_ended = [], lc_close = ListenerClosed\<rparr>"
  let ?t = "\<lparr>lc_done = True, lc_listening = False, lc_serve = ServeNil, lc_running = [] :: nat list, lc_ended = [1], lc_close = CloseReturned\<rparr>"
  have T: "lc_trace [Accept 1, Spawn, StoreDone, CloseListener] lc_start = Some ?s"
    "lc_trace [AcceptFails, ClientEnds 1, ConnEnds 1, WaitReturns] ?s = Some ?t" by code_simp+
  have s: "reach lc_step (\<lambda>s. s = lc_start) 4 ?s" using lc_trace_reach[OF T(1), of "\<lambda>s. s = lc_start" 0] by (simp add: reach_start numeral_eq_Suc)
  have t: "lc_run ?s 3 ?t" using lc_trace_run[OF T(2), of ?s 0] by (simp add: run_start numeral_eq_Suc server_event_def)
  have "lc_rest ?t"
    unfolding lc_rest_def by (auto simp: step_defs server_event_def elim!: lc_stepE split: lc_event.splits)
  then have "lc_running ?t = [] \<and> lc_close ?t = CloseReturned \<and> lc_serve ?t = ServeNil"
    using shutdown_completes[OF s _ t] by simp
  then show ?thesis using s t by (intro exI[of _ ?s] exI[of _ ?t]) simp
qed

text \<open>The race: a connection that was accepted before the listener was closed but counted only after \<open>wg.Wait\<close> had
  returned is served after \<open>Close\<close>; and \<open>Close\<close> does not return while a client keeps its connection open,
  although no request is in flight.\<close>

lemma connection_outlives_close:
  "\<exists>s. reach lc_step (\<lambda>s. s = lc_start) 5 s \<and> lc_close s = CloseReturned \<and> lc_running s = [1 :: nat]"
proof -
  have "lc_trace [Accept 1, StoreDone, CloseListener, WaitReturns, Spawn] lc_start =
      Some \<lparr>lc_done = True, lc_listening = False, lc_serve = Accepting, lc_running = [1 :: nat], lc_ended = [], lc_close = CloseReturned\<rparr>"
    by code_simp
  from lc_trace_reach[OF this, of "\<lambda>s. s = lc_start" 0]
  have "reach lc_step (\<lambda>s. s = lc_start) 5
      \<lparr>lc_done = True, lc_listening = False, lc_serve = Accepting, lc_running = [1 :: nat], lc_ended = [], lc_close = CloseReturned\<rparr>"
    by (simp add: reach_start numeral_eq_Suc)
  then show ?thesis by (intro exI conjI) (assumption, simp_all)
qed

lemma close_waits_for_clients:
  assumes "lc_step s e s'" "c \<in> set (lc_running s)" "c \<notin> set (lc_ended s)" "e \<noteq> ClientEnds c"
  shows "c \<in> set (lc_running s') \<and> c \<notin> set (lc_ended s') \<and> (lc_close s \<noteq> CloseReturned \<longrightarrow> lc_close s' \<noteq> CloseReturned)"
  using assms(1)
proof cases
  case serve
  then show ?thesis using assms by (cases "lc_serve s"; cases e) (auto simp: serve_step_def split: if_splits)
next
  case conn
  then show ?thesis using assms by (auto simp: conn_step_def split: lc_event.splits if_splits) (metis in_set_remove1)
next
  case close
  then show ?thesis using assms by (auto simp: close_step_def split: lc_event.splits close_state.splits if_splits)
next
  case client
  then show ?thesis using assms by (auto simp: client_step_iff)
qed

end
