(* ===== verification/Codemode_Mcp.thy ===== *)
theory Codemode_Mcp
  imports Invoke Builder Cmd
begin

text \<open>
  The code mode MCP server (\<open>codemodemcp/server.go\<close>), whose two handlers are stubs that answer with what they
  received, and the packing command (\<open>cmd/toolbox-pack/main.go\<close>).  \<open>marshal\<close> is the JSON encoder;
  \<open>RequireString\<close> of the MCP library gives a string argument or an error.
\<close>

section \<open>The server\<close>

definition ToolDiscoveryExecute :: string where "ToolDiscoveryExecute = ''tool_discovery_execute''"
definition ToolActionExecute :: string where "ToolActionExecute = ''tool_action_execute''"

text \<open>A published tool: its name and its required string parameters.\<close>

type_synonym published = "string \<times> string list"

definition newDiscoveryTool :: published where "newDiscoveryTool = (ToolDiscoveryExecute, [''code''])"
definition newActionTool :: published where "newActionTool = (ToolActionExecute, [''toolboxID'', ''code''])"

datatype code_mcp_error = MissingArgument string | MarshalError string

definition RequireString :: "params \<Rightarrow> string \<Rightarrow> code_mcp_error + string" where
  "RequireString args key = (case map_of args key of Some (AStr s) \<Rightarrow> Inr s | _ \<Rightarrow> Inl (MissingArgument key))"

definition toToolResult :: "(go_any \<Rightarrow> string + string) \<Rightarrow> go_any \<Rightarrow> code_mcp_error + string" where
  "toToolResult marshal v =
     (case v of
        AStr s \<Rightarrow> Inr s
      | _ \<Rightarrow> map_sum MarshalError id (marshal v))"

definition handleDiscoveryExecute :: "(go_any \<Rightarrow> string + string) \<Rightarrow> params \<Rightarrow> code_mcp_error + string" where
  "handleDiscoveryExecute marshal args =
     result_bind (RequireString args ''code'') (\<lambda>code.
       toToolResult marshal (AMap [(''mode'', AStr ''discovery''), (''toolboxID'', AStr ''tbx_stub''), (''receivedCode'', AStr code)]))"

definition handleActionExecute :: "(go_any \<Rightarrow> string + string) \<Rightarrow> params \<Rightarrow> code_mcp_error + string" where
  "handleActionExecute marshal args =
     result_bind (RequireString args ''toolboxID'') (\<lambda>toolboxID.
     result_bind (RequireString args ''code'') (\<lambda>code.
       toToolResult marshal (AMap [(''mode'', AStr ''action''), (''toolboxID'', AStr toolboxID), (''receivedCode'', AStr code)])))"

definition New_codemode :: "(go_any \<Rightarrow> string + string) \<Rightarrow> (published \<times> (params \<Rightarrow> code_mcp_error + string)) list" where
  "New_codemode marshal =
     [(newDiscoveryTool, handleDiscoveryExecute marshal), (newActionTool, handleActionExecute marshal)]"

text \<open>Each tool of the server answers every call that has the parameters it publishes as required, and no other.\<close>

lemma is_ok_bind: "is_ok (result_bind r f) \<longleftrightarrow> (\<exists>x. r = Inr x \<and> is_ok (f x))"
  by (cases r) simp_all

lemma is_ok_RequireString: "is_ok (RequireString args p) \<longleftrightarrow> (\<exists>s. map_of args p = Some (AStr s))"
  by (auto simp: RequireString_def split: option.splits go_any.splits)

lemma New_codemode_required:
  assumes "(t, handle) \<in> set (New_codemode marshal)" "\<forall>v. is_ok (marshal v)"
  shows "is_ok (handle args) \<longleftrightarrow> (\<forall>p\<in>set (snd t). \<exists>s. map_of args p = Some (AStr s))"
proof -
  have T: "is_ok (toToolResult marshal (AMap m))" for m
    using assms(2)[rule_format, of "AMap m"] by (cases "marshal (AMap m)") (simp_all add: toToolResult_def)
  have "t = newDiscoveryTool \<and> handle = handleDiscoveryExecute marshal \<or> t = newActionTool \<and> handle = handleActionExecute marshal"
    using assms(1) by (auto simp: New_codemode_def)
  then show ?thesis unfolding is_ok_RequireString[symmetric]
    by (elim disjE) (simp_all add: newDiscoveryTool_def newActionTool_def handleDiscoveryExecute_def handleActionExecute_def is_ok_bind T, auto simp: is_ok_iff)
qed

section \<open>The packing command\<close>

text \<open>The exit status, the lines printed and the disk; flag errors end the program with status 2, a request for help with 0.\<close>

definition pack_main ::
  "'sig builder_env \<Rightarrow> (string \<Rightarrow> bool) \<Rightarrow> string list \<Rightarrow> disk \<Rightarrow> (nat \<times> cli_line list \<times> disk) option" where
  "pack_main env can_write args d =
     (case parse_flags [''out''] [(''out'', ''.'')] args of
        Inl ErrHelp \<Rightarrow> Some (0, [FlagUsage ErrHelp], d)
      | Inl e \<Rightarrow> Some (2, [FlagUsage e], d)
      | Inr (vals, []) \<Rightarrow> Some (1, [Stderr ''usage: toolbox-pack [-out DIR] <package-dir>''], d)
      | Inr (vals, srcDir # _) \<Rightarrow>
          (case pkg_Pack env can_write srcDir (flag_value vals ''out'') d of
             None \<Rightarrow> None
           | Some (Inl e, d') \<Rightarrow> Some (1, [Stderr ''error''], d')
           | Some (Inr result, d') \<Rightarrow>
               Some (0, [Stdout (''archive:  '' @ pr_ArchivePath result), Stdout (''manifest: '' @ pr_ManifestPath result)], d')))"

text \<open>The command reports success exactly when a package was packed into the chosen directory.\<close>

lemma pack_main_ok:
  assumes "pack_main env can_write args d = Some (0, out, d')" "out \<noteq> [FlagUsage ErrHelp]"
  shows "\<exists>vals srcDir rest result. parse_flags [''out''] [(''out'', ''.'')] args = Inr (vals, srcDir # rest) \<and>
    pkg_Pack env can_write srcDir (flag_value vals ''out'') d = Some (Inr result, d')"
  using assms by (auto simp: pack_main_def split: sum.splits flag_error.splits prod.splits list.splits option.splits)

end
