(* ===== verification/Archive_Files.thy ===== *)
theory Archive_Files
  imports Archive_Props MemFs
begin

text \<open>
  The open files and directories of an archive (\<open>packaging/internal/archive/archive.go\<close>), what they tell
  about themselves, and the headers of the archives that are written.  A handle keeps a position;
  the arithmetic on it is that of a 64-bit \<open>int\<close>, and a slice out of range panics.
\<close>

section \<open>File information\<close>

record memFileInfo =
  fi_name :: string
  fi_size :: int
  fi_isDir :: bool

text \<open>\<open>fs.ModeDir\<close> is bit 31.\<close>

definition ModeDir :: int where "ModeDir = 2147483648"

definition fi_Mode :: "memFileInfo \<Rightarrow> int" where
  "fi_Mode fi = (if fi_isDir fi then ModeDir + 493 else 420)"

record memDirEntry =
  de_name :: string
  de_size :: int
  de_isDir :: bool

definition de_Type :: "memDirEntry \<Rightarrow> int" where
  "de_Type de = (if de_isDir de then ModeDir else 0)"

definition de_Info :: "memDirEntry \<Rightarrow> memFileInfo" where
  "de_Info de = \<lparr>fi_name = de_name de, fi_size = de_size de, fi_isDir = de_isDir de\<rparr>"

definition mem_entry :: "string \<times> bool \<times> int \<Rightarrow> memDirEntry" where
  "mem_entry = (\<lambda>(name, isDir, sz). \<lparr>de_name = name, de_size = sz, de_isDir = isDir\<rparr>)"

section \<open>Open files\<close>

record memFile =
  mf_name :: string
  mf_data :: bytes
  mf_pos :: nat

record memDir =
  md_name :: string
  md_entries :: "memDirEntry list"
  md_offset :: int

datatype mem_handle = MemFile memFile | MemDir memDir

definition archive_handle :: "archiveMemFS \<Rightarrow> string \<Rightarrow> mem_handle option" where
  "archive_handle a name0 =
     (let name = cleanName name0 in
      if name \<in> set (am_dirs a)
      then Some (MemDir \<lparr>md_name = name, md_entries = map mem_entry (dirEntries a name), md_offset = 0\<rparr>)
      else case map_of (am_files a) name of
          None \<Rightarrow> None
        | Some data \<Rightarrow> Some (MemFile \<lparr>mf_name = path_Base name, mf_data = data, mf_pos = 0\<rparr>))"

definition memFile_Stat :: "memFile \<Rightarrow> memFileInfo" where
  "memFile_Stat f = \<lparr>fi_name = mf_name f, fi_size = int (length (mf_data f)), fi_isDir = False\<rparr>"

definition memDir_Stat :: "memDir \<Rightarrow> memFileInfo" where
  "memDir_Stat d = \<lparr>fi_name = path_Base (md_name d), fi_size = 0, fi_isDir = True\<rparr>"

text \<open>\<open>bytes.Reader.Read\<close> into a buffer of a given length: the bytes, and whether the end was met.\<close>

definition memFile_Read :: "nat \<Rightarrow> memFile \<Rightarrow> (bytes \<times> bool) \<times> memFile" where
  "memFile_Read buf f =
     (if mf_pos f \<ge> length (mf_data f) then (([], True), f)
      else let b = take buf (drop (mf_pos f) (mf_data f)) in
        ((b, False), f\<lparr>mf_pos := mf_pos f + length b\<rparr>))"

text \<open>The slice \<open>xs[i:j]\<close>.\<close>

definition go_slice :: "'a list \<Rightarrow> int \<Rightarrow> int \<Rightarrow> 'a list outcome" where
  "go_slice xs i j =
     (if 0 \<le> i \<and> i \<le> j \<and> j \<le> int (length xs) then Done (take (nat (j - i)) (drop (nat i) xs)) else Panic)"

definition memDir_ReadDir :: "int \<Rightarrow> memDir \<Rightarrow> ((memDirEntry list \<times> bool) \<times> memDir) outcome" where
  "memDir_ReadDir n d =
     (let len = int (length (md_entries d)) in
      if n \<le> 0 then
        (case go_slice (md_entries d) (md_offset d) len of
           Panic \<Rightarrow> Panic
         | Done entries \<Rightarrow> Done ((entries, False), d\<lparr>md_offset := len\<rparr>))
      else if md_offset d \<ge> len then Done (([], True), d)
      else
        let end0 = wrap64 (md_offset d + n);
            end' = (if end0 > len then len else end0) in
        (case go_slice (md_entries d) (md_offset d) end' of
           Panic \<Rightarrow> Panic
         | Done entries \<Rightarrow> Done ((entries, end' \<ge> len), d\<lparr>md_offset := end'\<rparr>)))"

section \<open>Tar headers\<close>

record tar_header =
  th_Name :: string
  th_Mode :: int
  th_Size :: int
  th_isDir :: bool
  th_ModTime :: int
  th_AccessTime :: int
  th_ChangeTime :: int
  th_Uid :: int
  th_Gid :: int
  th_Uname :: string
  th_Gname :: string

definition normalizeTarHeader :: "tar_header \<Rightarrow> tar_header" where
  "normalizeTarHeader h =
     h\<lparr>th_ModTime := 0, th_AccessTime := 0, th_ChangeTime := 0, th_Uid := 0, th_Gid := 0, th_Uname := [], th_Gname := []\<rparr>"

text \<open>The header of \<open>addBytesToTar\<close>.  The zero time is what a fresh header has.\<close>

definition addBytesToTar :: "int \<Rightarrow> string \<Rightarrow> bytes \<Rightarrow> tar_header \<times> bytes" where
  "addBytesToTar zeroTime name data =
     (normalizeTarHeader
        \<lparr>th_Name = name, th_Mode = 420, th_Size = int (length data), th_isDir = False, th_ModTime = zeroTime, th_AccessTime = zeroTime,
         th_ChangeTime = zeroTime, th_Uid = 0, th_Gid = 0, th_Uname = [], th_Gname = []\<rparr>, data)"

text \<open>The header of \<open>addFSToTar\<close> for one node: \<open>tar.FileInfoHeader\<close> takes times, owner and permissions from the file
  (\<open>info\<close>); the name is then set to the path.  The nodes are files and directories: the base file system has no symbolic
  links.\<close>

definition fs_tar_header :: "(string \<Rightarrow> tar_header) \<Rightarrow> string \<times> fs_node \<Rightarrow> tar_header \<times> bytes" where
  "fs_tar_header info = (\<lambda>(p, n). (normalizeTarHeader ((info p)\<lparr>th_Name := p\<rparr>), case n of FileNode b \<Rightarrow> b | DirNode \<Rightarrow> []))"

definition pack_records ::
  "(string \<Rightarrow> tar_header) \<Rightarrow> int \<Rightarrow> (string \<times> fs_node) list \<Rightarrow> bytes \<Rightarrow> (tar_header \<times> bytes) list" where
  "pack_records info zeroTime nodes manifestJSON =
     map (fs_tar_header info) nodes @ [addBytesToTar zeroTime PkgManifestFilename manifestJSON]"

section \<open>Listings\<close>

definition child_path :: "string \<Rightarrow> string \<Rightarrow> string" where
  "child_path dir name = (if dir = ''.'' then name else dir @ ''/'' @ name)"

text \<open>What the listing of a directory has to hold for a name: a file with its size, or else a directory other than itself.\<close>

definition lists_child :: "archiveMemFS \<Rightarrow> string \<Rightarrow> memDirEntry \<Rightarrow> bool" where
  "lists_child a dir e =
     (slash \<notin> set (de_name e) \<and>
      (case map_of (am_files a) (child_path dir (de_name e)) of
         Some b \<Rightarrow> \<not> de_isDir e \<and> de_size e = int (length b)
       | None \<Rightarrow> child_path dir (de_name e) \<in> set (am_dirs a) \<and> child_path dir (de_name e) \<noteq> dir \<and> de_isDir e \<and> de_size e = 0))"

lemma entry_rest_iff: "entry_rest dir name = Some rest \<longleftrightarrow> name = child_path dir rest \<and> slash \<notin> set rest"
proof -
  let ?p = "if dir = ''.'' then [] else dir @ ''/''"
  have "child_path dir rest = ?p @ rest" by (simp add: child_path_def)
  then show ?thesis
    unfolding entry_rest_def Let_def by (auto simp: Contains_char HasPrefix_iff simp del: append.append_Nil append_assoc)
qed

lemma child_path_inj [simp]: "child_path dir x = child_path dir y \<longleftrightarrow> x = y"
  by (simp add: child_path_def)

definition others :: "string \<Rightarrow> (string \<times> bool \<times> int) list \<Rightarrow> (string \<times> bool \<times> int) list" where
  "others dir items = filter (\<lambda>(name, isDir, sz). \<not> (isDir \<and> name = dir)) items"

lemma entries_loop_exact:
  "distinct (map fst (entries_loop dir items seen)) \<and>
   (\<forall>x y. (x, y) \<in> set (entries_loop dir items seen) \<longleftrightarrow>
     x \<notin> set seen \<and> slash \<notin> set x \<and> map_of (others dir items) (child_path dir x) = Some y)"
proof (induction items arbitrary: seen)
  case (Cons item items)
  obtain name isDir sz where item: "item = (name, isDir, sz)" by (cases item)
  show ?case
  proof (cases "isDir \<and> name = dir")
    case True
    then show ?thesis using Cons[of seen] by (simp add: item others_def)
  next
    case False
    show ?thesis
    proof (cases "entry_rest dir name")
      case None
      then have "\<not> (name = child_path dir x \<and> slash \<notin> set x)" for x using entry_rest_iff[of dir name x] by simp
      then show ?thesis using Cons[of seen] False None by (auto simp: item others_def)
    next
      case (Some rest)
      then have rest: "name = child_path dir rest" "slash \<notin> set rest" by (auto simp: entry_rest_iff)
      show ?thesis
        using Cons[of seen] Cons[of "rest # seen"] False Some rest
        by (cases "rest \<in> set seen") (auto simp: item others_def)
    qed
  qed
qed (simp add: others_def)

lemma map_of_others:
  "map_of (others dir (map (\<lambda>(n, b). (n, False, int (length b))) files @ map (\<lambda>n. (n, True, 0)) dirs)) x =
     (case map_of files x of
        Some b \<Rightarrow> Some (False, int (length b))
      | None \<Rightarrow> if x \<in> set dirs \<and> x \<noteq> dir then Some (True, 0) else None)"
proof -
  have F: "map_of (filter (\<lambda>(name, isDir, sz). \<not> (isDir \<and> name = dir)) (map (\<lambda>(n, b). (n, False, int (length b))) files)) x =
      map_option (\<lambda>b. (False, int (length b))) (map_of files x)"
    by (induction files) auto
  have D: "map_of (filter (\<lambda>(name, isDir, sz). \<not> (isDir \<and> name = dir)) (map (\<lambda>n. (n, True, 0)) dirs)) x =
      (if x \<in> set dirs \<and> x \<noteq> dir then Some (True, 0 :: int) else None)"
    by (induction dirs) auto
  show ?thesis unfolding others_def filter_append map_of_append map_add_def F D by (auto split: option.splits)
qed

lemma dirEntries_exact:
  "distinct (map de_name (map mem_entry (dirEntries a dir)))"
  "e \<in> set (map mem_entry (dirEntries a dir)) \<longleftrightarrow> lists_child a dir e"
proof -
  let ?es = "dirEntries a dir"
  have L: "distinct (map fst ?es)"
    "\<And>x y. (x, y) \<in> set ?es \<longleftrightarrow> slash \<notin> set x \<and>
      (case map_of (am_files a) (child_path dir x) of
         Some b \<Rightarrow> y = (False, int (length b))
       | None \<Rightarrow> child_path dir x \<in> set (am_dirs a) \<and> child_path dir x \<noteq> dir \<and> y = (True, 0))"
    unfolding dirEntries_def using entries_loop_exact[of dir _ "[]"] by (auto simp: map_of_others split: option.splits if_splits)
  have "map de_name (map mem_entry ?es) = map fst ?es" by (auto simp: mem_entry_def)
  then show "distinct (map de_name (map mem_entry ?es))" using L(1) by argo
  have "e \<in> set (map mem_entry ?es) \<longleftrightarrow> (de_name e, de_isDir e, de_size e) \<in> set ?es"
    by (cases e) (force simp: mem_entry_def)
  then show "e \<in> set (map mem_entry ?es) \<longleftrightarrow> lists_child a dir e"
    unfolding L(2) lists_child_def by (auto split: option.splits)
qed

section \<open>Reading in pieces\<close>

fun read_dir_calls :: "int list \<Rightarrow> memDir \<Rightarrow> ((memDirEntry list \<times> bool) list \<times> memDir) outcome" where
  "read_dir_calls [] d = Done ([], d)"
| "read_dir_calls (n # ns) d =
     (case memDir_ReadDir n d of
        Panic \<Rightarrow> Panic
      | Done (r, d') \<Rightarrow>
          (case read_dir_calls ns d' of Panic \<Rightarrow> Panic | Done (rs, d'') \<Rightarrow> Done (r # rs, d'')))"

fun read_calls :: "nat list \<Rightarrow> memFile \<Rightarrow> (bytes \<times> bool) list \<times> memFile" where
  "read_calls [] f = ([], f)"
| "read_calls (n # ns) f =
     (case memFile_Read n f of (r, f') \<Rightarrow> (case read_calls ns f' of (rs, f'') \<Rightarrow> (r # rs, f'')))"

lemma wrap64_small: "- (2 ^ 63) \<le> x \<Longrightarrow> x < 2 ^ 63 \<Longrightarrow> wrap64 x = x"
  by (simp add: wrap64_def)

text \<open>What the calls of \<open>ReadDir\<close> have to give, on the entries that are left: a positive count the next entries, with the end when it
  reaches the last one; any other count all that is left, without the end; after that nothing.  The sum of the position and the
  count must not exceed the range of an \<open>int\<close> while entries are left.\<close>

definition piece :: "'a list \<Rightarrow> int list \<Rightarrow> nat \<Rightarrow> 'a list" where
  "piece es ns k =
     (if \<exists>j<k. ns ! j \<le> 0 then []
      else let rest = drop (nat (sum_list (take k ns))) es in
        if ns ! k \<le> 0 then rest else take (nat (ns ! k)) rest)"

definition at_end :: "'a list \<Rightarrow> int list \<Rightarrow> nat \<Rightarrow> bool" where
  "at_end es ns k \<longleftrightarrow> 0 < ns ! k \<and> ((\<exists>j<k. ns ! j \<le> 0) \<or> int (length es) \<le> sum_list (take (Suc k) ns))"

definition overflows :: "int \<Rightarrow> 'a list \<Rightarrow> int list \<Rightarrow> bool" where
  "overflows off es ns \<longleftrightarrow>
     (\<exists>k<length ns. (\<forall>j<k. 0 < ns ! j) \<and> sum_list (take k ns) < int (length es) \<and> 2 ^ 63 \<le> off + sum_list (take k ns) + ns ! k)"

lemma prefix_sum_nonneg: "\<forall>j<k. 0 < ns ! j \<Longrightarrow> 0 \<le> sum_list (take k (ns :: int list))"
proof (rule sum_list_nonneg)
  fix x assume "\<forall>j<k. 0 < ns ! j" "x \<in> set (take k ns)"
  then show "0 \<le> x" by (auto simp: in_set_conv_nth)
qed

lemma ex_less_Suc_Cons: "(\<exists>j<Suc k. P ((n # ns) ! j)) \<longleftrightarrow> P n \<or> (\<exists>j<k. P (ns ! j))"
  by (auto simp: less_Suc_eq_0_disj)

lemma all_less_Suc_Cons: "(\<forall>j<Suc k. P ((n # ns) ! j)) \<longleftrightarrow> P n \<and> (\<forall>j<k. P (ns ! j))"
  by (auto simp: less_Suc_eq_0_disj)

lemma piece_Cons:
  "piece es (n # ns) 0 = (if n \<le> 0 then es else take (nat n) es)"
  "n \<le> 0 \<Longrightarrow> piece es (n # ns) (Suc k) = piece [] ns k"
  "0 < n \<Longrightarrow> piece es (n # ns) (Suc k) = piece (drop (nat n) es) ns k"
proof -
  show "n \<le> 0 \<Longrightarrow> piece es (n # ns) (Suc k) = piece [] ns k"
    using ex_less_Suc_Cons[of k "\<lambda>x. x \<le> 0" n ns] by (simp add: piece_def)
  show "piece es (n # ns) (Suc k) = piece (drop (nat n) es) ns k" if "0 < n"
  proof (cases "\<exists>j<k. ns ! j \<le> 0")
    case False
    then have "0 \<le> sum_list (take k ns)" by (intro prefix_sum_nonneg) auto
    then have "nat (sum_list (take (Suc k) (n # ns))) = nat (sum_list (take k ns)) + nat n" using that by (simp add: nat_add_distrib)
    then show ?thesis
      using that False ex_less_Suc_Cons[of k "\<lambda>x. x \<le> 0" n ns] by (auto simp: piece_def drop_drop[symmetric] Let_def simp del: take_Suc_Cons drop_drop)
  qed (use ex_less_Suc_Cons[of k "\<lambda>x. x \<le> 0" n ns] in \<open>simp add: piece_def\<close>)
qed (simp add: piece_def)

lemma at_end_Cons:
  "at_end es (n # ns) 0 \<longleftrightarrow> 0 < n \<and> int (length es) \<le> n"
  "n \<le> 0 \<Longrightarrow> k < length ns \<Longrightarrow> at_end es (n # ns) (Suc k) = at_end [] ns k"
  "0 < n \<Longrightarrow> k < length ns \<Longrightarrow> at_end es (n # ns) (Suc k) = at_end (drop (nat n) es) ns k"
proof -
  have nn: "0 \<le> sum_list (take (Suc k) ns)" if "0 < ns ! k" "\<not> (\<exists>j<k. ns ! j \<le> 0)"
    using that by (intro prefix_sum_nonneg) (auto simp: less_Suc_eq)
  note ex = ex_less_Suc_Cons[of k "\<lambda>x. x \<le> 0" n ns]
  show "n \<le> 0 \<Longrightarrow> k < length ns \<Longrightarrow> at_end es (n # ns) (Suc k) = at_end [] ns k"
    using nn ex unfolding at_end_def by auto
  show "at_end es (n # ns) (Suc k) = at_end (drop (nat n) es) ns k" if "0 < n"
  proof (cases "0 < ns ! k \<and> \<not> (\<exists>j<k. ns ! j \<le> 0)")
    case True
    have "take (Suc (Suc k)) (n # ns) = n # take (Suc k) ns" by simp
    then have "int (length es) \<le> sum_list (take (Suc (Suc k)) (n # ns)) \<longleftrightarrow> int (length (drop (nat n) es)) \<le> sum_list (take (Suc k) ns)"
      using that nn True by (simp del: take_Suc_Cons) linarith
    then show ?thesis using that True ex unfolding at_end_def by auto
  qed (use that ex in \<open>auto simp: at_end_def\<close>)
qed (simp add: at_end_def)

lemma overflows_Nil: "\<not> overflows off [] ns"
proof
  assume "overflows off [] ns"
  then obtain k where "\<forall>j<k. 0 < ns ! j" "sum_list (take k ns) < 0" by (auto simp: overflows_def)
  then show False using prefix_sum_nonneg[of k ns] by simp
qed

lemma overflows_Cons:
  "overflows off es (n # ns) \<longleftrightarrow>
     es \<noteq> [] \<and> 2 ^ 63 \<le> off + n \<or> 0 < n \<and> overflows (off + n) (drop (nat n) es) ns"
proof -
  have len: "int (length (drop (nat n) es)) = max 0 (int (length es) - n)" if "0 < n" using that by (auto simp: max_def)
  have "(\<forall>j<k. 0 < ns ! j) \<and> n + sum_list (take k ns) < int (length es) \<and> 2 ^ 63 \<le> off + (n + sum_list (take k ns)) + ns ! k \<longleftrightarrow>
      (\<forall>j<k. 0 < ns ! j) \<and> sum_list (take k ns) < int (length (drop (nat n) es)) \<and> 2 ^ 63 \<le> off + n + sum_list (take k ns) + ns ! k"
    if "0 < n" for k
    using prefix_sum_nonneg[of k ns] that unfolding len[OF that] by (auto simp: max_def)
  then show ?thesis
    unfolding overflows_def by (auto simp: Ex_less_Suc2 all_less_Suc_Cons)
qed

lemma memDir_ReadDir_step:
  assumes "0 \<le> md_offset d" "md_offset d \<le> int (length (md_entries d))" "int (length (md_entries d)) < 2 ^ 63" "n < 2 ^ 63"
  defines "rest \<equiv> drop (nat (md_offset d)) (md_entries d)"
  shows "memDir_ReadDir n d =
    (if n \<le> 0 then Done ((rest, False), d\<lparr>md_offset := int (length (md_entries d))\<rparr>)
     else if rest \<noteq> [] \<and> 2 ^ 63 \<le> md_offset d + n then Panic
     else Done ((take (nat n) rest, int (length rest) \<le> n), d\<lparr>md_offset := min (int (length (md_entries d))) (md_offset d + n)\<rparr>))"
proof -
  let ?len = "int (length (md_entries d))"
  have rest: "int (length rest) = ?len - md_offset d" "rest = [] \<longleftrightarrow> md_offset d = ?len"
    using assms(1,2) by (auto simp: rest_def)
  consider "n \<le> 0" | "0 < n" "md_offset d = ?len" | "0 < n" "md_offset d < ?len" "2 ^ 63 \<le> md_offset d + n"
    | "0 < n" "md_offset d < ?len" "md_offset d + n < 2 ^ 63" using assms(2) by linarith
  then show ?thesis
  proof cases
    case 1
    then show ?thesis using assms(1,2) by (simp add: memDir_ReadDir_def go_slice_def rest_def nat_diff_distrib)
  next
    case 2
    then show ?thesis using rest by (simp add: memDir_ReadDir_def)
  next
    case 3
    have "(md_offset d + n + 2 ^ 63) mod 2 ^ 64 = md_offset d + n - 2 ^ 63"
      using 3 assms(3,4) by (subst mod_pos_geq) (auto intro!: mod_pos_pos_trivial)
    then have "wrap64 (md_offset d + n) < 0" using 3 assms(3,4) by (simp add: wrap64_def)
    then show ?thesis using 3 rest assms(1) by (simp add: memDir_ReadDir_def go_slice_def Let_def)
  next
    case 4
    then have w: "wrap64 (md_offset d + n) = md_offset d + n" using assms(1) by (intro wrap64_small) auto
    have "nat (md_offset d + n) - nat (md_offset d) = nat n" using 4 assms(1) by simp
    then show ?thesis
      using 4 assms(1) rest by (auto simp: memDir_ReadDir_def w go_slice_def rest_def nat_diff_distrib min_def Let_def)
  qed
qed

lemma upt_pieces: "map f [0..<length (n # ns)] = f 0 # map (\<lambda>k. f (Suc k)) [0..<length ns]"
  by (simp add: upt_conv_Cons map_Suc_upt[symmetric] del: upt_Suc)

lemma read_dir_calls_exact:
  assumes "0 \<le> md_offset d" "md_offset d \<le> int (length (md_entries d))" "int (length (md_entries d)) < 2 ^ 63" "\<forall>n\<in>set ns. n < 2 ^ 63"
  defines "rest \<equiv> drop (nat (md_offset d)) (md_entries d)"
  shows "if overflows (md_offset d) rest ns then read_dir_calls ns d = Panic
    else \<exists>d'. read_dir_calls ns d = Done (map (\<lambda>k. (piece rest ns k, at_end rest ns k)) [0..<length ns], d')"
  using assms(1-4) unfolding rest_def
proof (induction ns arbitrary: d)
  case Nil
  then show ?case by (simp add: overflows_def)
next
  case (Cons n ns)
  let ?len = "int (length (md_entries d))" and ?rest = "drop (nat (md_offset d)) (md_entries d)"
  note step = memDir_ReadDir_step[OF Cons.prems(1-3), of n]
  show ?case
  proof (cases "n \<le> 0")
    case True
    let ?d = "d\<lparr>md_offset := ?len\<rparr>"
    have no: "\<not> overflows (md_offset d) ?rest (n # ns)"
      using True Cons.prems(2,3) overflows_Cons[of "md_offset d" ?rest n ns] by auto
    have pr: "0 \<le> md_offset ?d" "md_offset ?d \<le> int (length (md_entries ?d))" "int (length (md_entries ?d)) < 2 ^ 63" "\<forall>n\<in>set ns. n < 2 ^ 63"
      using Cons.prems by auto
    have dn: "drop (nat (md_offset ?d)) (md_entries ?d) = []" by simp
    obtain d' where "read_dir_calls ns ?d = Done (map (\<lambda>k. (piece [] ns k, at_end ([] :: memDirEntry list) ns k)) [0..<length ns], d')"
      using Cons.IH[OF pr, unfolded dn] unfolding if_not_P[OF overflows_Nil] by blast
    moreover have "map (\<lambda>k. (piece ?rest (n # ns) k, at_end ?rest (n # ns) k)) [0..<length (n # ns)] =
        (?rest, False) # map (\<lambda>k. (piece [] ns k, at_end ([] :: memDirEntry list) ns k)) [0..<length ns]"
      unfolding upt_pieces using True by (auto simp: piece_Cons at_end_Cons)
    ultimately show ?thesis using True no step by (simp del: upt_Suc)
  next
    case False
    then have n: "0 < n" "n < 2 ^ 63" using Cons.prems(4) by auto
    show ?thesis
    proof (cases "?rest \<noteq> [] \<and> 2 ^ 63 \<le> md_offset d + n")
      case True
      then show ?thesis using step n overflows_Cons[of "md_offset d" ?rest n ns] by auto
    next
      case no: False
      let ?d = "d\<lparr>md_offset := min ?len (md_offset d + n)\<rparr>"
      have pr: "0 \<le> md_offset ?d" "md_offset ?d \<le> int (length (md_entries ?d))" "int (length (md_entries ?d)) < 2 ^ 63" "\<forall>n\<in>set ns. n < 2 ^ 63"
        using Cons.prems n by auto
      have drop: "drop (nat (md_offset ?d)) (md_entries ?d) = drop (nat n) ?rest"
        using n Cons.prems(1,2) by (auto simp: min_def nat_add_distrib add.commute)
      have "overflows (md_offset ?d) (drop (nat n) ?rest) ns = overflows (md_offset d + n) (drop (nat n) ?rest) ns"
        using n Cons.prems(1,2) overflows_Nil by (cases "md_offset d + n \<le> ?len") (auto simp: min_def)
      then have ov: "overflows (md_offset d) ?rest (n # ns) = overflows (md_offset ?d) (drop (nat n) ?rest) ns"
        using overflows_Cons[of "md_offset d" ?rest n ns] n no by auto
      have "map (\<lambda>k. (piece ?rest (n # ns) k, at_end ?rest (n # ns) k)) [0..<length (n # ns)] =
        (take (nat n) ?rest, int (length ?rest) \<le> n) # map (\<lambda>k. (piece (drop (nat n) ?rest) ns k, at_end (drop (nat n) ?rest) ns k)) [0..<length ns]"
        unfolding upt_pieces using n by (auto simp: piece_Cons at_end_Cons)
      moreover have "memDir_ReadDir n d = Done ((take (nat n) ?rest, int (length ?rest) \<le> n), ?d)" using step n no by auto
      moreover have "if overflows (md_offset ?d) (drop (nat n) ?rest) ns then read_dir_calls ns ?d = Panic
        else \<exists>d'. read_dir_calls ns ?d = Done (map (\<lambda>k. (piece (drop (nat n) ?rest) ns k, at_end (drop (nat n) ?rest) ns k)) [0..<length ns], d')"
        by (rule Cons.IH[OF pr, unfolded drop])
      ultimately show ?thesis unfolding ov by (auto simp del: upt_Suc split: if_splits)
    qed
  qed
qed

lemma read_calls_exact:
  assumes "mf_pos f \<le> length (mf_data f)"
  shows "concat (map fst (fst (read_calls ns f))) = take (sum_list ns) (drop (mf_pos f) (mf_data f)) \<and>
    map snd (fst (read_calls ns f)) = map (\<lambda>k. length (mf_data f) \<le> mf_pos f + sum_list (take k ns)) [0..<length ns]"
  using assms
proof (induction ns arbitrary: f)
  case (Cons n ns)
  let ?b = "take n (drop (mf_pos f) (mf_data f))"
  let ?f = "f\<lparr>mf_pos := mf_pos f + length ?b\<rparr>"
  have step: "memFile_Read n f = ((?b, length (mf_data f) \<le> mf_pos f), ?f)"
    using Cons.prems by (cases f) (simp add: memFile_Read_def Let_def)
  have IH: "concat (map fst (fst (read_calls ns ?f))) = take (sum_list ns) (drop (mf_pos ?f) (mf_data f))"
    "map snd (fst (read_calls ns ?f)) = map (\<lambda>k. length (mf_data f) \<le> mf_pos ?f + sum_list (take k ns)) [0..<length ns]"
    using Cons.IH[of ?f] Cons.prems by auto
  have "?b @ take (sum_list ns) (drop (mf_pos ?f) (mf_data f)) = take (n + sum_list ns) (drop (mf_pos f) (mf_data f))"
    by (simp add: take_add min_def add.commute)
  moreover have "map snd (fst (read_calls ns ?f)) =
      map (\<lambda>k. length (mf_data f) \<le> mf_pos f + n + sum_list (take k ns)) [0..<length ns]"
    unfolding IH(2) by (intro map_cong) (auto simp: min_def)
  ultimately show ?case
    using IH(1) step by (simp add: upt_conv_Cons map_Suc_upt[symmetric] add.assoc case_prod_beta del: upt_Suc)
qed simp

section \<open>Properties\<close>

text \<open>
  C36. What an open file of an archive gives.  Reading a file with buffers of any lengths, empty ones included, gives its contents from
  the start, and reports the end exactly when everything was read before.  A directory has one entry for each direct
  child, with its kind and size.  Reading it with any counts gives its entries in consecutive pieces: a positive count the next
  ones, with the end exactly when they complete the listing; any other count all that is left, without the end; after that
  nothing.  It panics exactly when, with entries left, the number of entries read plus the count exceeds the range of an \<open>int\<close>.
\<close>

theorem archive_reads_exact:
  assumes "archive_handle a name = Some h"
  shows "case h of
      MemFile f \<Rightarrow>
        map_of (am_files a) (cleanName name) = Some (mf_data f) \<and>
        (\<forall>ns. concat (map fst (fst (read_calls ns f))) = take (sum_list ns) (mf_data f) \<and>
           map snd (fst (read_calls ns f)) = map (\<lambda>k. length (mf_data f) \<le> sum_list (take k ns)) [0..<length ns])
    | MemDir d \<Rightarrow>
        distinct (map de_name (md_entries d)) \<and> (\<forall>e. e \<in> set (md_entries d) \<longleftrightarrow> lists_child a (cleanName name) e) \<and>
        (\<forall>ns. int (length (md_entries d)) < 2 ^ 63 \<and> (\<forall>n\<in>set ns. n < 2 ^ 63) \<longrightarrow>
           (if overflows 0 (md_entries d) ns then read_dir_calls ns d = Panic
            else \<exists>d'. read_dir_calls ns d = Done (map (\<lambda>k. (piece (md_entries d) ns k, at_end (md_entries d) ns k)) [0..<length ns], d')))"
proof (cases h)
  case (MemFile f)
  have f: "map_of (am_files a) (cleanName name) = Some (mf_data f)" "mf_pos f = 0"
    using assms(1) MemFile by (auto simp: archive_handle_def Let_def split: if_splits option.splits)
  then show ?thesis using read_calls_exact[of f] MemFile by simp
next
  case (MemDir d)
  have d: "md_entries d = map mem_entry (dirEntries a (cleanName name))" "md_offset d = 0"
    using assms(1) MemDir by (auto simp: archive_handle_def Let_def split: if_splits option.splits)
  have all: "drop (nat (md_offset d)) (md_entries d) = md_entries d" using d(2) by simp
  have calls: "if overflows 0 (md_entries d) ns then read_dir_calls ns d = Panic
      else \<exists>d'. read_dir_calls ns d = Done (map (\<lambda>k. (piece (md_entries d) ns k, at_end (md_entries d) ns k)) [0..<length ns], d')"
    if "int (length (md_entries d)) < 2 ^ 63 \<and> (\<forall>n\<in>set ns. n < 2 ^ 63)" for ns
    using read_dir_calls_exact[of d ns, unfolded all d(2)] that by auto
  show ?thesis
    unfolding MemDir mem_handle.case
    using calls dirEntries_exact[where a = a and dir = "cleanName name", folded d(1)] by blast
qed

definition demo_archive :: archiveMemFS where
  "demo_archive = \<lparr>am_files = [(''a/x'', ''xx''), (''a/y'', ''y''), (''b'', ''bcd'')], am_dirs = [''.'', ''a'']\<rparr>"

theorem archive_reads_exact_witness:
  "(\<exists>d d'. archive_handle demo_archive ''./a'' = Some (MemDir d) \<and>
     read_dir_calls [1, 5, 0] d = Done ([([\<lparr>de_name = ''x'', de_size = 2, de_isDir = False\<rparr>], False),
       ([\<lparr>de_name = ''y'', de_size = 1, de_isDir = False\<rparr>], True), ([], False)], d') \<and>
     read_dir_calls [1, 2 ^ 63 - 1] d = Panic) \<and>
   (\<exists>f. archive_handle demo_archive ''b'' = Some (MemFile f) \<and> concat (map fst (fst (read_calls [2, 0, 2] f))) = ''bcd'')"
proof (rule conjI)
  let ?es = "[\<lparr>de_name = ''x'', de_size = 2, de_isDir = False\<rparr>, \<lparr>de_name = ''y'', de_size = 1, de_isDir = False\<rparr>]"
  let ?d = "\<lparr>md_name = ''a'', md_entries = ?es, md_offset = 0\<rparr>"
  have H: "archive_handle demo_archive ''./a'' = Some (MemDir ?d)" by code_simp
  note A = archive_reads_exact[OF H, simplified mem_handle.case, THEN conjunct2, THEN conjunct2, rule_format]
  have "\<not> overflows 0 ?es [1, 5, 0]" "overflows 0 ?es [1, 2 ^ 63 - 1]"
    by (auto simp: overflows_Cons overflows_Nil)
  moreover have "map (\<lambda>k. (piece ?es [1, 5, 0] k, at_end ?es [1, 5, 0] k)) [0..<length [1, 5, 0 :: int]] =
      [([?es ! 0], False), ([?es ! 1], True), ([], False)]"
    by (simp add: upt_conv_Cons piece_def at_end_def)
  ultimately show "\<exists>d d'. archive_handle demo_archive ''./a'' = Some (MemDir d) \<and>
     read_dir_calls [1, 5, 0] d = Done ([([\<lparr>de_name = ''x'', de_size = 2, de_isDir = False\<rparr>], False),
       ([\<lparr>de_name = ''y'', de_size = 1, de_isDir = False\<rparr>], True), ([], False)], d') \<and>
     read_dir_calls [1, 2 ^ 63 - 1] d = Panic"
    using H A[of "[1, 5, 0]"] A[of "[1, 2 ^ 63 - 1]"] by auto
next
  have "archive_handle demo_archive ''b'' = Some (MemFile \<lparr>mf_name = ''b'', mf_data = ''bcd'', mf_pos = 0\<rparr>)" by code_simp
  from archive_reads_exact[OF this, simplified mem_handle.case, THEN conjunct2, rule_format, of "[2, 0, 2]"] this
  show "\<exists>f. archive_handle demo_archive ''b'' = Some (MemFile f) \<and> concat (map fst (fst (read_calls [2, 0, 2] f))) = ''bcd''"
    by (intro exI[of _ "\<lparr>mf_name = ''b'', mf_data = ''bcd'', mf_pos = 0\<rparr>"]) (simp del: read_calls.simps)
qed

text \<open>A large count after the first read overflows the end of the slice, and the process panics.\<close>

lemma large_count_panics:
  assumes "0 < md_offset d" "md_offset d < int (length (md_entries d))" "md_offset d < 2 ^ 62"
  shows "memDir_ReadDir (2 ^ 63 - 1) d = Panic"
proof -
  have "md_offset d + (2 ^ 63 - 1) + 2 ^ 63 = (md_offset d - 1) + 2 ^ 64" by simp
  then have "(md_offset d + (2 ^ 63 - 1) + 2 ^ 63) mod 2 ^ 64 = md_offset d - 1"
    using assms mod_pos_pos_trivial[of "md_offset d - 1" "2 ^ 64"] by (simp only: mod_add_self2) simp
  then have "wrap64 (md_offset d + (2 ^ 63 - 1)) = md_offset d - 1 - 2 ^ 63" by (simp add: wrap64_def)
  then show ?thesis using assms by (simp add: memDir_ReadDir_def go_slice_def Let_def)
qed

text \<open>An archive may hold a directory and a file of the same name.  The loader accepts it; \<open>Open\<close> and \<open>Stat\<close> then see the
  directory, \<open>ReadFile\<close> and the listing of the parent the file.\<close>

lemma same_name_twice:
  "\<exists>a. extract_loop decode [TarDir ''x'', TarReg ''x'' ''data''] \<lparr>am_files = [], am_dirs = [''.'']\<rparr> None = Some (Inr (a, None)) \<and>
     archive_Open a ''x'' = Some DirNode \<and> archive_Stat a ''x'' = Some (''x'', True, 0) \<and>
     archive_ReadFile a ''x'' = Some ''data'' \<and> archive_ReadDir a ''.'' = Some [(''x'', False, 4)]"
proof -
  let ?a = "\<lparr>am_files = [(''x'', ''data'')], am_dirs = [''x'', ''.'']\<rparr>"
  have "path_Dir ''x'' = ''.''" "TrimPrefix ''x'' ''./'' = ''x''" "TrimSuffix ''x'' ''/'' = ''x''" by code_simp+
  then have "extract_loop decode [TarDir ''x'', TarReg ''x'' ''data''] \<lparr>am_files = [], am_dirs = [''.'']\<rparr> None = Some (Inr (?a, None))"
    by (simp add: parent_dirs.simps PkgManifestFilename_def Let_def)
  moreover have "archive_Open ?a ''x'' = Some DirNode \<and> archive_Stat ?a ''x'' = Some (''x'', True, 0) \<and>
     archive_ReadFile ?a ''x'' = Some ''data'' \<and> archive_ReadDir ?a ''.'' = Some [(''x'', False, 4)]" by code_simp
  ultimately show ?thesis by blast
qed

text \<open>The records written for a package depend on the files only through their paths, contents, kinds, sizes and
  permissions: not on times or owners.\<close>

lemma records_normalized:
  assumes "\<And>p n. (p, n) \<in> set nodes \<Longrightarrow> th_Mode (info p) = th_Mode (info' p) \<and> th_Size (info p) = th_Size (info' p) \<and> th_isDir (info p) = th_isDir (info' p)"
  shows "pack_records info t nodes j = pack_records info' t' nodes j"
  using assms by (auto simp: pack_records_def fs_tar_header_def addBytesToTar_def normalizeTarHeader_def)

end
