(* ===== verification/Test_Secrets.thy ===== *)
theory Test_Secrets
  imports Secrets_Props
begin

text \<open>
  The interface \<open>SecretStore\<close> of \<open>secrets/secrets.go\<close> as a locale, and the store that the tests use in place of the real one
  (\<open>testutil/secrets.go\<close>): a map in memory behind a mutex.  Both stores interpret the locale, the encrypted one as
  long as its writes succeed, so both answer every sequence of calls alike.
\<close>

section \<open>The store of the tests\<close>

record TestSecretStore =
  tss_data :: "(string, bytes) gomap"

definition NewTestSecretStore :: TestSecretStore where
  "NewTestSecretStore = \<lparr>tss_data = []\<rparr>"

definition test_Seed :: "(string, bytes) gomap \<Rightarrow> TestSecretStore \<Rightarrow> TestSecretStore" where
  "test_Seed entries s = s\<lparr>tss_data := fold (\<lambda>(k, v). AList.update k v) entries (tss_data s)\<rparr>"

definition test_Get :: "string \<Rightarrow> TestSecretStore \<Rightarrow> (secrets_error + bytes) \<times> TestSecretStore" where
  "test_Get key s =
     (if key = [] then (Inl InvalidKey, s)
      else case map_of (tss_data s) key of None \<Rightarrow> (Inl NotFound, s) | Some val \<Rightarrow> (Inr val, s))"

definition test_Set :: "string \<Rightarrow> bytes \<Rightarrow> TestSecretStore \<Rightarrow> (secrets_error + unit) \<times> TestSecretStore" where
  "test_Set key val s =
     (if key = [] then (Inl InvalidKey, s) else (Inr (), s\<lparr>tss_data := AList.update key val (tss_data s)\<rparr>))"

definition test_Delete :: "string \<Rightarrow> TestSecretStore \<Rightarrow> (secrets_error + unit) \<times> TestSecretStore" where
  "test_Delete key s =
     (if key = [] then (Inl InvalidKey, s)
      else if map_of (tss_data s) key = None then (Inl NotFound, s)
      else (Inr (), s\<lparr>tss_data := AList.delete key (tss_data s)\<rparr>))"

definition test_List :: "string \<Rightarrow> TestSecretStore \<Rightarrow> (secrets_error + string list) \<times> TestSecretStore" where
  "test_List prfx s = (Inr (sort_strings (filter (\<lambda>k. HasPrefix k prfx) (map_keys (tss_data s)))), s)"

section \<open>The interface\<close>

datatype 'e store_op = StGet string | StSet 'e string bytes | StDelete 'e string | StList string

definition store_step where
  "store_step get put del lst op s =
     (case op of
        StGet k \<Rightarrow> map_prod (case_sum Failed Value) id (get k s)
      | StSet e k v \<Rightarrow> map_prod (case_sum Failed (\<lambda>_ :: unit. Secrets_Props.Done)) id (put e k v s)
      | StDelete e k \<Rightarrow> map_prod (case_sum Failed (\<lambda>_ :: unit. Secrets_Props.Done)) id (del e k s)
      | StList p \<Rightarrow> map_prod (case_sum Failed Keys) id (lst p s))"

text \<open>What a map answers.\<close>

definition map_store_step :: "'e store_op \<Rightarrow> (string \<rightharpoonup> bytes) \<Rightarrow> secrets_result \<times> (string \<rightharpoonup> bytes)" where
  "map_store_step op m =
     (case op of
        StGet k \<Rightarrow> (if k = [] then Failed InvalidKey else case m k of None \<Rightarrow> Failed NotFound | Some v \<Rightarrow> Value v, m)
      | StSet e k v \<Rightarrow> if k = [] then (Failed InvalidKey, m) else (Secrets_Props.Done, m(k \<mapsto> v))
      | StDelete e k \<Rightarrow>
          if k = [] then (Failed InvalidKey, m)
          else if m k = None then (Failed NotFound, m) else (Secrets_Props.Done, m(k := None))
      | StList p \<Rightarrow> (Keys (sorted_list_of_set {k \<in> dom m. HasPrefix k p}), m))"

definition store_op_ok :: "('e \<Rightarrow> bool) \<Rightarrow> (string \<Rightarrow> bool) \<Rightarrow> 'e store_op \<Rightarrow> bool" where
  "store_op_ok write_ok key_ok op =
     (case op of StSet e k v \<Rightarrow> write_ok e \<and> key_ok k | StDelete e k \<Rightarrow> write_ok e | _ \<Rightarrow> True)"

text \<open>A store implements a map from keys to values.  \<open>'e\<close> is what a write depends on beside its arguments, restricted to
  the admissible ones; so are the keys that may be written.\<close>

locale secret_store =
  fixes get :: "string \<Rightarrow> 's \<Rightarrow> (secrets_error + bytes) \<times> 's"
    and put :: "'e \<Rightarrow> string \<Rightarrow> bytes \<Rightarrow> 's \<Rightarrow> (secrets_error + unit) \<times> 's"
    and del :: "'e \<Rightarrow> string \<Rightarrow> 's \<Rightarrow> (secrets_error + unit) \<times> 's"
    and lst :: "string \<Rightarrow> 's \<Rightarrow> (secrets_error + string list) \<times> 's"
    and holds :: "'s \<Rightarrow> (string \<rightharpoonup> bytes) \<Rightarrow> bool"
    and write_ok :: "'e \<Rightarrow> bool" and key_ok :: "string \<Rightarrow> bool"
  assumes get_law: "holds s m \<Longrightarrow> holds (snd (get k s)) m \<and>
      fst (get k s) = (if k = [] then Inl InvalidKey else case m k of None \<Rightarrow> Inl NotFound | Some v \<Rightarrow> Inr v)"
    and put_law: "holds s m \<Longrightarrow> write_ok e \<Longrightarrow> key_ok k \<Longrightarrow> k \<noteq> [] \<Longrightarrow> fst (put e k v s) = Inr () \<and> holds (snd (put e k v s)) (m(k \<mapsto> v))"
    and put_empty: "holds s m \<Longrightarrow> fst (put e [] v s) = Inl InvalidKey \<and> holds (snd (put e [] v s)) m"
    and del_law: "holds s m \<Longrightarrow> write_ok e \<Longrightarrow> k \<noteq> [] \<Longrightarrow>
      fst (del e k s) = (if m k = None then Inl NotFound else Inr ()) \<and> holds (snd (del e k s)) (m(k := None))"
    and del_empty: "holds s m \<Longrightarrow> fst (del e [] s) = Inl InvalidKey \<and> holds (snd (del e [] s)) m"
    and lst_law: "holds s m \<Longrightarrow> holds (snd (lst p s)) m \<and> fst (lst p s) = Inr (sorted_list_of_set {k \<in> dom m. HasPrefix k p})"
begin

lemma get_put: "holds s m \<Longrightarrow> write_ok e \<Longrightarrow> key_ok k \<Longrightarrow> k \<noteq> [] \<Longrightarrow> fst (get k (snd (put e k v s))) = Inr v"
  using put_law[of s m e k v] get_law[of "snd (put e k v s)" "m(k \<mapsto> v)" k] by simp

lemma get_put_other:
  "holds s m \<Longrightarrow> write_ok e \<Longrightarrow> key_ok k \<Longrightarrow> k \<noteq> [] \<Longrightarrow> k' \<noteq> k \<Longrightarrow> fst (get k' (snd (put e k v s))) = fst (get k' s)"
  using put_law[of s m e k v] get_law[of "snd (put e k v s)" "m(k \<mapsto> v)" k'] get_law[of s m k'] by simp

lemma get_del: "holds s m \<Longrightarrow> write_ok e \<Longrightarrow> k \<noteq> [] \<Longrightarrow> fst (get k (snd (del e k s))) = Inl NotFound"
  using del_law[of s m e k] get_law[of "snd (del e k s)" "m(k := None)" k] by simp

end

text \<open>A store that keeps the laws answers every sequence of operations as the map does.\<close>

sublocale secret_store < as_map: simulation "store_step get put del lst" map_store_step holds "store_op_ok write_ok key_ok"
proof
  fix s m op assume h: "holds s m" and ok: "store_op_ok write_ok key_ok op"
  have "fst (store_step get put del lst op s) = fst (map_store_step op m) \<and>
      holds (snd (store_step get put del lst op s)) (snd (map_store_step op m))"
  proof (cases op)
    case (StGet k)
    then show ?thesis using get_law[OF h, of k] by (simp add: store_step_def map_store_step_def split: option.split)
  next
    case (StSet e k v)
    then show ?thesis
      using put_law[OF h, of e k v] put_empty[OF h, of e v] ok by (simp add: store_step_def map_store_step_def store_op_ok_def)
  next
    case (StDelete e k)
    moreover have "m(k := None) = m" if "m k = None" using that by auto
    ultimately show ?thesis
      using del_law[OF h, of e k] del_empty[OF h, of e] ok by (auto simp: store_step_def map_store_step_def store_op_ok_def)
  next
    case (StList p)
    then show ?thesis using lst_law[OF h, of p] by (simp add: store_step_def map_store_step_def)
  qed
  then show "fst (store_step get put del lst op s) = fst (map_store_step op m)"
    "holds (snd (store_step get put del lst op s)) (snd (map_store_step op m))" by auto
qed

section \<open>Both stores implement it\<close>

interpretation test_store: secret_store test_Get "\<lambda>_. test_Set" "\<lambda>_. test_Delete" test_List
  "\<lambda>s m. gomap_ok (tss_data s) \<and> map_of (tss_data s) = m" "\<lambda>_. True" "\<lambda>_. True"
  by unfold_locales
    (auto simp: test_Get_def test_Set_def test_Delete_def test_List_def list_keys_spec split: option.split)

definition clean_write :: "string \<Rightarrow> string \<Rightarrow> flush_env \<Rightarrow> bool" where
  "clean_write sp ip fl = (fl_fault fl = None \<and> fl_temp fl \<noteq> sp \<and> fl_temp fl \<noteq> ip)"

lemma secrets_step_ops:
  "secrets_step env sp ip (OpGet k) st = map_prod (case_sum Failed Value) id (Get env k st)"
  "secrets_step env sp ip (OpSet fl k v) st = map_prod (case_sum Failed (\<lambda>_. Secrets_Props.Done)) id (Set env fl k v st)"
  "secrets_step env sp ip (OpDelete fl k) st = map_prod (case_sum Failed (\<lambda>_. Secrets_Props.Done)) id (Delete env fl k st)"
  "secrets_step env sp ip (OpList p) st = map_prod (case_sum Failed Keys) id (List_keys env p st)"
  by (simp_all add: secrets_step_def)

lemma case_sum_results:
  "case_sum Failed Value r = Failed e \<longleftrightarrow> r = Inl e" "case_sum Failed Value r = Value v \<longleftrightarrow> r = Inr v"
  "case_sum Failed (\<lambda>_ :: unit. Secrets_Props.Done) u = Failed e \<longleftrightarrow> u = Inl e"
  "case_sum Failed (\<lambda>_ :: unit. Secrets_Props.Done) u = Secrets_Props.Done \<longleftrightarrow> u = Inr ()"
  "case_sum Failed Keys q = Keys ks \<longleftrightarrow> q = Inr ks"
  by (auto split: sum.splits)

interpretation local_store: secret_store "Get env" "Set env" "Delete env" "List_keys env"
  "\<lambda>st m. store_rel env sp ip ids r idfile st (m, m)" "clean_write sp ip" valid_utf8
  for env :: "('id, 'r) secrets_env" and sp ip ids r idfile
proof unfold_locales
  fix st m assume R: "store_rel env sp ip ids r idfile st (m, m)"
  note step = secrets_step_simulates[OF R]
  show "store_rel env sp ip ids r idfile (snd (Get env k st)) (m, m) \<and>
      fst (Get env k st) = (if k = [] then Inl InvalidKey else case m k of None \<Rightarrow> Inl NotFound | Some v \<Rightarrow> Inr v)" for k
    using step[of "OpGet k"] by (auto simp: secrets_step_ops spec_step_def op_ok_def case_sum_results split: if_splits option.splits)
  show "fst (Set env fl k v st) = Inr () \<and> store_rel env sp ip ids r idfile (snd (Set env fl k v st)) (m(k \<mapsto> v), m(k \<mapsto> v))"
    if "clean_write sp ip fl" "valid_utf8 k" "k \<noteq> []" for fl k v
    using step[of "OpSet fl k v"] that by (simp add: secrets_step_ops spec_step_def spec_change_def op_ok_def clean_write_def case_sum_results)
  show "fst (Set env fl [] v st) = Inl InvalidKey \<and> store_rel env sp ip ids r idfile (snd (Set env fl [] v st)) (m, m)" for fl v
    using R by (simp add: Set_def validateKey_def case_prod_beta)
  show "fst (Delete env fl k st) = (if m k = None then Inl NotFound else Inr ()) \<and>
      store_rel env sp ip ids r idfile (snd (Delete env fl k st)) (m(k := None), m(k := None))"
    if "clean_write sp ip fl" "k \<noteq> []" for fl k
  proof (cases "m k")
    case None
    then have "m(k := None) = m" by auto
    then show ?thesis
      using step[of "OpDelete fl k"] that None by (simp add: secrets_step_ops spec_step_def op_ok_def clean_write_def case_sum_results)
  next
    case (Some v)
    then show ?thesis
      using step[of "OpDelete fl k"] that
      by (simp add: secrets_step_ops spec_step_def spec_change_def op_ok_def clean_write_def case_sum_results)
  qed
  show "fst (Delete env fl [] st) = Inl InvalidKey \<and> store_rel env sp ip ids r idfile (snd (Delete env fl [] st)) (m, m)" for fl
    using R by (simp add: Delete_def validateKey_def case_prod_beta)
  show "store_rel env sp ip ids r idfile (snd (List_keys env p st)) (m, m) \<and>
      fst (List_keys env p st) = Inr (sorted_list_of_set {k \<in> dom m. HasPrefix k p})" for p
    using step[of "OpList p"] by (simp add: secrets_step_ops spec_step_def op_ok_def case_sum_results)
qed

section \<open>Properties\<close>

text \<open>
  C38. The store of the tests stands for the real one: from fresh stores, every sequence of gets, sets, deletes and listings
  is answered alike by the in-memory store and by the encrypted one, as long as the keys that are written are valid
  UTF-8 and no write fails.
\<close>

theorem stores_interchangeable:
  assumes "json_law env" "age_law env idfile" "map_of d identityPath = Some idfile" "map_of d storePath = None"
    "storePath \<noteq> []" "identityPath \<noteq> []" "storePath \<noteq> identityPath" "sn_readable env storePath" "sn_readable env identityPath"
    "list_all (store_op_ok (clean_write storePath identityPath) valid_utf8) ops"
  shows "fst (run_all (store_step test_Get (\<lambda>_. test_Set) (\<lambda>_. test_Delete) test_List) ops NewTestSecretStore) =
    fst (run_all (store_step (Get env) (Set env) (Delete env) (List_keys env)) ops (NewLocalSecretStore env storePath identityPath, d))"
proof -
  obtain ids r where R: "store_rel env storePath identityPath ids r idfile (NewLocalSecretStore env storePath identityPath, d) (Map.empty, Map.empty)"
    by (rule fresh_store_rel[OF assms(1-9)])
  have "list_all (store_op_ok (\<lambda>_. True) (\<lambda>_. True)) ops"
    using assms(10) by (auto simp: list_all_iff store_op_ok_def split: store_op.splits)
  then show ?thesis
    using test_store.as_map.simulates[of NewTestSecretStore Map.empty ops] local_store.as_map.simulates[OF R assms(10)]
    by (simp add: NewTestSecretStore_def)
qed

theorem stores_interchangeable_witness:
  "let fl = \<lparr>fl_temp = ''/c/t'', fl_nonce = ''n'', fl_fault = None\<rparr>; ops = [StSet fl ''a'' ''1'', StGet ''a'', StDelete fl ''b'', StSet fl [] ''2'', StDelete fl ''a'', StGet ''a''] in
   fst (run_all (store_step (Get demo_secrets) (Set demo_secrets) (Delete demo_secrets) (List_keys demo_secrets)) ops
     (NewLocalSecretStore demo_secrets ''/c/s'' ''/c/k'', [(''/c/k'', ''key'')])) =
     [Secrets_Props.Done, Value ''1'', Failed NotFound, Failed InvalidKey, Secrets_Props.Done, Failed NotFound]"
proof -
  let ?fl = "\<lparr>fl_temp = ''/c/t'', fl_nonce = ''n'', fl_fault = None\<rparr>"
  let ?ops = "[StSet ?fl ''a'' ''1'', StGet ''a'', StDelete ?fl ''b'', StSet ?fl [] ''2'', StDelete ?fl ''a'', StGet ''a'']"
  have "valid_utf8 ''a''" "valid_utf8 []" by (simp_all add: valid_utf8_def byte_of_def rune_error_def)
  then have "list_all (store_op_ok (clean_write ''/c/s'' ''/c/k'') valid_utf8) ?ops" by (simp add: store_op_ok_def clean_write_def)
  then have "fst (run_all (store_step test_Get (\<lambda>_. test_Set) (\<lambda>_. test_Delete) test_List) ?ops NewTestSecretStore) =
    fst (run_all (store_step (Get demo_secrets) (Set demo_secrets) (Delete demo_secrets) (List_keys demo_secrets)) ?ops
      (NewLocalSecretStore demo_secrets ''/c/s'' ''/c/k'', [(''/c/k'', ''key'')]))"
    by (intro stores_interchangeable[OF demo_secrets_laws(1) demo_secrets_laws(2)[of "''key''"]]) (simp_all add: demo_secrets_def)
  moreover have "fst (run_all (store_step test_Get (\<lambda>_. test_Set) (\<lambda>_. test_Delete) test_List) ?ops NewTestSecretStore) =
      [Secrets_Props.Done, Value ''1'', Failed NotFound, Failed InvalidKey, Secrets_Props.Done, Failed NotFound]"
    by (simp add: store_step_def NewTestSecretStore_def test_Get_def test_Set_def test_Delete_def)
  ultimately show ?thesis by (simp add: Let_def)
qed

text \<open>\<open>Seed\<close> overwrites what the store holds, the later entry of a key last.\<close>

lemma test_Seed_map: "map_of (tss_data (test_Seed entries s)) = map_of (tss_data s) ++ map_of (rev entries)"
proof -
  have "map_of (fold (\<lambda>(k, v). AList.update k v) es m) = map_of m ++ map_of (rev es)" for es m
    by (induction es arbitrary: m) (auto simp: map_add_def fun_eq_iff split: option.splits)
  then show ?thesis by (simp add: test_Seed_def)
qed

end
