(* ===== verification/Gitfixture.thy ===== *)
theory Gitfixture
  imports Registry_Props Source
begin

text \<open>
  The repositories that the tests of the registry use (\<open>registry/testutil/gitfixture/gitfixture.go\<close>): files are written
  into a fresh directory and committed by running git.  A failing test (\<open>t.Fatalf\<close>) is an error value.
  Parameters: git, whose answer to a command may depend on the commands before it and on the files
  at each of them; which directories and files can be written; and the \<open>time\<close> package (\<open>clock_lib\<close>).
\<close>

section \<open>Running git\<close>

record git_call =
  gc_dir :: string
  gc_env :: "string list"
  gc_args :: "string list"
  gc_files :: disk

type_synonym git_tool = "git_call list \<Rightarrow> git_call \<Rightarrow> string + string"

record fixture =
  fx_disk :: disk
  fx_calls :: "git_call list"

datatype fixture_error =
    GitFailed "string list" string string
  | MkdirFailed string
  | WriteFailed string
  | CopyFailed string
  | BadTime string
  | ShortCommitError string
  | SameTimes string

definition runGitWithEnv ::
  "git_tool \<Rightarrow> string \<Rightarrow> string list \<Rightarrow> string list \<Rightarrow> fixture \<Rightarrow> fixture_error + string \<times> fixture" where
  "runGitWithEnv git dir env args fx =
     (let call = \<lparr>gc_dir = dir, gc_env = env, gc_args = args, gc_files = fx_disk fx\<rparr> in
      case git (fx_calls fx) call of
        Inl err \<Rightarrow> Inl (GitFailed args dir err)
      | Inr output \<Rightarrow> Inr (output, fx\<lparr>fx_calls := fx_calls fx @ [call]\<rparr>))"

definition fx_runGit :: "git_tool \<Rightarrow> string \<Rightarrow> string list \<Rightarrow> fixture \<Rightarrow> fixture_error + string \<times> fixture" where
  "fx_runGit git dir args fx = runGitWithEnv git dir [] args fx"

definition user_args :: "string list \<Rightarrow> string list" where
  "user_args args = [''-c'', ''user.name=test'', ''-c'', ''user.email=test@test.com''] @ args"

definition commit_as :: "git_tool \<Rightarrow> string \<Rightarrow> string \<Rightarrow> string \<Rightarrow> fixture \<Rightarrow> fixture_error + fixture" where
  "commit_as git repoDir message tag fx =
     result_bind (fx_runGit git repoDir [''add'', ''.''] fx) (\<lambda>(_, fx1).
     result_bind (fx_runGit git repoDir (user_args [''commit'', ''-m'', message]) fx1) (\<lambda>(_, fx2).
     result_bind (fx_runGit git repoDir [''tag'', tag] fx2) (\<lambda>(_, fx3). Inr fx3)))"

definition commitAllAndTag :: "git_tool \<Rightarrow> string \<Rightarrow> string \<Rightarrow> fixture \<Rightarrow> fixture_error + fixture" where
  "commitAllAndTag git repoDir tag fx = commit_as git repoDir ''initial'' tag fx"

section \<open>Writing files\<close>

text \<open>Which files can be read and which directories and files can be made.\<close>

record writer =
  wr_read :: "string \<Rightarrow> bool"
  wr_mkdir :: "string \<Rightarrow> bool"
  wr_write :: "string \<Rightarrow> bool"

definition write_file :: "writer \<Rightarrow> string \<Rightarrow> bytes \<Rightarrow> fixture \<Rightarrow> fixture_error + fixture" where
  "write_file wr path content fx =
     (if \<not> wr_mkdir wr (path_Dir path) then Inl (MkdirFailed (path_Dir path))
      else if \<not> wr_write wr path then Inl (WriteFailed path)
      else Inr (fx\<lparr>fx_disk := AList.update path content (fx_disk fx)\<rparr>))"

definition write_fixture :: "writer \<Rightarrow> string \<Rightarrow> (string, bytes) gomap \<Rightarrow> fixture \<Rightarrow> fixture_error + fixture" where
  "write_fixture wr repoDir files fx =
     result_fold (\<lambda>(relPath, content). write_file wr (path_Join [repoDir, relPath]) content) files fx"

definition CreateTaggedRepo ::
  "git_tool \<Rightarrow> writer \<Rightarrow> string \<Rightarrow> string \<Rightarrow> (string, bytes) gomap \<Rightarrow> fixture \<Rightarrow> fixture_error + string \<times> fixture" where
  "CreateTaggedRepo git wr repoDir tag files fx =
     result_bind (fx_runGit git repoDir [''init''] fx) (\<lambda>(_, fx1).
     result_bind (write_fixture wr repoDir files fx1) (\<lambda>fx2.
     result_bind (commitAllAndTag git repoDir tag fx2) (\<lambda>fx3. Inr (repoDir, fx3))))"

text \<open>\<open>filepath.WalkDir\<close> visits a directory before its contents and siblings by name, which is the order of the lists of
  segments.  The tree of the source directory is given by relative paths.\<close>

definition walk_order :: "base_fs \<Rightarrow> (string \<times> fs_node) list" where
  "walk_order tree = go_sort (\<lambda>x y. Split slash (fst x) < Split slash (fst y)) (filter (\<lambda>(p, _). p \<noteq> ''.'') tree)"

definition copy_node :: "writer \<Rightarrow> string \<Rightarrow> string \<times> fs_node \<Rightarrow> fixture \<Rightarrow> fixture_error + fixture" where
  "copy_node wr repoDir = (\<lambda>(relPath, node) fx.
     let targetPath = path_Join [repoDir, relPath] in
     case node of
       DirNode \<Rightarrow> if wr_mkdir wr targetPath then Inr fx else Inl (CopyFailed targetPath)
     | FileNode data \<Rightarrow>
         if \<not> wr_read wr relPath then Inl (CopyFailed relPath)
         else (case write_file wr targetPath data fx of Inl _ \<Rightarrow> Inl (CopyFailed targetPath) | Inr fx' \<Rightarrow> Inr fx'))"

definition CreateTaggedRepoFromDir ::
  "git_tool \<Rightarrow> writer \<Rightarrow> string \<Rightarrow> string \<Rightarrow> base_fs \<Rightarrow> fixture \<Rightarrow> fixture_error + string \<times> fixture" where
  "CreateTaggedRepoFromDir git wr repoDir tag srcTree fx =
     result_bind (fx_runGit git repoDir [''init''] fx) (\<lambda>(_, fx1).
     result_bind (result_fold (copy_node wr repoDir) (walk_order srcTree) fx1) (\<lambda>fx2.
     result_bind (commitAllAndTag git repoDir tag fx2) (\<lambda>fx3. Inr (repoDir, fx3))))"

section \<open>Particular repositories\<close>

definition CreateBrokenRepo :: "git_tool \<Rightarrow> writer \<Rightarrow> string \<Rightarrow> string \<Rightarrow> fixture \<Rightarrow> fixture_error + string \<times> fixture" where
  "CreateBrokenRepo git wr repoDir tag fx =
     CreateTaggedRepo git wr repoDir tag [(''README.md'', ''# broken fixture'' @ [CHR 0x0A])] fx"

definition missing_tag_manifest :: bytes where
  "missing_tag_manifest =
     ''{'' @ [CHR 0x0A] @ ''  '' @ [CHR 0x22] @ ''name'' @ [CHR 0x22] @ '': '' @ [CHR 0x22] @ ''missing-tag'' @ [CHR 0x22] @ '','' @ [CHR 0x0A] @
     ''  '' @ [CHR 0x22] @ ''version'' @ [CHR 0x22] @ '': '' @ [CHR 0x22] @ ''1.0.0'' @ [CHR 0x22] @ [CHR 0x0A] @ ''}'' @ [CHR 0x0A]"

definition CreateRepoMissingTag ::
  "git_tool \<Rightarrow> writer \<Rightarrow> string \<Rightarrow> string \<Rightarrow> string \<Rightarrow> fixture \<Rightarrow> fixture_error + string \<times> fixture" where
  "CreateRepoMissingTag git wr repoDir existingTag missingTag fx =
     CreateTaggedRepo git wr repoDir existingTag
       [(''toolbox.devpkg.json'', missing_tag_manifest), (''README.md'', ''# missing tag fixture'' @ [CHR 0x0A])] fx"

definition CreateCorruptPackageRepo :: "git_tool \<Rightarrow> writer \<Rightarrow> string \<Rightarrow> string \<Rightarrow> fixture \<Rightarrow> fixture_error + string \<times> fixture" where
  "CreateCorruptPackageRepo git wr repoDir tag fx =
     CreateTaggedRepo git wr repoDir tag
       [(''toolbox.devpkg.json'', ''{broken''), (''README.md'', ''# corrupt package fixture'' @ [CHR 0x0A])] fx"

definition AddCommitAndTag ::
  "git_tool \<Rightarrow> writer \<Rightarrow> string \<Rightarrow> string \<Rightarrow> (string, bytes) gomap \<Rightarrow> string \<Rightarrow> fixture \<Rightarrow> fixture_error + fixture" where
  "AddCommitAndTag git wr repoDir tag files message fx =
     result_bind (write_fixture wr repoDir files fx) (\<lambda>fx1. commit_as git repoDir message tag fx1)"

section \<open>A commit without a tag\<close>

record PseudoVersionRepo =
  pv_RepoDir :: string
  pv_PseudoVersion :: string
  pv_PseudoTimestamp :: string
  pv_ShortCommit :: string
  pv_CommitSHA :: string

text \<open>Times: parsing and printing in RFC 3339, the instant, and its digits in UTC.\<close>

record 't clock_lib =
  ck_Parse :: "string \<Rightarrow> 't option"
  ck_Format :: "'t \<Rightarrow> string"
  ck_instant :: "'t \<Rightarrow> int"
  ck_stamp :: "'t \<Rightarrow> string"

definition parse_time :: "'t clock_lib \<Rightarrow> string \<Rightarrow> fixture_error + 't" where
  "parse_time ck s = (case ck_Parse ck s of None \<Rightarrow> Inl (BadTime s) | Some t \<Rightarrow> Inr t)"

definition pseudoAuthorTimeRFC3339 :: string where "pseudoAuthorTimeRFC3339 = ''2026-03-27T11:22:33Z''"
definition pseudoCommitTimeRFC3339 :: string where "pseudoCommitTimeRFC3339 = ''2026-03-27T12:34:56Z''"

text \<open>The second commit, with its dates.\<close>

definition pseudo_commit :: "'t clock_lib \<Rightarrow> git_tool \<Rightarrow> writer \<Rightarrow> string \<Rightarrow> fixture \<Rightarrow> fixture_error + fixture" where
  "pseudo_commit ck git wr repoDir fx =
     (let notePath = path_Join [repoDir, ''PSEUDO_VERSION.txt''] in
      if \<not> wr_write wr notePath then Inl (WriteFailed notePath)
      else let fx1 = fx\<lparr>fx_disk := AList.update notePath (''pseudo-version fixture'' @ [CHR 0x0A]) (fx_disk fx)\<rparr> in
        result_bind (parse_time ck pseudoCommitTimeRFC3339) (\<lambda>commitTime.
        result_bind (parse_time ck pseudoAuthorTimeRFC3339) (\<lambda>authorTime.
        result_bind (fx_runGit git repoDir [''add'', ''.''] fx1) (\<lambda>(_, fx2).
        result_bind (runGitWithEnv git repoDir
            [''GIT_AUTHOR_DATE='' @ ck_Format ck authorTime, ''GIT_COMMITTER_DATE='' @ ck_Format ck commitTime]
            (user_args [''commit'', ''-m'', ''pseudo commit'']) fx2) (\<lambda>(_, fx3). Inr fx3)))))"

text \<open>What the repository says about its head.\<close>

definition describe_head :: "'t clock_lib \<Rightarrow> git_tool \<Rightarrow> string \<Rightarrow> fixture \<Rightarrow> fixture_error + PseudoVersionRepo \<times> fixture" where
  "describe_head ck git repoDir fx =
     result_bind (fx_runGit git repoDir [''rev-parse'', ''HEAD''] fx) (\<lambda>(out, fx1).
       let commitSHA = TrimSpace out in
       if length commitSHA < 12 then Inl (ShortCommitError commitSHA)
       else
         result_bind (fx_runGit git repoDir [''show'', ''-s'', ''--format=%cI'', ''HEAD''] fx1) (\<lambda>(cOut, fx2).
         result_bind (fx_runGit git repoDir [''show'', ''-s'', ''--format=%aI'', ''HEAD''] fx2) (\<lambda>(aOut, fx3).
         result_bind (parse_time ck (TrimSpace cOut)) (\<lambda>commitTimestamp.
         result_bind (parse_time ck (TrimSpace aOut)) (\<lambda>authorTimestamp.
           if ck_instant ck commitTimestamp = ck_instant ck authorTimestamp then Inl (SameTimes (TrimSpace cOut))
           else
             let stamp = ck_stamp ck commitTimestamp; short = take 12 commitSHA in
             Inr (\<lparr>pv_RepoDir = repoDir, pv_PseudoVersion = ''v0.0.0-'' @ stamp @ ''-'' @ short, pv_PseudoTimestamp = stamp,
                   pv_ShortCommit = short, pv_CommitSHA = commitSHA\<rparr>, fx3))))))"

definition CreatePseudoVersionRepoFromDir ::
  "'t clock_lib \<Rightarrow> git_tool \<Rightarrow> writer \<Rightarrow> string \<Rightarrow> base_fs \<Rightarrow> fixture \<Rightarrow> fixture_error + PseudoVersionRepo \<times> fixture" where
  "CreatePseudoVersionRepoFromDir ck git wr tempDir srcTree fx =
     result_bind (CreateTaggedRepoFromDir git wr tempDir ''v1.0.0'' srcTree fx) (\<lambda>(repoDir, fx1).
     result_bind (pseudo_commit ck git wr repoDir fx1) (\<lambda>fx2. describe_head ck git repoDir fx2))"

section \<open>Resolving the commit\<close>

text \<open>The digits of a time as \<open>registry/git_source.go\<close> reads them.\<close>

definition ck_rfc3339 :: "'t clock_lib \<Rightarrow> string \<Rightarrow> string option" where
  "ck_rfc3339 ck s = map_option (ck_stamp ck) (ck_Parse ck s)"

definition stamps_ok :: "'t clock_lib \<Rightarrow> bool" where
  "stamps_ok ck = (\<forall>t. length (ck_stamp ck t) = 14 \<and> list_all is_digit (ck_stamp ck t))"

text \<open>What git printed for a command while the repository in \<open>dir\<close> was made.\<close>

definition printed :: "git_tool \<Rightarrow> string \<Rightarrow> git_call list \<Rightarrow> string list \<Rightarrow> string \<Rightarrow> bool" where
  "printed git dir calls args out \<longleftrightarrow>
     (\<exists>before call after. calls = before @ call # after \<and> gc_dir call = dir \<and> gc_args call = args \<and> git before call = Inr out)"

text \<open>Git on a clone of the repository: once it is cloned, the head is the one that the repository printed, its
  abbreviated name stands for it, the committer date printed for it is the one that the repository
  printed, and it can be checked out.\<close>

definition clone_of :: "git_tool \<Rightarrow> string \<Rightarrow> git_call list \<Rightarrow> string \<Rightarrow> git \<Rightarrow> bool" where
  "clone_of fgit dir calls url git \<longleftrightarrow>
     is_ok (git [] ([], [''clone'', url, checkout_dir])) \<and>
     (\<forall>head h. printed fgit dir calls [''rev-parse'', ''HEAD''] head \<and> ([], [''clone'', url, checkout_dir]) \<in> set h \<longrightarrow>
        git h (checkout_dir, [''rev-parse'', ''HEAD'']) = Inr head \<and>
        git h (checkout_dir, [''rev-parse'', ''--verify'', take 12 (TrimSpace head) @ ''^{commit}'']) = Inr head \<and>
        is_ok (git h (checkout_dir, [''checkout'', TrimSpace head])) \<and>
        (\<forall>date. printed fgit dir calls [''show'', ''-s'', ''--format=%cI'', ''HEAD''] date \<longrightarrow>
           git h (checkout_dir, [''show'', ''-s'', ''--format=%cI'', TrimSpace head]) = Inr date))"

text \<open>The commands of the resolver up to the packing.\<close>

definition pseudo_history :: "PseudoVersionRepo \<Rightarrow> string \<Rightarrow> git_cmd list" where
  "pseudo_history repo url =
     [([], [''clone'', url, checkout_dir]),
      (checkout_dir, [''rev-parse'', ''--verify'', pv_ShortCommit repo @ ''^{commit}'']),
      (checkout_dir, [''show'', ''-s'', ''--format=%cI'', pv_CommitSHA repo]),
      (checkout_dir, [''checkout'', pv_CommitSHA repo]),
      (checkout_dir, [''rev-parse'', ''HEAD''])]"

lemma fx_runGit_Inr:
  assumes "fx_runGit git dir args fx = Inr (out, fx')"
  shows "\<exists>call. gc_dir call = dir \<and> gc_args call = args \<and> git (fx_calls fx) call = Inr out \<and> fx_calls fx' = fx_calls fx @ [call]"
  using assms by (auto simp: fx_runGit_def runGitWithEnv_def Let_def split: sum.splits)

text \<open>What the description of the head says is what git printed.\<close>

lemma describe_head_Inr:
  assumes "describe_head ck git repoDir fx = Inr (repo, fx')"
  shows "\<exists>head date. printed git repoDir (fx_calls fx') [''rev-parse'', ''HEAD''] head \<and>
    printed git repoDir (fx_calls fx') [''show'', ''-s'', ''--format=%cI'', ''HEAD''] date \<and>
    ck_rfc3339 ck (TrimSpace date) = Some (pv_PseudoTimestamp repo) \<and> pv_RepoDir repo = repoDir \<and>
    pv_CommitSHA repo = TrimSpace head \<and> pv_ShortCommit repo = take 12 (pv_CommitSHA repo) \<and>
    pv_PseudoVersion repo = ''v0.0.0-'' @ pv_PseudoTimestamp repo @ ''-'' @ pv_ShortCommit repo"
proof -
  obtain head fx1 date fx2 aOut t where g: "fx_runGit git repoDir [''rev-parse'', ''HEAD''] fx = Inr (head, fx1)"
    "fx_runGit git repoDir [''show'', ''-s'', ''--format=%cI'', ''HEAD''] fx1 = Inr (date, fx2)"
    "fx_runGit git repoDir [''show'', ''-s'', ''--format=%aI'', ''HEAD''] fx2 = Inr (aOut, fx')"
    "ck_Parse ck (TrimSpace date) = Some t"
    "repo = \<lparr>pv_RepoDir = repoDir, pv_PseudoVersion = ''v0.0.0-'' @ ck_stamp ck t @ ''-'' @ take 12 (TrimSpace head), pv_PseudoTimestamp = ck_stamp ck t,
       pv_ShortCommit = take 12 (TrimSpace head), pv_CommitSHA = TrimSpace head\<rparr>"
    using assms by (auto simp: describe_head_def parse_time_def Let_def split: if_splits option.splits)
  from fx_runGit_Inr[OF g(1)] fx_runGit_Inr[OF g(2)] fx_runGit_Inr[OF g(3)] obtain c1 c2 c3 where c:
    "gc_dir c1 = repoDir \<and> gc_args c1 = [''rev-parse'', ''HEAD''] \<and> git (fx_calls fx) c1 = Inr head"
    "gc_dir c2 = repoDir \<and> gc_args c2 = [''show'', ''-s'', ''--format=%cI'', ''HEAD''] \<and> git (fx_calls fx @ [c1]) c2 = Inr date"
    "fx_calls fx' = fx_calls fx @ [c1, c2, c3]" by auto
  have "printed git repoDir (fx_calls fx') [''rev-parse'', ''HEAD''] head"
    unfolding printed_def using c(1,3) by (intro exI[of _ "fx_calls fx"] exI[of _ c1] exI[of _ "[c2, c3]"]) simp
  moreover have "printed git repoDir (fx_calls fx') [''show'', ''-s'', ''--format=%cI'', ''HEAD''] date"
    unfolding printed_def using c(2,3) by (intro exI[of _ "fx_calls fx @ [c1]"] exI[of _ c2] exI[of _ "[c3]"]) simp
  ultimately show ?thesis using g(4,5) by (auto simp: ck_rfc3339_def)
qed

lemma lower_hex_facts:
  assumes "list_all is_lower_hex s"
  shows "ToLower s = s" "list_all is_hex s"
proof -
  have c: "lower_char c = c" "is_hex c" if "is_lower_hex c" for c
    using that by (auto simp: is_lower_hex_def is_digit_def is_hex_def lower_char_def is_upper_def)
  show "ToLower s = s" using assms c(1) by (auto simp: ToLower_def list_all_iff intro: map_idI)
  show "list_all is_hex s" using assms c(2) by (auto simp: list_all_iff)
qed

lemma clone_checks:
  assumes "clone_of fgit dir calls url git" "printed fgit dir calls [''rev-parse'', ''HEAD''] head"
    "printed fgit dir calls [''show'', ''-s'', ''--format=%cI'', ''HEAD''] date" "pv_CommitSHA repo = TrimSpace head"
    "pv_ShortCommit repo = take 12 (TrimSpace head)" "PseudoCommit v = pv_ShortCommit repo" "ck_rfc3339 ck (TrimSpace date) = Some (PseudoTimestamp v)"
  shows "\<exists>h. clonePseudoVersion git (ck_rfc3339 ck) v url = Inr h \<and>
    runGit git h (checkout_dir, [''rev-parse'', ''HEAD'']) = Inr (pv_CommitSHA repo, pseudo_history repo url)"
proof -
  let ?cl = "([], [''clone'', url, checkout_dir])"
  obtain o1 where o1: "git [] ?cl = Inr o1" using assms(1) by (auto simp: clone_of_def is_ok_iff)
  have C: "git h (checkout_dir, [''rev-parse'', ''HEAD'']) = Inr head"
    "git h (checkout_dir, [''rev-parse'', ''--verify'', take 12 (TrimSpace head) @ ''^{commit}'']) = Inr head"
    "\<exists>out. git h (checkout_dir, [''checkout'', TrimSpace head]) = Inr out"
    "git h (checkout_dir, [''show'', ''-s'', ''--format=%cI'', TrimSpace head]) = Inr date" if "?cl \<in> set h" for h
    using assms(1-3) that unfolding clone_of_def is_ok_iff by blast+
  obtain o4 where "git (take 3 (pseudo_history repo url)) (checkout_dir, [''checkout'', TrimSpace head]) = Inr o4"
    using C(3)[of "take 3 (pseudo_history repo url)"] by (auto simp: pseudo_history_def)
  then show ?thesis
    using o1 C(1,2,4) assms(4-7) by (simp add: clonePseudoVersion_def runGit_def pseudo_history_def)
qed

text \<open>
  C39. The pseudo-version of the repository made for the tests is one: it parses, its commit is the beginning of what
  \<open>git rev-parse HEAD\<close> printed in the repository, and its timestamp is the committer date that \<open>git show\<close> printed there.  If
  these commands print the same in a clone, resolving the pseudo-version passes every check of the git
  source and packs the head: the commands are those of \<open>pseudo_history\<close>, and the metadata carries the commit.
\<close>

theorem pseudo_fixture_resolves:
  assumes "CreatePseudoVersionRepoFromDir ck fgit wr tempDir srcTree fx = Inr (repo, fx')"
    and "stamps_ok ck" "list_all is_lower_hex (pv_CommitSHA repo)" "length (pv_CommitSHA repo) = 40"
    and "clone_of fgit tempDir (fx_calls fx') (cloneURL prefix module) git"
  shows "IsPseudo (pv_PseudoVersion repo) \<and> ParseVersion (pv_PseudoVersion repo) = Inr (pv_PseudoVersion repo) \<and>
    (\<exists>head date. printed fgit tempDir (fx_calls fx') [''rev-parse'', ''HEAD''] head \<and>
      printed fgit tempDir (fx_calls fx') [''show'', ''-s'', ''--format=%cI'', ''HEAD''] date \<and>
      pv_CommitSHA repo = TrimSpace head \<and> PseudoCommit (pv_PseudoVersion repo) = take 12 (TrimSpace head) \<and>
      ck_rfc3339 ck (TrimSpace date) = Some (PseudoTimestamp (pv_PseudoVersion repo))) \<and>
    Git_Fetch sha (ck_rfc3339 ck) now git pack prefix module (pv_PseudoVersion repo) =
      result_bind (map_sum FetchError id (pack (pseudo_history repo (cloneURL prefix module)))) (\<lambda>(archive, manifest).
        checked_result (ck_rfc3339 ck) archive manifest (mk_metadata sha archive (pv_CommitSHA repo) ResolvedFromGitSource now))"
proof -
  let ?v = "pv_PseudoVersion repo" and ?c = "pv_CommitSHA repo"
  obtain fx2 where "describe_head ck fgit tempDir fx2 = Inr (repo, fx')"
    using assms(1) by (auto simp: CreatePseudoVersionRepoFromDir_def CreateTaggedRepoFromDir_def)
  from describe_head_Inr[OF this] obtain head date where P: "printed fgit tempDir (fx_calls fx') [''rev-parse'', ''HEAD''] head"
    "printed fgit tempDir (fx_calls fx') [''show'', ''-s'', ''--format=%cI'', ''HEAD''] date"
    "ck_rfc3339 ck (TrimSpace date) = Some (pv_PseudoTimestamp repo)" "?c = TrimSpace head" "pv_ShortCommit repo = take 12 ?c"
    "?v = ''v0.0.0-'' @ pv_PseudoTimestamp repo @ ''-'' @ pv_ShortCommit repo" by blast
  obtain t where t: "pv_PseudoTimestamp repo = ck_stamp ck t" using P(3) by (metis ck_rfc3339_def map_option_eq_Some)
  have parts: "length (pv_PseudoTimestamp repo) = 14" "list_all is_digit (pv_PseudoTimestamp repo)"
    "length (pv_ShortCommit repo) = 12" "list_all is_lower_hex (pv_ShortCommit repo)"
    using assms(2-4) t P(5) by (auto simp: stamps_ok_def list_all_iff dest: in_set_takeD)
  then have ps: "IsPseudo ?v" using P(6) unfolding IsPseudo_iff list_all_iff by blast
  note groups = pseudo_groups[OF P(6) parts(1,3) ps]
  have pv: "ParseVersion ?v = Inr ?v" using IsPseudo_structure[of ?v] ps parse_Inr(2) by (metis is_ok_iff)
  note hex = lower_hex_facts[OF assms(3)]
  have sha_ok: "rx_match gitCommitSHAPattern ?c"
    unfolding rx_match_iff gitCommitSHAPattern_def using hex(2) assms(4) by (simp add: list_all_iff del: RRep.simps)
  obtain cloned where h: "clonePseudoVersion git (ck_rfc3339 ck) ?v (cloneURL prefix module) = Inr cloned"
    "runGit git cloned (checkout_dir, [''rev-parse'', ''HEAD'']) = Inr (?c, pseudo_history repo (cloneURL prefix module))"
    using clone_checks[OF assms(5) P(1,2,4), where v = ?v and ck = ck] P(3-5) groups by auto
  then have "Git_Fetch sha (ck_rfc3339 ck) now git pack prefix module ?v =
      result_bind (map_sum FetchError id (pack (pseudo_history repo (cloneURL prefix module)))) (\<lambda>(archive, manifest).
        checked_result (ck_rfc3339 ck) archive manifest (mk_metadata sha archive ?c ResolvedFromGitSource now))"
    using ps sha_ok hex(1) by (simp add: Git_Fetch_def Let_def)
  then show ?thesis using ps pv groups P by auto
qed

definition demo_clock :: "bool clock_lib" where
  "demo_clock = \<lparr>ck_Parse = (\<lambda>s. if s = pseudoCommitTimeRFC3339 then Some True else if s = pseudoAuthorTimeRFC3339 then Some False else None),
     ck_Format = (\<lambda>t. if t then pseudoCommitTimeRFC3339 else pseudoAuthorTimeRFC3339),
     ck_instant = (\<lambda>t. if t then 1 else 0), ck_stamp = (\<lambda>t. if t then ''20260327123456'' else ''20260327112233'')\<rparr>"

definition demo_commit :: string where
  "demo_commit = ''0123456789abcdef0123456789abcdef01234567''"

definition demo_git_tool :: git_tool where
  "demo_git_tool hist call =
     Inr ((if gc_args call = [''rev-parse'', ''HEAD''] then demo_commit
           else if gc_args call = [''show'', ''-s'', ''--format=%cI'', ''HEAD''] then pseudoCommitTimeRFC3339
           else if gc_args call = [''show'', ''-s'', ''--format=%aI'', ''HEAD''] then pseudoAuthorTimeRFC3339 else []) @ [CHR 0x0A])"

definition demo_clone :: git where
  "demo_clone hist cmd =
     (case snd cmd of ''show'' # _ \<Rightarrow> Inr (pseudoCommitTimeRFC3339 @ [CHR 0x0A]) | _ \<Rightarrow> Inr (demo_commit @ [CHR 0x0A]))"

definition demo_writer :: writer where
  "demo_writer = \<lparr>wr_read = (\<lambda>_. True), wr_mkdir = (\<lambda>_. True), wr_write = (\<lambda>_. True)\<rparr>"

definition demo_tree :: base_fs where
  "demo_tree = [(''.'', DirNode), (''t.ts'', FileNode ''code'')]"

definition demo_pv :: PseudoVersionRepo where
  "demo_pv = \<lparr>pv_RepoDir = ''/t'', pv_PseudoVersion = ''v0.0.0-20260327123456-0123456789ab'', pv_PseudoTimestamp = ''20260327123456'',
     pv_ShortCommit = ''0123456789ab'', pv_CommitSHA = demo_commit\<rparr>"

theorem pseudo_fixture_resolves_witness:
  "Git_Fetch (\<lambda>b. demo_commit @ take 24 demo_commit) (ck_rfc3339 demo_clock) pseudoCommitTimeRFC3339 demo_clone (\<lambda>h. Inr (''A'', ''M'')) [] ''h/m''
     ''v0.0.0-20260327123456-0123456789ab'' =
   Inr \<lparr>fr_Archive = ''A'', fr_Manifest = ''M'', fr_Metadata =
     \<lparr>ArchiveSHA256 = demo_commit @ take 24 demo_commit, GitSHA = demo_commit, ResolvedFrom = ''git-source'', ResolvedAt = pseudoCommitTimeRFC3339\<rparr>\<rparr>"
proof -
  let ?fx = "\<lparr>fx_disk = [], fx_calls = []\<rparr>" and ?sha = "\<lambda>b :: bytes. demo_commit @ take 24 demo_commit"
  have "map_sum id fst (CreatePseudoVersionRepoFromDir demo_clock demo_git_tool demo_writer ''/t'' demo_tree ?fx) = Inr demo_pv" by code_simp
  then obtain fx' where "CreatePseudoVersionRepoFromDir demo_clock demo_git_tool demo_writer ''/t'' demo_tree ?fx = Inr (demo_pv, fx')"
    by (auto simp: map_sum_def split: sum.splits)
  moreover have "stamps_ok demo_clock" by (simp add: stamps_ok_def demo_clock_def is_digit_def byte_of_def)
  moreover have "list_all is_lower_hex (pv_CommitSHA demo_pv)" "length (pv_CommitSHA demo_pv) = 40" by code_simp+
  moreover have "clone_of demo_git_tool ''/t'' (fx_calls fx') (cloneURL [] ''h/m'') demo_clone"
    by (auto simp: clone_of_def demo_clone_def printed_def demo_git_tool_def)
  ultimately have "Git_Fetch ?sha (ck_rfc3339 demo_clock) pseudoCommitTimeRFC3339 demo_clone (\<lambda>h. Inr (''A'', ''M'')) [] ''h/m'' (pv_PseudoVersion demo_pv) =
      checked_result (ck_rfc3339 demo_clock) ''A'' ''M'' (mk_metadata ?sha ''A'' (pv_CommitSHA demo_pv) ResolvedFromGitSource pseudoCommitTimeRFC3339)"
    using pseudo_fixture_resolves[of demo_clock demo_git_tool demo_writer "''/t''" demo_tree ?fx demo_pv fx' "[]" "''h/m''" demo_clone] by simp
  moreover have "metadata_Validate (ck_rfc3339 demo_clock) (mk_metadata ?sha ''A'' demo_commit ResolvedFromGitSource pseudoCommitTimeRFC3339) = Inr ()"
    by code_simp
  ultimately show ?thesis
    by (simp add: checked_result_def demo_pv_def mk_metadata_def ResolvedFromGitSource_def)
qed

end
