(* ===== verification/Emulate.thy ===== *)
theory Emulate
  imports Builder
begin

text \<open>
  The GitHub emulator of the registry's tests (\<open>registry/testutil/emulatetest\<close>): \<open>seed.go\<close> fills the emulator with
  releases of packages, well formed or broken on purpose, through its HTTP interface; \<open>emulatetest.go\<close> starts
  the emulator once and waits until it answers.  Errors are their messages, since one of them is recognised by its
  text.  Parameters: the HTTP transport and the emulator behind it (a state \<open>'w\<close>), JSON, the packer's libraries, the random
  source, and for the start what each poll of the process and of its port gave.
\<close>

section \<open>Requests\<close>

record Repo =
  rp_ID :: int
  rp_FullName :: string

record Asset =
  ea_ID :: int
  ea_Name :: string
  ea_Size :: int
  ea_ContentType :: string

record Release =
  rl_ID :: int
  rl_TagName :: string
  rl_UploadURL :: string
  rl_Assets :: "Asset list"

record http_request =
  hq_Method :: string
  hq_URL :: string
  hq_Body :: "bytes option"
  hq_ContentType :: string

text \<open>The state is the emulator and the requests sent so far.  A response is its status and its body, which may fail to
  be read.\<close>

type_synonym 'w seed_state = "'w \<times> http_request list"

record 'w SeedClient =
  sc_baseURL :: string
  sc_NewRequest :: "string \<Rightarrow> string option"
  sc_Do :: "http_request \<Rightarrow> 'w \<Rightarrow> (string + int \<times> (string + bytes)) \<times> 'w"
  sc_jstr :: "string \<Rightarrow> string"
  sc_decodeRepo :: "bytes \<Rightarrow> string + Repo"
  sc_decodeRelease :: "bytes \<Rightarrow> string + Release"
  sc_decodeAsset :: "bytes \<Rightarrow> string + Asset"

definition requestURL :: "'w SeedClient \<Rightarrow> string \<Rightarrow> string" where
  "requestURL c path =
     (if HasPrefix path ''http://'' \<or> HasPrefix path ''https://'' then path else TrimRight_slash (sc_baseURL c) @ path)"

definition seed_bind :: "('s \<Rightarrow> ('e + 'a) \<times> 's) \<Rightarrow> ('a \<Rightarrow> 's \<Rightarrow> ('e + 'b) \<times> 's) \<Rightarrow> 's \<Rightarrow> ('e + 'b) \<times> 's" where
  "seed_bind m f s = (case m s of (Inl e, s') \<Rightarrow> (Inl e, s') | (Inr x, s') \<Rightarrow> f x s')"

definition map_err :: "('e \<Rightarrow> 'e) \<Rightarrow> ('s \<Rightarrow> ('e + 'a) \<times> 's) \<Rightarrow> 's \<Rightarrow> ('e + 'a) \<times> 's" where
  "map_err g m s = (case m s of (r, s') \<Rightarrow> (map_sum g id r, s'))"

definition seed_do ::
  "'w SeedClient \<Rightarrow> string \<Rightarrow> string \<Rightarrow> bytes option \<Rightarrow> string \<Rightarrow> (bytes \<Rightarrow> string + 'a) \<Rightarrow> 'w seed_state \<Rightarrow> (string + 'a) \<times> 'w seed_state" where
  "seed_do c method path payload contentType decode st =
     (let url = requestURL c path; label = method @ '' '' @ url @ '': '' in
      case sc_NewRequest c url of
        Some err \<Rightarrow> (Inl (label @ ''build request: '' @ err), st)
      | None \<Rightarrow>
          let req = \<lparr>hq_Method = method, hq_URL = url, hq_Body = payload, hq_ContentType = contentType\<rparr> in
          (case sc_Do c req (fst st) of (resp, w') \<Rightarrow>
             let st' = (w', snd st @ [req]) in
             (case resp of
                Inl err \<Rightarrow> (Inl (label @ err), st')
              | Inr (status, Inl err) \<Rightarrow> (Inl (label @ ''read response body: '' @ err), st')
              | Inr (status, Inr raw) \<Rightarrow>
                  if status < 200 \<or> status \<ge> 300
                  then (Inl (label @ ''unexpected status '' @ itoa status @ '': '' @ TrimSpace raw), st')
                  else (case decode raw of
                      Inl err \<Rightarrow> (Inl (label @ ''decode response: '' @ err @ ''; body='' @ TrimSpace raw), st')
                    | Inr x \<Rightarrow> (Inr x, st')))))"

text \<open>The payloads have one field each.\<close>

definition json_field :: "'w SeedClient \<Rightarrow> string \<Rightarrow> string \<Rightarrow> bytes" where
  "json_field c key val = ''{'' @ sc_jstr c key @ '':'' @ sc_jstr c val @ ''}''"

definition doJSON ::
  "'w SeedClient \<Rightarrow> string \<Rightarrow> string \<Rightarrow> bytes \<Rightarrow> (bytes \<Rightarrow> string + 'a) \<Rightarrow> 'w seed_state \<Rightarrow> (string + 'a) \<times> 'w seed_state" where
  "doJSON c method path body decode = seed_do c method path (Some body) ''application/json'' decode"

definition doBytes ::
  "'w SeedClient \<Rightarrow> string \<Rightarrow> string \<Rightarrow> bytes option \<Rightarrow> string \<Rightarrow> (bytes \<Rightarrow> string + 'a) \<Rightarrow> 'w seed_state \<Rightarrow> (string + 'a) \<times> 'w seed_state" where
  "doBytes c method path payload contentType decode = seed_do c method path payload contentType decode"

text \<open>\<open>url.QueryEscape\<close>.\<close>

definition QueryEscape :: "string \<Rightarrow> string" where
  "QueryEscape s = concat (map (\<lambda>c. if is_alnum c \<or> c \<in> set ''-_.~'' then [c] else if c = CHR '' '' then ''+''
     else [CHR ''%'', hex_digit (byte_of c div 16), hex_digit (byte_of c mod 16)]) s)"

definition CreateRepo :: "'w SeedClient \<Rightarrow> string \<Rightarrow> string \<Rightarrow> 'w seed_state \<Rightarrow> (string + Repo) \<times> 'w seed_state" where
  "CreateRepo c owner name = doJSON c ''POST'' ''/user/repos'' (json_field c ''name'' name) (sc_decodeRepo c)"

definition CreateRelease :: "'w SeedClient \<Rightarrow> string \<Rightarrow> string \<Rightarrow> string \<Rightarrow> 'w seed_state \<Rightarrow> (string + Release) \<times> 'w seed_state" where
  "CreateRelease c owner repo tag =
     doJSON c ''POST'' (''/repos/'' @ PathEscape owner @ ''/'' @ PathEscape repo @ ''/releases'') (json_field c ''tag_name'' tag) (sc_decodeRelease c)"

definition asset_path :: "string \<Rightarrow> string \<Rightarrow> int \<Rightarrow> string \<Rightarrow> string" where
  "asset_path owner repo releaseID filename =
     ''/repos/'' @ PathEscape owner @ ''/'' @ PathEscape repo @ ''/releases/'' @ itoa releaseID @ ''/assets?name='' @ QueryEscape filename"

definition UploadReleaseAsset ::
  "'w SeedClient \<Rightarrow> string \<Rightarrow> string \<Rightarrow> int \<Rightarrow> string \<Rightarrow> bytes option \<Rightarrow> 'w seed_state \<Rightarrow> (string + Asset) \<times> 'w seed_state" where
  "UploadReleaseAsset c owner repo releaseID filename data =
     doBytes c ''POST'' (asset_path owner repo releaseID filename) data ''application/octet-stream'' (sc_decodeAsset c)"

section \<open>Seeding a release\<close>

definition defaultRepoOwner :: string where "defaultRepoOwner = ''admin''"

definition isAlreadyExistsError :: "string \<Rightarrow> bool" where
  "isAlreadyExistsError err = Contains err ''Repository already exists''"

text \<open>The owner part of a full name, \<open>strings.SplitN\<close> with a limit of two.\<close>

definition owner_of :: "string \<Rightarrow> string \<Rightarrow> string" where
  "owner_of fullName resolvedOwner =
     (case IndexByte fullName slash of
        Some (Suc i) \<Rightarrow> take (Suc i) fullName
      | _ \<Rightarrow> resolvedOwner)"

definition ensureRepo :: "'w SeedClient \<Rightarrow> string \<Rightarrow> string \<Rightarrow> 'w seed_state \<Rightarrow> (string + string) \<times> 'w seed_state" where
  "ensureRepo c owner repo st =
     (let resolvedOwner = (if owner = [] then defaultRepoOwner else owner) in
      case CreateRepo c resolvedOwner repo st of
        (Inl err, st') \<Rightarrow>
          if \<not> isAlreadyExistsError err then (Inl (''create repo '' @ resolvedOwner @ ''/'' @ repo @ '': '' @ err), st')
          else (Inr defaultRepoOwner, st')
      | (Inr repoResult, st') \<Rightarrow> (Inr (owner_of (rp_FullName repoResult) resolvedOwner), st'))"

record SeedResult =
  sr_Owner :: string
  sr_Repo :: string
  sr_Tag :: string
  sr_ReleaseID :: int
  sr_ArchiveAssetID :: int
  sr_ManifestAssetID :: int
  sr_ArchiveBytes :: "bytes option"
  sr_ManifestBytes :: "bytes option"

definition cloneBytes :: "bytes option \<Rightarrow> bytes option" where
  "cloneBytes data = (case data of None \<Rightarrow> None | Some b \<Rightarrow> Some ([] @ b))"

text \<open>An asset without a name is not uploaded.\<close>

definition upload_named ::
  "'w SeedClient \<Rightarrow> string \<Rightarrow> string \<Rightarrow> string \<Rightarrow> int \<Rightarrow> string \<Rightarrow> bytes option \<Rightarrow> 'w seed_state \<Rightarrow> (string + int) \<times> 'w seed_state" where
  "upload_named c label owner repo releaseID name data st =
     (if name = [] then (Inr 0, st)
      else map_err (\<lambda>err. label @ '': '' @ err) (seed_bind (UploadReleaseAsset c owner repo releaseID name data) (\<lambda>a s. (Inr (ea_ID a), s))) st)"

definition seedReleaseAssets ::
  "'w SeedClient \<Rightarrow> string \<Rightarrow> string \<Rightarrow> string \<Rightarrow> string \<Rightarrow> bytes option \<Rightarrow> string \<Rightarrow> bytes option
     \<Rightarrow> 'w seed_state \<Rightarrow> (string + SeedResult) \<times> 'w seed_state" where
  "seedReleaseAssets c owner repo tag archiveName archiveBytes manifestName manifestBytes =
     seed_bind (ensureRepo c owner repo) (\<lambda>resolvedOwner.
     seed_bind (map_err (\<lambda>err. ''create release '' @ resolvedOwner @ ''/'' @ repo @ ''@'' @ tag @ '': '' @ err)
         (CreateRelease c resolvedOwner repo tag)) (\<lambda>release.
     seed_bind (upload_named c ''upload archive asset'' resolvedOwner repo (rl_ID release) archiveName archiveBytes) (\<lambda>archiveID.
     seed_bind (upload_named c ''upload manifest asset'' resolvedOwner repo (rl_ID release) manifestName manifestBytes) (\<lambda>manifestID st.
       (Inr \<lparr>sr_Owner = resolvedOwner, sr_Repo = repo, sr_Tag = tag, sr_ReleaseID = rl_ID release, sr_ArchiveAssetID = archiveID,
             sr_ManifestAssetID = manifestID, sr_ArchiveBytes = cloneBytes archiveBytes, sr_ManifestBytes = cloneBytes manifestBytes\<rparr>, st)))))"

section \<open>Packing for a release\<close>

record packedReleaseAssets =
  pa_archiveName :: string
  pa_archiveBytes :: bytes
  pa_manifestName :: string
  pa_manifestBytes :: bytes

text \<open>\<open>pk_tmp\<close> is the temporary directory or the error of making it, \<open>pk_msg\<close> the text of an error of the packer.\<close>

record 'sig pack_env =
  pk_builder :: "'sig builder_env"
  pk_can_write :: "string \<Rightarrow> bool"
  pk_tmp :: "string + string"
  pk_msg :: "pkg_error \<Rightarrow> string"
  pk_random :: "nat \<Rightarrow> string + bytes"
  pk_decodeMap :: "bytes \<Rightarrow> string + (string, go_any) gomap"
  pk_encodeMap :: "(string, go_any) gomap \<Rightarrow> string + bytes"

definition RemoveAll :: "string \<Rightarrow> disk \<Rightarrow> disk" where
  "RemoveAll dir d = filter (\<lambda>(p, _). \<not> (p = dir \<or> HasPrefix p (dir @ ''/''))) d"

definition read_packed :: "PackResult \<Rightarrow> disk \<Rightarrow> string + packedReleaseAssets" where
  "read_packed res d =
     (case map_of d (pr_ArchivePath res) of
        None \<Rightarrow> Inl (''read archive '' @ pr_ArchivePath res)
      | Some archiveBytes \<Rightarrow>
          (case map_of d (pr_ManifestPath res) of
             None \<Rightarrow> Inl (''read manifest '' @ pr_ManifestPath res)
           | Some manifestBytes \<Rightarrow>
               Inr \<lparr>pa_archiveName = path_Base (pr_ArchivePath res), pa_archiveBytes = archiveBytes,
                    pa_manifestName = path_Base (pr_ManifestPath res), pa_manifestBytes = manifestBytes\<rparr>))"

definition packReleaseAssets :: "'sig pack_env \<Rightarrow> string \<Rightarrow> disk \<Rightarrow> ((string + packedReleaseAssets) \<times> disk) option" where
  "packReleaseAssets pe pkgDir d =
     (case pk_tmp pe of
        Inl err \<Rightarrow> Some (Inl (''create pack temp dir: '' @ err), d)
      | Inr outDir \<Rightarrow>
          map_option (\<lambda>(r, d'). (case r of
              Inl e \<Rightarrow> Inl (''pack source package '' @ pkgDir @ '': '' @ pk_msg pe e)
            | Inr packResult \<Rightarrow> read_packed packResult d', RemoveAll outDir d'))
            (pkg_Pack (pk_builder pe) (pk_can_write pe) pkgDir outDir d))"

definition with_packed ::
  "'sig pack_env \<Rightarrow> string \<Rightarrow> (packedReleaseAssets \<Rightarrow> 'w seed_state \<Rightarrow> (string + 'r) \<times> 'w seed_state) \<Rightarrow> 'w seed_state \<Rightarrow> disk
     \<Rightarrow> ((string + 'r) \<times> 'w seed_state \<times> disk) option" where
  "with_packed pe pkgDir f st d =
     map_option (\<lambda>(r, d'). case r of
         Inl e \<Rightarrow> (Inl e, st, d')
       | Inr packed \<Rightarrow> (case f packed st of (res, st') \<Rightarrow> (res, st', d')))
       (packReleaseAssets pe pkgDir d)"

definition seed_packed where
  "seed_packed c owner repo tag packed archiveBytes manifestBytes =
     seedReleaseAssets c owner repo tag (pa_archiveName packed) (Some archiveBytes) (pa_manifestName packed) (Some manifestBytes)"

definition SeedPackageRelease ::
  "'w SeedClient \<Rightarrow> 'sig pack_env \<Rightarrow> string \<Rightarrow> string \<Rightarrow> string \<Rightarrow> string \<Rightarrow> 'w seed_state \<Rightarrow> disk
     \<Rightarrow> ((string + SeedResult) \<times> 'w seed_state \<times> disk) option" where
  "SeedPackageRelease c pe owner repo tag pkgDir =
     with_packed pe pkgDir (\<lambda>packed. seed_packed c owner repo tag packed (pa_archiveBytes packed) (pa_manifestBytes packed))"

definition SeedCorruptArchiveRelease ::
  "'w SeedClient \<Rightarrow> 'sig pack_env \<Rightarrow> string \<Rightarrow> string \<Rightarrow> string \<Rightarrow> string \<Rightarrow> 'w seed_state \<Rightarrow> disk
     \<Rightarrow> ((string + SeedResult) \<times> 'w seed_state \<times> disk) option" where
  "SeedCorruptArchiveRelease c pe owner repo tag pkgDir =
     with_packed pe pkgDir (\<lambda>packed st.
       case pk_random pe (length (pa_archiveBytes packed)) of
         Inl err \<Rightarrow> (Inl (''generate corrupt archive bytes: '' @ err), st)
       | Inr corrupt \<Rightarrow> seed_packed c owner repo tag packed corrupt (pa_manifestBytes packed) st)"

definition mutateHexString :: "string \<Rightarrow> string" where
  "mutateHexString val = (case val of [] \<Rightarrow> [] | h # t \<Rightarrow> (if h = CHR ''0'' then CHR ''1'' else CHR ''0'') # t)"

definition tamperManifestSHA :: "'sig pack_env \<Rightarrow> bytes \<Rightarrow> string + bytes" where
  "tamperManifestSHA pe manifestBytes =
     (case pk_decodeMap pe manifestBytes of
        Inl err \<Rightarrow> Inl (''decode manifest for tampering: '' @ err)
      | Inr manifest \<Rightarrow>
          (case map_of manifest ''sha256'' of
             Some (AStr (h # t)) \<Rightarrow>
               (case pk_encodeMap pe (AList.update ''sha256'' (AStr (mutateHexString (h # t))) manifest) of
                  Inl err \<Rightarrow> Inl (''encode tampered manifest: '' @ err)
                | Inr b \<Rightarrow> Inr (b @ [CHR 0x0A]))
           | _ \<Rightarrow> Inl ''manifest missing sha256 for tampering''))"

definition SeedMismatchedHashRelease ::
  "'w SeedClient \<Rightarrow> 'sig pack_env \<Rightarrow> string \<Rightarrow> string \<Rightarrow> string \<Rightarrow> string \<Rightarrow> 'w seed_state \<Rightarrow> disk
     \<Rightarrow> ((string + SeedResult) \<times> 'w seed_state \<times> disk) option" where
  "SeedMismatchedHashRelease c pe owner repo tag pkgDir =
     with_packed pe pkgDir (\<lambda>packed st.
       case tamperManifestSHA pe (pa_manifestBytes packed) of
         Inl err \<Rightarrow> (Inl err, st)
       | Inr tampered \<Rightarrow> seed_packed c owner repo tag packed (pa_archiveBytes packed) tampered st)"

definition SeedMissingAssetRelease ::
  "'w SeedClient \<Rightarrow> 'sig pack_env \<Rightarrow> string \<Rightarrow> string \<Rightarrow> string \<Rightarrow> string \<Rightarrow> string \<Rightarrow> 'w seed_state \<Rightarrow> disk
     \<Rightarrow> ((string + SeedResult) \<times> 'w seed_state \<times> disk) option" where
  "SeedMissingAssetRelease c pe owner repo tag pkgDir mode =
     with_packed pe pkgDir (\<lambda>packed st.
       if mode = ''archive'' then
         seedReleaseAssets c owner repo tag [] None (pa_manifestName packed) (Some (pa_manifestBytes packed)) st
       else if mode = ''manifest'' then
         seedReleaseAssets c owner repo tag (pa_archiveName packed) (Some (pa_archiveBytes packed)) [] None st
       else (Inl (''unsupported missing asset mode '' @ mode), st))"

definition SeedEmptyRelease ::
  "'w SeedClient \<Rightarrow> string \<Rightarrow> string \<Rightarrow> string \<Rightarrow> 'w seed_state \<Rightarrow> (string + SeedResult) \<times> 'w seed_state" where
  "SeedEmptyRelease c owner repo tag = seedReleaseAssets c owner repo tag [] None [] None"

end
