(* ===== verification/Emulate_Props.thy ===== *)
theory Emulate_Props
  imports Emulate Archive_Props
begin

text \<open>
  What seeding a release does: the requests it sends and where its result comes from, and that a release seeded with a wrong
  hash is refused for it.
\<close>

section \<open>The requests\<close>

definition post_request :: "'w SeedClient \<Rightarrow> string \<Rightarrow> bytes \<Rightarrow> string \<Rightarrow> http_request" where
  "post_request c path body contentType =
     \<lparr>hq_Method = ''POST'', hq_URL = requestURL c path, hq_Body = Some body, hq_ContentType = contentType\<rparr>"

definition seed_requests :: "'w SeedClient \<Rightarrow> SeedResult \<Rightarrow> packedReleaseAssets \<Rightarrow> http_request list" where
  "seed_requests c res packed =
     [post_request c ''/user/repos'' (json_field c ''name'' (sr_Repo res)) ''application/json'',
      post_request c (''/repos/'' @ PathEscape (sr_Owner res) @ ''/'' @ PathEscape (sr_Repo res) @ ''/releases'')
        (json_field c ''tag_name'' (sr_Tag res)) ''application/json'',
      post_request c (asset_path (sr_Owner res) (sr_Repo res) (sr_ReleaseID res) (pa_archiveName packed))
        (pa_archiveBytes packed) ''application/octet-stream'',
      post_request c (asset_path (sr_Owner res) (sr_Repo res) (sr_ReleaseID res) (pa_manifestName packed))
        (pa_manifestBytes packed) ''application/octet-stream'']"

text \<open>A request that was answered with success, by this body.\<close>

definition answered :: "'w SeedClient \<Rightarrow> http_request \<Rightarrow> 'w \<Rightarrow> bytes \<Rightarrow> 'w \<Rightarrow> bool" where
  "answered c q w raw w' = (\<exists>status. sc_Do c q w = (Inr (status, Inr raw), w') \<and> 200 \<le> status \<and> status < 300)"

text \<open>The identities in the result are those of the answers: the four requests are sent one after the other, and from the
  second on each is answered with success before the next is sent.\<close>

definition seeded_from :: "'w SeedClient \<Rightarrow> SeedResult \<Rightarrow> packedReleaseAssets \<Rightarrow> 'w \<Rightarrow> 'w \<Rightarrow> bool" where
  "seeded_from c res packed w w' \<longleftrightarrow>
     (\<exists>w1 w2 w3 b2 b3 b4 rel a m. let qs = seed_requests c res packed in
        snd (sc_Do c (qs ! 0) w) = w1 \<and>
        answered c (qs ! 1) w1 b2 w2 \<and> sc_decodeRelease c b2 = Inr rel \<and> sr_ReleaseID res = rl_ID rel \<and>
        answered c (qs ! 2) w2 b3 w3 \<and> sc_decodeAsset c b3 = Inr a \<and> sr_ArchiveAssetID res = ea_ID a \<and>
        answered c (qs ! 3) w3 b4 w' \<and> sc_decodeAsset c b4 = Inr m \<and> sr_ManifestAssetID res = ea_ID m)"

lemma seed_bind_Inr: "seed_bind m f s = (Inr y, s'') \<longleftrightarrow> (\<exists>x s'. m s = (Inr x, s') \<and> f x s' = (Inr y, s''))"
  by (auto simp: seed_bind_def split: prod.splits sum.splits)

lemma map_err_Inr: "map_err g m s = (Inr y, s') \<longleftrightarrow> m s = (Inr y, s')"
  by (cases "fst (m s)") (auto simp: map_err_def split: prod.splits)

lemma seed_do_log:
  assumes "seed_do c method path payload ct decode (w, log) = (r, w', log')" "sc_NewRequest c (requestURL c path) = None"
  shows "log' = log @ [\<lparr>hq_Method = method, hq_URL = requestURL c path, hq_Body = payload, hq_ContentType = ct\<rparr>] \<and>
    snd (sc_Do c \<lparr>hq_Method = method, hq_URL = requestURL c path, hq_Body = payload, hq_ContentType = ct\<rparr> w) = w'"
  using assms by (auto simp: seed_do_def Let_def split: prod.splits sum.splits if_splits)

lemma seed_do_Inr:
  assumes "seed_do c method path payload ct decode (w, log) = (Inr x, w', log')"
  shows "log' = log @ [\<lparr>hq_Method = method, hq_URL = requestURL c path, hq_Body = payload, hq_ContentType = ct\<rparr>] \<and>
    (\<exists>raw. answered c \<lparr>hq_Method = method, hq_URL = requestURL c path, hq_Body = payload, hq_ContentType = ct\<rparr> w raw w' \<and> decode raw = Inr x)"
  using assms by (auto simp: seed_do_def Let_def answered_def split: option.splits prod.splits sum.splits if_splits)

lemma ensureRepo_log:
  assumes "ensureRepo c owner repo (w, log) = (Inr o', w', log')" "sc_NewRequest c (requestURL c ''/user/repos'') = None"
  shows "log' = log @ [post_request c ''/user/repos'' (json_field c ''name'' repo) ''application/json''] \<and>
    snd (sc_Do c (post_request c ''/user/repos'' (json_field c ''name'' repo) ''application/json'') w) = w'"
proof -
  let ?o = "if owner = [] then defaultRepoOwner else owner"
  obtain r where "CreateRepo c ?o repo (w, log) = (r, w', log')"
    using assms(1) by (auto simp: ensureRepo_def Let_def split: prod.splits sum.splits if_splits)
  from seed_do_log[OF this[unfolded CreateRepo_def doJSON_def] assms(2)] show ?thesis by (simp add: post_request_def)
qed

lemma upload_named_log:
  assumes "upload_named c label owner repo rid name (Some data) (w, log) = (Inr i, w', log')" "name \<noteq> []"
  shows "log' = log @ [post_request c (asset_path owner repo rid name) data ''application/octet-stream''] \<and>
    (\<exists>raw a. answered c (post_request c (asset_path owner repo rid name) data ''application/octet-stream'') w raw w' \<and>
      sc_decodeAsset c raw = Inr a \<and> i = ea_ID a)"
proof -
  obtain a where a: "seed_do c ''POST'' (asset_path owner repo rid name) (Some data) ''application/octet-stream'' (sc_decodeAsset c) (w, log) = (Inr a, w', log')"
    "i = ea_ID a"
    using assms by (auto simp: upload_named_def map_err_Inr seed_bind_Inr UploadReleaseAsset_def doBytes_def)
  from seed_do_Inr[OF a(1)] a(2) show ?thesis unfolding post_request_def by auto
qed

lemma seedReleaseAssets_log:
  assumes "seedReleaseAssets c owner repo tag an (Some ab) mn (Some mb) (w, log) = (Inr res, w', log')" "an \<noteq> []" "mn \<noteq> []"
    "sc_NewRequest c (requestURL c ''/user/repos'') = None"
  shows "sr_Repo res = repo \<and> sr_Tag res = tag \<and> sr_ArchiveBytes res = Some ab \<and> sr_ManifestBytes res = Some mb \<and>
    log' = log @ seed_requests c res \<lparr>pa_archiveName = an, pa_archiveBytes = ab, pa_manifestName = mn, pa_manifestBytes = mb\<rparr> \<and>
    seeded_from c res \<lparr>pa_archiveName = an, pa_archiveBytes = ab, pa_manifestName = mn, pa_manifestBytes = mb\<rparr> w w'"
proof -
  obtain o' w1 l1 rel w2 l2 aid w3 l3 mid where S: "ensureRepo c owner repo (w, log) = (Inr o', w1, l1)"
    "CreateRelease c o' repo tag (w1, l1) = (Inr rel, w2, l2)"
    "upload_named c ''upload archive asset'' o' repo (rl_ID rel) an (Some ab) (w2, l2) = (Inr aid, w3, l3)"
    "upload_named c ''upload manifest asset'' o' repo (rl_ID rel) mn (Some mb) (w3, l3) = (Inr mid, w', log')"
    "res = \<lparr>sr_Owner = o', sr_Repo = repo, sr_Tag = tag, sr_ReleaseID = rl_ID rel, sr_ArchiveAssetID = aid,
       sr_ManifestAssetID = mid, sr_ArchiveBytes = Some ab, sr_ManifestBytes = Some mb\<rparr>"
    using assms(1) by (auto simp: seedReleaseAssets_def seed_bind_Inr map_err_Inr cloneBytes_def)
  note L = ensureRepo_log[OF S(1) assms(4)] seed_do_Inr[OF S(2)[unfolded CreateRelease_def doJSON_def], folded post_request_def]
    upload_named_log[OF S(3) assms(2)] upload_named_log[OF S(4) assms(3)]
  have "seeded_from c res \<lparr>pa_archiveName = an, pa_archiveBytes = ab, pa_manifestName = mn, pa_manifestBytes = mb\<rparr> w w'"
    unfolding seeded_from_def Let_def using L S(5) by (simp add: seed_requests_def) blast
  then show ?thesis using L S(5) by (simp add: seed_requests_def)
qed

section \<open>What was packed\<close>

lemma read_packed_Inr:
  assumes "read_packed res d = Inr packed"
  shows "pa_archiveName packed = path_Base (pr_ArchivePath res)" "pa_manifestName packed = path_Base (pr_ManifestPath res)"
    "map_of d (pr_ArchivePath res) = Some (pa_archiveBytes packed)" "map_of d (pr_ManifestPath res) = Some (pa_manifestBytes packed)"
  using assms by (auto simp: read_packed_def split: option.splits)

lemma packed_files:
  assumes "packReleaseAssets pe pkgDir d = Some (Inr packed, d')"
  obtains out d1 pres where "pk_tmp pe = Inr out" "pkg_Pack (pk_builder pe) (pk_can_write pe) pkgDir out d = Some (Inr pres, d1)"
    "read_packed pres d1 = Inr packed" "d' = RemoveAll out d1"
proof -
  obtain out r d1 where "pk_tmp pe = Inr out" "pkg_Pack (pk_builder pe) (pk_can_write pe) pkgDir out d = Some (r, d1)"
    using assms by (cases "pk_tmp pe") (auto simp: packReleaseAssets_def)
  then show thesis using assms that by (cases r) (auto simp: packReleaseAssets_def)
qed

lemma packed_names:
  assumes "packReleaseAssets pe pkgDir d = Some (Inr packed, d')"
  shows "HasSuffix (pa_archiveName packed) ArchiveExtension \<and> pa_manifestName packed = PkgManifestFilename"
proof -
  from packed_files[OF assms] obtain out d1 res where
    P: "pkg_Pack (pk_builder pe) (pk_can_write pe) pkgDir out d = Some (Inr res, d1)" "read_packed res d1 = Inr packed" .
  obtain n where "pr_ArchivePath res = path_Join [out, n @ ArchiveExtension]" "pr_ManifestPath res = path_Join [out, PkgManifestFilename]"
    using P(1) by (auto simp: pkg_Pack_def Pack_def Let_def map_sum_def split: option.splits sum.splits if_splits)
  then show ?thesis
    using read_packed_Inr[OF P(2)] path_Join_Base(1)[of ArchiveExtension out n] path_Join_Base(2)[of PkgManifestFilename out]
    by (simp add: ArchiveExtension_def PkgManifestFilename_def)
qed

lemma with_packed_Some:
  assumes "with_packed pe pkgDir f st d = Some (Inr res, st', d')"
  obtains packed where "packReleaseAssets pe pkgDir d = Some (Inr packed, d')" "f packed st = (Inr res, st')"
proof -
  obtain r d1 where "packReleaseAssets pe pkgDir d = Some (r, d1)" using assms by (auto simp: with_packed_def)
  then show thesis using assms that by (cases r) (auto simp: with_packed_def split: prod.splits)
qed

section \<open>The release as the registry sees it\<close>

text \<open>An API that serves a seeded release: the release of the tag has the two assets, the tag names a commit, and the assets
  are downloaded as they were uploaded.  GitHub is such an API; the emulator, by the comment on \<open>SeedResult\<close>, does not
  reliably return the bytes of an asset, and the tests serve them from the result of the seeding instead.\<close>

definition serves :: "github_api \<Rightarrow> SeedResult \<Rightarrow> packedReleaseAssets \<Rightarrow> string \<Rightarrow> bool" where
  "serves api res packed commit \<longleftrightarrow>
     (\<exists>b rel. api_Get api [] (api_baseURL api @ repo_path (sr_Owner res) (sr_Repo res) (''/releases/tags/'' @ PathEscape (sr_Tag res))) =
          Inr \<lparr>hr_Status = 200, hr_Body = b\<rparr> \<and> api_decodeRelease api b = Some rel \<and>
        gr_Assets rel = [\<lparr>as_ID = sr_ArchiveAssetID res, as_Name = pa_archiveName packed\<rparr>, \<lparr>as_ID = sr_ManifestAssetID res, as_Name = pa_manifestName packed\<rparr>]) \<and>
     (\<exists>b. api_Get api [] (api_baseURL api @ repo_path (sr_Owner res) (sr_Repo res) (''/git/ref/tags/'' @ PathEscape (sr_Tag res))) =
          Inr \<lparr>hr_Status = 200, hr_Body = b\<rparr> \<and> api_decodeRef api b = Some \<lparr>ref_Type = ''commit'', ref_SHA = commit\<rparr>) \<and>
     api_Get api ''application/octet-stream'' (api_baseURL api @ repo_path (sr_Owner res) (sr_Repo res) (''/releases/assets/'' @ itoa (sr_ArchiveAssetID res))) =
       Inr \<lparr>hr_Status = 200, hr_Body = the (sr_ArchiveBytes res)\<rparr> \<and>
     api_Get api ''application/octet-stream'' (api_baseURL api @ repo_path (sr_Owner res) (sr_Repo res) (''/releases/assets/'' @ itoa (sr_ManifestAssetID res))) =
       Inr \<lparr>hr_Status = 200, hr_Body = the (sr_ManifestBytes res)\<rparr>"

lemma GitHub_Fetch_served:
  assumes "serves api res packed commit" "HasSuffix (pa_archiveName packed) ArchiveExtension" "pa_manifestName packed = PkgManifestFilename"
    "githubRepoForModule module = Inr (sr_Owner res, sr_Repo res)" "HasPrefix (sr_Tag res) ''v''" "rx_match gitCommitSHAPattern commit"
  shows "GitHub_Fetch sha rfc now api module (sr_Tag res) =
    checked_result rfc (the (sr_ArchiveBytes res)) (the (sr_ManifestBytes res))
      (mk_metadata sha (the (sr_ArchiveBytes res)) (ToLower commit) ResolvedFromGitHubRelease now)"
proof -
  let ?a = "\<lparr>as_ID = sr_ArchiveAssetID res, as_Name = pa_archiveName packed\<rparr>"
  let ?m = "\<lparr>as_ID = sr_ManifestAssetID res, as_Name = pa_manifestName packed\<rparr>"
  obtain rel where rel: "fetchReleaseByTag api (sr_Owner res) (sr_Repo res) (sr_Tag res) = Inr rel" "gr_Assets rel = [?a, ?m]"
    using assms(1) by (auto simp: serves_def fetchReleaseByTag_def http_get_def status_ok_def)
  have ref: "fetchTagCommitSHA api (sr_Owner res) (sr_Repo res) (sr_Tag res) = Inr (ToLower commit)"
  proof -
    obtain b where "http_get api [] (repo_path (sr_Owner res) (sr_Repo res) (''/git/ref/tags/'' @ PathEscape (sr_Tag res))) = Inr \<lparr>hr_Status = 200, hr_Body = b\<rparr>"
      "api_decodeRef api b = Some \<lparr>ref_Type = ''commit'', ref_SHA = commit\<rparr>"
      using assms(1) unfolding serves_def http_get_def by fastforce
    then show ?thesis using assms(6) unfolding fetchTagCommitSHA_def by (simp add: status_ok_def)
  qed
  have dl: "downloadAsset api (sr_Owner res) (sr_Repo res) (as_ID ?a) = Inr (the (sr_ArchiveBytes res))"
    "downloadAsset api (sr_Owner res) (sr_Repo res) (as_ID ?m) = Inr (the (sr_ManifestBytes res))"
    using assms(1) by (auto simp: serves_def downloadAsset_def http_get_def status_ok_def)
  have "is_archive_asset ?a" using assms(2) by (simp add: is_archive_asset_def ArchiveExtension_def)
  moreover have "\<not> HasSuffix PkgManifestFilename ''.toolbox.pkg''" by code_simp
  then have "\<not> is_archive_asset ?m" using assms(3) by (simp add: is_archive_asset_def)
  ultimately have "fold pick_asset [?a, ?m] (None, None) = (Some ?a, Some ?m)"
    using assms(3) by (simp add: pick_asset_def PkgManifestFilename_def)
  then show ?thesis using rel ref dl assms(4,5) by (simp add: GitHub_Fetch_def Let_def)
qed

section \<open>Properties\<close>

text \<open>
  C37. What seeding a release does: when it succeeds (and the URL of the first request can be built), the package directory was packed into the temporary
  directory, exactly four requests were sent, in this order: the repository, the release, the archive and the
  manifest, the last two with the bytes that the packer wrote and under the names the source of the registry looks for (an archive
  extension, and the name of the manifest).  The result carries the repository, the tag and these bytes, and the identities are
  those of the answers, each of which reported success.  The temporary directory is gone afterwards.
\<close>

theorem seed_requests_exact:
  assumes "SeedPackageRelease c pe owner repo tag pkgDir (w, log) d = Some (Inr res, (w', log'), d')"
    and "sc_NewRequest c (requestURL c ''/user/repos'') = None"
  shows "\<exists>out pres d1 packed. pk_tmp pe = Inr out \<and>
    pkg_Pack (pk_builder pe) (pk_can_write pe) pkgDir out d = Some (Inr pres, d1) \<and> d' = RemoveAll out d1 \<and>
    map_of d1 (pr_ArchivePath pres) = Some (pa_archiveBytes packed) \<and> map_of d1 (pr_ManifestPath pres) = Some (pa_manifestBytes packed) \<and>
    HasSuffix (pa_archiveName packed) ArchiveExtension \<and> pa_manifestName packed = PkgManifestFilename \<and>
    log' = log @ seed_requests c res packed \<and> seeded_from c res packed w w' \<and> sr_Repo res = repo \<and> sr_Tag res = tag \<and>
    sr_ArchiveBytes res = Some (pa_archiveBytes packed) \<and> sr_ManifestBytes res = Some (pa_manifestBytes packed)"
proof -
  obtain packed where P: "packReleaseAssets pe pkgDir d = Some (Inr packed, d')"
    "seed_packed c owner repo tag packed (pa_archiveBytes packed) (pa_manifestBytes packed) (w, log) = (Inr res, w', log')"
    using assms(1) unfolding SeedPackageRelease_def by (auto elim!: with_packed_Some)
  note names = packed_names[OF P(1)]
  then have ne: "pa_archiveName packed \<noteq> []" "pa_manifestName packed \<noteq> []"
    by (auto simp: HasSuffix_iff ArchiveExtension_def PkgManifestFilename_def)
  from packed_files[OF P(1)] obtain out d1 pres where F: "pk_tmp pe = Inr out"
    "pkg_Pack (pk_builder pe) (pk_can_write pe) pkgDir out d = Some (Inr pres, d1)" "read_packed pres d1 = Inr packed" "d' = RemoveAll out d1" .
  show ?thesis
    using seedReleaseAssets_log[OF P(2)[unfolded seed_packed_def] ne assms(2)] F(1,2,4) read_packed_Inr(3,4)[OF F(3)] names
    by (intro exI[of _ out] exI[of _ pres] exI[of _ d1] exI[of _ packed]) (cases packed, simp)
qed

definition seed_codec :: "unit codec" where
  "seed_codec = \<lparr>co_tar = (\<lambda>es. ''A''), co_untar = (\<lambda>b. Inl []), co_encode = (\<lambda>p. pk_SHA256 p),
     co_decode = (\<lambda>b. Inr ((demo_pkg ''tools/calc.add.ts'')\<lparr>pk_SHA256 := butlast b\<rparr>)), co_sha = (\<lambda>b. ''h'')\<rparr>"

definition seed_builder :: "unit builder_env" where
  "seed_builder = \<lparr>be_decodeDev = (\<lambda>b. Inr \<lparr>dm_Name = ''calc'', dm_Runtime = RuntimeTypeScriptSandbox, dm_AdditionalTypeScriptGlobs = [],
       dm_Executables = [], dm_Tools = [\<lparr>dt_EntryTS = ''tools/calc.add.ts'', dt_Idempotent = None, dt_Effect = None, dt_Resource = None\<rparr>]\<rparr>),
     be_singularize = (\<lambda>s. s), be_glob = (\<lambda>d p. []),
     be_dirs = (\<lambda>d. [(''.'', DirNode), (''toolbox.devpkg.json'', FileNode ''m''), (''tools'', DirNode), (''tools/calc.add.ts'', FileNode ''code'')]),
     be_extract = \<lparr>tx_Extract = (\<lambda>f e. None), tx_Tags = (\<lambda>s. [])\<rparr>, be_codec = seed_codec, be_contents = (\<lambda>f. [])\<rparr>"

definition seed_pe :: "unit pack_env" where
  "seed_pe = \<lparr>pk_builder = seed_builder, pk_can_write = (\<lambda>p. True), pk_tmp = Inr ''/tmp/e'', pk_msg = (\<lambda>e. []), pk_random = (\<lambda>n. Inr (replicate n (CHR ''r''))),
     pk_decodeMap = (\<lambda>b. Inr [(''sha256'', AStr (butlast b))]),
     pk_encodeMap = (\<lambda>m. case map_of m ''sha256'' of Some (AStr s) \<Rightarrow> Inr s | _ \<Rightarrow> Inl [])\<rparr>"

definition echo_client :: "unit SeedClient" where
  "echo_client = \<lparr>sc_baseURL = ''http://e/'', sc_NewRequest = (\<lambda>u. None), sc_Do = (\<lambda>q w. (Inr (201, Inr (the (hq_Body q))), w)), sc_jstr = (\<lambda>s. s),
     sc_decodeRepo = (\<lambda>b. Inr \<lparr>rp_ID = 1, rp_FullName = ''admin/r''\<rparr>), sc_decodeRelease = (\<lambda>b. Inr \<lparr>rl_ID = 5, rl_TagName = [], rl_UploadURL = [], rl_Assets = []\<rparr>),
     sc_decodeAsset = (\<lambda>b. Inr \<lparr>ea_ID = int (length b), ea_Name = [], ea_Size = 0, ea_ContentType = []\<rparr>)\<rparr>"

definition seed_packed_demo :: packedReleaseAssets where
  "seed_packed_demo = \<lparr>pa_archiveName = ''calc.toolbox.pkg'', pa_archiveBytes = ''A'', pa_manifestName = ''toolbox.pkg.json'', pa_manifestBytes = ''h'' @ [CHR 0x0A]\<rparr>"

definition seed_api :: github_api where
  "seed_api = \<lparr>api_baseURL = ''u'',
     api_Get = (\<lambda>accept url. Inr \<lparr>hr_Status = 200, hr_Body =
        (if accept = [] then (if Contains url ''/releases/'' then ''rel'' else ''ref'') else if HasSuffix url ''/1'' then ''A'' else ''h'' @ [CHR 0x0A])\<rparr>),
     api_decodeRelease = (\<lambda>b. Some \<lparr>gr_ID = 5, gr_TagName = ''v1'', gr_Assets = [\<lparr>as_ID = 1, as_Name = ''calc.toolbox.pkg''\<rparr>, \<lparr>as_ID = 2, as_Name = ''toolbox.pkg.json''\<rparr>]\<rparr>),
     api_decodeRef = (\<lambda>b. Some \<lparr>ref_Type = ''commit'', ref_SHA = replicate 40 (CHR ''a'')\<rparr>)\<rparr>"

lemma seed_demo_packed: "packReleaseAssets seed_pe ''/p'' [] = Some (Inr seed_packed_demo, [])"
  by code_simp

lemma seed_demo_run:
  "map_option (\<lambda>(r, st, d). (r, map hq_URL (snd st), d)) (SeedPackageRelease echo_client seed_pe [] ''r'' ''v1'' ''/p'' ((), []) []) =
     Some (Inr \<lparr>sr_Owner = ''admin'', sr_Repo = ''r'', sr_Tag = ''v1'', sr_ReleaseID = 5, sr_ArchiveAssetID = 1, sr_ManifestAssetID = 2,
        sr_ArchiveBytes = Some ''A'', sr_ManifestBytes = Some (''h'' @ [CHR 0x0A])\<rparr>,
       [''http://e/user/repos'', ''http://e/repos/admin/r/releases'', ''http://e/repos/admin/r/releases/5/assets?name=calc.toolbox.pkg'',
        ''http://e/repos/admin/r/releases/5/assets?name=toolbox.pkg.json''], [])"
  by code_simp

theorem seed_requests_exact_witness:
  "\<exists>log' packed res. SeedPackageRelease echo_client seed_pe [] ''r'' ''v1'' ''/p'' ((), []) [] = Some (Inr res, ((), log'), []) \<and>
     log' = seed_requests echo_client res packed \<and> pa_archiveBytes packed = ''A'' \<and> pa_manifestName packed = PkgManifestFilename"
proof -
  from seed_demo_run obtain res log' where run: "SeedPackageRelease echo_client seed_pe [] ''r'' ''v1'' ''/p'' ((), []) [] = Some (Inr res, ((), log'), [])"
    "sr_ArchiveBytes res = Some ''A''" by auto
  moreover have "sc_NewRequest echo_client (requestURL echo_client ''/user/repos'') = None" by (simp add: echo_client_def)
  ultimately show ?thesis using seed_requests_exact[OF run(1)] by auto
qed

text \<open>An API that serves the assets as they were uploaded makes the GitHub source of the registry deliver what was packed, with the
  hash of the archive.\<close>

lemma seeded_release_fetched:
  assumes "SeedPackageRelease c pe owner repo tag pkgDir (w, log) d = Some (Inr res, (w', log'), d')"
    and "packReleaseAssets pe pkgDir d = Some (Inr packed, d')"
    and "sc_NewRequest c (requestURL c ''/user/repos'') = None"
    and "serves api res packed commit" "githubRepoForModule module = Inr (sr_Owner res, repo)" "HasPrefix tag ''v''"
    and "rx_match gitCommitSHAPattern commit" "rx_match sha256HexPattern (sha (pa_archiveBytes packed))" "rfc now = Some t"
  shows "log' = log @ seed_requests c res packed \<and>
    GitHub_Fetch sha rfc now api module tag =
      Inr \<lparr>fr_Archive = pa_archiveBytes packed, fr_Manifest = pa_manifestBytes packed, fr_Metadata =
        \<lparr>ArchiveSHA256 = sha (pa_archiveBytes packed), GitSHA = ToLower commit, ResolvedFrom = ResolvedFromGitHubRelease, ResolvedAt = now\<rparr>\<rparr>"
proof -
  note names = packed_names[OF assms(2)]
  then have ne: "pa_archiveName packed \<noteq> []" "pa_manifestName packed \<noteq> []"
    by (auto simp: HasSuffix_iff ArchiveExtension_def PkgManifestFilename_def)
  have "seed_packed c owner repo tag packed (pa_archiveBytes packed) (pa_manifestBytes packed) (w, log) = (Inr res, w', log')"
    using assms(1,2) unfolding SeedPackageRelease_def by (auto elim!: with_packed_Some)
  from seedReleaseAssets_log[OF this[unfolded seed_packed_def] ne assms(3)]
  have S: "sr_Repo res = repo" "sr_Tag res = tag" "sr_ArchiveBytes res = Some (pa_archiveBytes packed)"
    "sr_ManifestBytes res = Some (pa_manifestBytes packed)" "log' = log @ seed_requests c res packed" by (simp_all add: seed_requests_def)
  have "rx_match gitCommitSHAPattern (ToLower commit)"
    using assms(7) unfolding rx_match_iff gitCommitSHAPattern_def
    by (auto simp: ToLower_def lower_char_def is_hex_def is_digit_def is_upper_def byte_of_def simp del: RRep.simps)
  then have "metadata_Validate rfc (mk_metadata sha (pa_archiveBytes packed) (ToLower commit) ResolvedFromGitHubRelease now) = Inr ()"
    using assms(8,9) by (simp add: metadata_Validate_def mk_metadata_def)
  then show ?thesis
    using GitHub_Fetch_served[OF assms(4), of module sha rfc now] names assms(5-7) S by (simp add: checked_result_def mk_metadata_def)
qed

lemma seeded_release_fetched_demo:
  "GitHub_Fetch demo_sha (\<lambda>s. Some s) ''t'' seed_api ''github.com/admin/r'' ''v1'' =
     Inr \<lparr>fr_Archive = ''A'', fr_Manifest = ''h'' @ [CHR 0x0A], fr_Metadata =
       \<lparr>ArchiveSHA256 = demo_sha ''A'', GitSHA = replicate 40 (CHR ''a''), ResolvedFrom = ''github-release'', ResolvedAt = ''t''\<rparr>\<rparr>"
proof -
  let ?res = "\<lparr>sr_Owner = ''admin'', sr_Repo = ''r'', sr_Tag = ''v1'', sr_ReleaseID = 5, sr_ArchiveAssetID = 1, sr_ManifestAssetID = 2,
    sr_ArchiveBytes = Some ''A'', sr_ManifestBytes = Some (''h'' @ [CHR 0x0A])\<rparr>"
  have "map_option (map_prod id fst) (map_option (\<lambda>(r, st, d). (r, fst st, d)) (SeedPackageRelease echo_client seed_pe [] ''r'' ''v1'' ''/p'' ((), []) [])) =
      Some (Inr ?res, ())" by code_simp
  then obtain log' d' where run: "SeedPackageRelease echo_client seed_pe [] ''r'' ''v1'' ''/p'' ((), []) [] = Some (Inr ?res, ((), log'), d')"
    by auto
  moreover from run have "d' = []" using seed_demo_packed unfolding SeedPackageRelease_def by (auto elim!: with_packed_Some)
  moreover have "serves seed_api ?res seed_packed_demo (replicate 40 (CHR ''a''))"
    unfolding serves_def
    by (intro conjI exI[of _ "''rel''"] exI[of _ "the (api_decodeRelease seed_api ''rel'')"] exI[of _ "''ref''"]) code_simp+
  moreover have "githubRepoForModule ''github.com/admin/r'' = Inr (''admin'', ''r'')" "HasPrefix ''v1'' ''v''"
    "rx_match gitCommitSHAPattern (replicate 40 (CHR ''a''))" "rx_match sha256HexPattern (demo_sha ''A'')"
    "ToLower (replicate 40 (CHR ''a'')) = replicate 40 (CHR ''a'')" by code_simp+
  ultimately show ?thesis
    using seeded_release_fetched[OF run[unfolded \<open>d' = []\<close>] seed_demo_packed, of seed_api "replicate 40 (CHR ''a'')" "''github.com/admin/r''" demo_sha "\<lambda>s. Some s" "''t''" "''t''"]
    by (simp add: echo_client_def seed_packed_demo_def ResolvedFromGitHubRelease_def)
qed

lemma mutateHexString_differs: "val \<noteq> [] \<Longrightarrow> mutateHexString val \<noteq> val \<and> length (mutateHexString val) = length val"
  by (auto simp: mutateHexString_def split: list.splits)

text \<open>The JSON object of a manifest: its field \<open>sha256\<close> is the hash of the package, and writing another hash there changes
  nothing else of the package.\<close>

definition manifest_object :: "'sig codec \<Rightarrow> 'sig pack_env \<Rightarrow> bytes \<Rightarrow> 'sig Package \<Rightarrow> bool" where
  "manifest_object co pe b pkg \<longleftrightarrow>
     co_decode co b = Inr pkg \<and>
     (\<exists>m. pk_decodeMap pe b = Inr m \<and> map_of m ''sha256'' = Some (AStr (pk_SHA256 pkg)) \<and>
       (\<forall>x b'. pk_encodeMap pe (AList.update ''sha256'' (AStr x) m) = Inr b' \<longrightarrow> co_decode co (b' @ [CHR 0x0A]) = Inr (pkg\<lparr>pk_SHA256 := x\<rparr>)))"

lemma tamperManifestSHA_decode:
  assumes "manifest_object co pe b pkg" "tamperManifestSHA pe b = Inr b'"
  shows "pk_SHA256 pkg \<noteq> [] \<and> co_decode co b' = Inr (pkg\<lparr>pk_SHA256 := mutateHexString (pk_SHA256 pkg)\<rparr>)"
  using assms by (auto simp: manifest_object_def tamperManifestSHA_def split: list.splits sum.splits go_any.splits)

text \<open>
  A release seeded with a mismatched hash is refused for its hash: its archive is the packed one, its manifest differs, and
  loading them fails with the two hashes, while the packed manifest has the hash of the archive.
\<close>

lemma mismatched_release_refused:
  assumes "SeedMismatchedHashRelease c pe owner repo tag pkgDir (w, log) d = Some (Inr res, (w', log'), d')"
    and "packReleaseAssets pe pkgDir d = Some (Inr packed, d')" "sc_NewRequest c (requestURL c ''/user/repos'') = None"
    and "manifest_object co pe (pa_manifestBytes packed) pkg" "pk_SHA256 pkg = co_sha co (pa_archiveBytes packed)"
    and "map_of disk archivePath = sr_ArchiveBytes res" "map_of disk manifestPath = sr_ManifestBytes res"
  shows "sr_ArchiveBytes res = Some (pa_archiveBytes packed) \<and> sr_ManifestBytes res \<noteq> Some (pa_manifestBytes packed) \<and>
    LoadArchive co tx disk archivePath manifestPath =
      Some (Inl (SHAMismatch (mutateHexString (co_sha co (pa_archiveBytes packed))) (co_sha co (pa_archiveBytes packed))))"
proof -
  let ?h = "co_sha co (pa_archiveBytes packed)"
  note names = packed_names[OF assms(2)]
  then have ne: "pa_archiveName packed \<noteq> []" "pa_manifestName packed \<noteq> []"
    by (auto simp: HasSuffix_iff ArchiveExtension_def PkgManifestFilename_def)
  obtain tampered where T: "tamperManifestSHA pe (pa_manifestBytes packed) = Inr tampered"
    "seed_packed c owner repo tag packed (pa_archiveBytes packed) tampered (w, log) = (Inr res, w', log')"
    using assms(1,2) unfolding SeedMismatchedHashRelease_def by (auto elim!: with_packed_Some split: sum.splits)
  from seedReleaseAssets_log[OF T(2)[unfolded seed_packed_def] ne assms(3)]
  have S: "sr_ArchiveBytes res = Some (pa_archiveBytes packed)" "sr_ManifestBytes res = Some tampered" by simp_all
  have D: "?h \<noteq> []" "co_decode co tampered = Inr (pkg\<lparr>pk_SHA256 := mutateHexString ?h\<rparr>)"
    using tamperManifestSHA_decode[OF assms(4) T(1)] assms(5) by simp_all
  note M = mutateHexString_differs[OF D(1)]
  have "tampered \<noteq> pa_manifestBytes packed"
  proof
    assume "tampered = pa_manifestBytes packed"
    then have "pkg = pkg\<lparr>pk_SHA256 := mutateHexString ?h\<rparr>" using D(2) assms(4) by (simp add: manifest_object_def)
    from arg_cong[OF this, of pk_SHA256] show False using M assms(5) by simp
  qed
  moreover have "mutateHexString ?h \<noteq> []" using M D(1) by (metis length_0_conv)
  ultimately show ?thesis using S D(2) M assms(6,7) by (simp add: LoadArchive_def verify_archive_def)
qed

lemma mismatched_release_demo:
  "LoadArchive seed_codec demo_extract [(''a'', ''A''), (''m'', ''0'' @ [CHR 0x0A])] ''a'' ''m'' = Some (Inl (SHAMismatch ''0'' ''h''))"
proof -
  let ?res = "\<lparr>sr_Owner = ''admin'', sr_Repo = ''r'', sr_Tag = ''v1'', sr_ReleaseID = 5, sr_ArchiveAssetID = 1, sr_ManifestAssetID = 2,
    sr_ArchiveBytes = Some ''A'', sr_ManifestBytes = Some (''0'' @ [CHR 0x0A])\<rparr>"
  let ?pkg = "(demo_pkg ''tools/calc.add.ts'')\<lparr>pk_SHA256 := ''h''\<rparr>"
  have "map_option fst (SeedMismatchedHashRelease echo_client seed_pe [] ''r'' ''v1'' ''/p'' ((), []) []) = Some (Inr ?res)" by code_simp
  then obtain w log' d' where run: "SeedMismatchedHashRelease echo_client seed_pe [] ''r'' ''v1'' ''/p'' ((), []) [] = Some (Inr ?res, (w, log'), d')"
    by auto
  then have d: "d' = []" using seed_demo_packed unfolding SeedMismatchedHashRelease_def by (auto elim!: with_packed_Some)
  have obj: "manifest_object seed_codec seed_pe (pa_manifestBytes seed_packed_demo) ?pkg"
    by (simp add: manifest_object_def seed_codec_def seed_pe_def seed_packed_demo_def)
  show ?thesis
    using mismatched_release_refused[OF run[unfolded d] seed_demo_packed _ obj, of "[(''a'', ''A''), (''m'', ''0'' @ [CHR 0x0A])]" "''a''" "''m''" demo_extract]
    by (simp add: echo_client_def seed_codec_def seed_packed_demo_def mutateHexString_def)
qed

end
