(* ===== verification/Emulate_Server.thy ===== *)
theory Emulate_Server
  imports Go_Strings
begin

text \<open>
  The process of the GitHub emulator (\<open>registry/testutil/emulatetest/emulatetest.go\<close>): it is started once for all tests, polled until
  it answers, and killed at the end.  Times are in milliseconds.  Parameters (\<open>start_env\<close>): the search for the
  program, the free port, the start of the process, for each round of the loop the time, whether the process has
  ended, and what the request gave, and whether the process ends within the two seconds that \<open>waitForExit\<close> gives it after a kill.
  The program only sends a kill to the process of npx, ignores an error of it, and may give up waiting: so the
  model records the kills that were sent and the exits that were seen, not which processes of the
  operating system are alive (npx has children of its own).
\<close>

section \<open>Starting\<close>

definition startupTimeout :: int where "startupTimeout = 30000"
definition startupPollInterval :: int where "startupPollInterval = 200"
definition testToken :: string where "testToken = ''ghp_test123''"

record Server =
  es_baseURL :: string
  es_port :: int
  es_token :: string

datatype lookup = Found string | ErrNotFound | LookupError string

text \<open>A round of the loop: \<open>po_exit\<close> is the end of the process, with its error if it has one; \<open>po_get\<close> the status of the answer.\<close>

record poll =
  po_now :: int
  po_exit :: "string option option"
  po_get :: "string + int"

datatype start_result = StartOk | StartNotFound | StartError string

record start_env =
  se_lookPath :: lookup
  se_listen :: "string + int option"
  se_start :: "string \<Rightarrow> string list \<Rightarrow> start_result"
  se_started :: int
  se_polls :: "nat \<Rightarrow> poll"
  se_output :: "string option"
  se_ends :: bool

definition capturedOutput :: "string option \<Rightarrow> string" where
  "capturedOutput buf =
     (case buf of
        None \<Rightarrow> ''<no emulate output captured>''
      | Some s \<Rightarrow> let t = TrimSpace s in if t = [] then ''<no emulate output captured>'' else t)"

text \<open>The address of a listener is \<open>None\<close> when it is not a TCP address.\<close>

definition freePort :: "string + int option \<Rightarrow> string + int" where
  "freePort listen =
     (case listen of
        Inl err \<Rightarrow> Inl err
      | Inr None \<Rightarrow> Inl ''unexpected listener addr type''
      | Inr (Some port) \<Rightarrow> Inr port)"

datatype poll_end = Ready | ExitedEarly "string option" | TimedOut "string option"

partial_function (option) poll_loop :: "(nat \<Rightarrow> poll) \<Rightarrow> int \<Rightarrow> string \<Rightarrow> nat \<Rightarrow> string option \<Rightarrow> (nat \<times> poll_end) option" where
  [code]: "poll_loop polls deadline url i lastErr =
     (if \<not> po_now (polls i) < deadline then Some (i, TimedOut lastErr)
      else case po_exit (polls i) of
          Some err \<Rightarrow> Some (i, ExitedEarly err)
        | None \<Rightarrow>
            (case po_get (polls i) of
               Inr status \<Rightarrow>
                 if status = 200 then Some (i, Ready)
                 else poll_loop polls deadline url (Suc i) (Some (''GET '' @ url @ '' returned '' @ itoa status))
             | Inl err \<Rightarrow> poll_loop polls deadline url (Suc i) (Some err)))"

text \<open>What the start gives, and what the program has done to the process: whether it was started, the kills sent
  to it, and whether its exit was received from \<open>waitCh\<close>.\<close>

datatype start_outcome = Started Server | Skip string | StartFailed string

record process =
  pc_started :: bool
  pc_kills :: nat
  pc_exit_seen :: bool

definition not_started :: process where
  "not_started = \<lparr>pc_started = False, pc_kills = 0, pc_exit_seen = False\<rparr>"

definition running :: process where
  "running = \<lparr>pc_started = True, pc_kills = 0, pc_exit_seen = False\<rparr>"

text \<open>A process that was not started (\<open>cmd.Process = nil\<close>, \<open>waitCh = nil\<close>) is left alone.\<close>

definition killProcess :: "process \<Rightarrow> process" where
  "killProcess p = (if pc_started p then p\<lparr>pc_kills := Suc (pc_kills p)\<rparr> else p)"

definition waitForExit :: "bool \<Rightarrow> process \<Rightarrow> process" where
  "waitForExit ends p = (if pc_started p \<and> ends then p\<lparr>pc_exit_seen := True\<rparr> else p)"

definition emulator_args :: "int \<Rightarrow> string list" where
  "emulator_args port = [''emulate'', ''start'', ''--service'', ''github'', ''--port'', itoa port]"

definition with_output :: "string option \<Rightarrow> string" where
  "with_output buf = [CHR 0x0A] @ ''stderr:'' @ [CHR 0x0A] @ capturedOutput buf"

definition startServer :: "start_env \<Rightarrow> (start_outcome \<times> process) option" where
  "startServer env =
     (case se_lookPath env of
        ErrNotFound \<Rightarrow> Some (Skip ''emulatetest: npx not available'', not_started)
      | LookupError err \<Rightarrow> Some (StartFailed (''locate npx: '' @ err), not_started)
      | Found npxPath \<Rightarrow>
          (case freePort (se_listen env) of
             Inl err \<Rightarrow> Some (StartFailed (''reserve free port: '' @ err), not_started)
           | Inr port \<Rightarrow>
               let baseURL = ''http://127.0.0.1:'' @ itoa port; output = with_output (se_output env) in
               (case se_start env npxPath (emulator_args port) of
                  StartNotFound \<Rightarrow> Some (Skip ''emulatetest: npx not available'', not_started)
                | StartError err \<Rightarrow> Some (StartFailed (''start emulate: '' @ err @ output), not_started)
                | StartOk \<Rightarrow>
                    map_option (\<lambda>(_, e). case e of
                        Ready \<Rightarrow> (Started \<lparr>es_baseURL = baseURL, es_port = port, es_token = testToken\<rparr>, running)
                      | ExitedEarly err \<Rightarrow>
                          (StartFailed (''emulate exited before readiness: '' @
                             (case err of None \<Rightarrow> ''process exited before readiness'' | Some m \<Rightarrow> m) @ output), running\<lparr>pc_exit_seen := True\<rparr>)
                      | TimedOut lastErr \<Rightarrow>
                          (StartFailed (''startup timeout after 30s waiting for '' @ baseURL @ ''/rate_limit'' @ (case lastErr of None \<Rightarrow> [] | Some m \<Rightarrow> '': '' @ m) @ output),
                           waitForExit (se_ends env) (killProcess running)))
                      (poll_loop (se_polls env) (se_started env + startupTimeout) (baseURL @ ''/rate_limit'') 0 None))))"

section \<open>One server for all tests\<close>

record shared =
  sh_startOnce :: bool
  sh_shutdownOnce :: bool
  sh_outcome :: "start_outcome option"
  sh_process :: process

definition no_server :: shared where
  "no_server = \<lparr>sh_startOnce = False, sh_shutdownOnce = False, sh_outcome = None, sh_process = not_started\<rparr>"

text \<open>\<open>None\<close> is a start that does not return.  The answer is the server, or the test is skipped or fails.\<close>

definition Start :: "start_env \<Rightarrow> shared \<Rightarrow> (start_outcome option \<times> shared) option" where
  "Start env sh =
     map_option (\<lambda>sh'. (sh_outcome sh', sh'))
       (if sh_startOnce sh then Some sh
        else map_option (\<lambda>(r, p). sh\<lparr>sh_startOnce := True, sh_outcome := Some r, sh_process := p\<rparr>) (startServer env))"

text \<open>The argument says whether the process ends in time.\<close>

definition shutdownSharedServer :: "bool \<Rightarrow> shared \<Rightarrow> shared" where
  "shutdownSharedServer ends sh =
     (if sh_shutdownOnce sh then sh
      else let sh' = sh\<lparr>sh_shutdownOnce := True\<rparr> in
        case sh_outcome sh of
          Some (Started _) \<Rightarrow> sh'\<lparr>sh_process := waitForExit ends (killProcess (sh_process sh))\<rparr>
        | _ \<Rightarrow> sh')"

section \<open>Authorised requests\<close>

type_synonym header = "(string, string list) gomap"

definition header_Get :: "string \<Rightarrow> header \<Rightarrow> string" where
  "header_Get key h = (case map_of h key of Some (v # _) \<Rightarrow> v | _ \<Rightarrow> [])"

definition header_Set :: "string \<Rightarrow> string \<Rightarrow> header \<Rightarrow> header" where
  "header_Set key val h = AList.update key [val] h"

text \<open>The request is cloned before its header is changed.\<close>

definition RoundTrip :: "string \<Rightarrow> (header \<Rightarrow> 'r) \<Rightarrow> header \<Rightarrow> 'r \<times> header" where
  "RoundTrip token base hdr =
     (let clone = (if header_Get ''Authorization'' hdr = [] then header_Set ''Authorization'' (''token '' @ token) hdr else hdr)
      in (base clone, hdr))"

section \<open>The start ends\<close>

definition undecided :: "int \<Rightarrow> poll \<Rightarrow> bool" where
  "undecided deadline p = (po_now p < deadline \<and> po_exit p = None \<and> po_get p \<noteq> Inr 200)"

definition ends_with :: "int \<Rightarrow> poll \<Rightarrow> poll_end \<Rightarrow> bool" where
  "ends_with deadline p e =
     (case e of
        Ready \<Rightarrow> po_now p < deadline \<and> po_exit p = None \<and> po_get p = Inr 200
      | ExitedEarly err \<Rightarrow> po_now p < deadline \<and> po_exit p = Some err
      | TimedOut _ \<Rightarrow> \<not> po_now p < deadline)"

text \<open>The loop ends at the first round that decides it.\<close>

lemma poll_loop_first:
  assumes "\<not> undecided deadline (polls (i + n))" "\<forall>k<n. undecided deadline (polls (i + k))"
  shows "\<exists>e. poll_loop polls deadline url i lastErr = Some (i + n, e) \<and> ends_with deadline (polls (i + n)) e"
  using assms
proof (induction n arbitrary: i lastErr)
  case 0
  then show ?case
    by (subst poll_loop.simps) (auto simp: undecided_def ends_with_def split: option.splits sum.splits)
next
  case (Suc n)
  have u: "undecided deadline (polls i)" using Suc.prems(2) by (metis add_0_right zero_less_Suc)
  have "\<exists>e. poll_loop polls deadline url (Suc i) l = Some (Suc i + n, e) \<and> ends_with deadline (polls (Suc i + n)) e" for l
    using Suc.prems by (intro Suc.IH) (auto simp: less_Suc_eq_0_disj)
  then show ?case
    using u by (subst poll_loop.simps) (auto simp: undecided_def split: option.splits sum.splits)
qed

lemma rounds_advance:
  assumes "\<forall>i. po_now (polls i) + startupPollInterval \<le> po_now (polls (Suc i))"
  shows "po_now (polls 0) + 200 * int n \<le> po_now (polls n)"
proof (induction n)
  case (Suc n)
  then show ?case using assms[rule_format, of n] by (simp add: startupPollInterval_def)
qed simp

text \<open>Rounds after the deciding one are never looked at.\<close>

lemma poll_loop_cong:
  assumes "\<not> undecided deadline (polls (i + n))" "\<forall>k<n. undecided deadline (polls (i + k))" "\<forall>k\<le>n. polls' (i + k) = polls (i + k)"
  shows "poll_loop polls' deadline url i lastErr = poll_loop polls deadline url i lastErr"
  using assms
proof (induction n arbitrary: i lastErr)
  case 0
  then show ?case
    by (subst (1 2) poll_loop.simps) (auto simp: undecided_def split: option.splits sum.splits)
next
  case (Suc n)
  have "polls' i = polls i" using Suc.prems(3) by (metis add_0_right zero_le)
  moreover have "poll_loop polls' deadline url (Suc i) l = poll_loop polls deadline url (Suc i) l" for l
    using Suc.prems(1) Suc.prems(2)[rule_format, of "Suc _"] Suc.prems(3)[rule_format, of "Suc _"] by (intro Suc.IH) simp_all
  ultimately show ?case by (subst (1 2) poll_loop.simps) (simp split: option.splits sum.splits)
qed

text \<open>The process could be started, at a port.\<close>

definition launched :: "start_env \<Rightarrow> int \<Rightarrow> bool" where
  "launched env port = (\<exists>npx. se_lookPath env = Found npx \<and> se_listen env = Inr (Some port) \<and> se_start env npx (emulator_args port) = StartOk)"

definition deadline_of :: "start_env \<Rightarrow> int" where
  "deadline_of env = se_started env + startupTimeout"

text \<open>The first round that decides, and what the start gives for it.\<close>

definition deciding :: "start_env \<Rightarrow> nat \<Rightarrow> bool" where
  "deciding env j = (\<not> undecided (deadline_of env) (se_polls env j) \<and> (\<forall>k<j. undecided (deadline_of env) (se_polls env k)))"

definition decided :: "start_env \<Rightarrow> int \<Rightarrow> poll \<Rightarrow> start_outcome \<Rightarrow> process \<Rightarrow> bool" where
  "decided env port p r pr \<longleftrightarrow>
     (if \<not> po_now p < deadline_of env then (\<exists>m. r = StartFailed m) \<and> pr = \<lparr>pc_started = True, pc_kills = 1, pc_exit_seen = se_ends env\<rparr>
      else if po_exit p \<noteq> None then (\<exists>m. r = StartFailed m) \<and> pr = \<lparr>pc_started = True, pc_kills = 0, pc_exit_seen = True\<rparr>
      else r = Started \<lparr>es_baseURL = ''http://127.0.0.1:'' @ itoa port, es_port = port, es_token = testToken\<rparr> \<and>
        pr = \<lparr>pc_started = True, pc_kills = 0, pc_exit_seen = False\<rparr>)"

lemma freePort_Inr: "freePort l = Inr port \<longleftrightarrow> l = Inr (Some port)"
  by (auto simp: freePort_def split: sum.splits option.splits)

lemma not_launched:
  assumes "\<nexists>port. launched env port"
  shows "\<exists>r. startServer env = Some (r, not_started) \<and> (\<forall>s. r \<noteq> Started s)"
proof (cases "se_lookPath env")
  case (Found npx)
  show ?thesis
  proof (cases "freePort (se_listen env)")
    case (Inr port)
    then have "se_start env npx (emulator_args port) \<noteq> StartOk" using assms Found by (auto simp: launched_def freePort_Inr)
    then show ?thesis using Found Inr by (cases "se_start env npx (emulator_args port)") (simp_all add: startServer_def)
  qed (simp add: startServer_def Found)
qed (simp_all add: startServer_def)

lemma first_decides:
  assumes "\<forall>i. po_now (se_polls env i) + startupPollInterval \<le> po_now (se_polls env (Suc i))" "se_started env \<le> po_now (se_polls env 0)"
  obtains j where "j \<le> 150" "deciding env j"
proof -
  let ?u = "\<lambda>k. undecided (deadline_of env) (se_polls env k)"
  have "\<not> ?u 150"
    using rounds_advance[OF assms(1), of 150] assms(2) by (simp add: undecided_def deadline_of_def startupTimeout_def)
  then show thesis
    using that[of "LEAST k. \<not> ?u k"] LeastI[of "\<lambda>k. \<not> ?u k" 150] Least_le[of "\<lambda>k. \<not> ?u k" 150] not_less_Least[of _ "\<lambda>k. \<not> ?u k"]
    unfolding deciding_def by blast
qed

lemma launched_decided:
  assumes "launched env port" "deciding env j"
  shows "\<exists>r p. startServer env = Some (r, p) \<and> decided env port (se_polls env j) r p"
proof -
  let ?url = "(''http://127.0.0.1:'' @ itoa port) @ ''/rate_limit''"
  obtain npx where c: "se_lookPath env = Found npx" "freePort (se_listen env) = Inr port" "se_start env npx (emulator_args port) = StartOk"
    using assms(1) by (auto simp: launched_def freePort_Inr)
  obtain e where e: "poll_loop (se_polls env) (deadline_of env) ?url 0 None = Some (j, e)" "ends_with (deadline_of env) (se_polls env j) e"
    using poll_loop_first[of "deadline_of env" "se_polls env" 0 j ?url None] assms(2) by (auto simp: deciding_def)
  then show ?thesis
    using c by (cases e) (auto simp: startServer_def Let_def ends_with_def decided_def running_def killProcess_def waitForExit_def
      simp flip: deadline_of_def)
qed

lemma startServer_cong:
  assumes "deciding env j" "\<forall>k\<le>j. polls' k = se_polls env k"
  shows "startServer (env\<lparr>se_polls := polls'\<rparr>) = startServer env"
proof -
  have "poll_loop polls' (deadline_of env) url 0 None = poll_loop (se_polls env) (deadline_of env) url 0 None" for url
    using poll_loop_cong[of "deadline_of env" "se_polls env" 0 j polls'] assms by (simp add: deciding_def)
  then show ?thesis by (simp add: startServer_def deadline_of_def Let_def split: lookup.splits sum.splits start_result.splits)
qed

text \<open>
  C40. Starting the emulator ends: if every round of the loop takes at least the poll interval, the start returns after looking at
  the rounds up to some \<open>j \<le> 150\<close> only, whatever its outcome.  If the process cannot be launched, no server is handed
  out and nothing is killed.  If it is launched, round \<open>j\<close> is the first that decides: before the deadline and
  with the answer 200 the server of that port is handed out, so a server is handed out exactly then; with an
  exit before the deadline the start fails, having seen the exit; at the deadline it fails after it has sent one kill, and has seen the exit if the
  process ended in time.  Whatever the first call gave, every later one gives the same.  The shutdown
  sends one kill to the process of a server that was handed out, and none otherwise, however often it is called.
\<close>

theorem startup_bounded:
  assumes "\<forall>i. po_now (se_polls env i) + startupPollInterval \<le> po_now (se_polls env (Suc i))" "se_started env \<le> po_now (se_polls env 0)"
  shows "\<exists>r p sh j. startServer env = Some (r, p) \<and> j \<le> 150 \<and>
    (\<forall>polls'. (\<forall>k\<le>j. polls' k = se_polls env k) \<longrightarrow> startServer (env\<lparr>se_polls := polls'\<rparr>) = Some (r, p)) \<and>
    ((\<nexists>port. launched env port) \<longrightarrow> p = not_started \<and> (\<forall>s. r \<noteq> Started s)) \<and>
    (\<forall>port. launched env port \<longrightarrow> deciding env j \<and> decided env port (se_polls env j) r p \<and>
      ((\<exists>s. r = Started s) \<longleftrightarrow> po_now (se_polls env j) < deadline_of env \<and> po_exit (se_polls env j) = None \<and> po_get (se_polls env j) = Inr 200)) \<and>
    Start env no_server = Some (Some r, sh) \<and> (\<forall>env'. Start env' sh = Some (Some r, sh)) \<and> sh_process sh = p \<and>
    (\<forall>ends ends'. shutdownSharedServer ends' (shutdownSharedServer ends sh) = shutdownSharedServer ends sh \<and>
      sh_process (shutdownSharedServer ends sh) =
        (if \<exists>s. r = Started s then \<lparr>pc_started = True, pc_kills = 1, pc_exit_seen = ends\<rparr> else p))"
proof -
  from first_decides[OF assms] obtain j where j: "j \<le> 150" "deciding env j" .
  obtain r p where S: "startServer env = Some (r, p)" "(\<nexists>port. launched env port) \<longrightarrow> p = not_started \<and> (\<forall>s. r \<noteq> Started s)"
    "\<forall>port. launched env port \<longrightarrow> decided env port (se_polls env j) r p"
  proof (cases "\<exists>port. launched env port")
    case True
    then obtain port where port: "launched env port" by blast
    then have "port' = port" if "launched env port'" for port' using that by (auto simp: launched_def)
    then show thesis using launched_decided[OF port j(2)] that True by blast
  next
    case False
    then show thesis using not_launched[of env] that by blast
  qed
  have R: "(\<exists>s. r = Started s) \<longleftrightarrow> po_now (se_polls env j) < deadline_of env \<and> po_exit (se_polls env j) = None \<and> po_get (se_polls env j) = Inr 200"
    if "launched env port" for port
    using S(3) that j(2) by (auto simp: decided_def deciding_def undecided_def split: if_splits)
  have K: "p = running" if "\<exists>s. r = Started s" using S(2,3) that by (auto simp: decided_def running_def split: if_splits)
  define sh where "sh = no_server\<lparr>sh_startOnce := True, sh_outcome := Some r, sh_process := p\<rparr>"
  have "Start env no_server = Some (Some r, sh)" using S(1) by (simp add: Start_def sh_def no_server_def)
  moreover have "\<forall>env'. Start env' sh = Some (Some r, sh)" by (simp add: Start_def sh_def)
  moreover have "sh_process (shutdownSharedServer ends sh) =
      (if \<exists>s. r = Started s then \<lparr>pc_started = True, pc_kills = 1, pc_exit_seen = ends\<rparr> else p)" for ends
    using K by (cases r) (auto simp: shutdownSharedServer_def sh_def no_server_def killProcess_def waitForExit_def running_def Let_def)
  moreover have "shutdownSharedServer ends' (shutdownSharedServer ends sh) = shutdownSharedServer ends sh" for ends ends'
    by (simp add: shutdownSharedServer_def Let_def split: option.splits start_outcome.splits)
  moreover have "sh_process sh = p" by (simp add: sh_def)
  ultimately show ?thesis
    using S R j startServer_cong[OF j(2)] by (intro exI[of _ r] exI[of _ p] exI[of _ sh] exI[of _ j] conjI allI impI) simp_all
qed

text \<open>An emulator that answers in the fourth round, and one that never answers.\<close>

definition demo_start :: "nat \<Rightarrow> start_env" where
  "demo_start n = \<lparr>se_lookPath = Found ''/bin/npx'', se_listen = Inr (Some 80), se_start = (\<lambda>p as. StartOk), se_started = 0,
     se_polls = (\<lambda>i. \<lparr>po_now = 250 * int i, po_exit = None, po_get = (if i < n then Inl ''refused'' else Inr 200)\<rparr>), se_output = None,
     se_ends = False\<rparr>"

theorem startup_bounded_witness:
  "map_option fst (startServer (demo_start 3)) = Some (Started \<lparr>es_baseURL = ''http://127.0.0.1:80'', es_port = 80, es_token = ''ghp_test123''\<rparr>) \<and>
   map_option snd (startServer (demo_start 1000)) = Some \<lparr>pc_started = True, pc_kills = 1, pc_exit_seen = False\<rparr>"
proof -
  have H: "\<forall>i. po_now (se_polls (demo_start n) i) + startupPollInterval \<le> po_now (se_polls (demo_start n) (Suc i))"
    "se_started (demo_start n) \<le> po_now (se_polls (demo_start n) 0)" "launched (demo_start n) 80" for n
    by (simp_all add: demo_start_def startupPollInterval_def launched_def)
  have u: "undecided (deadline_of (demo_start n)) (se_polls (demo_start n) i) \<longleftrightarrow> i < n \<and> i < 120" for n i
    by (auto simp: undecided_def demo_start_def deadline_of_def startupTimeout_def)
  have three: "j = 3" if "deciding (demo_start 3) j" for j
    using that u[of 3 j] u[of 3 2] u[of 3 3] by (cases j "3::nat" rule: linorder_cases) (auto simp: deciding_def)
  have last: "j = 120" if "deciding (demo_start 1000) j" for j
    using that u[of 1000 j] u[of 1000 120] by (cases j "120::nat" rule: linorder_cases) (auto simp: deciding_def)
  have 1: "decided (demo_start 3) 80 (se_polls (demo_start 3) 3) r p \<Longrightarrow> r = Started \<lparr>es_baseURL = ''http://127.0.0.1:'' @ itoa 80, es_port = 80, es_token = testToken\<rparr>" for r p
    by (simp add: decided_def demo_start_def deadline_of_def startupTimeout_def)
  have 2: "decided (demo_start 1000) 80 (se_polls (demo_start 1000) 120) r p \<Longrightarrow> p = \<lparr>pc_started = True, pc_kills = 1, pc_exit_seen = False\<rparr>" for r p
    by (simp add: decided_def demo_start_def deadline_of_def startupTimeout_def)
  obtain r p where "startServer (demo_start 3) = Some (r, p)" "decided (demo_start 3) 80 (se_polls (demo_start 3) 3) r p"
    using startup_bounded[OF H(1,2), of 3] three H(3) by (elim exE conjE) (metis (no_types))
  moreover obtain r' p' where "startServer (demo_start 1000) = Some (r', p')" "decided (demo_start 1000) 80 (se_polls (demo_start 1000) 120) r' p'"
    using startup_bounded[OF H(1,2), of 1000] last H(3) by (elim exE conjE) (metis (no_types))
  moreover have "itoa 80 = ''80''" by code_simp
  ultimately show ?thesis using 1 2 by (simp add: testToken_def)
qed

text \<open>A request that carries its own authorisation keeps it, any other gets the token; the caller's header is not changed.\<close>

lemma RoundTrip_authorises:
  "snd (RoundTrip token base hdr) = hdr \<and> (\<exists>h. fst (RoundTrip token base hdr) = base h \<and>
     header_Get ''Authorization'' h = (if header_Get ''Authorization'' hdr = [] then ''token '' @ token else header_Get ''Authorization'' hdr) \<and>
     (\<forall>k. k \<noteq> ''Authorization'' \<longrightarrow> map_of h k = map_of hdr k))"
proof -
  let ?h = "if header_Get ''Authorization'' hdr = [] then header_Set ''Authorization'' (''token '' @ token) hdr else hdr"
  have "header_Get ''Authorization'' (header_Set ''Authorization'' v hdr) = v" for v by (simp add: header_Get_def header_Set_def)
  then show ?thesis by (intro conjI exI[of _ ?h]) (auto simp: RoundTrip_def Let_def header_Set_def)
qed

end
