(* ===== verification/Testutil.thy ===== *)
theory Testutil
  imports Builder
begin

text \<open>
  The helpers of the tests (\<open>testutil\<close>): where the fixtures are, the packages and toolsets built from them, the build of the
  sandbox, and the client that talks to an MCP server in process.  A failing test (\<open>t.Fatalf\<close>) is an error value.  Parameters: the
  path of the source file (\<open>runtime.Caller\<close>), the directories, the libraries of the builder, and the MCP client.
\<close>

datatype test_failure = Fatal string

section \<open>Fixtures\<close>

text \<open>A directory listing: the names and whether each is a directory, in the order of the names.\<close>

record fixture_fs =
  ff_ReadDir :: "string \<Rightarrow> string + (string \<times> bool) list"
  ff_Exists :: "string \<Rightarrow> bool"

text \<open>\<open>runtime.Caller\<close> gives the file, or the helper panics.\<close>

definition caller_dir :: "string \<Rightarrow> string option \<Rightarrow> test_failure + string" where
  "caller_dir label file = (case file of None \<Rightarrow> Inl (Fatal label) | Some f \<Rightarrow> Inr (path_Dir f))"

definition fixturesDir :: "string option \<Rightarrow> test_failure + string" where
  "fixturesDir file = caller_dir ''fixtures: runtime.Caller failed'' file"

definition dirs_with ::
  "fixture_fs \<Rightarrow> string \<Rightarrow> (string \<Rightarrow> bool) \<Rightarrow> string \<Rightarrow> string \<Rightarrow> test_failure + string list" where
  "dirs_with fs label wanted manifest dir =
     (case ff_ReadDir fs dir of
        Inl err \<Rightarrow> Inl (Fatal (label @ err))
      | Inr entries \<Rightarrow>
          Inr (filter (\<lambda>p. ff_Exists fs (path_Join [p, manifest]))
            (map (\<lambda>(name, _). path_Join [dir, name]) (filter (\<lambda>(name, isDir). isDir \<and> wanted name) entries))))"

definition SourceDirs :: "fixture_fs \<Rightarrow> string option \<Rightarrow> test_failure + string list" where
  "SourceDirs fs file =
     result_bind (fixturesDir file) (\<lambda>base.
       dirs_with fs ''fixtures: read toolbox.pkgs dir: '' (\<lambda>_. True) ''toolbox.devpkg.json'' (path_Join [base, ''toolbox.pkgs'']))"

definition DistDirs :: "fixture_fs \<Rightarrow> string option \<Rightarrow> test_failure + string list" where
  "DistDirs fs file =
     result_bind (fixturesDir file) (\<lambda>base.
       dirs_with fs ''fixtures: read testdata/goldens/distpkgs dir: '' (\<lambda>name. HasSuffix name ''-dist'') PkgManifestFilename
         (path_Join [base, ''..'', ''testdata'', ''goldens'', ''distpkgs'']))"

section \<open>Packages and toolsets\<close>

definition tooltest_dir :: "string option \<Rightarrow> string list \<Rightarrow> test_failure + string" where
  "tooltest_dir file parts =
     result_bind (caller_dir ''tooltest: runtime.Caller failed'' file) (\<lambda>dir. Inr (path_Join (dir # ''..'' # parts)))"

definition calcFixtureDir :: "string option \<Rightarrow> test_failure + string" where
  "calcFixtureDir file = tooltest_dir file [''fixtures'', ''toolbox.pkgs'', ''calc'']"

definition edgeCasesFixtureDir :: "string option \<Rightarrow> test_failure + string" where
  "edgeCasesFixtureDir file = tooltest_dir file [''fixtures'', ''toolbox.pkgs'', ''edge-cases'']"

definition sharedTypesFixtureDir :: "string option \<Rightarrow> test_failure + string" where
  "sharedTypesFixtureDir file = tooltest_dir file [''fixtures'', ''toolbox.pkgs'', ''shared-types'']"

definition githubIssuesFixtureDir :: "string option \<Rightarrow> test_failure + string" where
  "githubIssuesFixtureDir file = tooltest_dir file [''fixtures'', ''toolbox.pkgs'', ''github-issues'']"

definition fetchTestFixtureDir :: "string option \<Rightarrow> test_failure + string" where
  "fetchTestFixtureDir file = tooltest_dir file [''fixtures'', ''toolbox.pkgs'', ''fetch-test'']"

definition calcDistFixtureDir :: "string option \<Rightarrow> test_failure + string" where
  "calcDistFixtureDir file = tooltest_dir file [''testdata'', ''goldens'', ''distpkgs'', ''calc-dist'']"

definition vfsTestDistFixtureDir :: "string option \<Rightarrow> test_failure + string" where
  "vfsTestDistFixtureDir file = tooltest_dir file [''testdata'', ''goldens'', ''distpkgs'', ''vfs-test-dist'']"

text \<open>A builder with one package.  A result of \<open>None\<close> is a load that does not return.\<close>

definition dir_builder ::
  "'sig builder_env \<Rightarrow> string \<Rightarrow> test_failure + string \<Rightarrow> (test_failure + 'sig Builder) option" where
  "dir_builder env label dir =
     (case dir of
        Inl f \<Rightarrow> Some (Inl f)
      | Inr d \<Rightarrow> map_option (\<lambda>(r, b). case r of Inl e \<Rightarrow> Inl (Fatal label) | Inr _ \<Rightarrow> Inr b) (AddFromDir env d New))"

definition archive_builder ::
  "'sig builder_env \<Rightarrow> disk \<Rightarrow> string \<Rightarrow> string \<Rightarrow> test_failure + string \<Rightarrow> (test_failure + 'sig Builder) option" where
  "archive_builder env d label archive dir =
     (case dir of
        Inl f \<Rightarrow> Some (Inl f)
      | Inr distDir \<Rightarrow>
          map_option (\<lambda>(r, b). case r of Inl e \<Rightarrow> Inl (Fatal label) | Inr _ \<Rightarrow> Inr b)
            (AddFromArchive env d (path_Join [distDir, archive]) (path_Join [distDir, PkgManifestFilename]) New))"

definition empty_config :: Config where
  "empty_config = \<lparr>cf_Tools = [], cf_ResourceBindings = [], cf_Context = None, cf_Credentials = []\<rparr>"

definition resolve_all ::
  "'p cel_api \<Rightarrow> 'sig builder_env \<Rightarrow> string \<Rightarrow> (test_failure + 'sig Builder) option \<Rightarrow> (test_failure + ('sig, 'p) ResolvedToolset) option" where
  "resolve_all cel env label b =
     map_option (\<lambda>r. result_bind r (\<lambda>builder.
       case builder_Resolve cel env builder empty_config of Inl e \<Rightarrow> Inl (Fatal label) | Inr ts \<Rightarrow> Inr ts)) b"

definition CalcBuilder :: "'sig builder_env \<Rightarrow> string option \<Rightarrow> (test_failure + 'sig Builder) option" where
  "CalcBuilder env file = dir_builder env ''add calc package dir'' (calcFixtureDir file)"

definition EdgeCasesBuilder :: "'sig builder_env \<Rightarrow> string option \<Rightarrow> (test_failure + 'sig Builder) option" where
  "EdgeCasesBuilder env file = dir_builder env ''add edge-cases package dir'' (edgeCasesFixtureDir file)"

definition SharedTypesBuilder :: "'sig builder_env \<Rightarrow> string option \<Rightarrow> (test_failure + 'sig Builder) option" where
  "SharedTypesBuilder env file = dir_builder env ''add shared-types package dir'' (sharedTypesFixtureDir file)"

definition GithubIssuesBuilder :: "'sig builder_env \<Rightarrow> string option \<Rightarrow> (test_failure + 'sig Builder) option" where
  "GithubIssuesBuilder env file = dir_builder env ''add github-issues package dir'' (githubIssuesFixtureDir file)"

definition CalcToolset ::
  "'p cel_api \<Rightarrow> 'sig builder_env \<Rightarrow> string option \<Rightarrow> (test_failure + ('sig, 'p) ResolvedToolset) option" where
  "CalcToolset cel env file = resolve_all cel env ''resolve toolset'' (dir_builder env ''add calc package dir'' (calcFixtureDir file))"

definition FetchTestToolset ::
  "'p cel_api \<Rightarrow> 'sig builder_env \<Rightarrow> string option \<Rightarrow> (test_failure + ('sig, 'p) ResolvedToolset) option" where
  "FetchTestToolset cel env file =
     resolve_all cel env ''resolve fetch-test toolset'' (dir_builder env ''add fetch-test package dir'' (fetchTestFixtureDir file))"

definition CalcDistToolset ::
  "'p cel_api \<Rightarrow> 'sig builder_env \<Rightarrow> disk \<Rightarrow> string option \<Rightarrow> (test_failure + ('sig, 'p) ResolvedToolset) option" where
  "CalcDistToolset cel env d file =
     resolve_all cel env ''resolve toolset'' (archive_builder env d ''add calc-dist archive'' ''calc.toolbox.pkg'' (calcDistFixtureDir file))"

definition VFSTestDistToolset ::
  "'p cel_api \<Rightarrow> 'sig builder_env \<Rightarrow> disk \<Rightarrow> string option \<Rightarrow> (test_failure + ('sig, 'p) ResolvedToolset) option" where
  "VFSTestDistToolset cel env d file =
     resolve_all cel env ''resolve toolset'' (archive_builder env d ''add vfs-test-dist archive'' ''vfs-test.toolbox.pkg'' (vfsTestDistFixtureDir file))"

definition CalcResolvedTool ::
  "'sig builder_env \<Rightarrow> string option \<Rightarrow> string \<Rightarrow> (test_failure + 'sig ResolvedTool) option" where
  "CalcResolvedTool env file name =
     (case calcFixtureDir file of
        Inl f \<Rightarrow> Some (Inl f)
      | Inr dir \<Rightarrow>
          map_option (\<lambda>r. case r of
              Inl e \<Rightarrow> Inl (Fatal ''load calc package'')
            | Inr pkg \<Rightarrow>
                (case find (\<lambda>t. rt_Name t = name) (ResolvedTools (be_contents env) pkg) of
                   None \<Rightarrow> Inl (Fatal (''expected tool '' @ name))
                 | Some tool \<Rightarrow> Inr tool)) (LoadDev env dir))"

definition mustCalcTool :: "'sig builder_env \<Rightarrow> string option \<Rightarrow> string \<Rightarrow> (test_failure + TSToolDef) option" where
  "mustCalcTool env file name =
     map_option (\<lambda>r. result_bind r (\<lambda>tool.
       case rt_TS tool of None \<Rightarrow> Inl (Fatal (''tool '' @ name @ '' has no TS definition'')) | Some def \<Rightarrow> Inr def))
       (CalcResolvedTool env file name)"

definition CalcAdd where "CalcAdd env file = mustCalcTool env file ''calc.add''"
definition CalcSub where "CalcSub env file = mustCalcTool env file ''calc.sub''"
definition CalcAsyncAdd where "CalcAsyncAdd env file = mustCalcTool env file ''calc.asyncAdd''"

section \<open>The sandbox binary\<close>

text \<open>\<open>sync.Once\<close> and its error are package variables; \<open>cargo\<close> is the outcome of the build.\<close>

record build_state =
  bs_once :: bool
  bs_err :: "string option"

definition sandboxCargoPath :: "string option \<Rightarrow> test_failure + string" where
  "sandboxCargoPath file = tooltest_dir file [''..'', ''wasmcli-sandbox'', ''Cargo.toml'']"

text \<open>Where the runtime looks for the sandbox, from the path of its own source file.\<close>

definition resolveHostBinaryPath :: "string option \<Rightarrow> string" where
  "resolveHostBinaryPath file =
     (case file of
        None \<Rightarrow> ''wasmcli-sandbox''
      | Some f \<Rightarrow> path_Clean (path_Join [path_Dir f, ''..'', ''..'', ''wasmcli-sandbox'', ''target'', ''debug'', ''wasmcli-sandbox'']))"

definition EnsureSandboxBinary ::
  "(string \<Rightarrow> bool) \<Rightarrow> (string \<Rightarrow> string option) \<Rightarrow> string option \<Rightarrow> string option \<Rightarrow> build_state \<Rightarrow> (test_failure + unit) \<times> build_state" where
  "EnsureSandboxBinary exists cargo hostFile file s =
     (if exists (resolveHostBinaryPath hostFile) then (Inr (), s)
      else case sandboxCargoPath file of
          Inl f \<Rightarrow> (Inl f, s)
        | Inr cargoManifest \<Rightarrow>
            if \<not> exists cargoManifest then (Inl (Fatal (''wasmcli-sandbox Cargo.toml not found at '' @ cargoManifest)), s)
            else
              let s' = (if bs_once s then s else \<lparr>bs_once = True, bs_err = cargo cargoManifest\<rparr>) in
              (case bs_err s' of
                 Some e \<Rightarrow> (Inl (Fatal (''failed to build wasmcli-sandbox: '' @ e)), s')
               | None \<Rightarrow> (Inr (), s')))"

section \<open>The MCP client\<close>

text \<open>The client in process with the server behind it, as a state \<open>'m\<close>.\<close>

record ('m, 'tool, 'res) mcp_client =
  mc_New :: "string + 'm"
  mc_Start :: "'m \<Rightarrow> string + 'm"
  mc_Initialize :: "string \<Rightarrow> string \<Rightarrow> 'm \<Rightarrow> string + 'm"
  mc_ListTools :: "'m \<Rightarrow> string + 'tool list"
  mc_toolName :: "'tool \<Rightarrow> string"
  mc_CallTool :: "string \<Rightarrow> params \<Rightarrow> 'm \<Rightarrow> (string + 'res) \<times> 'm"

definition fatal :: "string \<Rightarrow> string + 'a \<Rightarrow> test_failure + 'a" where
  "fatal label r = map_sum (\<lambda>e. Fatal (label @ '': '' @ e)) id r"

definition NewHarness :: "('m, 'tool, 'res) mcp_client \<Rightarrow> test_failure + 'm" where
  "NewHarness mc =
     result_bind (fatal ''create in-process client'' (mc_New mc)) (\<lambda>c0.
     result_bind (fatal ''start client'' (mc_Start mc c0)) (\<lambda>c1.
       fatal ''initialize client'' (mc_Initialize mc ''toolbox-mcp-test-client'' ''0.1.0'' c1)))"

definition ListTools :: "('m, 'tool, 'res) mcp_client \<Rightarrow> 'm \<Rightarrow> test_failure + 'tool list" where
  "ListTools mc h = fatal ''list tools'' (mc_ListTools mc h)"

definition ToolNames :: "('m, 'tool, 'res) mcp_client \<Rightarrow> 'm \<Rightarrow> test_failure + string list" where
  "ToolNames mc h = result_bind (ListTools mc h) (\<lambda>tools. Inr (map (mc_toolName mc) tools))"

definition CallTool :: "('m, 'tool, 'res) mcp_client \<Rightarrow> string \<Rightarrow> params \<Rightarrow> 'm \<Rightarrow> (test_failure + 'res) \<times> 'm" where
  "CallTool mc name args h = (case mc_CallTool mc name args h of (r, h') \<Rightarrow> (fatal (''call tool '' @ name) r, h'))"

section \<open>What the helpers give\<close>

text \<open>The toolset of the calculator is the one the builder resolves from its directory alone.\<close>

lemma CalcToolset_eq:
  assumes "calcFixtureDir file = Inr dir" "LoadDev env dir = Some (Inr pkg)"
  shows "CalcToolset cel env file =
    Some (case resolveTools cel (ResolvedTools (be_contents env) pkg) empty_config of Inl e \<Rightarrow> Inl (Fatal ''resolve toolset'') | Inr ts \<Rightarrow> Inr ts)"
  using assms by (simp add: CalcToolset_def resolve_all_def dir_builder_def AddFromDir_def New_def append_pkg_def builder_Resolve_def)

text \<open>The sandbox is built at most once: the outcome of the first build is that of every later call, unless the binary is there.\<close>

lemma sandbox_built_once:
  assumes "EnsureSandboxBinary exists cargo bin file s = (r, s')" "bs_once s'"
  shows "snd (EnsureSandboxBinary exists' cargo' bin file s') = s'"
  using assms by (auto simp: EnsureSandboxBinary_def Let_def split: sum.splits option.splits)

text \<open>A source fixture is a directory of the listing that has a manifest, and every such directory is one.\<close>

lemma SourceDirs_exact:
  assumes "fixturesDir file = Inr base" "ff_ReadDir fs (path_Join [base, ''toolbox.pkgs'']) = Inr entries"
  shows "\<exists>dirs. SourceDirs fs file = Inr dirs \<and>
    (\<forall>p. p \<in> set dirs \<longleftrightarrow> (\<exists>name. (name, True) \<in> set entries \<and> p = path_Join [path_Join [base, ''toolbox.pkgs''], name] \<and>
       ff_Exists fs (path_Join [p, ''toolbox.devpkg.json''])))"
  using assms by (auto simp: SourceDirs_def dirs_with_def)

end
