(* ===== verification/Spec2Isabelle.thy ===== *)
theory Spec2Isabelle
  imports Fqn Versions MemFs_Props Vfs_Server_Props Toolset_Props Invoke Manifest Registry_Props Source_Props Archive_Props Toolset_File_Props
    Secrets_Props Overlay Fetch_Props Declaration_Props Quickts_Props Js_Fetch_Props Cmd_Props Mitmproxy Vfs_Lifecycle Codemode_Mcp
    Archive_Files Test_Secrets Gitfixture Emulate_Props Emulate_Server Testutil
begin

text \<open>
  A verification development for the \<open>toolbox\<close> repository: the Go program that packages, resolves, binds
  and runs tools for agents.  This theory imports the whole library and holds the properties that
  span components.

  \<^bold>\<open>The program.\<close>  A package is a directory of TypeScript tools with a manifest.  It is packed into an archive
  (\<open>packaging/\<close>), published, and fetched again by the registry (\<open>registry/\<close>), which keeps a cache and
  checks hashes against a lock.  A toolset file (\<open>toolsetfile/\<close>) declares packages and versions; resolving
  it gives the tools, and \<open>toolset/\<close> binds their parameters: a binding can fix a value, hide the parameter
  from the agent, or check what the agent sends.  A call (\<open>invoke/\<close>) is validated and runs in the TypeScript
  runtime (\<open>runtime/quickts/\<close>), with a sandboxed process and an in-memory file system served over a socket
  (\<open>vfs/\<close>) for WASM tools, and with \<open>fetch/\<close> for HTTP.  Agents reach the tools through an MCP server
  (\<open>mcpserver/\<close>), or write code against a generated SDK (\<open>codemode/\<close>).  \<open>secrets/\<close> stores credentials,
  \<open>transport/mitmproxy\<close> observes traffic, \<open>cmd/\<close> has the commands.

  \<^bold>\<open>Theories and sources.\<close>  A theory \<open>X_Props\<close> holds the properties of the model in \<open>X\<close>.
  \<^item> \<open>Go_Base\<close>, \<open>Go_Strings\<close>, \<open>Go_Path\<close>, \<open>Go_Regex\<close>: the prelude.  Errors as \<open>'e + 'a\<close>, Go maps as association
    lists whose order stands for the iteration order, \<open>sort.Slice\<close>, the packages \<open>strings\<close>, \<open>path\<close> and the
    used part of \<open>regexp\<close>, UTF-8.
  \<^item> \<open>Machines\<close>: reachability, the locales \<open>invariant\<close>, \<open>counting\<close> and \<open>simulation\<close>.
  \<^item> \<open>Fqn\<close> (\<open>tool/fqn.go\<close>), \<open>Tool\<close> (\<open>tool/tool.go\<close>), \<open>Versions\<close> (\<open>registry/version_list.go\<close>): names, data, versions.
  \<^item> \<open>MemFs\<close>, \<open>MemFs_Tree\<close> (\<open>vfs/memfs.go\<close>), \<open>Vfs_Server\<close> (\<open>vfs/protocol.go\<close>, \<open>vfs/server.go\<close>), \<open>Vfs_Lifecycle\<close>
    (\<open>Serve\<close> and \<open>Close\<close>): the file system, its protocol with handles and framing at machine width,
    and the server's goroutines as interleaved steps.
  \<^item> \<open>Toolset\<close> (\<open>toolset/\<close>), \<open>Invoke\<close> (\<open>invoke/invoke.go\<close>, \<open>runtime/tswasmcli\<close>, \<open>mcpserver\<close>): bindings, validation, dispatch.
  \<^item> \<open>Manifest\<close>, \<open>Source\<close>, \<open>Package_Tree\<close>, \<open>Archive\<close>, \<open>Archive_Files\<close> (open files, tar headers), \<open>Builder\<close> (\<open>packaging/\<close>,
    \<open>toolset/toolset.go\<close>): packages.
  \<^item> \<open>Registry\<close> (\<open>registry/\<close>): sources, cache, resolver, listing.  \<open>Toolset_File\<close> (\<open>toolsetfile/\<close>): the three files.
  \<^item> \<open>Secrets\<close> (\<open>secrets/\<close>), \<open>Overlay\<close> (\<open>fsoverlay\<close>), \<open>Fetch\<close> (\<open>fetch/\<close>, \<open>goFetch\<close>).
  \<^item> \<open>Codemode\<close>, \<open>Declaration\<close> (\<open>codemode/\<close>): the prelude, the SDK and the declaration file.
  \<^item> \<open>Quickts\<close> (\<open>runtime/quickts/quickts.go\<close>), \<open>Js_Fetch\<close> (\<open>runtime/quickts/fetch.go\<close>, its JavaScript included).
  \<^item> \<open>Cmd\<close> (\<open>cmd/toolbox\<close>), \<open>Codemode_Mcp\<close> (\<open>codemodemcp\<close>, \<open>cmd/toolbox-pack\<close>), \<open>Mitmproxy\<close> (\<open>transport/mitmproxy\<close>).
  \<^item> The support of the tests: \<open>Emulate\<close> (\<open>emulatetest/seed.go\<close>) and \<open>Emulate_Server\<close> (\<open>emulatetest/emulatetest.go\<close>) for
    the emulated GitHub, \<open>Gitfixture\<close> (\<open>gitfixture.go\<close>) for its git repositories, \<open>Test_Secrets\<close> (\<open>testutil/secrets.go\<close>) and
    \<open>Testutil\<close> (\<open>testutil/fixtures\<close>, \<open>testutil/tooltest\<close>, \<open>testutil/mcptest\<close>).

  \<^bold>\<open>How state is modelled.\<close>  A struct is a record, a tagged value a datatype, an error an \<open>Inl\<close>.  Operations take and
  return the state they change, also when they fail; the disk is a map from names to bytes and a failing
  write says at which step.  Handles and lengths of the VFS protocol are words of their width.  What a
  program in the JavaScript engine does is a tree of host calls, so that a statement for all programs is one for
  all trees.  The VFS server's goroutines, and the clients that end their connections, are a step relation; one connection is a
  run of \<open>handleConn\<close>, in which any encoding or write may fail.  A connection of the proxy is the list of what it forwards, observes and
  answers, in time.

  \<^bold>\<open>Interfaces.\<close>  Each locale is interpreted on the model's definitions: \<open>package_source\<close> on the GitHub and the git
  source, \<open>call_guard\<close> on \<open>ValidateCall\<close> (used for every way a tool is called), \<open>counting\<close> on the VFS
  server, \<open>invariant\<close> on the life of that server and on the proxy, \<open>simulation\<close> on the secret store and on the JavaScript headers,
  \<open>secret_store\<close> (the contract of the Go interface, which gives \<open>simulation\<close>) on the encrypted store and on that of the tests,
  \<open>host_invariant\<close> on the hosts of both kinds of tools.

  \<^bold>\<open>What is shown.\<close>
  \<^item> Calls: bindings are enforced whatever the map order (\<open>Toolset_Props\<close>), a tool runs only on a permitted call (\<open>Invoke\<close>,
    also from code mode, \<open>Codemode_Props\<close>), and the bound values are the arguments of the code that runs (below).
  \<^item> Isolation: a program has exactly the host functions it is given, a WASM tool starts declared executables only, and imports
    stay in the virtual tree of the package or, for bare imports, in what esbuild finds from its root (\<open>Quickts_Props\<close>); the agent's schemas
    hide what the configuration hides (\<open>Toolset_Props\<close>); a request has no injected header (\<open>Fetch_Props\<close>), and
    the two implementations of headers agree (\<open>Js_Fetch_Props\<close>).
  \<^item> Supply: archives are checked against the lock and a resolved toolset is reproducible (\<open>Registry_Props\<close>,
    \<open>Toolset_File_Props\<close>), packing and loading are inverse (\<open>Archive_Props\<close>), files are written atomically, versions are sorted by
    the precedence of semver (\<open>Versions\<close>, stated independently of the comparison of the code), and an upgrade either changes one
    version or, failing before it is written, nothing (\<open>Cmd_Props\<close>).
  \<^item> File system: whatever is requested, the handles of the server stay valid and no request in range panics; its tree stays well formed
    under the requests that cannot break it, and the connection handler refines the handling of messages up to the first failing
    answer (\<open>Vfs_Server_Props\<close>).  What a rename does is given for every pair of paths whose outcome does not depend on the order of a map
    (\<open>MemFs_Props\<close>).  Shutting down takes a bounded number of steps and ends when the clients have ended their connections
    (\<open>Vfs_Lifecycle\<close>).
  \<^item> Text and data: names, versions and manifests parse as documented; the SDK and the prelude offer the
    agent's tools; the secret store refines a map; overlays, headers, open files of archives and the proxy do what they promise.
  \<^item> Tests: a release is seeded by exactly four requests with what was packed (\<open>Emulate_Props\<close>), the pseudo-version of the test
    repository resolves to its head with its committer date (\<open>Gitfixture\<close>), the two secret stores
    answer alike (\<open>Test_Secrets\<close>), starting the emulator ends after at most 150 polls and hands it out exactly when it answered in time
    (\<open>Emulate_Server\<close>).
  \<^item> Where the code falls short of that, a lemma shows it on a concrete input (for example
    \<open>compareVersions_cycle\<close>, \<open>guest_panics\<close>, \<open>upgrade_kept_on_failure\<close>, \<open>connection_outlives_close\<close>, \<open>close_waits_for_clients\<close>,
    \<open>memfs_orphans\<close>, \<open>rename_order_dependent\<close>, \<open>result_name_collision\<close>, \<open>large_count_panics\<close>).

  \<^bold>\<open>Parameters and hypotheses.\<close>  Code outside the repository is a parameter: CEL, the TypeScript checker and its types,
  esbuild, QuickJS, JSON, msgpack, tar, zstd, SHA-256, age, HTTP, git, the clock, processes and cryptography.  A
  property that needs more than their types names it: that a decoder gives back what the encoder
  was given (\<open>json_law\<close>, \<open>pairs_law\<close>, the hypotheses on \<open>unmarshal\<close> and \<open>fe_decodeLock\<close>), that hashes differ, that
  decoded maps have no repeated key, or that names on disk are apart; each has a witness with concrete functions.

  \<^bold>\<open>Fuel and termination.\<close>  Walking an archive tree has fuel, the longest path plus two, shown to be enough by
  \<open>walk_exact\<close>.  Loading a source package may not return, since the loop over parent directories ends only at the
  current one: its model is a partial function with \<open>None\<close> for that, and \<open>source_dirs_exact\<close> and \<open>absolute_entry_hangs\<close>
  say when it returns and when not.  The loop that waits for the emulator is a partial function too, and \<open>startup_bounded\<close> shows that
  it returns when time passes: each round takes at least 200 ms of the 30 s, so round 150 is the last.  All other loops are total
  functions; \<open>shutdown_completes\<close> bounds the steps of the server, not those of its clients.  The bound of \<open>2 ^ 48\<close> bytes on a file of the
  VFS, and \<open>size_safe\<close> on a request, keep positions within an \<open>int64\<close>.

  \<^bold>\<open>Not modelled.\<close>  Locks inside the file system (operations are atomic steps), the scheduling of the JavaScript engine, its
  built-in objects and its iterator prototypes, the sockets, which processes of the operating system are alive (the model has the kills that
  are sent and the exits that are seen), writes that fail after the file was truncated, failing removals of temporary files (the code
  ignores them), symbolic links in a package, the construction of the CEL environment, the parent-death signal of a test process (\<open>sysproc_linux.go\<close>), the example program of a fixture
  (\<open>http-client/wasm-src\<close>), and methods that only return a field or copy a list.  What is left besides is third-party code, which
  appears as parameters.
\<close>

section \<open>Properties that span components\<close>

text \<open>What a parameter of a tool is given when an agent calls it: the bound value, or what the agent sent.\<close>

definition delivered :: "'p cel_api \<Rightarrow> ('sig, 'p) ResolvedToolset \<Rightarrow> string \<Rightarrow> params \<Rightarrow> string \<Rightarrow> go_any option" where
  "delivered cel r n args p =
     (case injected_value cel r n args p of Some v \<Rightarrow> Some v | None \<Rightarrow> map_of args p)"

definition delivered_arg :: "(go_any \<Rightarrow> string) \<Rightarrow> (string \<Rightarrow> go_any option) \<Rightarrow> nat \<times> 'ty FuncParam \<Rightarrow> string" where
  "delivered_arg marshal value = (\<lambda>(i, p).
     case value (fp_Name p) of
       None \<Rightarrow> ''undefined''
     | Some v \<Rightarrow> ''('' @ marshal v @ '' satisfies Parameters<typeof tool>['' @ itoa (int i) @ ''])'')"

lemma runner_arg_delivered:
  "\<forall>p. map_of full p = value p \<Longrightarrow> (\<lambda>(j, p). runner_arg marshal full j p) = delivered_arg marshal value"
  by (auto simp: runner_arg_def delivered_arg_def fun_eq_iff)

lemma runnerSource_delivered:
  assumes "sig_Params tt sig \<noteq> []" "\<forall>p. map_of full p = value p"
  shows "runnerSource marshal tt entry full (Some sig) =
    import_line entry @ ''const __r = await tool('' @
      Join '', '' (map (delivered_arg marshal value) (enumerate 0 (sig_Params tt sig))) @ '');'' @ line_feed @
      serialize_result @ line_feed"
  using assms(1) unfolding runnerSource_def runner_args_Join runner_arg_delivered[OF assms(2)] by (simp add: Let_def)

text \<open>
  C7. Bound values reach the code of the tool: when a call of an agent gives an output, that output
  is the result of the bundle of a runner which passes the parameters of the tool's signature in their
  order, each with its bound value where the configuration binds one, whatever the agent sent for it,
  with the agent's own value where it does not, and \<open>undefined\<close> where there is neither.
\<close>

theorem bound_values_reach_tool:
  assumes "Run cel run_wasm (ts_engine env tt fetch msg pkg cs) r n args = Inr out"
    "gomap_ok (bindings_at r n)" "gomap_ok args"
    "find (\<lambda>t. rt_Name t = n) (rs_tools r) = Some tool" "rt_TSWasm tool = None"
    "rt_TS tool = Some tdef" "rt_Sig tool = Some sig" "sig_Params tt sig \<noteq> []"
  shows "\<exists>code globals. emit (qe_Build env)
      (withRunner (map_fs (ts_Files tdef)) (import_line (ts_Entry tdef) @ ''const __r = await tool('' @
         Join '', '' (map (delivered_arg (qe_Marshal env) (delivered cel r n args)) (enumerate 0 (sig_Params tt sig))) @ '');'' @
         line_feed @ serialize_result @ line_feed))
      (ts_PackageRoot tdef) = Inr code \<and>
    fst (run_program globals (fetch_host fetch) (qe_Eval env code) ()) = Inr out"
proof -
  from vc.guarded_run[OF assms(1)[unfolded Run_def] assms(2,3)]
  obtain full where full: "run_selected run_wasm (ts_engine env tt fetch msg pkg cs) r n full = Inr out"
    "\<forall>p. map_of full p = delivered cel r n args p"
    unfolding delivered_def by blast
  from run_selected_ok[OF full(1)] assms(4,5)
  have "ts_engine env tt fetch msg pkg cs tool full = Inr out" by auto
  then have "fst (RunWithHost env tt tdef full (fetch_host fetch) (getCheckSession cs pkg) (Some sig) ()) = Inr out"
    using assms(6,7) by (auto simp: ts_engine_def runTSTool_def map_sum_eq_Inr split: prod.splits)
  then obtain session t where "RunWithHost env tt tdef full (fetch_host fetch) (getCheckSession cs pkg) (Some sig) () =
      (Inr out, session, (), t)"
    by (metis (full_types) old.unit.exhaust prod.collapse)
  from RunWithHost_ok[OF this] show ?thesis
    unfolding runnerSource_delivered[OF assms(8) full(2)] by (metis fst_conv)
qed

definition demo_quick :: "unit quick_env" where
  "demo_quick = \<lparr>qe_Check = (\<lambda>files entry s. (Inr [], s)), qe_Build = (\<lambda>opts. Inr [bo_Contents opts]), qe_New = Inr (),
     qe_Bind = (\<lambda>_. Inr ()), qe_Eval = (\<lambda>code. Ended (Inr code)),
     qe_Marshal = (\<lambda>v. case v of AInt i \<Rightarrow> itoa i | _ \<Rightarrow> ''null'')\<rparr>"

definition demo_signature :: "(unit, unit) ts_text" where
  "demo_signature = demo_text\<lparr>sig_Params := (\<lambda>_. [\<lparr>fp_Name = ''account_id'', fp_Type = (), fp_Optional = False, fp_Description = []\<rparr>])\<rparr>"

definition demo_sig_set :: "(unit, string) ResolvedToolset" where
  "demo_sig_set = demo_ts_set\<lparr>rs_tools := map (\<lambda>t. t\<lparr>rt_Sig := Some ()\<rparr>) (rs_tools demo_ts_set)\<rparr>"

theorem bound_values_reach_tool_witness:
  "Run demo_cel demo_engine (ts_engine demo_quick demo_signature (\<lambda>_ _ _ _. Inl []) (\<lambda>_. []) 0 []) demo_sig_set ''t''
      [(''ok'', ABool True), (''account_id'', AInt 7)] =
     Inr (import_line ''t.ts'' @ ''const __r = await tool((42 satisfies Parameters<typeof tool>[0]));'' @ line_feed @
       serialize_result @ line_feed) \<and>
   (\<exists>code globals. fst (run_program globals (fetch_host (\<lambda>_ _ _ _. Inl [])) (qe_Eval demo_quick code) ()) =
     Inr (import_line ''t.ts'' @ ''const __r = await tool((42 satisfies Parameters<typeof tool>[0]));'' @ line_feed @
       serialize_result @ line_feed))"
proof -
  have R: "Run demo_cel demo_engine (ts_engine demo_quick demo_signature (\<lambda>_ _ _ _. Inl []) (\<lambda>_. []) 0 []) demo_sig_set ''t''
      [(''ok'', ABool True), (''account_id'', AInt 7)] =
     Inr (import_line ''t.ts'' @ ''const __r = await tool((42 satisfies Parameters<typeof tool>[0]));'' @ line_feed @
       serialize_result @ line_feed)" by code_simp
  have b: "gomap_ok (bindings_at demo_sig_set ''t'')" "gomap_ok [(''ok'', ABool True), (''account_id'', AInt 7)]"
    by (code_simp, simp add: gomap_ok_def)
  have f: "find (\<lambda>t. rt_Name t = ''t'') (rs_tools demo_sig_set) =
      Some ((demo_tool ''t'')\<lparr>rt_TS := Some \<lparr>ts_Entry = ''t.ts'', ts_Files = [], ts_PackageRoot = []\<rparr>, rt_Sig := Some ()\<rparr>)"
    by code_simp
  have w: "rt_TSWasm ((demo_tool ''t'')\<lparr>rt_TS := Some \<lparr>ts_Entry = ''t.ts'', ts_Files = [], ts_PackageRoot = []\<rparr>, rt_Sig := Some ()\<rparr>) = None"
    by (simp add: demo_tool_def)
  from bound_values_reach_tool[OF R b f w] R show ?thesis
    by (simp add: demo_signature_def) blast
qed

end
